(* ===== verification/Prelude.thy ===== *)
theory Prelude
  imports Main "HOL-Library.Sublist" "HOL-Library.Multiset" "HOL-Library.List_Lexorder" "HOL-Library.Char_ord"
    "HOL-Library.Product_Lexorder"
begin

text \<open>
  What every component of the development shares: the document type of \<open>encoding/json\<close>, the error
  values Go code returns, the state-and-error computations the store is written in, and the lemma
  collections their proofs use.

  A Go \<open>string\<close> is a sequence of bytes; a HOL \<open>string\<close> is a list of \<open>char\<close>, and a
  \<open>char\<close> is a byte, so lengths, prefixes, concatenation and the comparison SQLite uses for
  \<open>ORDER BY\<close> on text agree.  A Go \<open>int\<close> or \<open>int64\<close> is an \<open>int\<close>: every one modelled here counts
  rows, attempts or bytes and stays far below \<open>2 ^ 63\<close>.  A \<open>time.Time\<close> is the number of
  nanoseconds since the zero time, so the zero time is \<open>0\<close>.
\<close>

section \<open>Values\<close>

type_synonym time = int

text \<open>
  A decoded JSON document.  Numbers are kept as integers; an object is its list of members in the
  order they were written.
\<close>

datatype json =
    JNull
  | JBool bool
  | JNum int
  | JStr string
  | JArr "json list"
  | JObj "(string \<times> json) list"

text \<open>
  A \<open>json.RawMessage\<close> or a text column that should hold a document: empty, a document, or
  bytes that do not parse.
\<close>

datatype raw_json = RawEmpty | RawDoc json | RawBad string

section \<open>Errors\<close>

text \<open>
  The \<open>error\<close> values the code can tell apart.  \<open>DbError\<close> is any failure of a statement that is
  not a constraint violation (disk full, locked, corrupt, cancelled).  \<open>Errorf f args e\<close> is
  \<open>fmt.Errorf\<close> with format \<open>f\<close>, the quoted arguments and, for \<open>%w\<close>, the wrapped error.
\<close>

datatype err =
    DbError
  | NoRows
  | ConstraintUnique string
  | ConstraintPrimaryKey string
  | ErrDuplicateRequestID
  | ErrDuplicateEnvelopeID
  | Canceled
  | DeadlineExceeded
  | PathError string
  | NotExist
  | Permission
  | Other string
  | Errorf string "string list" "err option"

text \<open>\<open>errors.Is\<close>: the target is found anywhere along the chain of wrapped errors.\<close>

fun errors_Is :: "err \<Rightarrow> err \<Rightarrow> bool" where
  "errors_Is (Errorf f args w) target =
     (Errorf f args w = target \<or> (case w of None \<Rightarrow> False | Some e \<Rightarrow> errors_Is e target))"
| "errors_Is e target = (e = target)"

text \<open>The innermost error of a chain, which \<open>errors.As\<close> inspects.\<close>

fun root_cause :: "err \<Rightarrow> err" where
  "root_cause (Errorf f args (Some e)) = root_cause e"
| "root_cause e = e"

lemma errors_Is_refl [simp]: "errors_Is e e"
  by (cases e) auto

lemma errors_Is_wrap [simp]: "errors_Is (Errorf f args (Some e)) e"
  by simp

section \<open>Lemma collections\<close>

text \<open>
  \<open>st_simps\<close> unfolds the combinators of a computation; \<open>within_intros\<close> holds one rule per
  combinator for the step relations below.
\<close>

named_theorems st_simps
named_theorems within_intros

section \<open>Lists\<close>

text \<open>\<open>strings.TrimSpace\<close> on ASCII text.\<close>

definition is_space :: "char \<Rightarrow> bool" where
  "is_space c \<longleftrightarrow> c \<in> {CHR '' '', CHR 0x09, CHR 0x0A, CHR 0x0B, CHR 0x0C, CHR 0x0D}"

definition TrimSpace :: "string \<Rightarrow> string" where
  "TrimSpace s = rev (dropWhile is_space (rev (dropWhile is_space s)))"

lemma dropWhile_idem [simp]: "dropWhile P (dropWhile P xs) = dropWhile P xs"
  by (induction xs) auto

lemma TrimSpace_Nil [simp]: "TrimSpace [] = []"
  by (simp add: TrimSpace_def)

lemma dropWhile_rev_dropWhile:
  "dropWhile P (rev (dropWhile P (rev (dropWhile P xs)))) = rev (dropWhile P (rev (dropWhile P xs)))"
proof (cases "dropWhile P xs")
  case Nil
  show ?thesis unfolding Nil by simp
next
  case (Cons y ys)
  then have y: "\<not> P y"
    by (metis dropWhile_eq_Cons_conv)
  from y have "dropWhile P (rev ys @ [y]) = dropWhile P (rev ys) @ [y]"
    by (induction "rev ys" arbitrary: ys) (auto simp: dropWhile_append)
  then show ?thesis unfolding Cons using y by simp
qed

lemma TrimSpace_idem [simp]: "TrimSpace (TrimSpace s) = TrimSpace s"
  by (simp add: TrimSpace_def dropWhile_rev_dropWhile)

text \<open>\<open>LIMIT n\<close> of SQLite: a negative limit is no limit.\<close>

definition sql_limit :: "int \<Rightarrow> 'a list \<Rightarrow> 'a list" where
  "sql_limit n xs = (if n < 0 then xs else take (nat n) xs)"

lemma set_sql_limit: "set (sql_limit n xs) \<subseteq> set xs"
  by (auto simp: sql_limit_def dest: in_set_takeD)

lemma distinct_map_filter_pred: "distinct (map f xs) \<Longrightarrow> distinct (map f (filter P xs))"
  by (induction xs) auto

text \<open>A row with a given key exists.\<close>

lemma list_ex_key: "list_ex (\<lambda>x. f x = k) xs \<longleftrightarrow> k \<in> f ` set xs"
  by (auto simp: list_ex_iff)

lemma find_append_skip: "k \<notin> f ` set xs \<Longrightarrow> find (\<lambda>x. f x = k) (xs @ ys) = find (\<lambda>x. f x = k) ys"
  by (induction xs) auto

lemma find_key_Some:
  assumes "k \<in> f ` set xs"
  obtains x where "find (\<lambda>x. f x = k) xs = Some x" and "x \<in> set xs" and "f x = k"
proof -
  have "\<exists>x. find (\<lambda>x. f x = k) xs = Some x \<and> x \<in> set xs \<and> f x = k"
    using assms by (induction xs) auto
  then show ?thesis using that by blast
qed

lemma find_key_None: "k \<notin> f ` set xs \<Longrightarrow> find (\<lambda>x. f x = k) xs = None"
  by (induction xs) auto

text \<open>An \<open>UPDATE ... WHERE\<close> rewrites the rows that match in place.\<close>

definition update_where :: "('a \<Rightarrow> bool) \<Rightarrow> ('a \<Rightarrow> 'a) \<Rightarrow> 'a list \<Rightarrow> 'a list" where
  "update_where P f xs = map (\<lambda>x. if P x then f x else x) xs"

lemma update_where_Nil [simp]: "update_where P f [] = []"
  by (simp add: update_where_def)

lemma update_where_Cons [simp]:
  "update_where P f (x # xs) = (if P x then f x else x) # update_where P f xs"
  by (simp add: update_where_def)

lemma length_update_where [simp]: "length (update_where P f xs) = length xs"
  by (simp add: update_where_def)

lemma map_update_where:
  assumes "\<And>x. P x \<Longrightarrow> g (f x) = g x"
  shows "map g (update_where P f xs) = map g xs"
  using assms by (auto simp: update_where_def)

lemma set_update_where: "set (update_where P f xs) = f ` {x \<in> set xs. P x} \<union> {x \<in> set xs. \<not> P x}"
  by (auto simp: update_where_def)

lemma update_where_none: "\<forall>x \<in> set xs. \<not> P x \<Longrightarrow> update_where P f xs = xs"
  by (induction xs) auto

lemma filter_update_where:
  assumes "\<And>x. P x \<Longrightarrow> Q (f x) = Q x"
  shows "filter Q (update_where P f xs) = update_where P f (filter Q xs)"
  using assms by (induction xs) auto

lemma update_where_twice:
  assumes "\<And>x. f (f x) = f x"
  shows "update_where P f (update_where Q f xs) = update_where (\<lambda>x. Q x \<or> (P x \<and> \<not> Q x)) f xs"
  using assms by (induction xs) auto

lemma update_where_cong:
  "(\<And>x. x \<in> set xs \<Longrightarrow> P x = Q x) \<Longrightarrow> update_where P f xs = update_where Q f xs"
  by (auto simp: update_where_def)

lemma map_update_where_comm:
  assumes "\<And>x. P x = Q (v x)" and "\<And>x. P x \<Longrightarrow> v (f x) = g (v x)"
  shows "map v (update_where P f xs) = update_where Q g (map v xs)"
  using assms by (induction xs) auto

text \<open>Counting the rows per key and summing over distinct keys counts every row once.\<close>

lemma length_filter_disj:
  "(\<And>x. P x \<Longrightarrow> \<not> Q x) \<Longrightarrow> length (filter (\<lambda>x. P x \<or> Q x) xs) = length (filter P xs) + length (filter Q xs)"
  by (induction xs) auto

lemma sum_length_filter_keys:
  "distinct ks \<Longrightarrow> (\<Sum>k\<leftarrow>ks. length (filter (\<lambda>x. P x \<and> f x = k) xs)) =
     length (filter (\<lambda>x. P x \<and> f x \<in> set ks) xs)"
proof (induction ks)
  case (Cons k ks)
  have "length (filter (\<lambda>x. P x \<and> f x \<in> set (k # ks)) xs) =
      length (filter (\<lambda>x. (P x \<and> f x = k) \<or> (P x \<and> f x \<in> set ks)) xs)"
    by (intro arg_cong [where f = length] filter_cong) auto
  also have "\<dots> = length (filter (\<lambda>x. P x \<and> f x = k) xs) + length (filter (\<lambda>x. P x \<and> f x \<in> set ks) xs)"
    using Cons.prems by (intro length_filter_disj) auto
  finally show ?case using Cons by simp
qed simp

lemma distinct_map_filter_sort_key: "distinct (map f xs) \<Longrightarrow> distinct (map f (sort_key g (filter P xs)))"
  by (simp add: distinct_map inj_on_def)

lemma distinct_key_eq: "distinct (map f xs) \<Longrightarrow> x \<in> set xs \<Longrightarrow> y \<in> set xs \<Longrightarrow> f x = f y \<longleftrightarrow> x = y"
  by (auto simp: distinct_map dest: inj_onD)

text \<open>Removing the one row with a key removes its share of a sum.\<close>

lemma sum_list_remove_key:
  assumes "distinct (map f xs)" and "x \<in> set xs"
  shows "(\<Sum>y\<leftarrow>filter P xs. g y) =
    (\<Sum>y\<leftarrow>filter P (filter (\<lambda>y. f y \<noteq> f x) xs). g y) + (if P x then g x else (0 :: int))"
  using assms
proof (induction xs)
  case (Cons a xs)
  show ?case
  proof (cases "f a = f x")
    case True
    with Cons.prems have "a = x" and "f x \<notin> f ` set xs" by auto
    then have "filter (\<lambda>y. f y \<noteq> f x) xs = xs" unfolding filter_id_conv by (metis imageI)
    with \<open>a = x\<close> show ?thesis by simp
  next
    case False
    with Cons show ?thesis by auto
  qed
qed simp

lemma length_filter_sort_key: "length (filter P (sort_key f xs)) = length (filter P xs)"
proof -
  have "mset (filter P (sort_key f xs)) = mset (filter P xs)" by simp
  then show ?thesis by (rule mset_eq_length)
qed

end
