(* ===== verification/Records.thy ===== *)
theory Records
  imports Prelude
begin

text \<open>
  The data model of \<open>internal/store\<close>: one record per Go struct, with the struct's fields under a
  prefix, and the tables of the SQLite schema as lists of rows in rowid order.  A column that may
  hold SQL \<open>NULL\<close> is an option.  Also the status vocabularies of runs and bullets and the JSON
  values the store writes into the change sequence.
\<close>

section \<open>Rows\<close>

record RunRecord =
  run_ID :: string
  run_Project :: string
  run_TaskID :: string
  run_Brief :: string
  run_ChangeID :: string
  run_Type :: string
  run_IntentID :: string
  run_Slug :: string
  run_RequestID :: string
  run_Status :: string
  run_BaseBranch :: string
  run_CreatedAt :: time
  run_UpdatedAt :: time

text \<open>
  A row of \<open>runs\<close> is a run whose \<open>request_id\<close> column is nullable: the unique index treats two
  \<open>NULL\<close>s as distinct.  The Go field \<open>RequestID\<close> is read back from the column by \<open>scanRun\<close>.
\<close>

record RunRow = RunRecord +
  col_request_id :: "string option"

record PhaseRecord =
  ph_ID :: string
  ph_RunID :: string
  ph_Repo :: string
  ph_Name :: string
  ph_Kind :: string
  ph_Status :: string
  ph_Error :: string
  ph_DurationMs :: int
  ph_Payload :: raw_json
  ph_Attempt :: int
  ph_FixCycle :: int
  ph_CreatedAt :: time

record IntentRecord =
  in_ID :: string
  in_Project :: string
  in_Statement :: string
  in_Status :: string
  in_ChangeID :: string
  in_ChangeRepo :: string
  in_Type :: string
  in_ShippingGateStatus :: string
  in_ShippingGateReason :: string
  in_CreatedAt :: time
  in_UpdatedAt :: time

record BulletRecord =
  bu_ID :: string
  bu_IntentID :: string
  bu_Repo :: string
  bu_Position :: int
  bu_Status :: string
  bu_Branch :: string
  bu_Worktree :: string
  bu_CommitSHA :: string
  bu_PRURL :: string
  bu_BlockedReason :: string
  bu_CreatedAt :: time
  bu_UpdatedAt :: time

record EnvelopeRecord =
  env_ID :: string
  env_RunID :: string
  env_Repo :: string
  env_Stage :: string
  env_Summary :: string
  env_Artifacts :: "string list"
  env_Data :: raw_json
  env_CreatedAt :: time
  env_Type :: string
  env_SchemaVersion :: string
  env_OccurredAt :: time
  env_PublishedAt :: time
  env_Producer :: string
  env_CorrelationID :: string
  env_CausationID :: "string option"
  env_PhaseID :: string

record ChangeRecord =
  ch_Seq :: int
  ch_Channel :: string
  ch_EntityID :: string
  ch_Payload :: raw_json
  ch_CreatedAt :: time

text \<open>
  \<open>del_NextAttemptAt\<close> is the nullable column \<open>next_attempt_at\<close>; Go reads \<open>NULL\<close> as the zero time.
\<close>

record DeliveryRecord =
  del_ID :: string
  del_EnvelopeID :: string
  del_Consumer :: string
  del_State :: string
  del_Attempt :: int
  del_NextAttemptAt :: "time option"
  del_Error :: "err option"
  del_ErrorClass :: string
  del_RecoveryInstructions :: string
  del_IdempotencyKey :: string
  del_CreatedAt :: time
  del_UpdatedAt :: time

record ArtifactRecord =
  art_ID :: string
  art_RunID :: string
  art_PhaseID :: string
  art_Repo :: string
  art_Filename :: string
  art_ContentType :: string
  art_SizeBytes :: int
  art_Path :: string
  art_CapturedAt :: time
  art_DroppedCount :: int
  art_DroppedReason :: string

text \<open>
  A \<open>map[string]int\<close> of the rollup: a key without an entry reads as zero, which is also what
  \<open>m[k]++\<close> starts from.
\<close>

type_synonym counts = "string \<Rightarrow> int"

record RetentionRollup =
  ro_Project :: string
  ro_ComputedThrough :: time
  ro_RunCount :: int
  ro_PassedCount :: int
  ro_FailedCount :: int
  ro_CancelledCount :: int
  ro_InterruptedCount :: int
  ro_BulletTotal :: int
  ro_BulletMerged :: int
  ro_ByWorkType :: counts
  ro_ByAgent :: counts
  ro_ByModel :: counts
  ro_ByProvider :: counts

section \<open>Tables\<close>

text \<open>
  \<open>watermark\<close> is the row \<open>sqlite_sequence\<close> keeps for the \<open>AUTOINCREMENT\<close> key of \<open>changes\<close>: absent
  until the first insert, and never lowered by a delete.  \<open>export_cursor\<close> is the singleton row.
\<close>

record tables =
  runs :: "RunRow list"
  phases :: "PhaseRecord list"
  envelopes :: "EnvelopeRecord list"
  intents :: "IntentRecord list"
  bullets :: "BulletRecord list"
  changes :: "ChangeRecord list"
  watermark :: "int option"
  deliveries :: "DeliveryRecord list"
  artifacts :: "ArtifactRecord list"
  retention_rollups :: "RetentionRollup list"
  export_cursor :: "int option"

definition empty_tables :: tables where
  "empty_tables = \<lparr>runs = [], phases = [], envelopes = [], intents = [], bullets = [],
     changes = [], watermark = None, deliveries = [], artifacts = [], retention_rollups = [],
     export_cursor = None\<rparr>"

section \<open>Status vocabularies\<close>

text \<open>\<open>terminalRunStatuses\<close>, \<open>ResumableRunStatuses\<close> and the bullet lifecycle.\<close>

definition terminalRunStatuses :: "string list" where
  "terminalRunStatuses = [''passed'', ''failed'', ''cancelled'', ''timed_out'', ''interrupted'']"

definition ResumableRunStatuses :: "string list" where
  "ResumableRunStatuses = [''failed'', ''cancelled'', ''timed_out'', ''interrupted'']"

definition IsTerminalRunStatus :: "string \<Rightarrow> bool" where
  "IsTerminalRunStatus status \<longleftrightarrow> List.member terminalRunStatuses status"

definition BulletStatuses :: "string list" where
  "BulletStatuses =
     [''proposed'', ''pending'', ''red'', ''green'', ''sealed'', ''merged'', ''failed'', ''blocked'']"

definition BulletProgression :: "string list" where
  "BulletProgression = [''pending'', ''red'', ''green'', ''sealed'', ''merged'']"

lemma running_not_terminal [simp]: "\<not> IsTerminalRunStatus ''running''"
  by (simp add: IsTerminalRunStatus_def terminalRunStatuses_def)

section \<open>Nullable text and stored documents\<close>

text \<open>\<open>nullableText\<close> binds an absent string as \<open>NULL\<close>.\<close>

definition nullableText :: "string \<Rightarrow> string option" where
  "nullableText v = (if v = [] then None else Some v)"

definition coalesce :: "string option \<Rightarrow> string" where
  "coalesce v = (case v of None \<Rightarrow> [] | Some s \<Rightarrow> s)"

lemma coalesce_nullableText [simp]: "coalesce (nullableText v) = v"
  by (simp add: coalesce_def nullableText_def)

lemma nullableText_simps [simp]:
  "nullableText [] = None" "v \<noteq> [] \<Longrightarrow> nullableText v = Some v"
  by (auto simp: nullableText_def)

text \<open>\<open>causationIDValue\<close> dereferences a possibly nil pointer.\<close>

definition causationIDValue :: "string option \<Rightarrow> string" where
  "causationIDValue p = (case p of None \<Rightarrow> [] | Some s \<Rightarrow> s)"

text \<open>
  \<open>safeRawJSON\<close> keeps the bytes of an invalid document as a string, so that one bad row cannot make
  a whole response fail to marshal.
\<close>

fun safeRawJSON :: "raw_json \<Rightarrow> raw_json" where
  "safeRawJSON RawEmpty = RawEmpty"
| "safeRawJSON (RawDoc j) = RawDoc j"
| "safeRawJSON (RawBad s) = RawDoc (JObj [(''malformed_raw'', JStr s)])"

lemma safeRawJSON_valid: "safeRawJSON r \<noteq> RawBad s"
  by (cases r) auto

text \<open>\<open>scanRun\<close> reads a row of \<open>runs\<close> back into a \<open>RunRecord\<close>.\<close>

definition scanRun :: "RunRow \<Rightarrow> RunRecord" where
  "scanRun row = RunRecord.truncate (row\<lparr>run_RequestID := coalesce (col_request_id row)\<rparr>)"

definition run_row :: "RunRecord \<Rightarrow> RunRow" where
  "run_row r = RunRecord.extend r \<lparr>col_request_id = nullableText (run_RequestID r)\<rparr>"

lemma run_row_sel [simp]:
  "run_ID (run_row r) = run_ID r" "run_Project (run_row r) = run_Project r"
  "run_Type (run_row r) = run_Type r" "run_IntentID (run_row r) = run_IntentID r"
  "run_Slug (run_row r) = run_Slug r" "run_Status (run_row r) = run_Status r"
  "run_CreatedAt (run_row r) = run_CreatedAt r" "run_UpdatedAt (run_row r) = run_UpdatedAt r"
  "col_request_id (run_row r) = nullableText (run_RequestID r)"
  by (simp_all add: run_row_def RunRecord.extend_def)

lemma scanRun_sel [simp]:
  "run_ID (scanRun row) = run_ID row" "run_Project (scanRun row) = run_Project row"
  "run_Type (scanRun row) = run_Type row" "run_IntentID (scanRun row) = run_IntentID row"
  "run_Slug (scanRun row) = run_Slug row" "run_Status (scanRun row) = run_Status row"
  "run_CreatedAt (scanRun row) = run_CreatedAt row" "run_UpdatedAt (scanRun row) = run_UpdatedAt row"
  "run_BaseBranch (scanRun row) = run_BaseBranch row"
  "run_RequestID (scanRun row) = coalesce (col_request_id row)"
  by (simp_all add: scanRun_def RunRecord.truncate_def)

lemma scanRun_run_row [simp]: "scanRun (run_row r) = r"
  by (simp add: scanRun_def run_row_def RunRecord.truncate_def RunRecord.extend_def)

section \<open>What the schema enforces\<close>

text \<open>
  The keys SQLite keeps unique: the primary keys, the nullable \<open>request_id\<close>, and the partial index on
  the deliveries that reached a terminal success.  The foreign keys of the schema are not enforced:
  SQLite checks them only under \<open>PRAGMA foreign_keys\<close>, which \<open>Open\<close> does not set.
\<close>

definition terminal_success :: "DeliveryRecord \<Rightarrow> bool" where
  "terminal_success r \<longleftrightarrow> del_State r = ''delivered'' \<or> del_State r = ''acknowledged''"

definition schema_ok :: "tables \<Rightarrow> bool" where
  "schema_ok d \<longleftrightarrow>
     distinct (map run_ID (runs d)) \<and>
     distinct (filter (\<lambda>c. c \<noteq> None) (map col_request_id (runs d))) \<and>
     distinct (map ph_ID (phases d)) \<and> distinct (map env_ID (envelopes d)) \<and>
     distinct (map in_ID (intents d)) \<and> distinct (map bu_ID (bullets d)) \<and>
     distinct (map art_ID (artifacts d)) \<and> distinct (map ro_Project (retention_rollups d)) \<and>
     distinct (map del_IdempotencyKey (filter terminal_success (deliveries d)))"

lemma schema_ok_empty [simp]: "schema_ok empty_tables"
  by (simp add: schema_ok_def empty_tables_def)

lemma distinct_filter_map: "distinct (filter P (map f xs)) \<Longrightarrow> distinct (filter P (map f (filter Q xs)))"
  by (induction xs) auto

lemmas schema_delete_simps = distinct_map_filter_pred distinct_filter_map

end
