(* ===== verification/Computation.thy ===== *)
theory Computation
  imports Records
begin

text \<open>
  The computations the store's methods are: functions from a world to an error or a value and the
  next world.  A world holds the tables, the in-process subscribers and the environment: a clock, the
  schedule of failing statements and the outcomes of the delivery attempts.  A statement either fails
  and leaves the tables alone or runs to completion, which is SQLite's statement atomicity; a method
  that issues several statements is not atomic, and the schedule may fail any of them.
\<close>

section \<open>Worlds\<close>

text \<open>
  \<open>clock n\<close> is the \<open>n\<close>-th reading of \<open>time.Now().UTC()\<close>; \<open>faults n\<close> says whether the \<open>n\<close>-th statement
  fails for a reason other than a constraint; \<open>attempts\<close> counts the calls of delivery attempts.  When
  an insert violates both the primary key and another unique index, SQLite reports one of them;
  \<open>report_pk_first\<close> says which.  \<open>subs\<close> maps a subscriber to the content of its one-element channel.
\<close>

record world =
  db :: tables
  clock :: "nat \<Rightarrow> time"
  reads :: nat
  faults :: "nat \<Rightarrow> bool"
  ops :: nat
  report_pk_first :: bool
  subs :: "(int \<times> int option) list"
  nextSubID :: int
  attempts :: nat

definition initial_world :: "tables \<Rightarrow> world" where
  "initial_world d = \<lparr>db = d, clock = (\<lambda>n. 1 + int n), reads = 0, faults = (\<lambda>_. False), ops = 0,
     report_pk_first = False, subs = [], nextSubID = 0, attempts = 0\<rparr>"

text \<open>No statement fails from here on: the database is in working order.\<close>

definition healthy :: "world \<Rightarrow> bool" where
  "healthy w \<longleftrightarrow> faults w = (\<lambda>_. False)"

lemma healthy_initial [simp]: "healthy (initial_world d)"
  by (simp add: healthy_def initial_world_def)

lemma db_initial [simp]: "db (initial_world d) = d"
  by (simp add: initial_world_def)

section \<open>Computations\<close>

type_synonym 'a st = "world \<Rightarrow> (err + 'a) \<times> world"

definition return_st :: "'a \<Rightarrow> 'a st" where
  [st_simps]: "return_st x = (\<lambda>w. (Inr x, w))"

definition throw :: "err \<Rightarrow> 'a st" where
  [st_simps]: "throw e = (\<lambda>w. (Inl e, w))"

definition bind_st :: "'a st \<Rightarrow> ('a \<Rightarrow> 'b st) \<Rightarrow> 'b st" where
  [st_simps]: "bind_st m f =
     (\<lambda>w. case m w of (Inl e, w') \<Rightarrow> (Inl e, w') | (Inr x, w') \<Rightarrow> f x w')"

abbreviation then_st :: "'a st \<Rightarrow> 'b st \<Rightarrow> 'b st" where
  "then_st m n \<equiv> bind_st m (\<lambda>_. n)"

text \<open>\<open>x, err := m(); ... err ...\<close>: the continuation sees the error.\<close>

definition try_st :: "'a st \<Rightarrow> (err + 'a \<Rightarrow> 'b st) \<Rightarrow> 'b st" where
  [st_simps]: "try_st m f = (\<lambda>w. case m w of (r, w') \<Rightarrow> f r w')"

text \<open>\<open>if err != nil { return fmt.Errorf(f, args, err) }\<close>.\<close>

definition wrap_st :: "string \<Rightarrow> string list \<Rightarrow> 'a st \<Rightarrow> 'a st" where
  [st_simps]: "wrap_st f args m =
     (\<lambda>w. case m w of (Inl e, w') \<Rightarrow> (Inl (Errorf f args (Some e)), w') | (Inr x, w') \<Rightarrow> (Inr x, w'))"

text \<open>A Go function that returns only an \<open>error\<close>.\<close>

definition return_err :: "err option \<Rightarrow> unit st" where
  "return_err oe = (case oe of None \<Rightarrow> return_st () | Some e \<Rightarrow> throw e)"

text \<open>A loop whose body may return early with an error.\<close>

fun for_each :: "('a \<Rightarrow> unit st) \<Rightarrow> 'a list \<Rightarrow> unit st" where
  "for_each f [] = return_st ()"
| "for_each f (x # xs) = bind_st (f x) (\<lambda>_. for_each f xs)"

fun fold_st :: "('a \<Rightarrow> 'b \<Rightarrow> 'b st) \<Rightarrow> 'a list \<Rightarrow> 'b \<Rightarrow> 'b st" where
  "fold_st f [] acc = return_st acc"
| "fold_st f (x # xs) acc = bind_st (f x acc) (\<lambda>acc'. fold_st f xs acc')"

section \<open>Primitive effects\<close>

text \<open>\<open>time.Now().UTC()\<close>.\<close>

definition time_now :: "time st" where
  "time_now = (\<lambda>w. (Inr (clock w (reads w)), w\<lparr>reads := Suc (reads w)\<rparr>))"

text \<open>
  One statement.  \<open>stmt\<close> is what the statement does to the tables when nothing fails: a constraint
  error, or a result and the new tables.
\<close>

definition exec :: "(tables \<Rightarrow> err + 'a \<times> tables) \<Rightarrow> 'a st" where
  "exec stmt = (\<lambda>w.
     let w1 = w\<lparr>ops := Suc (ops w)\<rparr> in
     if faults w (ops w) then (Inl DbError, w1)
     else (case stmt (db w) of
             Inl e \<Rightarrow> (Inl e, w1)
           | Inr (x, d) \<Rightarrow> (Inr x, w1\<lparr>db := d\<rparr>)))"

definition query :: "(tables \<Rightarrow> 'a) \<Rightarrow> 'a st" where
  "query q = exec (\<lambda>d. Inr (q d, d))"

text \<open>A single-row query reports \<open>sql.ErrNoRows\<close> when no row matches.\<close>

definition query_row :: "(tables \<Rightarrow> 'a option) \<Rightarrow> 'a st" where
  "query_row q = exec (\<lambda>d. case q d of None \<Rightarrow> Inl NoRows | Some x \<Rightarrow> Inr (x, d))"

text \<open>An \<open>UPDATE\<close> or \<open>DELETE\<close> cannot violate a constraint here; it reports the rows it changed.\<close>

definition modify :: "(tables \<Rightarrow> tables) \<Rightarrow> unit st" where
  "modify f = exec (\<lambda>d. Inr ((), f d))"

definition modify_count :: "(tables \<Rightarrow> nat) \<Rightarrow> (tables \<Rightarrow> tables) \<Rightarrow> nat st" where
  "modify_count n f = exec (\<lambda>d. Inr (n d, f d))"

lemma time_now_eq [st_simps]:
  "time_now w = (Inr (clock w (reads w)), w\<lparr>reads := Suc (reads w)\<rparr>)"
  by (simp add: time_now_def)

lemma exec_healthy:
  "healthy w \<Longrightarrow> exec stmt w =
     (case stmt (db w) of
        Inl e \<Rightarrow> (Inl e, w\<lparr>ops := Suc (ops w)\<rparr>)
      | Inr (x, d) \<Rightarrow> (Inr x, w\<lparr>ops := Suc (ops w), db := d\<rparr>))"
  by (simp add: exec_def healthy_def Let_def split: sum.split prod.split)

lemma query_healthy:
  "healthy w \<Longrightarrow> query q w = (Inr (q (db w)), w\<lparr>ops := Suc (ops w)\<rparr>)"
  by (simp add: query_def exec_healthy)

lemma query_row_healthy:
  "healthy w \<Longrightarrow> query_row q w =
     (case q (db w) of None \<Rightarrow> Inl NoRows | Some x \<Rightarrow> Inr x, w\<lparr>ops := Suc (ops w)\<rparr>)"
  by (simp add: query_row_def exec_healthy split: option.split)

lemma modify_healthy:
  "healthy w \<Longrightarrow> modify f w = (Inr (), w\<lparr>ops := Suc (ops w), db := f (db w)\<rparr>)"
  by (simp add: modify_def exec_healthy)

lemma modify_count_healthy:
  "healthy w \<Longrightarrow> modify_count n f w =
     (Inr (n (db w)), w\<lparr>ops := Suc (ops w), db := f (db w)\<rparr>)"
  by (simp add: modify_count_def exec_healthy)

lemma healthy_upd [simp]:
  "healthy (w\<lparr>ops := k\<rparr>) = healthy w" "healthy (w\<lparr>reads := k\<rparr>) = healthy w"
  "healthy (w\<lparr>db := d\<rparr>) = healthy w" "healthy (w\<lparr>subs := s\<rparr>) = healthy w"
  "healthy (w\<lparr>attempts := k\<rparr>) = healthy w" "healthy (w\<lparr>nextSubID := i\<rparr>) = healthy w"
  by (simp_all add: healthy_def)

lemmas healthy_simps =
  exec_healthy query_healthy query_row_healthy modify_healthy modify_count_healthy

section \<open>What a computation may do to the world\<close>

text \<open>
  \<open>within R m\<close>: whatever \<open>m\<close> returns, and wherever it stops on an error, the world it leaves is
  related to the world it found by \<open>R\<close>.  With a reflexive and transitive \<open>R\<close> the property is
  compositional, so a method needs one case per statement it issues; invariants, append-only logs and
  frame conditions are all of this form, and they hold under every schedule of failures.
\<close>

definition within :: "(world \<Rightarrow> world \<Rightarrow> bool) \<Rightarrow> 'a st \<Rightarrow> bool" where
  "within R m \<longleftrightarrow> (\<forall>w. R w (snd (m w)))"

lemma withinD: "within R m \<Longrightarrow> m w = (r, w') \<Longrightarrow> R w w'"
  unfolding within_def by (metis snd_conv)

lemma within_cong_fun: "(\<And>w. R w (snd (m w))) \<Longrightarrow> within R m"
  by (simp add: within_def)

locale step_relation =
  fixes R :: "world \<Rightarrow> world \<Rightarrow> bool"
  assumes refl [simp]: "R w w"
    and trans: "R u v \<Longrightarrow> R v w \<Longrightarrow> R u w"
begin

lemma w_return [within_intros]: "within R (return_st x)"
  by (simp add: within_def return_st_def)

lemma w_throw [within_intros]: "within R (throw e)"
  by (simp add: within_def throw_def)

lemma w_return_err [within_intros]: "within R (return_err oe)"
  by (cases oe) (simp_all add: return_err_def w_return w_throw)

lemma w_bind [within_intros]:
  assumes m: "within R m" and f: "\<And>x. within R (f x)"
  shows "within R (bind_st m f)"
proof (rule within_cong_fun)
  fix w
  obtain r w1 where eq: "m w = (r, w1)" by (cases "m w")
  from m eq have 1: "R w w1" by (rule withinD)
  show "R w (snd (bind_st m f w))"
  proof (cases r)
    case (Inl e)
    with eq 1 show ?thesis by (simp add: bind_st_def)
  next
    case (Inr x)
    from f [of x] have "R w1 (snd (f x w1))" by (simp add: within_def)
    with 1 have "R w (snd (f x w1))" by (rule trans)
    with eq Inr show ?thesis by (simp add: bind_st_def)
  qed
qed

lemma w_try [within_intros]:
  assumes m: "within R m" and f: "\<And>x. within R (f x)"
  shows "within R (try_st m f)"
proof (rule within_cong_fun)
  fix w
  obtain r w1 where eq: "m w = (r, w1)" by (cases "m w")
  from m eq have 1: "R w w1" by (rule withinD)
  from f [of r] have "R w1 (snd (f r w1))" by (simp add: within_def)
  with 1 have "R w (snd (f r w1))" by (rule trans)
  with eq show "R w (snd (try_st m f w))" by (simp add: try_st_def)
qed

lemma w_wrap [within_intros]: "within R m \<Longrightarrow> within R (wrap_st f args m)"
  by (auto simp: within_def wrap_st_def split: prod.split sum.split) (metis snd_conv)+

lemma w_cond [within_intros]:
  "(b \<Longrightarrow> within R m) \<Longrightarrow> (\<not> b \<Longrightarrow> within R n) \<Longrightarrow> within R (if b then m else n)"
  by simp

lemma w_option [within_intros]:
  "within R m \<Longrightarrow> (\<And>x. within R (f x)) \<Longrightarrow> within R (case v of None \<Rightarrow> m | Some x \<Rightarrow> f x)"
  by (cases v) auto

lemma w_sum [within_intros]:
  "(\<And>e. within R (m e)) \<Longrightarrow> (\<And>x. within R (f x)) \<Longrightarrow>
   within R (case v of Inl e \<Rightarrow> m e | Inr x \<Rightarrow> f x)"
  by (cases v) auto

lemma w_pair [within_intros]: "(\<And>x y. within R (f x y)) \<Longrightarrow> within R (case p of (x, y) \<Rightarrow> f x y)"
  by (cases p) auto

lemma w_let [within_intros]: "within R (f v) \<Longrightarrow> within R (let x = v in f x)"
  by simp

lemma w_each [within_intros]: "(\<And>x. within R (f x)) \<Longrightarrow> within R (for_each f xs)"
  by (induction xs) (auto intro: w_return w_bind)

lemma w_fold [within_intros]: "(\<And>x acc. within R (f x acc)) \<Longrightarrow> within R (fold_st f xs acc)"
  by (induction xs arbitrary: acc) (auto intro: w_return w_bind)

end

text \<open>
  A relation on tables that ignores the environment gives a relation on worlds; a statement satisfies
  it as soon as its effect on the tables does.
\<close>

definition on_db :: "(tables \<Rightarrow> tables \<Rightarrow> bool) \<Rightarrow> world \<Rightarrow> world \<Rightarrow> bool" where
  "on_db T w w' \<longleftrightarrow> T (db w) (db w')"

locale table_relation =
  fixes T :: "tables \<Rightarrow> tables \<Rightarrow> bool"
  assumes refl_tables [simp]: "T d d"
    and trans_tables: "T d1 d2 \<Longrightarrow> T d2 d3 \<Longrightarrow> T d1 d3"
begin

sublocale step_relation "on_db T"
  by unfold_locales (auto simp: on_db_def intro: trans_tables)

lemma w_now [within_intros]: "within (on_db T) time_now"
  by (simp add: within_def on_db_def time_now_def)

lemma w_exec: "(\<And>d x d'. stmt d = Inr (x, d') \<Longrightarrow> T d d') \<Longrightarrow> within (on_db T) (exec stmt)"
  by (auto simp: within_def on_db_def exec_def Let_def split: sum.split prod.split)

lemma w_query [within_intros]: "within (on_db T) (query q)"
  by (auto simp: query_def intro: w_exec)

lemma w_query_row [within_intros]: "within (on_db T) (query_row q)"
  by (auto simp: query_row_def intro!: w_exec split: option.splits)

lemma w_modify: "(\<And>d. T d (f d)) \<Longrightarrow> within (on_db T) (modify f)"
  by (auto simp: modify_def intro!: w_exec)

lemma w_modify_count: "(\<And>d. T d (f d)) \<Longrightarrow> within (on_db T) (modify_count n f)"
  by (auto simp: modify_count_def intro!: w_exec)

end

text \<open>The environment is never rewritten: the clock and the schedule of failures are given.\<close>

definition same_env :: "world \<Rightarrow> world \<Rightarrow> bool" where
  "same_env w w' \<longleftrightarrow> clock w' = clock w \<and> faults w' = faults w \<and>
     report_pk_first w' = report_pk_first w \<and> reads w \<le> reads w' \<and> ops w \<le> ops w'"

interpretation env: step_relation same_env
  by unfold_locales (auto simp: same_env_def)

lemma env_now [within_intros]: "within same_env time_now"
  by (simp add: within_def same_env_def time_now_def)

lemma env_exec [within_intros]: "within same_env (exec stmt)"
  by (auto simp: within_def same_env_def exec_def Let_def split: sum.split prod.split)

lemma env_query [within_intros]: "within same_env (query q)"
  by (simp add: query_def env_exec)

lemma env_query_row [within_intros]: "within same_env (query_row q)"
  by (simp add: query_row_def env_exec)

lemma env_modify [within_intros]: "within same_env (modify f)"
  by (simp add: modify_def env_exec)

lemma env_modify_count [within_intros]: "within same_env (modify_count n f)"
  by (simp add: modify_count_def env_exec)

lemma same_env_healthy: "same_env w w' \<Longrightarrow> healthy w' = healthy w"
  by (simp add: same_env_def healthy_def)

lemma within_env_healthy: "within same_env m \<Longrightarrow> m w = (r, w') \<Longrightarrow> healthy w' = healthy w"
  by (blast dest: withinD same_env_healthy)

text \<open>Read-only computations: the tables are unchanged.\<close>

definition same_db :: "tables \<Rightarrow> tables \<Rightarrow> bool" where
  "same_db d d' \<longleftrightarrow> d' = d"

interpretation ro: table_relation same_db
  by unfold_locales (auto simp: same_db_def)

lemma read_onlyD: "within (on_db same_db) m \<Longrightarrow> m w = (r, w') \<Longrightarrow> db w' = db w"
  by (auto dest: withinD simp: on_db_def same_db_def)

end
