(* ===== verification/Changes.thy ===== *)
theory Changes
  imports Computation
begin

text \<open>
  \<open>internal/store/changes.go\<close>: the ordered change sequence, its replay by cursor and the in-process
  subscribers; and the page loop of \<open>internal/ui/stream.go\<close> that replays it to a client.  The
  sequence number is the \<open>AUTOINCREMENT\<close> key of the table, so it is assigned by the database: one
  more than the greater of the watermark and the largest key held.

  Proved here: the sequence is strictly increasing and append-only under every failure schedule, a
  cursor that \<open>CanReplayFrom\<close> accepts can be replayed without a gap, and the page loop delivers
  exactly the changes after the cursor, in order.
\<close>

section \<open>Appending\<close>

definition ChannelRun :: string where "ChannelRun = ''run''"
definition ChannelIntent :: string where "ChannelIntent = ''intent''"
definition ChannelBullet :: string where "ChannelBullet = ''bullet''"
definition ChannelPhase :: string where "ChannelPhase = ''phase''"
definition ChannelEnvelope :: string where "ChannelEnvelope = ''envelope''"
definition ChannelProgress :: string where "ChannelProgress = ''progress''"

definition defaultChangeReplayLimit :: int where
  "defaultChangeReplayLimit = 500"

text \<open>The largest key held, and the high-water mark kept in \<open>sqlite_sequence\<close>.\<close>

definition max_seq :: "tables \<Rightarrow> int" where
  "max_seq d = fold max (map ch_Seq (changes d)) 0"

definition mark :: "tables \<Rightarrow> int" where
  "mark d = (case watermark d of None \<Rightarrow> 0 | Some s \<Rightarrow> s)"

definition next_seq :: "tables \<Rightarrow> int" where
  "next_seq d = max (max_seq d) (mark d) + 1"

text \<open>\<open>INSERT INTO changes\<close>, with the key SQLite assigns.\<close>

definition insert_change :: "string \<Rightarrow> string \<Rightarrow> json \<Rightarrow> time \<Rightarrow> tables \<Rightarrow> tables" where
  "insert_change channel entityID payload now d =
     d\<lparr>changes := changes d @ [\<lparr>ch_Seq = next_seq d, ch_Channel = channel, ch_EntityID = entityID,
         ch_Payload = RawDoc payload, ch_CreatedAt = now\<rparr>],
       watermark := Some (next_seq d)\<rparr>"

text \<open>A full channel drops the notification: its reader already knows it is behind.\<close>

definition notifyChange :: "int \<Rightarrow> unit st" where
  "notifyChange seq = (\<lambda>w. (Inr (), w\<lparr>subs :=
     map (\<lambda>(i, c). (i, case c of None \<Rightarrow> Some seq | Some s \<Rightarrow> Some s)) (subs w)\<rparr>))"

definition AppendChange :: "string \<Rightarrow> string \<Rightarrow> json \<Rightarrow> int st" where
  "AppendChange channel entityID payload =
     bind_st time_now (\<lambda>now.
     bind_st (wrap_st ''appending a %s change for %q: %w'' [channel, entityID]
       (exec (\<lambda>d. Inr (next_seq d, insert_change channel entityID payload now d)))) (\<lambda>seq.
     bind_st (notifyChange seq) (\<lambda>_.
     return_st seq)))"

definition recordTransition :: "string \<Rightarrow> string \<Rightarrow> json \<Rightarrow> unit st" where
  "recordTransition channel entityID payload =
     bind_st (AppendChange channel entityID payload) (\<lambda>_. return_st ())"

section \<open>Subscribing\<close>

text \<open>
  A subscriber gets a fresh identity and an empty channel of capacity one; the returned identity
  stands for the closure that ends the subscription, which may run more than once.
\<close>

definition SubscribeChanges :: "int st" where
  "SubscribeChanges = (\<lambda>w. let i = nextSubID w + 1 in
     (Inr i, w\<lparr>nextSubID := i, subs := subs w @ [(i, None)]\<rparr>))"

definition unsubscribe :: "int \<Rightarrow> unit st" where
  "unsubscribe i = (\<lambda>w. (Inr (), w\<lparr>subs := filter (\<lambda>(j, _). j \<noteq> i) (subs w)\<rparr>))"

text \<open>A subscriber takes what its channel holds.\<close>

definition receive :: "int \<Rightarrow> int option st" where
  "receive i = (\<lambda>w. (Inr (Option.bind (map_of (subs w) i) id),
     w\<lparr>subs := map (\<lambda>(j, c). (j, if j = i then None else c)) (subs w)\<rparr>))"

section \<open>Replaying\<close>

definition scanChange :: "ChangeRecord \<Rightarrow> ChangeRecord" where
  "scanChange c = c\<lparr>ch_Payload := safeRawJSON (ch_Payload c)\<rparr>"

definition changes_since :: "int \<Rightarrow> int \<Rightarrow> tables \<Rightarrow> ChangeRecord list" where
  "changes_since from limit d =
     map scanChange (sql_limit limit (sort_key ch_Seq (filter (\<lambda>c. from < ch_Seq c) (changes d))))"

definition ListChangesSince :: "int \<Rightarrow> int \<Rightarrow> ChangeRecord list st" where
  "ListChangesSince from limit =
     (let limit' = (if limit \<le> 0 then defaultChangeReplayLimit else limit)
      in query (changes_since from limit'))"

definition CurrentSequence :: "int st" where
  "CurrentSequence =
     bind_st (query max_seq) (\<lambda>highest.
     bind_st (query watermark) (\<lambda>wm.
     return_st (case wm of None \<Rightarrow> highest | Some s \<Rightarrow> if s > highest then s else highest)))"

definition min_seq :: "tables \<Rightarrow> int" where
  "min_seq d = (case map ch_Seq (changes d) of [] \<Rightarrow> 0 | s # ss \<Rightarrow> fold min ss s)"

definition EarliestSequence :: "int st" where
  "EarliestSequence = query min_seq"

definition CanReplayFrom :: "int \<Rightarrow> bool st" where
  "CanReplayFrom from =
     (if from \<le> 0 then return_st False else
      bind_st CurrentSequence (\<lambda>current.
      if from > current then return_st False else
      bind_st EarliestSequence (\<lambda>earliest.
      if earliest = 0 then return_st (from = current)
      else return_st (from \<ge> earliest - 1))))"

section \<open>The sequence\<close>

text \<open>
  The rows held are the newest ones, without a gap, up to the watermark.  Nothing in the code deletes
  a change; a log pruned from its old end by hand still satisfies this.
\<close>

definition changes_ok :: "tables \<Rightarrow> bool" where
  "changes_ok d \<longleftrightarrow> int (length (changes d)) \<le> mark d \<and>
     map ch_Seq (changes d) = [mark d - int (length (changes d)) + 1 .. mark d]"

lemma changes_ok_empty [simp]: "changes_ok empty_tables"
  by (simp add: changes_ok_def empty_tables_def mark_def)

lemma fold_max_upto: "a \<le> b \<Longrightarrow> fold max [a..b] (m::int) = max m b"
proof (induction "nat (b - a)" arbitrary: a m)
  case 0
  then show ?case by simp
next
  case (Suc n)
  then have "a + 1 \<le> b" and "n = nat (b - (a + 1))" by linarith+
  with Suc.hyps(1) have "fold max [a + 1..b] (max a m) = max (max a m) b" by blast
  with Suc.prems show ?case by (subst upto_rec1) auto
qed

lemma fold_min_upto: "m \<le> a \<Longrightarrow> fold min [a..b] (m::int) = m"
proof (induction "nat (b - a + 1)" arbitrary: a)
  case 0
  then show ?case by simp
next
  case (Suc n)
  then have "a \<le> b" and "n = nat (b - (a + 1) + 1)" by linarith+
  with Suc have "fold min [a + 1..b] m = m" by simp
  with \<open>a \<le> b\<close> Suc.prems show ?case by (subst upto_rec1) (auto simp: min_def)
qed

lemma filter_greater_upto: "filter (\<lambda>s. m < s) [a..b] = [max (m + 1) a..b]" for a b m :: int
proof (induction "nat (b - a + 1)" arbitrary: a)
  case 0
  then show ?case by simp
next
  case (Suc n)
  then have "a \<le> b" and "n = nat (b - (a + 1) + 1)" by linarith+
  with Suc.hyps(1) have IH: "filter (\<lambda>s. m < s) [a + 1..b] = [max (m + 1) (a + 1)..b]" by blast
  show ?case
  proof (cases "m < a")
    case True
    with \<open>a \<le> b\<close> IH show ?thesis by (simp add: upto_rec1 max_def)
  next
    case False
    with \<open>a \<le> b\<close> IH show ?thesis by (simp add: upto_rec1 [of a b] max_def)
  qed
qed

lemma max_seq_ok: "changes_ok d \<Longrightarrow> max_seq d = (if changes d = [] then 0 else mark d)"
proof -
  assume ok: "changes_ok d"
  have "changes d \<noteq> [] \<Longrightarrow> mark d - int (length (changes d)) + 1 \<le> mark d"
    by (cases "changes d") auto
  with ok show ?thesis
    by (auto simp: changes_ok_def max_seq_def fold_max_upto)
qed

lemma mark_nonneg: "changes_ok d \<Longrightarrow> 0 \<le> mark d"
  by (auto simp: changes_ok_def)

lemma next_seq_ok: "changes_ok d \<Longrightarrow> next_seq d = mark d + 1"
  using mark_nonneg [of d] by (auto simp: next_seq_def max_seq_ok max_def)

lemma min_seq_ok:
  assumes "changes_ok d"
  shows "min_seq d = (if changes d = [] then 0 else mark d - int (length (changes d)) + 1)"
proof (cases "changes d = []")
  case True
  then show ?thesis by (simp add: min_seq_def)
next
  case False
  define a where "a = mark d - int (length (changes d)) + 1"
  from False have "a \<le> mark d"
    by (cases "changes d") (auto simp: a_def)
  with assms have "map ch_Seq (changes d) = a # [a + 1 .. mark d]"
    by (simp add: changes_ok_def a_def upto_rec1)
  then show ?thesis using False by (simp add: min_seq_def fold_min_upto a_def)
qed

lemma mark_insert_change [simp]: "mark (insert_change ch e p now d) = next_seq d"
  by (simp add: mark_def insert_change_def)

lemma insert_change_sel [simp]:
  "runs (insert_change ch e p now d) = runs d" "phases (insert_change ch e p now d) = phases d"
  "envelopes (insert_change ch e p now d) = envelopes d" "intents (insert_change ch e p now d) = intents d"
  "bullets (insert_change ch e p now d) = bullets d" "deliveries (insert_change ch e p now d) = deliveries d"
  "artifacts (insert_change ch e p now d) = artifacts d"
  "retention_rollups (insert_change ch e p now d) = retention_rollups d"
  "export_cursor (insert_change ch e p now d) = export_cursor d"
  by (simp_all add: insert_change_def)

lemma changes_ok_insert: "changes_ok d \<Longrightarrow> changes_ok (insert_change ch e p now d)"
proof -
  assume ok: "changes_ok d"
  let ?d = "insert_change ch e p now d"
  have len: "length (changes ?d) = Suc (length (changes d))"
    by (simp add: insert_change_def)
  have "map ch_Seq (changes ?d) = [mark d - int (length (changes d)) + 1 .. mark d] @ [mark d + 1]"
    using ok by (simp add: insert_change_def next_seq_ok) (simp add: changes_ok_def)
  also have "\<dots> = [mark d - int (length (changes d)) + 1 .. mark d + 1]"
    by (subst upto_rec2) auto
  finally show "changes_ok ?d"
    using ok len by (simp add: changes_ok_def next_seq_ok [OF ok])
qed

text \<open>
  What every operation of the store may do to the log: append, keeping its order and its watermark.
\<close>

definition log_grows :: "tables \<Rightarrow> tables \<Rightarrow> bool" where
  "log_grows d d' \<longleftrightarrow> prefix (changes d) (changes d') \<and> (changes_ok d \<longrightarrow> changes_ok d' \<and> mark d \<le> mark d')"

interpretation log: table_relation log_grows
  by unfold_locales (auto simp: log_grows_def)

lemma log_grows_insert [simp]: "log_grows d (insert_change ch e p now d)"
  by (auto simp: log_grows_def changes_ok_insert next_seq_ok) (simp add: insert_change_def)

lemma log_grows_keep:
  "changes d' = changes d \<Longrightarrow> watermark d' = watermark d \<Longrightarrow> log_grows d d'"
  by (simp add: log_grows_def changes_ok_def mark_def)

lemma within_notifyChange:
  "(\<And>w s. R w (w\<lparr>subs := s\<rparr>)) \<Longrightarrow> within R (notifyChange seq)"
  by (simp add: within_def notifyChange_def)

lemma log_notify [within_intros]: "within (on_db T) (notifyChange seq)" if "\<And>d. T d d"
  using that by (auto intro!: within_notifyChange simp: on_db_def)

lemma log_AppendChange [within_intros]: "within (on_db log_grows) (AppendChange ch e p)"
  unfolding AppendChange_def
  by (intro within_intros log.w_exec) auto

lemma log_recordTransition [within_intros]: "within (on_db log_grows) (recordTransition ch e p)"
  unfolding recordTransition_def by (intro within_intros)

lemma env_recordTransition [within_intros]: "within same_env (recordTransition ch e p)"
  unfolding recordTransition_def AppendChange_def
  by (intro within_intros within_notifyChange) (auto simp: same_env_def)

text \<open>The tables after a transition in a healthy database: one more change, nothing else.\<close>

lemma recordTransition_healthy:
  assumes "healthy w"
  shows "\<exists>w'. recordTransition ch e p w = (Inr (), w') \<and>
    db w' = insert_change ch e p (clock w (reads w)) (db w) \<and> healthy w'"
  using assms
  by (simp add: recordTransition_def AppendChange_def st_simps exec_healthy notifyChange_def)

text \<open>Under any failure schedule a transition is either appended or reported as not appended.\<close>

lemma recordTransition_cases:
  assumes "recordTransition ch e p w = (res, w')"
  shows "(res = Inr () \<and> db w' = insert_change ch e p (clock w (reads w)) (db w)) \<or>
    (res = Inl (Errorf ''appending a %s change for %q: %w'' [ch, e] (Some DbError)) \<and> db w' = db w)"
  using assms
  by (auto simp: recordTransition_def AppendChange_def st_simps exec_def notifyChange_def Let_def
      split: if_splits prod.splits sum.splits)

section \<open>Replay\<close>

lemma CurrentSequence_healthy:
  assumes "healthy w" and "changes_ok (db w)"
  shows "\<exists>w'. CurrentSequence w = (Inr (mark (db w)), w') \<and> db w' = db w \<and> healthy w'"
  using assms mark_nonneg [of "db w"]
  by (auto simp: CurrentSequence_def st_simps query_healthy max_seq_ok mark_def split: option.splits)

lemma held_since:
  assumes "changes_ok d"
  shows "map ch_Seq (filter (\<lambda>c. from < ch_Seq c) (changes d)) =
    [max (from + 1) (mark d - int (length (changes d)) + 1) .. mark d]"
proof -
  have "map ch_Seq (filter (\<lambda>c. from < ch_Seq c) (changes d)) =
      filter (\<lambda>s. from < s) (map ch_Seq (changes d))"
    by (simp add: filter_map comp_def)
  with assms show ?thesis by (simp add: changes_ok_def filter_greater_upto)
qed

lemma CanReplayFrom_iff:
  assumes "healthy w" and "changes_ok (db w)"
  shows "\<exists>w'. CanReplayFrom from w =
    (Inr (0 < from \<and> from \<le> mark (db w) \<and>
       mark (db w) - int (length (changes (db w))) \<le> from), w') \<and> db w' = db w \<and> healthy w'"
proof (cases "from \<le> 0")
  case True
  with assms show ?thesis by (simp add: CanReplayFrom_def st_simps)
next
  case False
  from CurrentSequence_healthy [OF assms] obtain w1 where
    w1: "CurrentSequence w = (Inr (mark (db w)), w1)" "db w1 = db w" "healthy w1" by blast
  have nz: "changes (db w) \<noteq> [] \<Longrightarrow> mark (db w) - int (length (changes (db w))) + 1 \<noteq> 0"
    using assms(2) by (auto simp: changes_ok_def)
  show ?thesis using False w1 assms nz
    by (auto simp: CanReplayFrom_def st_simps EarliestSequence_def query_healthy min_seq_ok)
qed

section \<open>Sound steps\<close>

text \<open>
  What every operation of the store does to the tables, under every failure schedule: the log grows
  and the keys stay unique.
\<close>

definition sound_step :: "tables \<Rightarrow> tables \<Rightarrow> bool" where
  "sound_step d d' \<longleftrightarrow> log_grows d d' \<and> (schema_ok d \<longrightarrow> schema_ok d')"

interpretation sound: table_relation sound_step
  by unfold_locales (auto simp: sound_step_def intro: log.trans_tables)

lemma sound_stepI:
  "changes d' = changes d \<Longrightarrow> watermark d' = watermark d \<Longrightarrow> (schema_ok d \<Longrightarrow> schema_ok d') \<Longrightarrow>
   sound_step d d'"
  by (simp add: sound_step_def log_grows_keep)

lemma sound_insert_change [simp]: "sound_step d (insert_change ch e p now d)"
  by (simp add: sound_step_def) (simp add: insert_change_def schema_ok_def)

lemma sound_AppendChange [within_intros]: "within (on_db sound_step) (AppendChange ch e p)"
  unfolding AppendChange_def by (intro within_intros sound.w_exec) auto

lemma sound_recordTransition [within_intros]: "within (on_db sound_step) (recordTransition ch e p)"
  unfolding recordTransition_def by (intro within_intros)

lemma sound_schemaD:
  "within (on_db sound_step) m \<Longrightarrow> m w = (r, w') \<Longrightarrow> schema_ok (db w) \<Longrightarrow> schema_ok (db w')"
  using withinD [of "on_db sound_step" m w r w'] by (simp add: on_db_def sound_step_def)

section \<open>A page of the log\<close>

lemma take_upto: "take n [a..b] = [a..min b (a + int n - 1)]" for a b :: int
proof (induction n arbitrary: a)
  case 0
  then show ?case by simp
next
  case (Suc n)
  show ?case
  proof (cases "a \<le> b")
    case True
    with Suc [of "a + 1"] show ?thesis
      by (simp add: upto_rec1 [of a b] upto_rec1 [of a "a + int n"] add.commute add.left_commute min_def)
  next
    case False
    then show ?thesis by simp
  qed
qed

lemma scanChange_seq [simp]: "ch_Seq (scanChange c) = ch_Seq c"
  by (simp add: scanChange_def)

lemma sort_key_sorted: "sorted (map f xs) \<Longrightarrow> sort_key f xs = xs"
  by (rule properties_for_sort_key) auto

text \<open>The first sequence number held above \<open>from\<close>.\<close>

definition page_start :: "int \<Rightarrow> tables \<Rightarrow> int" where
  "page_start from d = max (from + 1) (mark d - int (length (changes d)) + 1)"

lemma changes_since_seqs:
  assumes ok: "changes_ok d" and "0 \<le> limit"
  shows "map ch_Seq (changes_since from limit d) =
    [page_start from d .. min (mark d) (page_start from d + limit - 1)]"
proof -
  let ?F = "filter (\<lambda>c. from < ch_Seq c) (changes d)"
  have seqs: "map ch_Seq ?F = [page_start from d .. mark d]"
    using held_since [OF ok, of "from"] by (simp add: page_start_def)
  then have "sort_key ch_Seq ?F = ?F" by (intro sort_key_sorted) simp
  then have "map ch_Seq (changes_since from limit d) = map ch_Seq (take (nat limit) ?F)"
    using \<open>0 \<le> limit\<close> by (simp add: changes_since_def sql_limit_def comp_def)
  also have "\<dots> = take (nat limit) [page_start from d .. mark d]"    unfolding seqs [symmetric] by (simp add: take_map)
  finally show ?thesis using \<open>0 \<le> limit\<close> by (simp add: take_upto)
qed

text \<open>
  C29: the answer of \<open>CanReplayFrom\<close> is exact.  On an intact log it says yes if and only if the cursor is
  positive, no larger than the newest sequence number and no older than the oldest change still held;
  and after a yes the changes the log returns above the cursor are all those after it, in order and
  without a gap, up to the page limit.
\<close>

theorem CanReplayFrom_exact:
  assumes w: "healthy w" and ok: "changes_ok (db w)" and limit: "0 < limit"
  shows "\<exists>yes w'. CanReplayFrom from w = (Inr yes, w') \<and> db w' = db w \<and>
    yes = (0 < from \<and> from \<le> mark (db w) \<and> mark (db w) - int (length (changes (db w))) \<le> from) \<and>
    (yes \<longrightarrow> (\<exists>cs w''. ListChangesSince from limit w' = (Inr cs, w'') \<and> db w'' = db w \<and>
       map ch_Seq cs = [from + 1 .. min (mark (db w)) (from + limit)]))"
proof -
  from CanReplayFrom_iff [OF w ok, of "from"] obtain w' where
    w': "CanReplayFrom from w = (Inr (0 < from \<and> from \<le> mark (db w) \<and>
       mark (db w) - int (length (changes (db w))) \<le> from), w')" "db w' = db w" "healthy w'" by blast
  have "ListChangesSince from limit w' = (Inr (changes_since from limit (db w)), w'\<lparr>ops := Suc (ops w')\<rparr>)"
    using w' limit by (simp add: ListChangesSince_def query_healthy)
  moreover have "page_start from (db w) = from + 1" if "mark (db w) - int (length (changes (db w))) \<le> from"
    using that by (simp add: page_start_def)
  ultimately show ?thesis
    using w' changes_since_seqs [OF ok, of limit "from"] limit by auto
qed

definition sample_log :: tables where
  "sample_log = insert_change ''run'' ''r1'' JNull 2 (insert_change ''run'' ''r1'' JNull 1 empty_tables)"

theorem CanReplayFrom_exact_witness:
  "\<exists>w' cs w''. CanReplayFrom 1 (initial_world sample_log) = (Inr True, w') \<and>
    ListChangesSince 1 10 w' = (Inr cs, w'') \<and> map ch_Seq cs = [2]"
proof -
  have "changes_ok (db (initial_world sample_log))"
    unfolding sample_log_def by (simp add: changes_ok_insert)
  moreover have "mark sample_log = 2" "length (changes sample_log) = 2" by code_simp+
  ultimately show ?thesis
    using CanReplayFrom_exact [OF healthy_initial, of sample_log 10 1] by fastforce
qed

end
