(* ===== verification/Text.thy ===== *)
theory Text
  imports Prelude
begin

text \<open>
  The parts of Go's \<open>strings\<close>, \<open>strconv\<close> and \<open>fmt\<close> packages the program uses on text: splitting at a
  separator byte, prefixes and suffixes, and integers in decimal and hexadecimal.
\<close>

section \<open>Splitting and joining\<close>

fun split_on :: "char \<Rightarrow> string \<Rightarrow> string list" where
  "split_on c [] = [[]]"
| "split_on c (x # xs) =
     (if x = c then [] # split_on c xs
      else (case split_on c xs of [] \<Rightarrow> [[x]] | w # ws \<Rightarrow> (x # w) # ws))"

fun join_with :: "string \<Rightarrow> string list \<Rightarrow> string" where
  "join_with sep [] = []"
| "join_with sep [w] = w"
| "join_with sep (w # ws) = w @ sep @ join_with sep ws"

definition HasPrefix :: "string \<Rightarrow> string \<Rightarrow> bool" where
  "HasPrefix s p \<longleftrightarrow> take (length p) s = p"

definition HasSuffix :: "string \<Rightarrow> string \<Rightarrow> bool" where
  "HasSuffix s p \<longleftrightarrow> HasPrefix (rev s) (rev p)"

fun Contains :: "string \<Rightarrow> string \<Rightarrow> bool" where
  "Contains [] p \<longleftrightarrow> p = []"
| "Contains (x # xs) p \<longleftrightarrow> HasPrefix (x # xs) p \<or> Contains xs p"

lemma split_on_ne [simp]: "split_on c s \<noteq> []"
  by (induction s) (auto split: list.splits)

lemma split_on_none [simp]: "c \<notin> set s \<Longrightarrow> split_on c s = [s]"
  by (induction s) auto

lemma split_on_append [simp]:
  "c \<notin> set a \<Longrightarrow> split_on c (a @ c # b) = a # split_on c b"
  by (induction a) auto

lemma join_split: "join_with [c] (split_on c s) = s"
proof (induction s)
  case (Cons x xs)
  then show ?case
    by (cases "split_on c xs"; cases "tl (split_on c xs)") (auto split: list.splits)
qed simp

lemma split_on_no_sep: "w \<in> set (split_on c s) \<Longrightarrow> c \<notin> set w"
  by (induction s arbitrary: w) (auto split: list.splits if_splits)

lemma HasPrefix_append [simp]: "HasPrefix (p @ s) p"
  by (simp add: HasPrefix_def)

lemma HasPrefix_iff: "HasPrefix s p \<longleftrightarrow> (\<exists>t. s = p @ t)"
  by (auto simp: HasPrefix_def) (metis append_take_drop_id)

lemma Contains_iff: "Contains s p \<longleftrightarrow> (\<exists>a b. s = a @ p @ b)"
proof (induction s)
  case Nil
  then show ?case by auto
next
  case (Cons x xs)
  show ?case
  proof
    assume "Contains (x # xs) p"
    then consider "HasPrefix (x # xs) p" | "Contains xs p" by auto
    then show "\<exists>a b. x # xs = a @ p @ b"
    proof cases
      case 1
      then obtain t where "x # xs = [] @ p @ t" by (auto simp: HasPrefix_iff)
      then show ?thesis by blast
    next
      case 2
      with Cons.IH obtain a b where "x # xs = (x # a) @ p @ b" by auto
      then show ?thesis by blast
    qed
  next
    assume "\<exists>a b. x # xs = a @ p @ b"
    then obtain a b where eq: "x # xs = a @ p @ b" by blast
    show "Contains (x # xs) p"
    proof (cases a)
      case Nil
      with eq have "HasPrefix (x # xs) p" by (auto simp: HasPrefix_iff)
      then show ?thesis by simp
    next
      case (Cons y ys)
      with eq Cons.IH show ?thesis by auto
    qed
  qed
qed

lemma sep_inject:
  assumes "s \<notin> set a" and "s \<notin> set b" and "a @ s # x = b @ s # y"
  shows "a = b \<and> x = y"
  using assms
proof (induction a arbitrary: b)
  case Nil
  then show ?case by (cases b) auto
next
  case (Cons z a)
  then show ?case by (cases b) auto
qed

section \<open>Integers as text\<close>

text \<open>\<open>%d\<close> and \<open>%x\<close>: the digits of a number, most significant first.\<close>

fun digits_in :: "nat \<Rightarrow> nat \<Rightarrow> nat list" where
  "digits_in b n = (if b < 2 \<or> n < b then [n] else digits_in b (n div b) @ [n mod b])"

declare digits_in.simps [simp del]

definition digit_char :: "nat \<Rightarrow> char" where
  "digit_char d = (if d < 10 then char_of (48 + d) else char_of (87 + d))"

definition show_nat :: "nat \<Rightarrow> string" where
  "show_nat n = map digit_char (digits_in 10 n)"

definition show_hex :: "nat \<Rightarrow> string" where
  "show_hex n = map digit_char (digits_in 16 n)"

definition show_int :: "int \<Rightarrow> string" where
  "show_int i = (if i < 0 then CHR ''-'' # show_nat (nat (- i)) else show_nat (nat i))"

lemma digits_in_bound: "2 \<le> b \<Longrightarrow> \<forall>d \<in> set (digits_in b n). d < b"
proof (induction b n rule: digits_in.induct)
  case (1 b n)
  show ?case
  proof (cases "n < b")
    case True
    then show ?thesis by (subst digits_in.simps) simp
  next
    case False
    with 1 have "\<forall>d \<in> set (digits_in b (n div b)). d < b" by simp
    with False 1(2) show ?thesis by (subst digits_in.simps) auto
  qed
qed

lemma digits_in_value:
  "2 \<le> b \<Longrightarrow> foldl (\<lambda>a d. a * b + d) 0 (digits_in b n) = n"
proof (induction b n rule: digits_in.induct)
  case (1 b n)
  show ?case
  proof (cases "n < b")
    case True
    then show ?thesis by (subst digits_in.simps) simp
  next
    case False
    with 1 have "foldl (\<lambda>a d. a * b + d) 0 (digits_in b (n div b)) = n div b" by simp
    with False 1(2) show ?thesis by (subst digits_in.simps) simp
  qed
qed

lemma digits_in_inj: "2 \<le> b \<Longrightarrow> digits_in b m = digits_in b n \<Longrightarrow> m = n"
  by (metis digits_in_value)

lemma digit_char_value: "d < 16 \<Longrightarrow> of_char (digit_char d) = (if d < 10 then 48 + d else 87 + d)"
  by (simp add: digit_char_def)

lemma digit_char_inj: "d < 16 \<Longrightarrow> e < 16 \<Longrightarrow> digit_char d = digit_char e \<Longrightarrow> d = e"
proof -
  assume de: "d < 16" "e < 16" and "digit_char d = digit_char e"
  then have "(of_char (digit_char d) :: nat) = of_char (digit_char e)" by simp
  with de show "d = e" by (simp add: digit_char_value split: if_splits)
qed

lemma digit_char_not:
  assumes "d < 16" and "of_char c < (48::nat)"
  shows "digit_char d \<noteq> c"
proof
  assume "digit_char d = c"
  with digit_char_value [OF assms(1)] assms(2) show False by (simp split: if_splits)
qed

lemma map_digit_char_inj:
  assumes "\<forall>d \<in> set xs. d < 16" and "\<forall>d \<in> set ys. d < 16"
    and "map digit_char xs = map digit_char ys"
  shows "xs = ys"
  using assms
proof (induction xs arbitrary: ys)
  case (Cons x xs)
  then show ?case by (cases ys) (auto dest: digit_char_inj)
qed simp

lemma show_hex_inj: "show_hex m = show_hex n \<Longrightarrow> m = n"
proof -
  have b: "\<forall>d \<in> set (digits_in 16 k). d < 16" for k
    by (rule digits_in_bound) simp
  assume "show_hex m = show_hex n"
  with b have "digits_in 16 m = digits_in 16 n"
    unfolding show_hex_def by (blast intro: map_digit_char_inj)
  then show "m = n" by (rule digits_in_inj [rotated]) simp
qed

lemma show_nat_inj: "show_nat m = show_nat n \<Longrightarrow> m = n"
proof -
  have b: "\<forall>d \<in> set (digits_in 10 k). d < 16" for k
    using digits_in_bound [of 10 k] by auto
  assume "show_nat m = show_nat n"
  with b have "digits_in 10 m = digits_in 10 n"
    unfolding show_nat_def by (blast intro: map_digit_char_inj)
  then show "m = n" by (rule digits_in_inj [rotated]) simp
qed

lemma show_nat_no_dash: "CHR ''-'' \<notin> set (show_nat n)"
proof -
  have "digit_char d \<noteq> CHR ''-''" if "d < 10" for d
    using that by (intro digit_char_not) auto
  then show ?thesis
    using digits_in_bound [of 10 n] by (force simp: show_nat_def)
qed

end
