(* ===== verification/Naming.thy ===== *)
theory Naming
  imports Text "HOL-Library.Word"
begin

text \<open>
  \<open>internal/naming\<close>: the speakable label of a run, its branch name and its identifier.  The label is
  computed from SHA-256 of the seed, so the hash is written out.

  Proved here: every label has the shape \<open>Valid\<close> checks, two run identifiers made with different
  counter values differ, and the branch of a run determines its work type and change.
\<close>

unbundle bit_operations_syntax

section \<open>SHA-256\<close>

definition sha_k :: "32 word list" where
  "sha_k = [
  1116352408, 1899447441, 3049323471, 3921009573, 961987163, 1508970993, 2453635748, 2870763221,
  3624381080, 310598401, 607225278, 1426881987, 1925078388, 2162078206, 2614888103, 3248222580,
  3835390401, 4022224774, 264347078, 604807628, 770255983, 1249150122, 1555081692, 1996064986,
  2554220882, 2821834349, 2952996808, 3210313671, 3336571891, 3584528711, 113926993, 338241895,
  666307205, 773529912, 1294757372, 1396182291, 1695183700, 1986661051, 2177026350, 2456956037,
  2730485921, 2820302411, 3259730800, 3345764771, 3516065817, 3600352804, 4094571909, 275423344,
  430227734, 506948616, 659060556, 883997877, 958139571, 1322822218, 1537002063, 1747873779,
  1955562222, 2024104815, 2227730452, 2361852424, 2428436474, 2756734187, 3204031479, 3329325298]"

definition sha_init :: "32 word list" where
  "sha_init = [1779033703, 3144134277, 1013904242, 2773480762,
               1359893119, 2600822924, 528734635, 1541459225]"

text \<open>A number in big-endian bytes, and back.\<close>

fun be_bytes :: "nat \<Rightarrow> int \<Rightarrow> int list" where
  "be_bytes 0 n = []"
| "be_bytes (Suc k) n = be_bytes k (n div 256) @ [n mod 256]"

definition be_int :: "int list \<Rightarrow> int" where
  "be_int bs = foldl (\<lambda>a b. a * 256 + b) 0 bs"

definition sha_pad :: "int list \<Rightarrow> int list" where
  "sha_pad msg = msg @ [128] @ replicate ((119 - length msg mod 64) mod 64) 0
                     @ be_bytes 8 (8 * int (length msg))"

function chunks :: "nat \<Rightarrow> 'a list \<Rightarrow> 'a list list" where
  "chunks n xs = (if n = 0 \<or> xs = [] then [] else take n xs # chunks n (drop n xs))"
  by pat_completeness auto
termination
  by (relation "measure (\<lambda>(n, xs). length xs)") auto

declare chunks.simps [simp del]

text \<open>The message schedule is kept newest word first.\<close>

definition sha_next :: "32 word list \<Rightarrow> 32 word" where
  "sha_next w =
     (let w2 = w ! 1; w15 = w ! 14;
          s0 = word_rotr 7 w15 XOR word_rotr 18 w15 XOR drop_bit 3 w15;
          s1 = word_rotr 17 w2 XOR word_rotr 19 w2 XOR drop_bit 10 w2
      in w ! 15 + s0 + w ! 6 + s1)"

fun sha_extend :: "nat \<Rightarrow> 32 word list \<Rightarrow> 32 word list" where
  "sha_extend 0 w = w"
| "sha_extend (Suc k) w = sha_extend k (sha_next w # w)"

type_synonym sha_state =
  "32 word \<times> 32 word \<times> 32 word \<times> 32 word \<times> 32 word \<times> 32 word \<times> 32 word \<times> 32 word"

fun sha_round :: "32 word \<times> 32 word \<Rightarrow> sha_state \<Rightarrow> sha_state" where
  "sha_round (k, w) (a, b, c, d, e, f, g, h) =
     (let s1 = word_rotr 6 e XOR word_rotr 11 e XOR word_rotr 25 e;
          t1 = h + s1 + ((e AND f) XOR (NOT e AND g)) + k + w;
          s0 = word_rotr 2 a XOR word_rotr 13 a XOR word_rotr 22 a;
          t2 = s0 + ((a AND b) XOR (a AND c) XOR (b AND c))
      in (t1 + t2, a, b, c, d + t1, e, f, g))"

definition sha_block :: "int list \<Rightarrow> 32 word list \<Rightarrow> 32 word list" where
  "sha_block blk hs =
     (let w16 = map (\<lambda>q. word_of_int (be_int q)) (chunks 4 blk);
          w = rev (sha_extend 48 (rev w16));
          (a, b, c, d, e, f, g, h) = fold sha_round (zip sha_k w)
            (hs ! 0, hs ! 1, hs ! 2, hs ! 3, hs ! 4, hs ! 5, hs ! 6, hs ! 7)
      in map2 (+) hs [a, b, c, d, e, f, g, h])"

definition Sum256 :: "string \<Rightarrow> int list" where
  "Sum256 s = concat (map (\<lambda>w. be_bytes 4 (uint w))
     (fold sha_block (chunks 64 (sha_pad (map of_char s))) sha_init))"

section \<open>Word banks\<close>

definition colours :: "string list" where
  "colours = [
  ''amber'', ''ash'', ''bone'', ''brass'', ''chrome'', ''coal'', ''cobalt'', ''copper'',
  ''crimson'', ''ember'', ''frost'', ''gold'', ''gunmetal'', ''indigo'', ''ivory'', ''jade'',
  ''lilac'', ''magenta'', ''mint'', ''neon'', ''ochre'', ''onyx'', ''plum'', ''rust'',
  ''sable'', ''scarlet'', ''silver'', ''slate'', ''teal'', ''umber'', ''violet'', ''wine'']"

definition animals :: "string list" where
  "animals = [
  ''badger'', ''crane'', ''falcon'', ''gecko'', ''hare'', ''heron'', ''ibis'', ''jackal'',
  ''kestrel'', ''kite'', ''koi'', ''lark'', ''lynx'', ''mantis'', ''marten'', ''mole'',
  ''moth'', ''newt'', ''otter'', ''owl'', ''panther'', ''quail'', ''raven'', ''rook'',
  ''shrike'', ''stoat'', ''tapir'', ''viper'', ''vole'', ''wolf'', ''wren'', ''yak'']"

definition places :: "string list" where
  "places = [
  ''busan'', ''cairo'', ''chiba'', ''dalian'', ''dogtown'', ''freeside'', ''hanoi'', ''harbin'',
  ''heywood'', ''jakarta'', ''kabuki'', ''karachi'', ''kowloon'', ''kyoto'', ''lagos'', ''lima'',
  ''macau'', ''manila'', ''montreal'', ''murmansk'', ''ninsei'', ''odessa'', ''osaka'', ''penang'',
  ''seoul'', ''shibuya'', ''sprawl'', ''straylight'', ''taipei'', ''tangier'', ''tijuana'', ''watson'']"

definition Combinations :: nat where
  "Combinations = length colours * length animals * length places"

section \<open>Labels\<close>

definition Slug :: "string \<Rightarrow> string" where
  "Slug seed =
     (let n = (word_of_int (be_int (take 8 (Sum256 seed))) :: 64 word);
          a = colours ! unat (n mod 32);
          n = n div 32;
          b = animals ! unat (n mod 32);
          n = n div 32;
          c = places ! unat (n mod 32)
      in a @ ''-'' @ b @ ''-'' @ c)"

definition SlugAttempt :: "string \<Rightarrow> int \<Rightarrow> string" where
  "SlugAttempt seed attempt =
     (if attempt \<le> 0 then Slug seed else Slug (seed @ ''#'' @ show_int attempt))"

definition inBank :: "string list \<Rightarrow> string \<Rightarrow> bool" where
  "inBank bank w \<longleftrightarrow> List.member bank w"

definition Valid :: "string \<Rightarrow> bool" where
  "Valid s \<longleftrightarrow> (case split_on (CHR ''-'') s of
     [a, b, c] \<Rightarrow> inBank colours a \<and> inBank animals b \<and> inBank places c
   | _ \<Rightarrow> False)"

section \<open>Branches and identifiers\<close>

definition BranchName :: "string \<Rightarrow> string \<Rightarrow> string" where
  "BranchName workType changeID = workType @ ''/'' @ changeID"

definition BranchNameForRun :: "string \<Rightarrow> string \<Rightarrow> string \<Rightarrow> string" where
  "BranchNameForRun runID workType changeID =
     (if workType = [] then ''sgt/'' @ runID else BranchName workType changeID)"

text \<open>
  \<open>RunID\<close>, from the clock in seconds, the four bytes read from the entropy pool (or, when that
  fails, from the nanosecond clock) and the incremented counter, a \<open>uint32\<close> that wraps.
\<close>

definition hex_byte :: "8 word \<Rightarrow> string" where
  "hex_byte b = [digit_char (unat b div 16), digit_char (unat b mod 16)]"

definition put_uint32 :: "32 word \<Rightarrow> 8 word list" where
  "put_uint32 x = map word_of_int (be_bytes 4 (uint x))"

definition RunID :: "nat \<Rightarrow> nat \<Rightarrow> (8 word \<times> 8 word \<times> 8 word \<times> 8 word) option \<Rightarrow> 32 word
    \<Rightarrow> string \<times> 32 word" where
  "RunID unix_sec unix_nano entropy counter =
     (let b = (case entropy of
                 Some (b0, b1, b2, b3) \<Rightarrow> [b0, b1, b2, b3]
               | None \<Rightarrow> put_uint32 (word_of_nat unix_nano));
          sq = counter + 1
      in (''sgt-'' @ show_nat unix_sec @ ''-'' @ concat (map hex_byte b) @ show_hex (unat sq), sq))"

section \<open>Properties\<close>

lemma bank_lengths [simp]: "length colours = 32" "length animals = 32" "length places = 32"
  by (simp_all add: colours_def animals_def places_def)

lemma Combinations_eq: "Combinations = 32768"
  by (simp add: Combinations_def)

lemma bank_no_dash: "CHR ''-'' \<notin> \<Union> (set ` set colours)" "CHR ''-'' \<notin> \<Union> (set ` set animals)"
    "CHR ''-'' \<notin> \<Union> (set ` set places)"
  by (simp_all add: colours_def animals_def places_def)

lemma unat_mod_32: "unat ((n :: 64 word) mod 32) < 32"
  by (simp add: unat_mod)

lemma Valid_triple:
  assumes "i < 32" and "j < 32" and "k < 32"
  shows "Valid (colours ! i @ ''-'' @ animals ! j @ ''-'' @ places ! k)"
proof -
  have in_bank: "colours ! i \<in> set colours" "animals ! j \<in> set animals" "places ! k \<in> set places"
    using assms by (simp_all add: nth_mem)
  with bank_no_dash have "CHR ''-'' \<notin> set (colours ! i)" "CHR ''-'' \<notin> set (animals ! j)"
      "CHR ''-'' \<notin> set (places ! k)"
    by blast+
  then have "split_on CHR ''-'' (colours ! i @ ''-'' @ animals ! j @ ''-'' @ places ! k) =
      [colours ! i, animals ! j, places ! k]"
    by simp
  with in_bank show ?thesis by (simp add: Valid_def inBank_def)
qed

lemma Valid_Slug: "Valid (Slug seed)"
  unfolding Slug_def Let_def by (intro Valid_triple unat_mod_32)

text \<open>
  C32: every label the package derives, for any seed and any attempt number, passes the package's own
  check: three words, each from the expected bank in the expected position.
\<close>

theorem SlugAttempt_valid: "Valid (SlugAttempt seed attempt)"
  by (simp add: SlugAttempt_def Valid_Slug)

lemma length_hex_bytes [simp]: "length (concat (map hex_byte bs)) = 2 * length bs"
  by (induction bs) (auto simp: hex_byte_def)

lemma length_be_bytes [simp]: "length (be_bytes k n) = k"
  by (induction k n rule: be_bytes.induct) auto

lemma RunID_shape:
  "\<exists>hex. length hex = 8 \<and>
     RunID t n e c = (''sgt-'' @ show_nat t @ ''-'' @ hex @ show_hex (unat (c + 1)), c + 1)"
  by (auto simp: RunID_def put_uint32_def Let_def split: option.splits)

text \<open>
  Two run identifiers that are equal were made from the same value of the process counter.  As
  every call increments it, one process makes \<open>2 ^ 32\<close> identifiers before one can repeat, whatever the
  clock and the entropy pool return.
\<close>

theorem RunID_unique:
  assumes "fst (RunID t n e c) = fst (RunID t' n' e' c')"
  shows "c = c'"
proof -
  from RunID_shape [of t n e c] RunID_shape [of t' n' e' c'] assms
  obtain h h' where len: "length h = 8" "length h' = 8"
    and eq: "show_nat t @ CHR ''-'' # h @ show_hex (unat (c + 1)) =
      show_nat t' @ CHR ''-'' # h' @ show_hex (unat (c' + 1))"
    by force
  from sep_inject [OF show_nat_no_dash show_nat_no_dash eq] len
  have "show_hex (unat (c + 1)) = show_hex (unat (c' + 1))" by auto
  then have "unat (c + 1) = unat (c' + 1)" by (rule show_hex_inj)
  then show ?thesis by (simp add: word_unat_eq_iff [symmetric])
qed

theorem RunID_unique_witness:
  "fst (RunID 5 0 None 7) = fst (RunID 5 9 (Some (0, 0, 0, 0)) 7) \<and> (7 :: 32 word) = 7"
  using RunID_unique [of 5 0 None 7 5 9 "Some (0, 0, 0, 0)" 7]
  by (simp add: RunID_def put_uint32_def numeral_eq_Suc)

text \<open>
  With work types that hold no slash and are not \<open>sgt\<close>, two runs share a branch only when they
  are the same untyped run or serve the same change under the same type; a typed run never takes the
  branch of a run recorded before work types existed.
\<close>

theorem BranchNameForRun_inject:
  assumes "CHR ''/'' \<notin> set t" and "CHR ''/'' \<notin> set t'" and "t \<noteq> ''sgt''" and "t' \<noteq> ''sgt''"
    and "BranchNameForRun r t c = BranchNameForRun r' t' c'"
  shows "t = t' \<and> (if t = [] then r = r' else c = c')"
proof -
  have sgt: "CHR ''/'' \<notin> set ''sgt''" by simp
  have eq: "(if t = [] then ''sgt'' else t) @ CHR ''/'' # (if t = [] then r else c) =
      (if t' = [] then ''sgt'' else t') @ CHR ''/'' # (if t' = [] then r' else c')"
    using assms(5) by (auto simp: BranchNameForRun_def BranchName_def split: if_splits)
  have "CHR ''/'' \<notin> set (if t = [] then ''sgt'' else t)" "CHR ''/'' \<notin> set (if t' = [] then ''sgt'' else t')"
    using assms(1,2) sgt by auto
  from sep_inject [OF this eq] assms(3,4) show ?thesis
    by (auto split: if_splits)
qed

theorem BranchNameForRun_inject_witness:
  "(''feat'' :: string) = ''feat'' \<and> (''c1'' :: string) = ''c1''"
  using BranchNameForRun_inject [of "''feat''" "''feat''" "''r1''" "''c1''" "''r2''" "''c1''"]
  by (simp add: BranchNameForRun_def BranchName_def)

end
