(* ===== verification/Redact.thy ===== *)
theory Redact
  imports Text
begin

text \<open>
  \<open>internal/redact\<close>: the pass that scrubs secret shapes from text before it is stored.  The three
  regular expressions are written as matchers: given whether the position is at the start of a line
  and the rest of the text, a matcher returns the number of bytes matched and their replacement.  The
  expressions need no backtracking, because each repetition is followed by something outside its
  class, so the greedy run is the match RE2 finds.

  Proved here: no API key shape survives, in text or in any string of a document; text with nothing to
  scrub is unchanged; and a scrubbed text can be longer than the original.
\<close>

definition placeholder :: string where
  "placeholder = ''[REDACTED]''"

section \<open>Character classes\<close>

definition char_between :: "char \<Rightarrow> char \<Rightarrow> char \<Rightarrow> bool" where
  "char_between lo hi c \<longleftrightarrow> (of_char lo :: nat) \<le> of_char c \<and> (of_char c :: nat) \<le> of_char hi"

definition is_digit :: "char \<Rightarrow> bool" where
  "is_digit c \<longleftrightarrow> char_between (CHR ''0'') (CHR ''9'') c"

definition is_upper :: "char \<Rightarrow> bool" where
  "is_upper c \<longleftrightarrow> char_between (CHR ''A'') (CHR ''Z'') c"

definition is_lower :: "char \<Rightarrow> bool" where
  "is_lower c \<longleftrightarrow> char_between (CHR ''a'') (CHR ''z'') c"

definition is_alnum :: "char \<Rightarrow> bool" where
  "is_alnum c \<longleftrightarrow> is_upper c \<or> is_lower c \<or> is_digit c"

definition to_lower :: "char \<Rightarrow> char" where
  "to_lower c = (if is_upper c then char_of (of_char c + 32 :: nat) else c)"

text \<open>The whitespace class of RE2.\<close>

definition re_space :: "char \<Rightarrow> bool" where
  "re_space c \<longleftrightarrow> c \<in> {CHR '' '', CHR 0x09, CHR 0x0A, CHR 0x0C, CHR 0x0D}"

section \<open>The three expressions\<close>

type_synonym matcher = "bool \<Rightarrow> string \<Rightarrow> (nat \<times> string) option"

text \<open>
  \<open>apiKeyPattern\<close>: each alternative is a sequence of one-character classes, then a class repeated at
  least a given number of times.
\<close>

definition api_alternatives :: "(string list \<times> (char \<Rightarrow> bool) \<times> nat) list" where
  "api_alternatives = [
     ([''s'', ''k'', ''-''], is_alnum, 20),
     ([''g'', ''h'', ''oprsu'', ''_''], is_alnum, 20),
     ([''A'', ''K'', ''I'', ''A''], \<lambda>c. is_upper c \<or> is_digit c, 16),
     ([''A'', ''I'', ''z'', ''a''], \<lambda>c. is_alnum c \<or> c = CHR ''_'' \<or> c = CHR ''-'', 35),
     ([''x'', ''o'', ''x'', ''bpoa'', ''-''], \<lambda>c. is_alnum c \<or> c = CHR ''-'', 10)]"

fun match_classes :: "string list \<Rightarrow> string \<Rightarrow> string option" where
  "match_classes [] s = Some s"
| "match_classes (cl # cls) [] = None"
| "match_classes (cl # cls) (c # cs) = (if List.member cl c then match_classes cls cs else None)"

definition match_alternative :: "string list \<times> (char \<Rightarrow> bool) \<times> nat \<Rightarrow> string \<Rightarrow> nat option" where
  "match_alternative alt s =
     (case alt of (cls, P, n) \<Rightarrow>
        case match_classes cls s of
          None \<Rightarrow> None
        | Some rest \<Rightarrow> (let k = length (takeWhile P rest) in
                        if n \<le> k then Some (length cls + k) else None))"

fun first_match :: "(string list \<times> (char \<Rightarrow> bool) \<times> nat) list \<Rightarrow> string \<Rightarrow> nat option" where
  "first_match [] s = None"
| "first_match (alt # alts) s =
     (case match_alternative alt s of Some k \<Rightarrow> Some k | None \<Rightarrow> first_match alts s)"

definition apiKey :: matcher where
  "apiKey bol s = (case first_match api_alternatives s of
     None \<Rightarrow> None | Some k \<Rightarrow> Some (k, placeholder))"

text \<open>\<open>bearerPattern\<close>: group 1 is everything before the token and is kept.\<close>

definition bearer :: matcher where
  "bearer bol s =
     (let a = ''authorization:''; b = ''bearer'' in
      if map to_lower (take (length a) s) \<noteq> a then None else
      let s1 = drop (length a) s; sp1 = takeWhile re_space s1; s2 = drop (length sp1) s1 in
      if map to_lower (take (length b) s2) \<noteq> b then None else
      let s3 = drop (length b) s2; sp2 = takeWhile re_space s3; s4 = drop (length sp2) s3;
          tok = takeWhile (\<lambda>c. \<not> re_space c) s4 in
      if sp2 = [] \<or> tok = [] then None else
      let pre = length a + length sp1 + length b + length sp2 in
      Some (pre + length tok, take pre s @ placeholder))"

text \<open>
  \<open>credentialLinePattern\<close>.  Under \<open>(?i)\<close> the class \<open>[A-Za-z0-9_.-]\<close> also matches the two code points
  beyond ASCII that fold to a letter: the Kelvin sign, to \<open>k\<close>, and the long s, to \<open>s\<close>.  A position of
  the name is its folded character and its length in bytes.
\<close>

definition name_char :: "string \<Rightarrow> (char \<times> nat) option" where
  "name_char s =
     (if HasPrefix s [CHR 0xE2, CHR 0x84, CHR 0xAA] then Some (CHR ''k'', 3)
      else if HasPrefix s [CHR 0xC5, CHR 0xBF] then Some (CHR ''s'', 2)
      else case s of
        [] \<Rightarrow> None
      | c # _ \<Rightarrow> if is_alnum c \<or> c = CHR ''_'' \<or> c = CHR ''.'' \<or> c = CHR ''-''
                 then Some (to_lower c, 1) else None)"

fun span_name :: "nat \<Rightarrow> string \<Rightarrow> string \<times> nat" where
  "span_name 0 s = ([], 0)"
| "span_name (Suc fuel) s =
     (case name_char s of
        None \<Rightarrow> ([], 0)
      | Some (c, k) \<Rightarrow> (case span_name fuel (drop k s) of (cs, n) \<Rightarrow> (c # cs, k + n)))"

definition credential_words :: "string list" where
  "credential_words = [''key'', ''token'', ''secret'', ''password'', ''credential'']"

definition credentialLine :: matcher where
  "credentialLine bol s =
     (if \<not> bol then None else
      case span_name (length s) s of (folded, n) \<Rightarrow>
        if \<not> list_ex (Contains folded) credential_words then None else
        case drop n s of
          [] \<Rightarrow> None
        | c # rest \<Rightarrow>
            if c \<noteq> CHR ''='' then None else
            let v = takeWhile (\<lambda>x. x \<noteq> CHR 0x0A) rest in
            if v = [] then None
            else Some (n + 1 + length v, take n s @ ''='' @ placeholder))"

section \<open>Replacing every match\<close>

text \<open>
  \<open>ReplaceAllString\<close>: leftmost matches, not overlapping; \<open>^\<close> looks at the original text.
\<close>

function replace_all :: "matcher \<Rightarrow> bool \<Rightarrow> string \<Rightarrow> string" where
  "replace_all m bol [] = []"
| "replace_all m bol (c # cs) =
     (case m bol (c # cs) of
        Some (Suc k, r) \<Rightarrow>
          r @ replace_all m (last (take (Suc k) (c # cs)) = CHR 0x0A) (drop k cs)
      | _ \<Rightarrow> c # replace_all m (c = CHR 0x0A) cs)"
  by pat_completeness auto
termination
  by (relation "measure (\<lambda>(m, bol, s). length s)") auto

definition Text :: "string \<Rightarrow> string" where
  "Text s =
     (let s = replace_all apiKey True s;
          s = replace_all bearer True s;
          s = replace_all credentialLine True s
      in s)"

text \<open>
  \<open>redactValue\<close> walks a decoded document; \<open>JSON\<close> leaves empty and malformed input alone.
\<close>

fun redactValue :: "json \<Rightarrow> json" where
  "redactValue (JStr s) = JStr (Text s)"
| "redactValue (JArr xs) = JArr (map redactValue xs)"
| "redactValue (JObj ms) = JObj (map (\<lambda>(k, v). (k, redactValue v)) ms)"
| "redactValue v = v"

fun redact_JSON :: "raw_json \<Rightarrow> raw_json" where
  "redact_JSON RawEmpty = RawEmpty"
| "redact_JSON (RawBad s) = RawBad s"
| "redact_JSON (RawDoc j) = RawDoc (redactValue j)"

text \<open>\<open>Truncate\<close>; a negative limit panics in the slice expression.\<close>

definition Truncate :: "string \<Rightarrow> int \<Rightarrow> string option" where
  "Truncate s maxBytes =
     (if int (length s) \<le> maxBytes then Some s
      else if maxBytes < 0 then None
      else Some (take (nat maxBytes) s @ CHR 0x0A # ''[TRUNCATED: '' @
                 show_nat (length s - nat maxBytes) @ '' bytes cut]''))"

section \<open>No key survives\<close>

text \<open>A redacting matcher keeps a prefix of what it matched and replaces the rest.\<close>

definition redacting :: "matcher \<Rightarrow> bool" where
  "redacting m \<longleftrightarrow> (\<forall>bol s k r. m bol s = Some (k, r) \<longrightarrow>
     (\<exists>pre. r = pre @ placeholder \<and> prefix pre (take k s)))"

lemma redacting_apiKey: "redacting apiKey"
  by (auto simp: redacting_def apiKey_def split: option.splits)

lemma redactingD:
  "redacting m \<Longrightarrow> m bol s = Some (k, r) \<Longrightarrow>
   (\<And>pre. r = pre @ placeholder \<Longrightarrow> prefix pre (take k s) \<Longrightarrow> thesis) \<Longrightarrow> thesis"
  unfolding redacting_def by metis

lemma prefix_take_more: "n \<le> k \<Longrightarrow> prefix (take n s) (take k s)"
  by (metis prefix_def le_add_diff_inverse take_add)

lemma redacting_bearer: "redacting bearer"
  unfolding redacting_def
proof (intro allI impI)
  fix bol s k r
  assume "bearer bol s = Some (k, r)"
  then obtain pre where "r = take pre s @ placeholder" and "pre \<le> k"
    unfolding bearer_def Let_def by (auto split: if_splits)
  then show "\<exists>pre. r = pre @ placeholder \<and> prefix pre (take k s)"
    by (blast intro: prefix_take_more)
qed

lemma redacting_credentialLine: "redacting credentialLine"
proof -
  have eq: "take n s @ [CHR ''=''] = take (n + 1) s" if "drop n s = CHR ''='' # rest" for n s rest
    using that by (metis add.commute drop_eq_Nil id_take_nth_drop list.distinct(1) linorder_not_le
        nth_via_drop plus_1_eq_Suc take_Suc_conv_app_nth)
  show ?thesis
    unfolding redacting_def
  proof (intro allI impI)
    fix bol s k r
    assume m: "credentialLine bol s = Some (k, r)"
    obtain folded n where sp: "span_name (length s) s = (folded, n)" by fastforce
    from m sp obtain rest where rest: "drop n s = CHR ''='' # rest"
      and k: "n + 1 \<le> k" and r: "r = take n s @ ''='' @ placeholder"
      by (auto simp: credentialLine_def Let_def split: if_splits list.splits)
    have "prefix (take (n + 1) s) (take k s)"
      using k by (rule prefix_take_more)
    with r eq [OF rest] show "\<exists>pre. r = pre @ placeholder \<and> prefix pre (take k s)"
      by (metis append.assoc)
  qed
qed

text \<open>A word without brackets lies on one side of a bracket.\<close>

lemma prefix_before: "prefix q (a @ c # b) \<Longrightarrow> c \<notin> set q \<Longrightarrow> prefix q a"
  by (auto simp: prefix_append prefix_Cons)

lemma sublist_around:
  "sublist q (a @ c # b) \<Longrightarrow> c \<notin> set q \<Longrightarrow> sublist q a \<or> sublist q b"
proof (induction a)
  case Nil
  then show ?case by (auto simp: sublist_Cons_right prefix_Cons)
next
  case (Cons z a)
  from Cons.prems(1) consider "prefix q ((z # a) @ c # b)" | "sublist q (a @ c # b)"
    by (auto simp: sublist_Cons_right)
  then show ?case
  proof cases
    case 1
    then have "prefix q (z # a)" using Cons.prems(2) by (rule prefix_before)
    then show ?thesis by (simp add: sublist_Cons_right)
  next
    case 2
    with Cons show ?thesis by (auto simp: sublist_Cons_right)
  qed
qed

text \<open>A word that neither holds a bracket nor lies inside the placeholder is never created.\<close>

definition foreign :: "string \<Rightarrow> bool" where
  "foreign q \<longleftrightarrow> CHR ''['' \<notin> set q \<and> CHR '']'' \<notin> set q \<and> \<not> sublist q ''REDACTED''"

lemma sublist_placeholder:
  assumes "foreign q" and "sublist q (a @ placeholder @ b)"
  shows "sublist q a \<or> sublist q b"
proof -
  have "a @ placeholder @ b = a @ CHR ''['' # (''REDACTED'' @ CHR '']'' # b)"
    by (simp add: placeholder_def)
  with assms show ?thesis
    unfolding foreign_def by (metis sublist_around)
qed

lemma replace_all_no_new:
  assumes q: "foreign q"
  shows "redacting m \<Longrightarrow> sublist q (x @ replace_all m bol s) \<Longrightarrow> sublist q (x @ s)"
proof (induction m bol s arbitrary: x rule: replace_all.induct)
  case (1 m bol)
  then show ?case by simp
next
  case (2 m bol c cs)
  show ?case
  proof (cases "\<exists>k r. m bol (c # cs) = Some (Suc k, r)")
    case True
    then obtain k r where m: "m bol (c # cs) = Some (Suc k, r)" by blast
    let ?R = "replace_all m (last (take (Suc k) (c # cs)) = CHR 0x0A) (drop k cs)"
    from "2.prems"(1) m obtain pre where r: "r = pre @ placeholder" and pre: "prefix pre (take (Suc k) (c # cs))"
      by (rule redactingD)
    from "2.prems"(2) m r have "sublist q ((x @ pre) @ placeholder @ ?R)" by simp
    with q have "sublist q (x @ pre) \<or> sublist q ?R" by (rule sublist_placeholder)
    then show ?thesis
    proof
      assume "sublist q (x @ pre)"
      moreover have "prefix (x @ pre) (x @ c # cs)"
        using pre by (metis prefix_order.order_trans same_prefix_prefix take_is_prefix)
      ultimately show ?thesis
        by (meson prefix_imp_sublist sublist_order.order_trans)
    next
      assume "sublist q ?R"
      with "2.IH"(3) [OF m refl refl "2.prems"(1), of "[]"] have "sublist q (drop k cs)" by simp
      moreover have "suffix (drop k cs) (x @ c # cs)"
        by (metis append_Cons append_Nil append_take_drop_id suffixI suffix_appendI)
      ultimately show ?thesis
        by (meson suffix_imp_sublist sublist_order.order_trans)
    qed
  next
    case False
    then have eq: "replace_all m bol (c # cs) = c # replace_all m (c = CHR 0x0A) cs"
      by (auto split: option.split nat.split prod.split)
    have IH: "sublist q (y @ replace_all m (c = CHR 0x0A) cs) \<Longrightarrow> sublist q (y @ cs)" for y
    proof (cases "m bol (c # cs)")
      case None
      then show "sublist q (y @ replace_all m (c = CHR 0x0A) cs) \<Longrightarrow> sublist q (y @ cs)"
        using "2.IH"(1) "2.prems"(1) by blast
    next
      case (Some p)
      with False obtain r where p: "p = (0, r)" by (cases p; cases "fst p") auto
      show "sublist q (y @ replace_all m (c = CHR 0x0A) cs) \<Longrightarrow> sublist q (y @ cs)"
        using "2.IH"(2) [OF Some p [symmetric] HOL.refl "2.prems"(1)] .
    qed
    from "2.prems"(2) eq IH [of "x @ [c]"] show ?thesis by simp
  qed
qed

section \<open>API keys\<close>

text \<open>The shortest word each alternative matches, and the matcher's view of it.\<close>

definition key_at :: "string \<Rightarrow> bool" where
  "key_at s \<longleftrightarrow> first_match api_alternatives s \<noteq> None"

definition has_key :: "string \<Rightarrow> bool" where
  "has_key s \<longleftrightarrow> (\<exists>p. key_at (drop p s))"

lemma match_classes_append:
  "match_classes cls s = Some rest \<Longrightarrow> match_classes cls (s @ t) = Some (rest @ t)"
  by (induction cls s rule: match_classes.induct) (auto split: if_splits)

lemma match_classes_split:
  "match_classes cls s = Some rest \<Longrightarrow>
   \<exists>w. s = w @ rest \<and> length w = length cls \<and> set w \<subseteq> \<Union> (set ` set cls)"
proof (induction cls s rule: match_classes.induct)
  case (3 cl cls c cs)
  then obtain w where "cs = w @ rest" "length w = length cls" "set w \<subseteq> \<Union> (set ` set cls)" "c \<in> set cl"
    by (auto split: if_splits)
  then show ?case by (intro exI [of _ "c # w"]) auto
qed auto

lemma match_classes_word:
  "match_classes cls (w @ r) = Some r' \<Longrightarrow> length w = length cls \<Longrightarrow>
   match_classes cls (w @ t) = Some t"
proof (induction cls arbitrary: w)
  case (Cons cl cls)
  then show ?case by (cases w) (auto split: if_splits)
qed simp

lemma first_match_ex:
  "first_match alts s \<noteq> None \<longleftrightarrow> (\<exists>alt \<in> set alts. match_alternative alt s \<noteq> None)"
  by (induction alts) (auto split: option.splits)

lemma first_match_pos: "first_match api_alternatives s = Some k \<Longrightarrow> 0 < k"
  by (auto simp: api_alternatives_def match_alternative_def Let_def split: option.splits if_splits)

lemma bracket_not_alnum [simp]: "\<not> is_alnum CHR ''[''" "\<not> is_alnum CHR '']''"
  by (simp_all add: is_alnum_def is_upper_def is_lower_def is_digit_def char_between_def)

lemma alternatives_no_bracket:
  assumes "(cls, P, n) \<in> set api_alternatives" and "c = CHR ''['' \<or> c = CHR '']''"
  shows "c \<notin> \<Union> (set ` set cls) \<and> \<not> P c \<and> 8 < length cls + n"
  using assms by (auto simp: api_alternatives_def is_alnum_def is_upper_def is_lower_def is_digit_def
      char_between_def)

text \<open>Where a key starts, a foreign word starts that is a key however the text goes on.\<close>

lemma key_word:
  assumes "key_at s"
  obtains q where "prefix q s" and "foreign q" and "q \<noteq> []" and "\<forall>t. key_at (q @ t)"
proof -
  from assms obtain cls P n where alt: "(cls, P, n) \<in> set api_alternatives"
    and m: "match_alternative (cls, P, n) s \<noteq> None"
    unfolding key_at_def first_match_ex by (metis prod_cases3)
  from m obtain rest where cl: "match_classes cls s = Some rest" and n: "n \<le> length (takeWhile P rest)"
    by (auto simp: match_alternative_def Let_def split: option.splits if_splits)
  from match_classes_split [OF cl] obtain w where
    w: "s = w @ rest" "length w = length cls" "set w \<subseteq> \<Union> (set ` set cls)" by blast
  define v where "v = take n (takeWhile P rest)"
  have v: "length v = n" "\<forall>c \<in> set v. P c"
    using n unfolding v_def by (auto dest: in_set_takeD set_takeWhileD)
  have "prefix v rest"
    unfolding v_def by (meson prefix_order.order_trans take_is_prefix takeWhile_is_prefix)
  have pre: "prefix (w @ v) s" using w(1) \<open>prefix v rest\<close> by simp
  note br = alternatives_no_bracket [OF alt]
  have len: "8 < length (w @ v)" using br [of "CHR ''[''"] w(2) v(1) by simp
  have "foreign (w @ v)"
    unfolding foreign_def
  proof (intro conjI)
    show "CHR ''['' \<notin> set (w @ v)" "CHR '']'' \<notin> set (w @ v)"
      using br [of "CHR ''[''"] br [of "CHR '']''"] w(3) v(2) by auto
    show "\<not> sublist (w @ v) ''REDACTED''"
      using len by (auto dest: sublist_length_le)
  qed
  moreover have "key_at ((w @ v) @ t)" for t
  proof -
    have "match_classes cls (w @ v @ t) = Some (v @ t)"
      using cl w by (intro match_classes_word) auto
    moreover have "n \<le> length (takeWhile P (v @ t))" using v by simp
    ultimately have "match_alternative (cls, P, n) ((w @ v) @ t) \<noteq> None"
      by (simp add: match_alternative_def Let_def)
    with alt show ?thesis unfolding key_at_def first_match_ex by blast
  qed
  moreover have "w @ v \<noteq> []" using len by auto
  ultimately show ?thesis using that [of "w @ v"] pre by blast
qed

lemma has_key_word:
  assumes "has_key s"
  obtains q where "sublist q s" and "foreign q" and "q \<noteq> []" and "\<forall>t. key_at (q @ t)"
proof -
  from assms obtain p where "key_at (drop p s)" by (auto simp: has_key_def)
  then obtain q where "prefix q (drop p s)" "foreign q" "q \<noteq> []" "\<forall>t. key_at (q @ t)"
    by (rule key_word)
  moreover have "sublist q s"
    using \<open>prefix q (drop p s)\<close>
    by (meson prefix_imp_sublist sublist_drop sublist_order.order_trans)
  ultimately show ?thesis using that by blast
qed

lemma key_word_has_key:
  assumes "sublist q s" and "\<forall>t. key_at (q @ t)"
  shows "has_key s"
proof -
  from assms(1) obtain a b where "s = a @ q @ b" by (auto simp: sublist_def)
  then have "drop (length a) s = q @ b" by simp
  with assms(2) show ?thesis unfolding has_key_def by metis
qed

lemma api_pass_clean:
  assumes "\<forall>p < length x. \<not> key_at (drop p (x @ s))"
  shows "\<not> has_key (x @ replace_all apiKey bol s)"
  using assms
proof (induction "length s" arbitrary: x bol s rule: less_induct)
  case less
  have old: False if "sublist q x" "q \<noteq> []" "\<forall>t. key_at (q @ t)" for q
  proof -
    from that(1) obtain a b where x: "x = a @ q @ b" by (auto simp: sublist_def)
    then have "key_at (drop (length a) (x @ s))" using that(3) by simp
    moreover have "length a < length x" using x that(2) by simp
    ultimately show False using less.prems by blast
  qed
  show ?case
  proof (cases s)
    case Nil
    show ?thesis
    proof
      assume "has_key (x @ replace_all apiKey bol s)"
      with Nil have "has_key x" by simp
      then show False using old by (rule has_key_word)
    qed
  next
    case (Cons c cs)
    show ?thesis
    proof (cases "first_match api_alternatives s")
      case None
      then have eq: "replace_all apiKey bol s = c # replace_all apiKey (c = CHR 0x0A) cs"
        using Cons by (simp add: apiKey_def)
      have "\<forall>p < length (x @ [c]). \<not> key_at (drop p ((x @ [c]) @ cs))"
        using less.prems None Cons by (auto simp: less_Suc_eq key_at_def)
      with Cons have "\<not> has_key ((x @ [c]) @ replace_all apiKey (c = CHR 0x0A) cs)"
        by (intro less.hyps) auto
      then show ?thesis by (simp add: eq)
    next
      case (Some k)
      then obtain k' where k': "k = Suc k'" using first_match_pos by (cases k) auto
      define R where "R = replace_all apiKey (last (take (Suc k') (c # cs)) = CHR 0x0A) (drop k' cs)"
      have eq: "replace_all apiKey bol s = placeholder @ R"
        using Some Cons k' by (simp add: apiKey_def R_def)
      have R: "\<not> has_key ([] @ R)"
        unfolding R_def using Cons by (intro less.hyps) auto
      show ?thesis
      proof
        assume "has_key (x @ replace_all apiKey bol s)"
        then obtain q where q: "sublist q (x @ placeholder @ R)" "foreign q" "q \<noteq> []"
          "\<forall>t. key_at (q @ t)" unfolding eq by (rule has_key_word)
        from sublist_placeholder [OF q(2,1)] show False
          using old q(3,4) R key_word_has_key by auto
      qed
    qed
  qed
qed

text \<open>
  C30: no text that has been through \<open>Text\<close> holds, at any position, a string \<open>apiKeyPattern\<close> matches:
  the later passes cannot glue a key together from what the first one left.
\<close>

theorem Text_no_api_key: "first_match api_alternatives (drop p (Text s)) = None"
proof (rule ccontr)
  assume "first_match api_alternatives (drop p (Text s)) \<noteq> None"
  then have "has_key (Text s)" by (auto simp: has_key_def key_at_def)
  then obtain q where q: "sublist q (Text s)" "foreign q" "q \<noteq> []" "\<forall>t. key_at (q @ t)"
    by (rule has_key_word)
  let ?a = "replace_all apiKey True s"
  let ?b = "replace_all bearer True ?a"
  from q(1) have "sublist q ([] @ replace_all credentialLine True ?b)" by (simp add: Text_def)
  then have "sublist q ([] @ ?b)" by (rule replace_all_no_new [OF q(2) redacting_credentialLine])
  then have "sublist q ([] @ ?a)" by (rule replace_all_no_new [OF q(2) redacting_bearer])
  then have "has_key ([] @ ?a)" using q(4) by (rule key_word_has_key)
  with api_pass_clean [of "[]" s True] show False by simp
qed

section \<open>Documents and ordinary text\<close>

text \<open>The strings of a document, and how redaction acts on them.\<close>

fun leaves :: "json \<Rightarrow> string list" where
  "leaves (JStr s) = [s]"
| "leaves (JArr xs) = concat (map leaves xs)"
| "leaves (JObj ms) = concat (map (\<lambda>(k, v). leaves v) ms)"
| "leaves v = []"

lemma concat_map_cong: "(\<And>x. x \<in> set xs \<Longrightarrow> f x = g x) \<Longrightarrow> concat (map f xs) = concat (map g xs)"
  by (induction xs) auto

lemma leaves_redactValue: "leaves (redactValue j) = map Text (leaves j)"
proof (induction j rule: redactValue.induct)
  case (2 xs)
  then show ?case by (auto simp: map_concat comp_def intro!: concat_map_cong)
next
  case (3 ms)
  then show ?case by (auto simp: map_concat comp_def case_prod_beta intro!: concat_map_cong)
qed auto

text \<open>
  Redacting a document that parses scrubs every string value in it, at any depth, and nothing
  else: the strings of the result are the scrubbed strings of the original, in order, and none of
  them holds an API key shape.
\<close>

theorem JSON_scrubs_leaves:
  "\<exists>j'. redact_JSON (RawDoc j) = RawDoc j' \<and> leaves j' = map Text (leaves j) \<and>
     list_all (\<lambda>s. \<not> has_key s) (leaves j')"
  using Text_no_api_key by (auto simp: leaves_redactValue list_all_iff has_key_def key_at_def)

lemma replace_all_unmatched:
  "(\<And>p bol. p < length s \<Longrightarrow> m bol (drop p s) = None) \<Longrightarrow> replace_all m bol s = s"
proof (induction s arbitrary: bol)
  case (Cons c cs)
  have "replace_all m b cs = cs" for b
  proof (rule Cons.IH)
    fix p bol
    assume "p < length cs"
    with Cons.prems [of "Suc p" bol] show "m bol (drop p cs) = None" by simp
  qed
  with Cons.prems [of 0 bol] show ?case by simp
qed simp

text \<open>
  Text in which none of the three expressions matches anywhere is returned unchanged.
\<close>

theorem Text_ordinary:
  assumes "\<And>m bol p. m \<in> {apiKey, bearer, credentialLine} \<Longrightarrow> p < length s \<Longrightarrow> m bol (drop p s) = None"
  shows "Text s = s"
  using assms by (simp add: Text_def replace_all_unmatched)

theorem Text_ordinary_witness: "Text ''ok'' = ''ok''"
proof (rule Text_ordinary)
  fix m :: matcher and bol p
  assume "m \<in> {apiKey, bearer, credentialLine}" and "p < length ''ok''"
  then have "p = 0 \<or> p = 1" by auto
  with \<open>m \<in> _\<close> show "m bol (drop p ''ok'') = None"
    by (auto simp: apiKey_def api_alternatives_def match_alternative_def bearer_def credentialLine_def
        credential_words_def name_char_def HasPrefix_def to_lower_def is_alnum_def is_upper_def
        is_lower_def is_digit_def char_between_def Let_def numeral_2_eq_2)
qed

text \<open>
  \<open>Truncate\<close> keeps a text within the limit as it is, and otherwise keeps exactly \<open>maxBytes\<close> bytes
  of it in front of a marker that names how many were cut.
\<close>

theorem Truncate_spec:
  assumes "0 \<le> maxBytes"
  shows "\<exists>r. Truncate s maxBytes = Some r \<and>
    (if int (length s) \<le> maxBytes then r = s
     else take (nat maxBytes) r = take (nat maxBytes) s \<and>
          drop (nat maxBytes) r = CHR 0x0A # ''[TRUNCATED: '' @ show_nat (length s - nat maxBytes) @ '' bytes cut]'')"
proof -
  have "\<not> int (length s) \<le> maxBytes \<Longrightarrow> length (take (nat maxBytes) s) = nat maxBytes"
    using assms by simp
  with assms show ?thesis by (auto simp: Truncate_def)
qed

theorem Truncate_spec_witness: "Truncate ''abcdef'' 2 \<noteq> None"
  using Truncate_spec [of 2 "''abcdef''"] by auto

text \<open>
  Redaction can lengthen a text, so a limit applied before it does not bound what is stored.
\<close>

theorem Text_can_lengthen: "length ''key=a'' < length (Text ''key=a'')"
  by code_simp

end
