(* ===== verification/Runs.thy ===== *)
theory Runs
  imports Changes Naming Redact
begin

text \<open>
  The run, phase, envelope and artifact operations of \<open>internal/store/store.go\<close> and
  \<open>internal/store/artifact.go\<close>.  A statement is a function on the tables; a method is the sequence of
  its statements, so a failure between two of them leaves the earlier ones applied, as it does in the
  code.  \<open>ORDER BY\<close> is a stable sort on the named columns; where the code reads an index backwards, the
  sorted list is reversed.
\<close>

section \<open>Runs\<close>

text \<open>\<open>INSERT INTO runs\<close> under the primary key and the unique index on \<open>request_id\<close>.\<close>

definition insert_run :: "bool \<Rightarrow> RunRow \<Rightarrow> tables \<Rightarrow> err + unit \<times> tables" where
  "insert_run pk_first row d =
     (let pk_dup = list_ex (\<lambda>r. run_ID r = run_ID row) (runs d);
          rq_dup = (case col_request_id row of None \<Rightarrow> False
                    | Some k \<Rightarrow> list_ex (\<lambda>r. col_request_id r = Some k) (runs d))
      in if pk_dup \<and> (rq_dup \<longrightarrow> pk_first) then Inl (ConstraintPrimaryKey ''runs.id'')
         else if rq_dup then Inl (ConstraintUnique ''runs.request_id'')
         else Inr ((), d\<lparr>runs := runs d @ [row]\<rparr>))"

definition pk_reported_first :: "bool st" where
  "pk_reported_first = (\<lambda>w. (Inr (report_pk_first w), w))"

text \<open>The labels held by runs that have not finished.\<close>

definition taken_slugs :: "tables \<Rightarrow> string list" where
  "taken_slugs d = map run_Slug
     (filter (\<lambda>r. run_Slug r \<noteq> [] \<and> \<not> IsTerminalRunStatus (run_Status r)) (runs d))"

fun find_slug :: "string \<Rightarrow> string list \<Rightarrow> nat \<Rightarrow> nat \<Rightarrow> string" where
  "find_slug i taken attempt 0 = i"
| "find_slug i taken attempt (Suc left) =
     (let candidate = SlugAttempt i (int attempt) in
      if \<not> List.member taken candidate then candidate
      else find_slug i taken (Suc attempt) left)"

definition assignSlug :: "RunRecord \<Rightarrow> RunRecord st" where
  "assignSlug r =
     (if run_Slug r \<noteq> [] then return_st r else
      bind_st (query taken_slugs) (\<lambda>taken.
      return_st (r\<lparr>run_Slug := find_slug (run_ID r) taken 0 64\<rparr>)))"

definition isDuplicateRequestID :: "err \<Rightarrow> bool" where
  "isDuplicateRequestID e = (case root_cause e of
     ConstraintUnique col \<Rightarrow> Contains col ''runs.request_id'' | _ \<Rightarrow> False)"

definition CreateRun :: "RunRecord \<Rightarrow> RunRecord st" where
  "CreateRun r =
     bind_st (assignSlug r) (\<lambda>r.
     bind_st time_now (\<lambda>now.
     let r = r\<lparr>run_CreatedAt := now, run_UpdatedAt := now, run_RequestID := TrimSpace (run_RequestID r)\<rparr> in
     bind_st pk_reported_first (\<lambda>pk.
     try_st (exec (insert_run pk (run_row r))) (\<lambda>res.
       case res of
         Inl e \<Rightarrow> if isDuplicateRequestID e
                   then throw (Errorf ''request id %q: %w'' [run_RequestID r] (Some ErrDuplicateRequestID))
                   else throw e
       | Inr _ \<Rightarrow>
           bind_st (recordTransition ChannelRun (run_ID r) (JObj [
             (''transition'', JStr ''created''), (''id'', JStr (run_ID r)),
             (''project'', JStr (run_Project r)), (''status'', JStr (run_Status r)),
             (''slug'', JStr (run_Slug r)), (''intent_id'', JStr (run_IntentID r)),
             (''change_id'', JStr (run_ChangeID r))])) (\<lambda>_.
           return_st r)))))"

definition GetRunByRequestID :: "string \<Rightarrow> RunRecord st" where
  "GetRunByRequestID requestID =
     (let k = TrimSpace requestID in
      if k = [] then throw NoRows
      else query_row (\<lambda>d. map_option scanRun (find (\<lambda>r. col_request_id r = Some k) (runs d))))"

definition GetRun :: "string \<Rightarrow> RunRecord st" where
  "GetRun runID = query_row (\<lambda>d. map_option scanRun (find (\<lambda>r. run_ID r = runID) (runs d)))"

definition update_run :: "string \<Rightarrow> (RunRow \<Rightarrow> RunRow) \<Rightarrow> tables \<Rightarrow> tables" where
  "update_run runID f d = d\<lparr>runs := update_where (\<lambda>r. run_ID r = runID) f (runs d)\<rparr>"

definition count_runs :: "string \<Rightarrow> tables \<Rightarrow> nat" where
  "count_runs runID d = length (filter (\<lambda>r. run_ID r = runID) (runs d))"

text \<open>\<open>changedARow\<close> and \<open>requireOneRow\<close>, on the number of rows the statement changed.\<close>

definition changedARow :: "nat \<Rightarrow> bool" where
  "changedARow n \<longleftrightarrow> n > 0"

definition requireOneRow :: "nat \<Rightarrow> string \<Rightarrow> string \<Rightarrow> unit st" where
  "requireOneRow n kind i =
     (if n = 0 then throw (Errorf ''no %s with id %q'' [kind, i] None) else return_st ())"

definition UpdateRunStatus :: "string \<Rightarrow> string \<Rightarrow> unit st" where
  "UpdateRunStatus runID status =
     bind_st time_now (\<lambda>now.
     bind_st (modify_count (count_runs runID)
       (update_run runID (\<lambda>r. r\<lparr>run_Status := status, run_UpdatedAt := now\<rparr>))) (\<lambda>n.
     if \<not> changedARow n then return_st ()
     else recordTransition ChannelRun runID (JObj [
            (''transition'', JStr ''status''), (''id'', JStr runID), (''status'', JStr status),
            (''terminal'', JBool (IsTerminalRunStatus status))])))"

definition SetRunBaseBranch :: "string \<Rightarrow> string \<Rightarrow> unit st" where
  "SetRunBaseBranch runID branch =
     bind_st time_now (\<lambda>now.
     bind_st (modify_count (count_runs runID)
       (update_run runID (\<lambda>r. r\<lparr>run_BaseBranch := branch, run_UpdatedAt := now\<rparr>))) (\<lambda>n.
     requireOneRow n ''run'' runID))"

definition recent_runs :: "(RunRow \<Rightarrow> bool) \<Rightarrow> int \<Rightarrow> tables \<Rightarrow> RunRecord list" where
  "recent_runs P limit d =
     map scanRun (sql_limit limit (sort_key (\<lambda>r. - run_CreatedAt r) (filter P (runs d))))"

definition ListRecentRuns :: "int \<Rightarrow> RunRecord list st" where
  "ListRecentRuns limit = query (recent_runs (\<lambda>_. True) limit)"

definition ListRunsForProject :: "string \<Rightarrow> int \<Rightarrow> RunRecord list st" where
  "ListRunsForProject project limit = query (recent_runs (\<lambda>r. run_Project r = project) limit)"

definition rotationEligibleStatuses :: "string list" where
  "rotationEligibleStatuses = [''passed'', ''failed'', ''cancelled'', ''interrupted'']"

definition RunsEligibleForCleanup :: "time \<Rightarrow> RunRecord list st" where
  "RunsEligibleForCleanup cutoff = query (\<lambda>d. map scanRun (sort_key run_UpdatedAt
     (filter (\<lambda>r. List.member rotationEligibleStatuses (run_Status r) \<and> run_UpdatedAt r \<le> cutoff)
       (runs d))))"

text \<open>\<open>DeleteRun\<close> removes the phases, then the envelopes, then the run, in three statements.\<close>

definition delete_phases_of :: "string \<Rightarrow> tables \<Rightarrow> tables" where
  "delete_phases_of runID d = d\<lparr>phases := filter (\<lambda>p. ph_RunID p \<noteq> runID) (phases d)\<rparr>"

definition delete_envelopes_of :: "string \<Rightarrow> tables \<Rightarrow> tables" where
  "delete_envelopes_of runID d = d\<lparr>envelopes := filter (\<lambda>e. env_RunID e \<noteq> runID) (envelopes d)\<rparr>"

definition delete_run_row :: "string \<Rightarrow> tables \<Rightarrow> tables" where
  "delete_run_row runID d = d\<lparr>runs := filter (\<lambda>r. run_ID r \<noteq> runID) (runs d)\<rparr>"

definition DeleteRun :: "string \<Rightarrow> unit st" where
  "DeleteRun runID =
     bind_st (modify (delete_phases_of runID)) (\<lambda>_.
     bind_st (modify (delete_envelopes_of runID)) (\<lambda>_.
     bind_st (modify_count (count_runs runID) (delete_run_row runID)) (\<lambda>n.
     if \<not> changedARow n then return_st ()
     else recordTransition ChannelRun runID (JObj [
            (''transition'', JStr ''deleted''), (''id'', JStr runID)]))))"

section \<open>Phases\<close>

text \<open>\<open>INSERT OR REPLACE\<close> deletes the row with the same key and appends the new one.\<close>

definition replace_phase :: "PhaseRecord \<Rightarrow> tables \<Rightarrow> tables" where
  "replace_phase p d = d\<lparr>phases := filter (\<lambda>q. ph_ID q \<noteq> ph_ID p) (phases d) @ [p]\<rparr>"

definition RecordPhase :: "PhaseRecord \<Rightarrow> PhaseRecord st" where
  "RecordPhase p =
     bind_st time_now (\<lambda>now.
     let p = p\<lparr>ph_CreatedAt := now, ph_Error := Text (ph_Error p), ph_Payload := redact_JSON (ph_Payload p)\<rparr> in
     bind_st (modify (replace_phase p)) (\<lambda>_.
     bind_st (modify (update_run (ph_RunID p) (\<lambda>r. r\<lparr>run_UpdatedAt := now\<rparr>))) (\<lambda>_.
     bind_st (recordTransition ChannelPhase (ph_ID p) (JObj [
       (''id'', JStr (ph_ID p)), (''run_id'', JStr (ph_RunID p)), (''repo'', JStr (ph_Repo p)),
       (''name'', JStr (ph_Name p)), (''kind'', JStr (ph_Kind p)), (''status'', JStr (ph_Status p)),
       (''duration_ms'', JNum (ph_DurationMs p))])) (\<lambda>_.
     return_st p))))"

definition scanPhase :: "PhaseRecord \<Rightarrow> PhaseRecord" where
  "scanPhase p = p\<lparr>ph_Payload := safeRawJSON (ph_Payload p)\<rparr>"

definition phases_of :: "string \<Rightarrow> tables \<Rightarrow> PhaseRecord list" where
  "phases_of runID d =
     map scanPhase (sort_key ph_CreatedAt (filter (\<lambda>p. ph_RunID p = runID) (phases d)))"

definition ListPhasesForRun :: "string \<Rightarrow> PhaseRecord list st" where
  "ListPhasesForRun runID = query (phases_of runID)"

section \<open>Envelopes\<close>

definition insert_envelope :: "EnvelopeRecord \<Rightarrow> tables \<Rightarrow> err + unit \<times> tables" where
  "insert_envelope e d =
     (if list_ex (\<lambda>x. env_ID x = env_ID e) (envelopes d) then Inl (ConstraintPrimaryKey ''envelopes.id'')
      else Inr ((), d\<lparr>envelopes := envelopes d @
             [e\<lparr>env_CausationID := nullableText (causationIDValue (env_CausationID e))\<rparr>]\<rparr>))"

definition isDuplicateEnvelopeID :: "err \<Rightarrow> bool" where
  "isDuplicateEnvelopeID e = (case root_cause e of
     ConstraintPrimaryKey col \<Rightarrow> Contains col ''envelopes.id''
   | ConstraintUnique col \<Rightarrow> Contains col ''envelopes.id''
   | _ \<Rightarrow> False)"

definition RecordEnvelope :: "EnvelopeRecord \<Rightarrow> EnvelopeRecord st" where
  "RecordEnvelope e =
     (if env_Type e = [] then
        throw (Errorf ''envelope %q: type must not be empty'' [env_ID e] None)
      else if env_SchemaVersion e = [] then
        throw (Errorf ''envelope %q: schema_version must not be empty'' [env_ID e] None)
      else if env_Producer e = [] then
        throw (Errorf ''envelope %q: producer must not be empty'' [env_ID e] None)
      else if env_CorrelationID e = [] then
        throw (Errorf ''envelope %q: correlation_id must not be empty'' [env_ID e] None)
      else
        let e = e\<lparr>env_Summary := Text (env_Summary e), env_Data := redact_JSON (env_Data e),
                  env_Artifacts := map Text (env_Artifacts e)\<rparr> in
        bind_st time_now (\<lambda>now.
        let e = e\<lparr>env_CreatedAt := now, env_PublishedAt := now\<rparr> in
        try_st (exec (insert_envelope e)) (\<lambda>res.
          case res of
            Inl err \<Rightarrow> if isDuplicateEnvelopeID err
              then throw (Errorf ''envelope %q: %w'' [env_ID e] (Some ErrDuplicateEnvelopeID))
              else throw err
          | Inr _ \<Rightarrow>
              bind_st (recordTransition ChannelEnvelope (env_ID e) (JObj [
                (''id'', JStr (env_ID e)), (''run_id'', JStr (env_RunID e)),
                (''repo'', JStr (env_Repo e)), (''stage'', JStr (env_Stage e))])) (\<lambda>_.
              return_st e))))"

definition scanEnvelope :: "EnvelopeRecord \<Rightarrow> EnvelopeRecord" where
  "scanEnvelope e = e\<lparr>env_Data := safeRawJSON (env_Data e)\<rparr>"

definition latest_envelope :: "string \<Rightarrow> string \<Rightarrow> tables \<Rightarrow> EnvelopeRecord option" where
  "latest_envelope runID repo d =
     (case rev (sort_key env_CreatedAt
        (filter (\<lambda>e. env_RunID e = runID \<and> env_Repo e = repo) (envelopes d))) of
        [] \<Rightarrow> None | e # _ \<Rightarrow> Some (scanEnvelope e))"

definition GetLatestEnvelope :: "string \<Rightarrow> string \<Rightarrow> EnvelopeRecord st" where
  "GetLatestEnvelope runID repo = query_row (latest_envelope runID repo)"

definition CausationFromLatest :: "string \<Rightarrow> string \<Rightarrow> string option st" where
  "CausationFromLatest runID repo =
     try_st (GetLatestEnvelope runID repo) (\<lambda>res. case res of
       Inl _ \<Rightarrow> return_st None | Inr e \<Rightarrow> return_st (Some (env_ID e)))"

definition ListEnvelopesForRun :: "string \<Rightarrow> EnvelopeRecord list st" where
  "ListEnvelopesForRun runID = query (\<lambda>d.
     map scanEnvelope (sort_key env_CreatedAt (filter (\<lambda>e. env_RunID e = runID) (envelopes d))))"

section \<open>Artifacts\<close>

definition insert_artifact :: "ArtifactRecord \<Rightarrow> tables \<Rightarrow> err + unit \<times> tables" where
  "insert_artifact a d =
     (if list_ex (\<lambda>x. art_ID x = art_ID a) (artifacts d) then Inl (ConstraintPrimaryKey ''artifacts.id'')
      else Inr ((), d\<lparr>artifacts := artifacts d @ [a]\<rparr>))"

definition RecordArtifact :: "ArtifactRecord \<Rightarrow> unit st" where
  "RecordArtifact a = exec (insert_artifact a)"

definition ListArtifactsForRun :: "string \<Rightarrow> ArtifactRecord list st" where
  "ListArtifactsForRun runID = query (\<lambda>d.
     sort_key (\<lambda>a. (art_CapturedAt a, art_ID a)) (filter (\<lambda>a. art_RunID a = runID) (artifacts d)))"

definition GetArtifact :: "string \<Rightarrow> ArtifactRecord option st" where
  "GetArtifact i = query (\<lambda>d. find (\<lambda>a. art_ID a = i) (artifacts d))"

section \<open>Soundness of every operation\<close>

lemma within_pk_reported_first [within_intros]: "(\<And>w. R w w) \<Longrightarrow> within R pk_reported_first"
  by (simp add: within_def pk_reported_first_def)

lemma insert_run_Inr:
  "insert_run pk row d = Inr (x, d') \<longleftrightarrow>
     d' = d\<lparr>runs := runs d @ [row]\<rparr> \<and> run_ID row \<notin> run_ID ` set (runs d) \<and>
     (col_request_id row \<noteq> None \<longrightarrow> col_request_id row \<notin> col_request_id ` set (runs d))"
  by (cases "col_request_id row") (simp_all add: insert_run_def Let_def list_ex_key, auto)

lemma sound_insert_run: "insert_run pk row d = Inr (x, d') \<Longrightarrow> sound_step d d'"
  by (intro sound_stepI) (auto simp: insert_run_Inr schema_ok_def)

lemma sound_update_run:
  assumes "\<And>r. run_ID (f r) = run_ID r" and "\<And>r. col_request_id (f r) = col_request_id r"
  shows "sound_step d (update_run runID f d)"
  using assms by (intro sound_stepI) (auto simp: update_run_def schema_ok_def map_update_where)

lemma sound_assignSlug [within_intros]: "within (on_db sound_step) (assignSlug r)"
  unfolding assignSlug_def by (intro within_intros)

lemma sound_CreateRun [within_intros]: "within (on_db sound_step) (CreateRun r)"
  unfolding CreateRun_def Let_def
  by (intro within_intros sound.w_exec) (auto intro: sound_insert_run)

lemma sound_UpdateRunStatus [within_intros]: "within (on_db sound_step) (UpdateRunStatus runID status)"
  unfolding UpdateRunStatus_def
  by (intro within_intros sound.w_modify_count sound_update_run) auto

lemma within_requireOneRow [within_intros]: "(\<And>w. R w w) \<Longrightarrow> within R (requireOneRow n kind i)"
  by (simp add: within_def requireOneRow_def throw_def return_st_def)

lemma sound_SetRunBaseBranch [within_intros]: "within (on_db sound_step) (SetRunBaseBranch runID b)"
  unfolding SetRunBaseBranch_def
  by (intro within_intros sound.w_modify_count sound_update_run) auto

lemma sound_deletes [simp]:
  "sound_step d (delete_phases_of runID d)" "sound_step d (delete_envelopes_of runID d)"
  "sound_step d (delete_run_row runID d)"
  by (intro sound_stepI; auto simp: delete_phases_of_def delete_envelopes_of_def delete_run_row_def
      schema_ok_def intro!: schema_delete_simps)+

lemma sound_DeleteRun [within_intros]: "within (on_db sound_step) (DeleteRun runID)"
  unfolding DeleteRun_def
  by (intro within_intros sound.w_modify sound.w_modify_count) auto

lemma sound_RecordPhase [within_intros]: "within (on_db sound_step) (RecordPhase p)"
proof -
  have "sound_step d (replace_phase p d)" for p d
    by (intro sound_stepI) (auto simp: replace_phase_def schema_ok_def intro!: schema_delete_simps)
  then show ?thesis
    unfolding RecordPhase_def Let_def
    by (intro within_intros sound.w_modify sound_update_run) auto
qed

lemma sound_RecordEnvelope [within_intros]: "within (on_db sound_step) (RecordEnvelope e)"
proof -
  have "insert_envelope e d = Inr (x, d') \<Longrightarrow> sound_step d d'" for e d x d'
    by (intro sound_stepI)
       (auto simp: insert_envelope_def schema_ok_def list_ex_key split: if_splits)
  then show ?thesis
    unfolding RecordEnvelope_def Let_def by (intro within_intros sound.w_exec) auto
qed

lemma sound_RecordArtifact [within_intros]: "within (on_db sound_step) (RecordArtifact a)"
  unfolding RecordArtifact_def
  by (intro sound.w_exec sound_stepI)
     (auto simp: insert_artifact_def schema_ok_def list_ex_key split: if_splits)

section \<open>Creating a run\<close>

lemma find_slug_free:
  "find_slug i taken attempt left \<notin> set taken \<or> find_slug i taken attempt left = i"
  by (induction i taken attempt left rule: find_slug.induct) (auto simp: Let_def)

lemma assignSlug_healthy:
  assumes "healthy w"
  shows "\<exists>r' w'. assignSlug r w = (Inr r', w') \<and> db w' = db w \<and> healthy w' \<and>
    report_pk_first w' = report_pk_first w \<and>
    r' = r\<lparr>run_Slug := run_Slug r'\<rparr> \<and>
    (run_Slug r = [] \<longrightarrow> run_Slug r' \<notin> set (taken_slugs (db w)) \<or> run_Slug r' = run_ID r)"
  using assms find_slug_free by (auto simp: assignSlug_def st_simps query_healthy)

text \<open>
  Dispatching without a key, or with one nobody claimed, stores exactly the run that was asked for.
  The row is appended with the trimmed key, its label belongs to no live run (or is the run's own id),
  one change announces it, and loading the id returns it.
\<close>

theorem CreateRun_fresh:
  assumes "healthy w" and fresh: "run_ID r \<notin> run_ID ` set (runs (db w))"
    and key: "TrimSpace (run_RequestID r) = [] \<or>
      Some (TrimSpace (run_RequestID r)) \<notin> col_request_id ` set (runs (db w))"
  shows "\<exists>r' w' c. CreateRun r w = (Inr r', w') \<and>
    runs (db w') = runs (db w) @ [run_row r'] \<and>
    run_ID r' = run_ID r \<and> run_Status r' = run_Status r \<and> run_RequestID r' = TrimSpace (run_RequestID r) \<and>
    (run_Slug r = [] \<longrightarrow> run_Slug r' \<notin> set (taken_slugs (db w)) \<or> run_Slug r' = run_ID r) \<and>
    changes (db w') = changes (db w) @ [c] \<and> ch_Channel c = ChannelRun \<and> ch_EntityID c = run_ID r \<and>
    fst (GetRun (run_ID r) w') = Inr r'"
proof -
  from assignSlug_healthy [OF assms(1)] obtain r1 w1 where
    a: "assignSlug r w = (Inr r1, w1)" "db w1 = db w" "healthy w1" "r1 = r\<lparr>run_Slug := run_Slug r1\<rparr>"
      "run_Slug r = [] \<longrightarrow> run_Slug r1 \<notin> set (taken_slugs (db w)) \<or> run_Slug r1 = run_ID r"
    by blast
  define now where "now = clock w1 (reads w1)"
  define r2 where "r2 = r1\<lparr>run_CreatedAt := now, run_UpdatedAt := now,
    run_RequestID := TrimSpace (run_RequestID r1)\<rparr>"
  have r1: "run_ID r1 = run_ID r" "run_RequestID r1 = run_RequestID r" "run_Status r1 = run_Status r"
    by (subst a(4), simp)+
  define d2 where "d2 = (db w)\<lparr>runs := runs (db w) @ [run_row r2]\<rparr>"
  have ins: "insert_run pk (run_row r2) (db w) = Inr ((), d2)" for pk
    using fresh key r1
    by (cases "TrimSpace (run_RequestID r) = []") (simp_all add: insert_run_Inr r2_def d2_def)
  define w2 where "w2 = w1\<lparr>reads := Suc (reads w1), ops := Suc (ops w1), db := d2\<rparr>"
  have "healthy w2" using a(3) by (simp add: w2_def)
  let ?p = "JObj [
             (''transition'', JStr ''created''), (''id'', JStr (run_ID r2)),
             (''project'', JStr (run_Project r2)), (''status'', JStr (run_Status r2)),
             (''slug'', JStr (run_Slug r2)), (''intent_id'', JStr (run_IntentID r2)),
             (''change_id'', JStr (run_ChangeID r2))]"
  from recordTransition_healthy [OF \<open>healthy w2\<close>, of ChannelRun "run_ID r2" ?p] obtain w3 where
    w3: "recordTransition ChannelRun (run_ID r2) ?p w2 = (Inr (), w3)"
      "db w3 = insert_change ChannelRun (run_ID r2) ?p (clock w2 (reads w2)) d2" "healthy w3"
    by (auto simp: w2_def)
  have cr: "CreateRun r w = (Inr r2, w3)"
    using a(1-3) ins w3(1)
    by (simp add: CreateRun_def st_simps exec_healthy pk_reported_first_def Let_def
        now_def r2_def w2_def)
  have find: "find (\<lambda>x. run_ID x = run_ID r) (runs (db w) @ [run_row r2]) = Some (run_row r2)"
    using fresh r1 by (simp add: find_append_skip r2_def)
  have get: "fst (GetRun (run_ID r) w3) = Inr r2"
    using w3(2,3) find by (simp add: GetRun_def query_row_healthy insert_change_def d2_def)
  have "changes (db w3) = changes (db w) @
      [\<lparr>ch_Seq = next_seq d2, ch_Channel = ChannelRun, ch_EntityID = run_ID r2,
        ch_Payload = RawDoc ?p, ch_CreatedAt = clock w2 (reads w2)\<rparr>]"
    by (simp add: w3(2) insert_change_def d2_def)
  with cr w3(2) a(5) r1 get show ?thesis
    by (intro exI [of _ r2] exI [of _ w3] exI) (auto simp: insert_change_def d2_def r2_def)
qed

definition sample_run :: RunRecord where
  "sample_run = \<lparr>run_ID = ''r1'', run_Project = ''p'', run_TaskID = ''t'', run_Brief = '''',
     run_ChangeID = ''c'', run_Type = ''feat'', run_IntentID = ''i1'', run_Slug = ''amber-crane-cairo'',
     run_RequestID = ''k'', run_Status = ''running'', run_BaseBranch = '''', run_CreatedAt = 0,
     run_UpdatedAt = 0\<rparr>"

theorem CreateRun_fresh_witness:
  "\<exists>r' w'. CreateRun sample_run (initial_world empty_tables) = (Inr r', w') \<and> run_ID r' = ''r1''"
  using CreateRun_fresh [of "initial_world empty_tables" sample_run]
  by (auto simp: empty_tables_def sample_run_def)

text \<open>
  A repeated idempotency key is refused with \<open>ErrDuplicateRequestID\<close>, nothing is written, and
  looking the key up returns the run that claimed it.
\<close>

theorem CreateRun_repeated_key:
  assumes "healthy w" and k: "TrimSpace (run_RequestID r) \<noteq> []"
    and held: "Some (TrimSpace (run_RequestID r)) \<in> col_request_id ` set (runs (db w))"
    and pk: "run_ID r \<notin> run_ID ` set (runs (db w)) \<or> \<not> report_pk_first w"
  shows "\<exists>e w' old. CreateRun r w = (Inl e, w') \<and> errors_Is e ErrDuplicateRequestID \<and> db w' = db w \<and>
    fst (GetRunByRequestID (run_RequestID r) w') = Inr old \<and>
    run_RequestID old = TrimSpace (run_RequestID r) \<and> old \<in> scanRun ` set (runs (db w))"
proof -
  from assignSlug_healthy [OF assms(1)] obtain r1 w1 where
    a: "assignSlug r w = (Inr r1, w1)" "db w1 = db w" "healthy w1" "r1 = r\<lparr>run_Slug := run_Slug r1\<rparr>"
      "report_pk_first w1 = report_pk_first w"
    by blast
  have r1: "run_ID r1 = run_ID r" "run_RequestID r1 = run_RequestID r"
    by (subst a(4), simp)+
  define now where "now = clock w1 (reads w1)"
  define r2 where "r2 = r1\<lparr>run_CreatedAt := now, run_UpdatedAt := now,
    run_RequestID := TrimSpace (run_RequestID r1)\<rparr>"
  have ins: "insert_run (report_pk_first w) (run_row r2) (db w) = Inl (ConstraintUnique ''runs.request_id'')"
    using k held pk r1 by (auto simp: insert_run_def Let_def list_ex_key r2_def nullableText_def)
  have dup: "isDuplicateRequestID (ConstraintUnique ''runs.request_id'')"
    by (simp add: isDuplicateRequestID_def HasPrefix_def)
  let ?w = "w1\<lparr>reads := Suc (reads w1), ops := Suc (ops w1)\<rparr>"
  have cr: "CreateRun r w = (Inl (Errorf ''request id %q: %w'' [run_RequestID r2] (Some ErrDuplicateRequestID)), ?w)"
    using a ins dup
    by (simp add: CreateRun_def st_simps exec_healthy pk_reported_first_def Let_def
        now_def [symmetric] r2_def [symmetric])
  from held obtain row where row: "find (\<lambda>x. col_request_id x = Some (TrimSpace (run_RequestID r)))
      (runs (db w)) = Some row" "row \<in> set (runs (db w))" "col_request_id row = Some (TrimSpace (run_RequestID r))"
    by (rule find_key_Some)
  have "fst (GetRunByRequestID (run_RequestID r) ?w) = Inr (scanRun row)"
    using k a(2,3) row(1) by (simp add: GetRunByRequestID_def Let_def query_row_healthy)
  with cr row a(2) show ?thesis by (auto simp: coalesce_def)
qed

definition keyed_tables :: tables where
  "keyed_tables = empty_tables\<lparr>runs := [run_row sample_run]\<rparr>"

theorem CreateRun_repeated_key_witness:
  "\<exists>e w'. CreateRun (sample_run\<lparr>run_ID := ''r2'', run_RequestID := '' k ''\<rparr>) (initial_world keyed_tables) = (Inl e, w')
     \<and> errors_Is e ErrDuplicateRequestID"
  using CreateRun_repeated_key
    [of "initial_world keyed_tables" "sample_run\<lparr>run_ID := ''r2'', run_RequestID := '' k ''\<rparr>"]
  by (auto simp: keyed_tables_def sample_run_def TrimSpace_def is_space_def)

text \<open>
  However the statements fail, a \<open>CreateRun\<close> that reports an error has written nothing, or has
  written the run row and failed to announce it; a refused key is always the first.
\<close>

theorem CreateRun_error:
  assumes "CreateRun r w = (Inl e, w')"
  shows "db w' = db w \<or>
    (\<not> errors_Is e ErrDuplicateRequestID \<and>
     (\<exists>r'. run_ID r' = run_ID r \<and> db w' = (db w)\<lparr>runs := runs (db w) @ [run_row r']\<rparr>))"
proof (cases "assignSlug r w")
  case (Pair res w1)
  have db1: "db w1 = db w" "\<And>r1. res = Inr r1 \<Longrightarrow> run_ID r1 = run_ID r"
    using Pair by (auto simp: assignSlug_def st_simps query_def exec_def Let_def split: if_splits)
  show ?thesis
  proof (cases res)
    case (Inl e1)
    with assms Pair db1 show ?thesis by (simp add: CreateRun_def bind_st_def)
  next
    case (Inr r1)
    define r2 where "r2 = r1\<lparr>run_CreatedAt := clock w1 (reads w1), run_UpdatedAt := clock w1 (reads w1),
      run_RequestID := TrimSpace (run_RequestID r1)\<rparr>"
    have id: "run_ID r2 = run_ID r" using db1(2) [OF Inr] by (simp add: r2_def)
    show ?thesis
      using assms Pair Inr db1(1) id
      by (auto simp: CreateRun_def st_simps pk_reported_first_def exec_def Let_def insert_run_Inr
          r2_def [symmetric] split: if_splits sum.splits prod.splits dest!: recordTransition_cases)
  qed
qed

theorem CreateRun_error_witness:
  "\<exists>e w'. CreateRun sample_run (initial_world keyed_tables) = (Inl e, w') \<and>
     db w' = keyed_tables"
proof -
  have run: "\<exists>e w'. CreateRun sample_run (initial_world keyed_tables) = (Inl e, w') \<and>
      errors_Is e ErrDuplicateRequestID"
    by (auto simp: CreateRun_def assignSlug_def st_simps exec_healthy pk_reported_first_def
        keyed_tables_def sample_run_def insert_run_def Let_def initial_world_def healthy_def
        TrimSpace_def is_space_def isDuplicateRequestID_def HasPrefix_def)
  then obtain e w' where eq: "CreateRun sample_run (initial_world keyed_tables) = (Inl e, w')"
    and "errors_Is e ErrDuplicateRequestID" by blast
  with CreateRun_error [OF eq] show ?thesis by auto
qed

end
