(* ===== verification/Intents.thy ===== *)
theory Intents
  imports Runs
begin

text \<open>
  Intents and bullets of \<open>internal/store/store.go\<close>: an intent is the durable request, its bullets are
  the slices of work in single repositories, and the status of the intent is derived from them.  Also
  \<open>RenderIntentBrief\<close> of \<open>internal/store/brief.go\<close>, which reads the same rows.

  Proved here: an intent reads satisfied exactly when it has bullets and all are merged, advancing a
  run's bullets leaves bullets and intent in agreement and is idempotent, and sealing moves one green
  bullet and nothing else.
\<close>

section \<open>Intents\<close>

definition insert_intent :: "IntentRecord \<Rightarrow> tables \<Rightarrow> err + unit \<times> tables" where
  "insert_intent i d =
     (if list_ex (\<lambda>x. in_ID x = in_ID i) (intents d) then Inl (ConstraintPrimaryKey ''intents.id'')
      else Inr ((), d\<lparr>intents := intents d @
             [i\<lparr>in_ShippingGateStatus := '''', in_ShippingGateReason := ''''\<rparr>]\<rparr>))"

definition CreateIntent :: "IntentRecord \<Rightarrow> IntentRecord st" where
  "CreateIntent i =
     bind_st time_now (\<lambda>now.
     let i = i\<lparr>in_CreatedAt := now, in_UpdatedAt := now\<rparr> in
     bind_st (exec (insert_intent i)) (\<lambda>_.
     bind_st (recordTransition ChannelIntent (in_ID i) (JObj [
       (''transition'', JStr ''created''), (''id'', JStr (in_ID i)),
       (''project'', JStr (in_Project i)), (''status'', JStr (in_Status i))])) (\<lambda>_.
     return_st i)))"

definition GetIntent :: "string \<Rightarrow> IntentRecord st" where
  "GetIntent intentID = query_row (\<lambda>d. find (\<lambda>i. in_ID i = intentID) (intents d))"

definition list_intents :: "(IntentRecord \<Rightarrow> bool) \<Rightarrow> tables \<Rightarrow> IntentRecord list" where
  "list_intents P d = sort_key (\<lambda>i. (- in_CreatedAt i, in_ID i)) (filter P (intents d))"

definition ListIntentsForProject :: "string \<Rightarrow> IntentRecord list st" where
  "ListIntentsForProject project = query (list_intents (\<lambda>i. in_Project i = project))"

definition ListIntentsByStatus :: "string \<Rightarrow> IntentRecord list st" where
  "ListIntentsByStatus status = query (list_intents (\<lambda>i. in_Status i = status))"

definition update_intent :: "string \<Rightarrow> (IntentRecord \<Rightarrow> IntentRecord) \<Rightarrow> tables \<Rightarrow> tables" where
  "update_intent i f d = d\<lparr>intents := update_where (\<lambda>x. in_ID x = i) f (intents d)\<rparr>"

definition count_intents :: "string \<Rightarrow> tables \<Rightarrow> nat" where
  "count_intents i d = length (filter (\<lambda>x. in_ID x = i) (intents d))"

definition UpdateIntentStatus :: "string \<Rightarrow> string \<Rightarrow> unit st" where
  "UpdateIntentStatus intentID status =
     bind_st time_now (\<lambda>now.
     bind_st (modify_count (count_intents intentID)
       (update_intent intentID (\<lambda>i. i\<lparr>in_Status := status, in_UpdatedAt := now\<rparr>))) (\<lambda>n.
     bind_st (requireOneRow n ''intent'' intentID) (\<lambda>_.
     recordTransition ChannelIntent intentID (JObj [
       (''transition'', JStr ''status''), (''id'', JStr intentID), (''status'', JStr status)]))))"

definition RecordShippingGateResult :: "string \<Rightarrow> bool \<Rightarrow> string \<Rightarrow> unit st" where
  "RecordShippingGateResult intentID passed reason =
     (let status = (if \<not> passed then ''failed'' else ''passed'');
          reason = (if \<not> passed then reason else '''') in
      bind_st time_now (\<lambda>now.
      bind_st (modify_count (count_intents intentID)
        (update_intent intentID (\<lambda>i. i\<lparr>in_ShippingGateStatus := status,
           in_ShippingGateReason := reason, in_UpdatedAt := now\<rparr>))) (\<lambda>n.
      bind_st (requireOneRow n ''intent'' intentID) (\<lambda>_.
      recordTransition ChannelIntent intentID (JObj [
        (''transition'', JStr ''shipping_gate''), (''id'', JStr intentID),
        (''shipping_gate_status'', JStr status)])))))"

section \<open>Bullets\<close>

text \<open>The insert names no \<open>blocked_reason\<close>, so the column takes its default.\<close>

definition insert_bullet :: "BulletRecord \<Rightarrow> tables \<Rightarrow> err + unit \<times> tables" where
  "insert_bullet b d =
     (if list_ex (\<lambda>x. bu_ID x = bu_ID b) (bullets d) then Inl (ConstraintPrimaryKey ''bullets.id'')
      else Inr ((), d\<lparr>bullets := bullets d @ [b\<lparr>bu_BlockedReason := ''''\<rparr>]\<rparr>))"

definition CreateBullet :: "BulletRecord \<Rightarrow> BulletRecord st" where
  "CreateBullet b =
     bind_st time_now (\<lambda>now.
     let b = b\<lparr>bu_CreatedAt := now, bu_UpdatedAt := now\<rparr> in
     bind_st (exec (insert_bullet b)) (\<lambda>_.
     bind_st (recordTransition ChannelBullet (bu_ID b) (JObj [
       (''transition'', JStr ''created''), (''id'', JStr (bu_ID b)),
       (''intent_id'', JStr (bu_IntentID b)), (''repo'', JStr (bu_Repo b)),
       (''position'', JNum (bu_Position b)), (''status'', JStr (bu_Status b))])) (\<lambda>_.
     return_st b)))"

definition GetBullet :: "string \<Rightarrow> BulletRecord st" where
  "GetBullet bulletID = query_row (\<lambda>d. find (\<lambda>b. bu_ID b = bulletID) (bullets d))"

definition bullets_of :: "string \<Rightarrow> tables \<Rightarrow> BulletRecord list" where
  "bullets_of intentID d =
     sort_key (\<lambda>b. (bu_Position b, bu_CreatedAt b, bu_ID b))
       (filter (\<lambda>b. bu_IntentID b = intentID) (bullets d))"

definition ListBulletsForIntent :: "string \<Rightarrow> BulletRecord list st" where
  "ListBulletsForIntent intentID = query (bullets_of intentID)"

definition update_bullet :: "string \<Rightarrow> (BulletRecord \<Rightarrow> BulletRecord) \<Rightarrow> tables \<Rightarrow> tables" where
  "update_bullet i f d = d\<lparr>bullets := update_where (\<lambda>b. bu_ID b = i) f (bullets d)\<rparr>"

definition count_bullets :: "string \<Rightarrow> tables \<Rightarrow> nat" where
  "count_bullets i d = length (filter (\<lambda>b. bu_ID b = i) (bullets d))"

definition UpdateBulletStatus :: "string \<Rightarrow> string \<Rightarrow> unit st" where
  "UpdateBulletStatus bulletID status =
     bind_st time_now (\<lambda>now.
     bind_st (modify_count (count_bullets bulletID)
       (update_bullet bulletID (\<lambda>b. b\<lparr>bu_Status := status, bu_UpdatedAt := now\<rparr>))) (\<lambda>n.
     bind_st (requireOneRow n ''bullet'' bulletID) (\<lambda>_.
     recordTransition ChannelBullet bulletID (JObj [
       (''transition'', JStr ''status''), (''id'', JStr bulletID), (''status'', JStr status)]))))"

definition SetBulletPRURL :: "string \<Rightarrow> string \<Rightarrow> unit st" where
  "SetBulletPRURL bulletID url =
     bind_st time_now (\<lambda>now.
     bind_st (modify_count (count_bullets bulletID)
       (update_bullet bulletID (\<lambda>b. b\<lparr>bu_PRURL := url, bu_UpdatedAt := now\<rparr>))) (\<lambda>n.
     bind_st (requireOneRow n ''bullet'' bulletID) (\<lambda>_.
     recordTransition ChannelBullet bulletID (JObj [
       (''transition'', JStr ''pr_url''), (''id'', JStr bulletID), (''pr_url'', JStr url)]))))"

definition updateBulletStatusAndReason :: "string \<Rightarrow> string \<Rightarrow> string \<Rightarrow> unit st" where
  "updateBulletStatusAndReason bulletID status reason =
     bind_st time_now (\<lambda>now.
     bind_st (modify_count (count_bullets bulletID)
       (update_bullet bulletID (\<lambda>b. b\<lparr>bu_Status := status, bu_BlockedReason := reason,
          bu_UpdatedAt := now\<rparr>))) (\<lambda>n.
     bind_st (requireOneRow n ''bullet'' bulletID) (\<lambda>_.
     recordTransition ChannelBullet bulletID (JObj [
       (''transition'', JStr ''status''), (''id'', JStr bulletID), (''status'', JStr status)]))))"

definition AdvanceBulletStatus :: "string \<Rightarrow> string \<Rightarrow> string \<Rightarrow> unit st" where
  "AdvanceBulletStatus bulletID status reason = updateBulletStatusAndReason bulletID status reason"

section \<open>Deriving the intent\<close>

definition DeriveIntentStatus :: "BulletRecord list \<Rightarrow> string" where
  "DeriveIntentStatus bs =
     (if bs = [] then ''in_progress''
      else if list_ex (\<lambda>b. bu_Status b \<noteq> ''merged'') bs then ''in_progress''
      else ''satisfied'')"

definition AllBulletsSealedOrMerged :: "BulletRecord list \<Rightarrow> bool" where
  "AllBulletsSealedOrMerged bs \<longleftrightarrow>
     bs \<noteq> [] \<and> list_all (\<lambda>b. bu_Status b = ''sealed'' \<or> bu_Status b = ''merged'') bs"

definition RecomputeIntentStatus :: "string \<Rightarrow> string st" where
  "RecomputeIntentStatus intentID =
     bind_st (wrap_st ''loading intent %q to derive its status: %w'' [intentID] (GetIntent intentID)) (\<lambda>intent.
     bind_st (wrap_st ''listing the bullets of intent %q: %w'' [intentID] (ListBulletsForIntent intentID)) (\<lambda>bs.
     let derived = DeriveIntentStatus bs in
     if derived = in_Status intent then return_st derived
     else bind_st (UpdateIntentStatus intentID derived) (\<lambda>_. return_st derived)))"

definition advance_bullet :: "string \<Rightarrow> string \<Rightarrow> BulletRecord \<Rightarrow> unit st" where
  "advance_bullet status reason b =
     (if bu_Status b = status \<and> bu_BlockedReason b = reason then return_st ()
      else wrap_st ''advancing bullet %q to %q: %w'' [bu_ID b, status]
             (updateBulletStatusAndReason (bu_ID b) status reason))"

definition AdvanceBulletsForRun :: "string \<Rightarrow> string \<Rightarrow> string \<Rightarrow> unit st" where
  "AdvanceBulletsForRun runID status reason =
     bind_st (wrap_st ''loading run %q to advance its bullets: %w'' [runID] (GetRun runID)) (\<lambda>run.
     if run_IntentID run = [] then return_st () else
     bind_st (wrap_st ''listing the bullets of intent %q: %w'' [run_IntentID run]
       (ListBulletsForIntent (run_IntentID run))) (\<lambda>bs.
     bind_st (for_each (advance_bullet status reason) bs) (\<lambda>_.
     bind_st (RecomputeIntentStatus (run_IntentID run)) (\<lambda>_. return_st ()))))"

definition SealBulletForRun :: "string \<Rightarrow> string \<Rightarrow> unit st" where
  "SealBulletForRun runID repo =
     bind_st (wrap_st ''loading run %q to seal its bullet: %w'' [runID] (GetRun runID)) (\<lambda>run.
     if run_IntentID run = [] then throw (Errorf ''run %q has no intent; nothing to seal'' [runID] None) else
     bind_st (wrap_st ''listing the bullets of intent %q: %w'' [run_IntentID run]
       (ListBulletsForIntent (run_IntentID run))) (\<lambda>bs.
     case find (\<lambda>b. bu_Repo b = repo) bs of
       None \<Rightarrow> throw (Errorf ''no bullet found for repo %q on intent %q'' [repo, run_IntentID run] None)
     | Some b \<Rightarrow>
         if bu_Status b \<noteq> ''green''
         then throw (Errorf ''bullet %q for repo %q is %q, not green: refusing to seal''
                [bu_ID b, repo, bu_Status b] None)
         else UpdateBulletStatus (bu_ID b) ''sealed''))"

section \<open>The brief\<close>

definition nl :: string where "nl = [CHR 0x0A]"

definition RenderIntentBrief :: "string \<Rightarrow> string \<Rightarrow> string list \<Rightarrow> string st" where
  "RenderIntentBrief intentID repo gates =
     bind_st (wrap_st ''loading intent %q for brief: %w'' [intentID] (GetIntent intentID)) (\<lambda>intent.
     bind_st (ListBulletsForIntent intentID) (\<lambda>bs.
     case find (\<lambda>b. bu_Repo b = repo) bs of
       None \<Rightarrow> throw (Errorf ''no bullet found for repo %q on intent %q'' [repo, intentID] None)
     | Some b \<Rightarrow> return_st (
         ''# Intent'' @ nl @ nl @ in_Statement intent @ nl @ nl @
         ''# Bullet'' @ nl @ nl @ ''Repo: '' @ bu_Repo b @ nl @
         ''Position: '' @ show_int (bu_Position b) @ '' of '' @ show_nat (length bs) @ nl @
         ''Status: '' @ bu_Status b @ nl @
         (if bu_Status b = ''blocked'' \<and> bu_BlockedReason b \<noteq> []
          then ''Blocked reason: '' @ bu_BlockedReason b @ nl else []) @
         (if in_ChangeID intent \<noteq> []
          then nl @ ''# OpenSpec change'' @ nl @ nl @ in_ChangeID intent @
               (if in_ChangeRepo intent \<noteq> [] then '' ('' @ in_ChangeRepo intent @ '')'' else []) @ nl
          else []) @
         (if gates \<noteq> [] then nl @ ''# Gates'' @ nl @ nl @ join_with '', '' gates @ nl else []))))"

section \<open>Soundness of every operation\<close>

lemma sound_update_intent:
  "(\<And>i. in_ID (f i) = in_ID i) \<Longrightarrow> sound_step d (update_intent k f d)"
  by (intro sound_stepI) (auto simp: update_intent_def schema_ok_def map_update_where)

lemma sound_update_bullet:
  "(\<And>i. bu_ID (f i) = bu_ID i) \<Longrightarrow> sound_step d (update_bullet k f d)"
  by (intro sound_stepI) (auto simp: update_bullet_def schema_ok_def map_update_where)

lemma sound_CreateIntent [within_intros]: "within (on_db sound_step) (CreateIntent i)"
proof -
  have "insert_intent i d = Inr (x, d') \<Longrightarrow> sound_step d d'" for i d x d'
    by (intro sound_stepI) (auto simp: insert_intent_def schema_ok_def list_ex_key split: if_splits)
  then show ?thesis
    unfolding CreateIntent_def Let_def by (intro within_intros sound.w_exec)
qed

lemma sound_CreateBullet [within_intros]: "within (on_db sound_step) (CreateBullet b)"
proof -
  have "insert_bullet b d = Inr (x, d') \<Longrightarrow> sound_step d d'" for b d x d'
    by (intro sound_stepI) (auto simp: insert_bullet_def schema_ok_def list_ex_key split: if_splits)
  then show ?thesis
    unfolding CreateBullet_def Let_def by (intro within_intros sound.w_exec)
qed

lemma sound_GetRun [within_intros]: "within (on_db sound_step) (GetRun i)"
  unfolding GetRun_def by (intro within_intros)

lemma sound_GetIntent [within_intros]: "within (on_db sound_step) (GetIntent i)"
  unfolding GetIntent_def by (intro within_intros)

lemma sound_ListBulletsForIntent [within_intros]: "within (on_db sound_step) (ListBulletsForIntent i)"
  unfolding ListBulletsForIntent_def by (intro within_intros)

lemma sound_UpdateIntentStatus [within_intros]: "within (on_db sound_step) (UpdateIntentStatus i s)"
  unfolding UpdateIntentStatus_def
  by (intro within_intros sound.w_modify_count sound_update_intent) auto

lemma sound_RecordShippingGateResult [within_intros]:
  "within (on_db sound_step) (RecordShippingGateResult i p r)"
  unfolding RecordShippingGateResult_def Let_def
  by (intro within_intros sound.w_modify_count sound_update_intent) auto

lemma sound_bullet_updates [within_intros]:
  "within (on_db sound_step) (UpdateBulletStatus i s)"
  "within (on_db sound_step) (SetBulletPRURL i s)"
  "within (on_db sound_step) (updateBulletStatusAndReason i s r)"
  "within (on_db sound_step) (AdvanceBulletStatus i s r)"
  unfolding UpdateBulletStatus_def SetBulletPRURL_def updateBulletStatusAndReason_def AdvanceBulletStatus_def
  by (intro within_intros sound.w_modify_count sound_update_bullet; simp)+

lemma sound_RecomputeIntentStatus [within_intros]: "within (on_db sound_step) (RecomputeIntentStatus i)"
  unfolding RecomputeIntentStatus_def Let_def by (intro within_intros)

lemma sound_AdvanceBulletsForRun [within_intros]: "within (on_db sound_step) (AdvanceBulletsForRun r s m)"
  unfolding AdvanceBulletsForRun_def advance_bullet_def by (intro within_intros)

lemma sound_SealBulletForRun [within_intros]: "within (on_db sound_step) (SealBulletForRun r repo)"
  unfolding SealBulletForRun_def by (intro within_intros)

section \<open>Deriving and advancing\<close>

text \<open>
  An intent reads satisfied exactly when it has at least one bullet and every bullet is merged; in
  every other case, the empty one included, it reads in progress.
\<close>

lemma DeriveIntentStatus_iff:
  "DeriveIntentStatus bs = (if bs \<noteq> [] \<and> (\<forall>b \<in> set bs. bu_Status b = ''merged'') then ''satisfied''
     else ''in_progress'')"
  by (auto simp: DeriveIntentStatus_def list_ex_iff)

lemma find_unique:
  "distinct (map f xs) \<Longrightarrow> x \<in> set xs \<Longrightarrow> f x = k \<Longrightarrow> find (\<lambda>y. f y = k) xs = Some x"
  by (induction xs) (auto simp: rev_image_eqI)

lemma count_pos: "length (filter (\<lambda>x. f x = k) xs) = 0 \<longleftrightarrow> k \<notin> f ` set xs"
  by (induction xs) auto

lemma GetRun_healthy:
  assumes "healthy w" and "schema_ok (db w)" and "row \<in> set (runs (db w))"
  shows "GetRun (run_ID row) w = (Inr (scanRun row), w\<lparr>ops := Suc (ops w)\<rparr>)"
  using assms by (simp add: GetRun_def query_row_healthy find_unique schema_ok_def)

lemma GetIntent_healthy:
  assumes "healthy w" and "schema_ok (db w)" and "i \<in> set (intents (db w))"
  shows "GetIntent (in_ID i) w = (Inr i, w\<lparr>ops := Suc (ops w)\<rparr>)"
  using assms by (simp add: GetIntent_def query_row_healthy find_unique schema_ok_def)

lemma update_bullet_healthy:
  assumes "healthy w" and "bulletID \<in> bu_ID ` set (bullets (db w))"
  shows "\<exists>w' now p. updateBulletStatusAndReason bulletID status reason w = (Inr (), w') \<and> healthy w' \<and>
    db w' = insert_change ChannelBullet bulletID p now (update_bullet bulletID
      (\<lambda>b. b\<lparr>bu_Status := status, bu_BlockedReason := reason, bu_UpdatedAt := clock w (reads w)\<rparr>) (db w))"
proof -
  have n: "count_bullets bulletID (db w) \<noteq> 0"
    using assms(2) unfolding count_bullets_def count_pos by simp
  let ?d = "update_bullet bulletID (\<lambda>b. b\<lparr>bu_Status := status, bu_BlockedReason := reason,
      bu_UpdatedAt := clock w (reads w)\<rparr>) (db w)"
  let ?w = "w\<lparr>reads := Suc (reads w), ops := Suc (ops w), db := ?d\<rparr>"
  have "healthy ?w" using assms(1) by simp
  from recordTransition_healthy [OF this, of ChannelBullet bulletID "JObj [
       (''transition'', JStr ''status''), (''id'', JStr bulletID), (''status'', JStr status)]"]
  show ?thesis using assms(1) n
    by (auto simp: updateBulletStatusAndReason_def st_simps modify_count_healthy requireOneRow_def)
qed

text \<open>
  The loop over a list of bullets read from the table: each of them ends with the status and the
  reason, no other bullet is touched, and no other table of entities is.
\<close>

definition advanced :: "string \<Rightarrow> string \<Rightarrow> string set \<Rightarrow> tables \<Rightarrow> tables \<Rightarrow> bool" where
  "advanced status reason ids d d' \<longleftrightarrow>
     (\<exists>f. bullets d' = map f (bullets d) \<and>
        (\<forall>b. bu_ID (f b) = bu_ID b \<and> bu_IntentID (f b) = bu_IntentID b \<and> bu_Repo (f b) = bu_Repo b \<and>
             (bu_ID b \<notin> ids \<longrightarrow> f b = b)) \<and>
        (\<forall>b \<in> set (bullets d). bu_ID b \<in> ids \<longrightarrow>
           bu_Status (f b) = status \<and> bu_BlockedReason (f b) = reason)) \<and>
     runs d' = runs d \<and> intents d' = intents d"

lemma advanced_refl: "advanced status reason {} d d"
  by (auto simp: advanced_def intro!: exI [of _ id])

lemma advanced_trans:
  assumes "advanced status reason A d1 d2" and "advanced status reason B d2 d3"
  shows "advanced status reason (A \<union> B) d1 d3"
proof -
  from assms(1) obtain f where f: "bullets d2 = map f (bullets d1)"
    "\<And>b. bu_ID (f b) = bu_ID b \<and> bu_IntentID (f b) = bu_IntentID b \<and> bu_Repo (f b) = bu_Repo b"
    "\<And>b. bu_ID b \<notin> A \<Longrightarrow> f b = b"
    "\<And>b. b \<in> set (bullets d1) \<Longrightarrow> bu_ID b \<in> A \<Longrightarrow> bu_Status (f b) = status \<and> bu_BlockedReason (f b) = reason"
    unfolding advanced_def by metis
  from assms(2) obtain g where g: "bullets d3 = map g (bullets d2)"
    "\<And>b. bu_ID (g b) = bu_ID b \<and> bu_IntentID (g b) = bu_IntentID b \<and> bu_Repo (g b) = bu_Repo b"
    "\<And>b. bu_ID b \<notin> B \<Longrightarrow> g b = b"
    "\<And>b. b \<in> set (bullets d2) \<Longrightarrow> bu_ID b \<in> B \<Longrightarrow> bu_Status (g b) = status \<and> bu_BlockedReason (g b) = reason"
    unfolding advanced_def by metis
  have "bu_Status (g (f b)) = status \<and> bu_BlockedReason (g (f b)) = reason"
    if b: "b \<in> set (bullets d1)" "bu_ID b \<in> A \<union> B" for b
  proof (cases "bu_ID b \<in> B")
    case True
    with b f(1,2) g(4) [of "f b"] show ?thesis by auto
  next
    case False
    with b f(2,4) g(3) [of "f b"] show ?thesis by auto
  qed
  with f g assms show ?thesis
    unfolding advanced_def by (intro conjI exI [of _ "g \<circ> f"]) auto
qed

lemma advance_one:
  assumes "healthy w" and "distinct (map bu_ID (bullets (db w)))" and b: "b \<in> set (bullets (db w))"
  shows "\<exists>w'. advance_bullet status reason b w = (Inr (), w') \<and> healthy w' \<and>
    advanced status reason {bu_ID b} (db w) (db w')"
proof (cases "bu_Status b = status \<and> bu_BlockedReason b = reason")
  case True
  have row: "bu_Status c = status \<and> bu_BlockedReason c = reason"
    if "c \<in> set (bullets (db w))" "bu_ID c = bu_ID b" for c
    using that b assms(2) True by (metis distinct_map inj_onD)
  have "advanced status reason {bu_ID b} (db w) (db w)"
    unfolding advanced_def by (intro conjI exI [of _ id]) (auto simp: row)
  with True assms(1) show ?thesis by (simp add: advance_bullet_def return_st_def)
next
  case False
  from update_bullet_healthy [OF assms(1), of "bu_ID b" status reason] b
  obtain w' now p where w': "updateBulletStatusAndReason (bu_ID b) status reason w = (Inr (), w')"
    "healthy w'" "db w' = insert_change ChannelBullet (bu_ID b) p now (update_bullet (bu_ID b)
      (\<lambda>b. b\<lparr>bu_Status := status, bu_BlockedReason := reason, bu_UpdatedAt := clock w (reads w)\<rparr>) (db w))"
    by blast
  have "advanced status reason {bu_ID b} (db w) (db w')"
    unfolding advanced_def w'(3)
    by (intro conjI exI [of _ "\<lambda>x. if bu_ID x = bu_ID b then x\<lparr>bu_Status := status,
         bu_BlockedReason := reason, bu_UpdatedAt := clock w (reads w)\<rparr> else x"])
       (auto simp: update_bullet_def update_where_def)
  with False w' show ?thesis by (auto simp: advance_bullet_def wrap_st_def)
qed

lemma advanced_ids: "advanced status reason A d d' \<Longrightarrow> map bu_ID (bullets d') = map bu_ID (bullets d)"
  by (auto simp: advanced_def)

lemma advanced_keeps:
  "advanced status reason A d d' \<Longrightarrow> b \<in> set (bullets d) \<Longrightarrow> bu_ID b \<notin> A \<Longrightarrow> b \<in> set (bullets d')"
  by (force simp: advanced_def)

lemma advance_each:
  assumes "healthy w" and "distinct (map bu_ID (bullets (db w)))" and "set bs \<subseteq> set (bullets (db w))"
    and "distinct (map bu_ID bs)"
  shows "\<exists>w'. for_each (advance_bullet status reason) bs w = (Inr (), w') \<and> healthy w' \<and>
    advanced status reason (bu_ID ` set bs) (db w) (db w')"
  using assms
proof (induction bs arbitrary: w)
  case Nil
  then show ?case by (simp add: return_st_def advanced_refl)
next
  case (Cons b bs)
  from advance_one [OF Cons.prems(1,2), of b status reason] Cons.prems(3)
  obtain w1 where w1: "advance_bullet status reason b w = (Inr (), w1)" "healthy w1"
    "advanced status reason {bu_ID b} (db w) (db w1)" by auto
  have "set bs \<subseteq> set (bullets (db w1))"
  proof
    fix c assume "c \<in> set bs"
    with Cons.prems(3,4) have "c \<in> set (bullets (db w))" "bu_ID c \<notin> {bu_ID b}"
      by (auto simp: image_iff)
    with w1(3) show "c \<in> set (bullets (db w1))" by (blast intro: advanced_keeps)
  qed
  with Cons.IH [OF w1(2)] advanced_ids [OF w1(3)] Cons.prems(2,4) obtain w2 where
    w2: "for_each (advance_bullet status reason) bs w1 = (Inr (), w2)" "healthy w2"
      "advanced status reason (bu_ID ` set bs) (db w1) (db w2)"
    by auto
  from advanced_trans [OF w1(3) w2(3)] have "advanced status reason (bu_ID ` set (b # bs)) (db w) (db w2)"
    by simp
  with w1(1) w2 show ?case by (simp add: bind_st_def)
qed

lemma set_bullets_of [simp]: "set (bullets_of i d) = {b \<in> set (bullets d). bu_IntentID b = i}"
  by (simp add: bullets_of_def)

lemma bullets_of_eq_Nil: "bullets_of i d = [] \<longleftrightarrow> (\<forall>b \<in> set (bullets d). bu_IntentID b \<noteq> i)"
  by (metis (mono_tags, lifting) Collect_empty_eq set_bullets_of set_empty)

lemma distinct_bullets_of:
  assumes "distinct (map bu_ID (bullets d))"
  shows "distinct (map bu_ID (bullets_of i d))"
proof -
  let ?f = "filter (\<lambda>b. bu_IntentID b = i) (bullets d)"
  have "mset (map bu_ID (bullets_of i d)) = mset (map bu_ID ?f)"
    unfolding bullets_of_def by simp
  moreover have "distinct (map bu_ID ?f)" using assms by (rule distinct_map_filter_pred)
  ultimately show ?thesis by (metis mset_eq_imp_distinct_iff)
qed

lemma UpdateIntentStatus_healthy:
  assumes "healthy w" and "i \<in> in_ID ` set (intents (db w))"
  shows "\<exists>w' now p. UpdateIntentStatus i status w = (Inr (), w') \<and> healthy w' \<and>
    db w' = insert_change ChannelIntent i p now (update_intent i
      (\<lambda>x. x\<lparr>in_Status := status, in_UpdatedAt := clock w (reads w)\<rparr>) (db w))"
proof -
  have n: "count_intents i (db w) \<noteq> 0"
    using assms(2) unfolding count_intents_def count_pos by simp
  let ?d = "update_intent i (\<lambda>x. x\<lparr>in_Status := status, in_UpdatedAt := clock w (reads w)\<rparr>) (db w)"
  let ?w = "w\<lparr>reads := Suc (reads w), ops := Suc (ops w), db := ?d\<rparr>"
  have "healthy ?w" using assms(1) by simp
  from recordTransition_healthy [OF this, of ChannelIntent i "JObj [
       (''transition'', JStr ''status''), (''id'', JStr i), (''status'', JStr status)]"]
  show ?thesis using assms(1) n
    by (auto simp: UpdateIntentStatus_def st_simps modify_count_healthy requireOneRow_def)
qed

lemma RecomputeIntentStatus_healthy:
  assumes "healthy w" and ok: "schema_ok (db w)" and i: "i \<in> set (intents (db w))"
  defines "s \<equiv> DeriveIntentStatus (bullets_of (in_ID i) (db w))"
  shows "\<exists>w'. RecomputeIntentStatus (in_ID i) w = (Inr s, w') \<and> healthy w' \<and>
    bullets (db w') = bullets (db w) \<and> runs (db w') = runs (db w) \<and>
    (\<forall>x \<in> set (intents (db w')). in_ID x = in_ID i \<longrightarrow> in_Status x = s) \<and>
    map in_ID (intents (db w')) = map in_ID (intents (db w)) \<and>
    (in_Status i = s \<longrightarrow> db w' = db w)"
proof (cases "s = in_Status i")
  case True
  have uniq: "x = i" if "x \<in> set (intents (db w))" "in_ID x = in_ID i" for x
    using that i ok by (metis distinct_map inj_onD schema_ok_def)
  show ?thesis using True assms(1) GetIntent_healthy [OF assms(1) ok i] uniq
    by (auto simp: RecomputeIntentStatus_def ListBulletsForIntent_def st_simps query_healthy s_def Let_def)
next
  case False
  let ?w = "w\<lparr>ops := Suc (Suc (ops w))\<rparr>"
  from UpdateIntentStatus_healthy [of ?w "in_ID i" s] assms(1) i
  obtain w' now p where w': "UpdateIntentStatus (in_ID i) s ?w = (Inr (), w')" "healthy w'"
    "db w' = insert_change ChannelIntent (in_ID i) p now (update_intent (in_ID i)
      (\<lambda>x. x\<lparr>in_Status := s, in_UpdatedAt := clock w (reads w)\<rparr>) (db w))" by auto
  have run: "RecomputeIntentStatus (in_ID i) w = (Inr s, w')"
    using False assms(1) GetIntent_healthy [OF assms(1) ok i] w'(1)
    by (simp add: RecomputeIntentStatus_def ListBulletsForIntent_def st_simps query_healthy
        s_def [symmetric] Let_def)
  have "map in_ID (intents (db w')) = map in_ID (intents (db w))"
    by (simp add: w'(3) update_intent_def map_update_where)
  moreover have "\<forall>x \<in> set (intents (db w')). in_ID x = in_ID i \<longrightarrow> in_Status x = s"
    by (auto simp: w'(3) update_intent_def update_where_def)
  ultimately show ?thesis using run w' False by (auto simp: update_intent_def)
qed

text \<open>
  Advancing a run's bullets in a working store succeeds and leaves the two records in agreement.
  Every bullet of the run's intent holds the status and the reason, bullets of other intents are
  untouched, and the intent's status is the one its bullets derive.
\<close>

theorem AdvanceBulletsForRun_spec:
  assumes "healthy w" and ok: "schema_ok (db w)" and row: "row \<in> set (runs (db w))"
    and i: "i \<in> set (intents (db w))" and link: "run_IntentID row = in_ID i" and ne: "in_ID i \<noteq> []"
  shows "\<exists>w'. AdvanceBulletsForRun (run_ID row) status reason w = (Inr (), w') \<and> healthy w' \<and>
    (\<forall>b \<in> set (bullets_of (in_ID i) (db w')). bu_Status b = status \<and> bu_BlockedReason b = reason) \<and>
    filter (\<lambda>b. bu_IntentID b \<noteq> in_ID i) (bullets (db w')) =
      filter (\<lambda>b. bu_IntentID b \<noteq> in_ID i) (bullets (db w)) \<and>
    map bu_ID (bullets (db w')) = map bu_ID (bullets (db w)) \<and> runs (db w') = runs (db w) \<and>
    map in_ID (intents (db w')) = map in_ID (intents (db w)) \<and>
    (\<forall>x \<in> set (intents (db w')). in_ID x = in_ID i \<longrightarrow>
       in_Status x = DeriveIntentStatus (bullets_of (in_ID i) (db w')))"
proof -
  let ?bs = "bullets_of (in_ID i) (db w)"
  let ?w = "w\<lparr>ops := Suc (Suc (ops w))\<rparr>"
  have dist: "distinct (map bu_ID (bullets (db w)))" using ok by (simp add: schema_ok_def)
  from advance_each [of ?w ?bs status reason] assms(1) dist distinct_bullets_of [OF dist]
  obtain w1 where w1: "for_each (advance_bullet status reason) ?bs ?w = (Inr (), w1)" "healthy w1"
    "advanced status reason (bu_ID ` set ?bs) (db w) (db w1)" by auto
  from w1(3) obtain f where f: "bullets (db w1) = map f (bullets (db w))"
    "\<And>b. bu_ID (f b) = bu_ID b" "\<And>b. bu_IntentID (f b) = bu_IntentID b"
    "\<And>b. bu_ID b \<notin> bu_ID ` set ?bs \<Longrightarrow> f b = b"
    "\<And>b. b \<in> set (bullets (db w)) \<Longrightarrow> bu_ID b \<in> bu_ID ` set ?bs \<Longrightarrow>
       bu_Status (f b) = status \<and> bu_BlockedReason (f b) = reason"
    unfolding advanced_def by metis
  have in1: "intents (db w1) = intents (db w)" "runs (db w1) = runs (db w)"
    using w1(3) by (auto simp: advanced_def)
  have "within (on_db sound_step) (for_each (advance_bullet status reason) ?bs)"
    unfolding advance_bullet_def by (intro within_intros)
  from sound_schemaD [OF this w1(1)] ok have ok1: "schema_ok (db w1)" by simp
  from RecomputeIntentStatus_healthy [OF w1(2) ok1, of i] i in1 obtain w2 where
    w2: "RecomputeIntentStatus (in_ID i) w1 = (Inr (DeriveIntentStatus (bullets_of (in_ID i) (db w1))), w2)"
      "healthy w2" "bullets (db w2) = bullets (db w1)" "runs (db w2) = runs (db w1)"
      "\<forall>x \<in> set (intents (db w2)). in_ID x = in_ID i \<longrightarrow>
         in_Status x = DeriveIntentStatus (bullets_of (in_ID i) (db w1))"
      "map in_ID (intents (db w2)) = map in_ID (intents (db w1))"
    by auto
  have run: "AdvanceBulletsForRun (run_ID row) status reason w = (Inr (), w2)"
    using assms(1) GetRun_healthy [OF assms(1) ok row] link ne w1(1) w2(1)
    by (simp add: AdvanceBulletsForRun_def ListBulletsForIntent_def st_simps query_healthy)
  have mine: "bu_ID b \<in> bu_ID ` set ?bs \<longleftrightarrow> bu_IntentID b = in_ID i"
    if "b \<in> set (bullets (db w))" for b
    using that dist by (auto simp: image_iff) (metis distinct_map inj_onD)
  have "filter (\<lambda>b. bu_IntentID b \<noteq> in_ID i) (map f (bullets (db w))) =
      filter (\<lambda>b. bu_IntentID b \<noteq> in_ID i) (bullets (db w))"
    using mine f(4) by (simp add: filter_map comp_def f(3)) (rule map_idI, auto)
  moreover have "bullets_of (in_ID i) (db w2) = bullets_of (in_ID i) (db w1)"
    by (simp add: bullets_of_def w2(3))
  moreover have "\<forall>b \<in> set (bullets_of (in_ID i) (db w1)). bu_Status b = status \<and> bu_BlockedReason b = reason"
    using f mine by auto
  moreover have "map bu_ID (bullets (db w1)) = map bu_ID (bullets (db w))"
    using f(1,2) by simp
  ultimately show ?thesis using run w2 in1 f(1) by simp
qed

text \<open>
  Advancing is idempotent.  When the bullets already hold the status and the reason and the intent
  already reads what they derive, as they do after a first call, a second call writes nothing at all.
\<close>

theorem AdvanceBulletsForRun_idempotent:
  assumes "healthy w" and ok: "schema_ok (db w)" and row: "row \<in> set (runs (db w))"
    and i: "i \<in> set (intents (db w))" and link: "run_IntentID row = in_ID i" and ne: "in_ID i \<noteq> []"
    and "AdvanceBulletsForRun (run_ID row) status reason w = (Inr (), w')"
  shows "\<exists>w''. AdvanceBulletsForRun (run_ID row) status reason w' = (Inr (), w'') \<and> db w'' = db w'"
proof -
  from AdvanceBulletsForRun_spec [OF assms(1-6), of status reason] assms(7)
  have h: "healthy w'" and rs: "runs (db w') = runs (db w)"
    and bs: "\<forall>b \<in> set (bullets_of (in_ID i) (db w')). bu_Status b = status \<and> bu_BlockedReason b = reason"
    and ids: "map in_ID (intents (db w')) = map in_ID (intents (db w))"
    and st: "\<forall>x \<in> set (intents (db w')). in_ID x = in_ID i \<longrightarrow>
      in_Status x = DeriveIntentStatus (bullets_of (in_ID i) (db w'))"
    by auto
  have ok': "schema_ok (db w')"
    using sound_AdvanceBulletsForRun assms(7) ok by (rule sound_schemaD)
  from i ids obtain j where j: "j \<in> set (intents (db w'))" "in_ID j = in_ID i"
    by (metis imageE imageI set_map)
  have skip: "for_each (advance_bullet status reason) xs v = (Inr (), v)"
    if "\<forall>b \<in> set xs. bu_Status b = status \<and> bu_BlockedReason b = reason" for xs v
    using that by (induction xs) (auto simp: return_st_def bind_st_def advance_bullet_def)
  let ?w = "w'\<lparr>ops := Suc (Suc (ops w'))\<rparr>"
  from RecomputeIntentStatus_healthy [of ?w j] h ok' j st obtain w2 where
    "RecomputeIntentStatus (in_ID i) ?w = (Inr (DeriveIntentStatus (bullets_of (in_ID i) (db w'))), w2)"
    "db w2 = db w'" by auto
  moreover have "GetRun (run_ID row) w' = (Inr (scanRun row), w'\<lparr>ops := Suc (ops w')\<rparr>)"
    using GetRun_healthy [OF h ok', of row] row rs by simp
  ultimately show ?thesis using h link ne skip [OF bs]
    by (simp add: AdvanceBulletsForRun_def ListBulletsForIntent_def st_simps query_healthy)
qed

lemma UpdateBulletStatus_healthy:
  assumes "healthy w" and "b \<in> set (bullets (db w))"
  shows "\<exists>w' now p. UpdateBulletStatus (bu_ID b) status w = (Inr (), w') \<and> healthy w' \<and>
    db w' = insert_change ChannelBullet (bu_ID b) p now (update_bullet (bu_ID b)
      (\<lambda>b. b\<lparr>bu_Status := status, bu_UpdatedAt := clock w (reads w)\<rparr>) (db w))"
proof -
  have "bu_ID b \<in> bu_ID ` set (bullets (db w))" using assms(2) by simp
  then have n: "count_bullets (bu_ID b) (db w) \<noteq> 0" unfolding count_bullets_def count_pos by simp
  let ?d = "update_bullet (bu_ID b) (\<lambda>b. b\<lparr>bu_Status := status, bu_UpdatedAt := clock w (reads w)\<rparr>) (db w)"
  have "healthy (w\<lparr>reads := Suc (reads w), ops := Suc (ops w), db := ?d\<rparr>)" using assms(1) by simp
  from recordTransition_healthy [OF this, of ChannelBullet "bu_ID b" "JObj [
       (''transition'', JStr ''status''), (''id'', JStr (bu_ID b)), (''status'', JStr status)]"]
  show ?thesis using assms(1) n
    by (auto simp: UpdateBulletStatus_def st_simps modify_count_healthy requireOneRow_def)
qed

text \<open>
  Sealing a run's repository either succeeds and moves exactly one bullet, the first of the run's
  intent in that repository, from green to sealed, or is refused and writes nothing.
\<close>

theorem SealBulletForRun_spec:
  assumes "healthy w"
  shows "case SealBulletForRun runID repo w of
      (Inl e, w') \<Rightarrow> db w' = db w
    | (Inr _, w') \<Rightarrow> \<exists>row b. row \<in> set (runs (db w)) \<and> run_ID row = runID \<and>
        find (\<lambda>b. bu_Repo b = repo) (bullets_of (run_IntentID row) (db w)) = Some b \<and>
        bu_Status b = ''green'' \<and>
        bullets (db w') = update_where (\<lambda>c. bu_ID c = bu_ID b)
          (\<lambda>c. c\<lparr>bu_Status := ''sealed'', bu_UpdatedAt := clock w (reads w)\<rparr>) (bullets (db w)) \<and>
        runs (db w') = runs (db w) \<and> intents (db w') = intents (db w)"
proof (cases "find (\<lambda>r. run_ID r = runID) (runs (db w))")
  case None
  with assms show ?thesis
    by (simp add: SealBulletForRun_def GetRun_def st_simps query_row_healthy)
next
  case (Some row)
  then have row: "row \<in> set (runs (db w))" "run_ID row = runID"
    by (auto simp: find_Some_iff)
  let ?w = "w\<lparr>ops := Suc (Suc (ops w))\<rparr>"
  let ?bs = "bullets_of (run_IntentID row) (db w)"
  show ?thesis
  proof (cases "find (\<lambda>b. bu_Repo b = repo) ?bs")
    case None
    with assms Some show ?thesis
      by (simp add: SealBulletForRun_def GetRun_def ListBulletsForIntent_def st_simps query_row_healthy
          query_healthy)
  next
    case (Some b)
    then have "b \<in> set ?bs" by (auto simp: find_Some_iff simp del: set_bullets_of)
    then have "b \<in> set (bullets (db ?w))" by simp
    with UpdateBulletStatus_healthy [of ?w b "''sealed''"] assms obtain w' now p where
      w': "UpdateBulletStatus (bu_ID b) ''sealed'' ?w = (Inr (), w')"
        "db w' = insert_change ChannelBullet (bu_ID b) p now (update_bullet (bu_ID b)
           (\<lambda>b. b\<lparr>bu_Status := ''sealed'', bu_UpdatedAt := clock w (reads w)\<rparr>) (db w))"
      by auto
    have eq: "SealBulletForRun runID repo w =
      (if run_IntentID row = [] then (Inl (Errorf ''run %q has no intent; nothing to seal'' [runID] None),
          w\<lparr>ops := Suc (ops w)\<rparr>)
       else if bu_Status b \<noteq> ''green''
       then (Inl (Errorf ''bullet %q for repo %q is %q, not green: refusing to seal''
                [bu_ID b, repo, bu_Status b] None), ?w)
       else UpdateBulletStatus (bu_ID b) ''sealed'' ?w)"
      using assms \<open>find (\<lambda>r. run_ID r = runID) (runs (db w)) = Some row\<close> Some
      by (simp add: SealBulletForRun_def GetRun_def ListBulletsForIntent_def st_simps query_row_healthy
          query_healthy)
    show ?thesis
      using row Some w' unfolding eq by (auto simp: update_bullet_def)
  qed
qed

section \<open>A sample store\<close>

definition sample_intent :: IntentRecord where
  "sample_intent = \<lparr>in_ID = ''i1'', in_Project = ''p'', in_Statement = ''s'', in_Status = ''in_progress'',
     in_ChangeID = ''c'', in_ChangeRepo = ''api'', in_Type = ''feat'', in_ShippingGateStatus = '''',
     in_ShippingGateReason = '''', in_CreatedAt = 1, in_UpdatedAt = 1\<rparr>"

definition sample_bullet :: "string \<Rightarrow> string \<Rightarrow> string \<Rightarrow> int \<Rightarrow> string \<Rightarrow> BulletRecord" where
  "sample_bullet i intent repo position status = \<lparr>bu_ID = i, bu_IntentID = intent, bu_Repo = repo,
     bu_Position = position, bu_Status = status, bu_Branch = '''', bu_Worktree = '''', bu_CommitSHA = '''',
     bu_PRURL = '''', bu_BlockedReason = '''', bu_CreatedAt = 1, bu_UpdatedAt = 1\<rparr>"

definition sample_tables :: tables where
  "sample_tables = empty_tables\<lparr>runs := [run_row sample_run], intents := [sample_intent],
     bullets := [sample_bullet ''b2'' ''i1'' ''web'' 2 ''green'', sample_bullet ''b1'' ''i1'' ''api'' 1 ''green'',
       sample_bullet ''b3'' ''i2'' ''api'' 1 ''red'']\<rparr>"

lemmas sample_simps = sample_tables_def sample_run_def sample_intent_def sample_bullet_def empty_tables_def

lemma sample_ok: "schema_ok sample_tables" "healthy (initial_world sample_tables)"
  by (simp_all add: schema_ok_def sample_simps)

theorem SealBulletForRun_spec_witness:
  "\<exists>w'. SealBulletForRun ''r1'' ''api'' (initial_world sample_tables) = (Inr (), w') \<and>
     map bu_Status (bullets (db w')) = [''green'', ''sealed'', ''red'']"
proof -
  have "fst (SealBulletForRun ''r1'' ''api'' (initial_world sample_tables)) = Inr ()"
    by code_simp
  then obtain w' where eq: "SealBulletForRun ''r1'' ''api'' (initial_world sample_tables) = (Inr (), w')"
    by (metis prod.collapse)
  with SealBulletForRun_spec [OF sample_ok(2), of "''r1''" "''api''"] show ?thesis
    by (auto simp: sample_simps bullets_of_def)
qed

lemma sample_members:
  "run_row sample_run \<in> set (runs (db (initial_world sample_tables)))"
  "sample_intent \<in> set (intents (db (initial_world sample_tables)))"
  "run_IntentID (run_row sample_run) = in_ID sample_intent" "in_ID sample_intent \<noteq> []"
  by (simp_all add: sample_simps)

theorem AdvanceBulletsForRun_spec_witness:
  "\<exists>w'. AdvanceBulletsForRun ''r1'' ''merged'' '''' (initial_world sample_tables) = (Inr (), w') \<and>
     (\<forall>x \<in> set (intents (db w')). in_ID x = ''i1'' \<longrightarrow>
        in_Status x = DeriveIntentStatus (bullets_of ''i1'' (db w')))"
  using AdvanceBulletsForRun_spec [of "initial_world sample_tables" "run_row sample_run" sample_intent
      "''merged''" "''''"] sample_ok sample_members
  by (auto simp: sample_run_def sample_intent_def)

theorem AdvanceBulletsForRun_idempotent_witness:
  "\<exists>w' w''. AdvanceBulletsForRun ''r1'' ''merged'' '''' (initial_world sample_tables) = (Inr (), w') \<and>
     AdvanceBulletsForRun ''r1'' ''merged'' '''' w' = (Inr (), w'') \<and> db w'' = db w'"
proof -
  have id: "run_ID (run_row sample_run) = ''r1''" by (simp add: sample_run_def)
  have "fst (AdvanceBulletsForRun ''r1'' ''merged'' '''' (initial_world sample_tables)) = Inr ()"
    by code_simp
  then obtain w' where eq: "AdvanceBulletsForRun (run_ID (run_row sample_run)) ''merged'' ''''
      (initial_world sample_tables) = (Inr (), w')" unfolding id by (metis prod.collapse)
  from AdvanceBulletsForRun_idempotent [OF sample_ok(2) _ sample_members eq] sample_ok(1) eq
  show ?thesis unfolding id by auto
qed

end
