(* ===== verification/Deliveries.thy ===== *)
theory Deliveries
  imports Runs
begin

text \<open>
  \<open>internal/store/delivery.go\<close>: delivering an envelope to a consumer with bounded retries, replaying
  a dead letter and quarantining one.  Every transition is an insert, so the rows are the history of
  the delivery; the current state is the newest row.

  The attempt is a closure of the caller that touches the file system and not the store.  It is a
  parameter: the outcome of each of its calls, numbered by the world's call counter.

  Proved here: the rows an uninterrupted delivery appends on every outcome, that a delivered envelope
  is not attempted again, that three calls is the most under any failure schedule, that the history is
  only appended to, and what quarantine does and does not prevent.
\<close>

section \<open>Keys, states and errors\<close>

definition deliveryMaxAttempts :: int where
  "deliveryMaxAttempts = 3"

text \<open>\<open>errors.As\<close> with a \<open>*fs.PathError\<close> target.\<close>

fun is_path_error :: "err \<Rightarrow> bool" where
  "is_path_error (PathError p) = True"
| "is_path_error (Errorf f args (Some e)) = is_path_error e"
| "is_path_error e = False"

definition classifyDeliveryError :: "err option \<Rightarrow> string" where
  "classifyDeliveryError oe = (case oe of
     None \<Rightarrow> ''''
   | Some e \<Rightarrow>
       if errors_Is e Canceled \<or> errors_Is e DeadlineExceeded then ''cancelled''
       else if is_path_error e \<or> errors_Is e NotExist \<or> errors_Is e Permission then ''filesystem''
       else ''unknown'')"

definition deliveryIdempotencyKey :: "string \<Rightarrow> string \<Rightarrow> string" where
  "deliveryIdempotencyKey envelopeID consumer = envelopeID @ '':'' @ consumer"

definition deliveryID :: "string \<Rightarrow> time \<Rightarrow> string" where
  "deliveryID envelopeID nano = ''del-'' @ envelopeID @ ''-'' @ show_int nano"

definition recoveryInstructions :: "string \<Rightarrow> int \<Rightarrow> string \<Rightarrow> string" where
  "recoveryInstructions consumer n class =
     ''Delivery to consumer '' @ consumer @ '' failed after '' @ show_int n @
     '' attempt(s) with error class '' @ class @
     ''. Inspect the delivery history, then replay or quarantine this dead letter.''"

section \<open>Rows\<close>

text \<open>The partial unique index admits one terminal success per key.\<close>

definition insert_delivery :: "DeliveryRecord \<Rightarrow> tables \<Rightarrow> err + unit \<times> tables" where
  "insert_delivery row d =
     (if terminal_success row \<and>
         list_ex (\<lambda>r. del_IdempotencyKey r = del_IdempotencyKey row) (filter terminal_success (deliveries d))
      then Inl (ConstraintUnique ''deliveries.idempotency_key'')
      else Inr ((), d\<lparr>deliveries := deliveries d @ [row]\<rparr>))"

definition insertDeliveryRow ::
    "string \<Rightarrow> string \<Rightarrow> string \<Rightarrow> int \<Rightarrow> err option \<Rightarrow> time \<Rightarrow> string \<Rightarrow> unit st" where
  "insertDeliveryRow envelopeID consumer state attempt failureErr nextAttemptAt recoveryInstr =
     bind_st time_now (\<lambda>now.
     bind_st time_now (\<lambda>nano.
     exec (insert_delivery \<lparr>del_ID = deliveryID envelopeID nano, del_EnvelopeID = envelopeID,
       del_Consumer = consumer, del_State = state, del_Attempt = attempt,
       del_NextAttemptAt = (if nextAttemptAt = 0 then None else Some nextAttemptAt),
       del_Error = failureErr, del_ErrorClass = classifyDeliveryError failureErr,
       del_RecoveryInstructions = recoveryInstr,
       del_IdempotencyKey = deliveryIdempotencyKey envelopeID consumer,
       del_CreatedAt = now, del_UpdatedAt = now\<rparr>)))"

definition insertDeliveryRowQuarantined :: "string \<Rightarrow> string \<Rightarrow> string \<Rightarrow> unit st" where
  "insertDeliveryRowQuarantined envelopeID consumer reason =
     bind_st time_now (\<lambda>now.
     bind_st time_now (\<lambda>nano.
     exec (insert_delivery \<lparr>del_ID = deliveryID envelopeID nano, del_EnvelopeID = envelopeID,
       del_Consumer = consumer, del_State = ''quarantined'', del_Attempt = 0,
       del_NextAttemptAt = None, del_Error = Some (Other reason), del_ErrorClass = ''quarantined'',
       del_RecoveryInstructions = '''',
       del_IdempotencyKey = deliveryIdempotencyKey envelopeID consumer,
       del_CreatedAt = now, del_UpdatedAt = now\<rparr>)))"

definition history :: "string \<Rightarrow> tables \<Rightarrow> DeliveryRecord list" where
  "history key d = sort_key (\<lambda>r. (del_CreatedAt r, del_ID r))
     (filter (\<lambda>r. del_IdempotencyKey r = key) (deliveries d))"

definition ListDeliveryHistory :: "string \<Rightarrow> string \<Rightarrow> DeliveryRecord list st" where
  "ListDeliveryHistory envelopeID consumer = query (history (deliveryIdempotencyKey envelopeID consumer))"

definition ListDeliveriesForRun :: "string \<Rightarrow> DeliveryRecord list st" where
  "ListDeliveriesForRun runID = query (\<lambda>d. sort_key (\<lambda>r. (del_CreatedAt r, del_ID r))
     (concat (map (\<lambda>r. map (\<lambda>_. r)
        (filter (\<lambda>e. env_ID e = del_EnvelopeID r \<and> env_RunID e = runID) (envelopes d))) (deliveries d))))"

definition isAlreadyTerminalSuccess :: "string \<Rightarrow> string \<Rightarrow> bool st" where
  "isAlreadyTerminalSuccess envelopeID consumer = query (\<lambda>d.
     list_ex (\<lambda>r. del_IdempotencyKey r = deliveryIdempotencyKey envelopeID consumer \<and> terminal_success r)
       (deliveries d))"

definition latest_state :: "string \<Rightarrow> tables \<Rightarrow> string" where
  "latest_state key d = (case rev (history key d) of [] \<Rightarrow> '''' | r # _ \<Rightarrow> del_State r)"

definition latestDeliveryState :: "string \<Rightarrow> string \<Rightarrow> string st" where
  "latestDeliveryState envelopeID consumer =
     query (latest_state (deliveryIdempotencyKey envelopeID consumer))"

definition hasDeadLetterRow :: "string \<Rightarrow> string \<Rightarrow> bool st" where
  "hasDeadLetterRow envelopeID consumer = query (\<lambda>d.
     list_ex (\<lambda>r. del_IdempotencyKey r = deliveryIdempotencyKey envelopeID consumer \<and>
       del_State r = ''dead_letter'') (deliveries d))"

section \<open>Attempting\<close>

type_synonym attempt_fn = "nat \<Rightarrow> err option"

definition run_attempt :: "attempt_fn \<Rightarrow> err option st" where
  "run_attempt f = (\<lambda>w. (Inr (f (attempts w)), w\<lparr>attempts := Suc (attempts w)\<rparr>))"

text \<open>
  The loop from \<open>attemptNum\<close> up to the ceiling, \<open>left\<close> iterations of it; it returns the last error
  and whether the retries are exhausted.
\<close>

fun retry_from :: "string \<Rightarrow> string \<Rightarrow> int \<Rightarrow> attempt_fn \<Rightarrow> nat \<Rightarrow> int \<Rightarrow> err option \<Rightarrow>
    (err option \<times> bool) st" where
  "retry_from envelopeID consumer startAttempt attempt 0 attemptNum lastErr = return_st (lastErr, True)"
| "retry_from envelopeID consumer startAttempt attempt (Suc left) attemptNum lastErr =
     bind_st (run_attempt attempt) (\<lambda>res. case res of
       None \<Rightarrow>
         try_st (insertDeliveryRow envelopeID consumer ''delivered'' attemptNum None 0 '''') (\<lambda>r. case r of
           Inl e \<Rightarrow> return_st (Some (Errorf ''recording delivered delivery for envelope %q consumer %q: %w''
                      [envelopeID, consumer] (Some e)), False)
         | Inr _ \<Rightarrow> return_st (None, False))
     | Some e \<Rightarrow>
         let localMax = startAttempt + deliveryMaxAttempts - 1 in
         if attemptNum < localMax then
           bind_st time_now (\<lambda>now.
           try_st (insertDeliveryRow envelopeID consumer ''retrying'' (attemptNum + 1) (Some e) now '''') (\<lambda>r.
             case r of
               Inl e' \<Rightarrow> return_st (Some (Errorf
                 ''recording retrying delivery for envelope %q consumer %q attempt %d: %w''
                 [envelopeID, consumer, show_int attemptNum] (Some e')), False)
             | Inr _ \<Rightarrow>
                 retry_from envelopeID consumer startAttempt attempt left (attemptNum + 1) (Some e)))
         else
           try_st (insertDeliveryRow envelopeID consumer ''dead_letter'' attemptNum (Some e) 0
             (recoveryInstructions consumer attemptNum (classifyDeliveryError (Some e)))) (\<lambda>r. case r of
             Inl e' \<Rightarrow> return_st (Some (Errorf ''recording dead_letter delivery for envelope %q consumer %q: %w''
                        [envelopeID, consumer] (Some e')), False)
           | Inr _ \<Rightarrow> return_st (Some e, True)))"

definition deliverRetryLoop :: "string \<Rightarrow> string \<Rightarrow> int \<Rightarrow> attempt_fn \<Rightarrow> (err option \<times> bool) st" where
  "deliverRetryLoop envelopeID consumer startAttempt attempt =
     retry_from envelopeID consumer startAttempt attempt (nat deliveryMaxAttempts) startAttempt None"

definition DeliverEnvelope :: "string \<Rightarrow> string \<Rightarrow> bool \<Rightarrow> attempt_fn \<Rightarrow> unit st" where
  "DeliverEnvelope envelopeID consumer critical attempt =
     bind_st (wrap_st ''delivery idempotency check for envelope %q consumer %q: %w'' [envelopeID, consumer]
       (isAlreadyTerminalSuccess envelopeID consumer)) (\<lambda>already.
     if already then return_st () else
     bind_st (wrap_st ''recording pending delivery for envelope %q consumer %q: %w'' [envelopeID, consumer]
       (insertDeliveryRow envelopeID consumer ''pending'' 1 None 0 '''')) (\<lambda>_.
     bind_st (deliverRetryLoop envelopeID consumer 1 attempt) (\<lambda>(lastErr, exhausted).
     if \<not> exhausted then return_err lastErr
     else if critical then return_err lastErr
     else return_st ())))"

definition max_attempt :: "DeliveryRecord list \<Rightarrow> int" where
  "max_attempt rs = fold (\<lambda>r m. if del_Attempt r > m then del_Attempt r else m) rs 0"

definition ReplayDelivery :: "string \<Rightarrow> string \<Rightarrow> attempt_fn \<Rightarrow> unit st" where
  "ReplayDelivery envelopeID consumer attempt =
     bind_st (wrap_st ''checking latest delivery state for replay of envelope %q consumer %q: %w''
       [envelopeID, consumer] (latestDeliveryState envelopeID consumer)) (\<lambda>latest.
     let refuse = (\<lambda>why. throw (Errorf ''cannot replay delivery for envelope %q consumer %q''
           [envelopeID, consumer, why, latest] None));
         go =
           bind_st (wrap_st ''reading delivery history for replay of envelope %q consumer %q: %w''
             [envelopeID, consumer] (ListDeliveryHistory envelopeID consumer)) (\<lambda>rows.
           let startAttempt = max_attempt rows + 1 in
           bind_st (wrap_st ''recording pending replay for envelope %q consumer %q: %w''
             [envelopeID, consumer]
             (insertDeliveryRow envelopeID consumer ''pending'' startAttempt None 0 '''')) (\<lambda>_.
           bind_st (deliverRetryLoop envelopeID consumer startAttempt attempt) (\<lambda>(lastErr, _).
           return_err lastErr)))
     in
       if latest = ''dead_letter'' then go
       else if latest = ''quarantined'' then refuse ''delivery is quarantined''
       else if latest = ''delivered'' \<or> latest = ''acknowledged'' then
         bind_st (wrap_st ''checking dead_letter history for replay of envelope %q consumer %q: %w''
           [envelopeID, consumer] (hasDeadLetterRow envelopeID consumer)) (\<lambda>hadDeadLetter.
         if hadDeadLetter then return_st () else refuse ''latest state is not dead_letter'')
       else if latest = '''' then refuse ''no delivery record found''
       else refuse ''latest state is not dead_letter'')"

definition QuarantineDelivery :: "string \<Rightarrow> string \<Rightarrow> string \<Rightarrow> unit st" where
  "QuarantineDelivery envelopeID consumer reason =
     bind_st (wrap_st ''checking latest delivery state for quarantine of envelope %q consumer %q: %w''
       [envelopeID, consumer] (latestDeliveryState envelopeID consumer)) (\<lambda>latest.
     if latest \<noteq> ''dead_letter'' then
       (if latest = '''' then throw (Errorf
          ''cannot quarantine delivery for envelope %q consumer %q: no delivery record found''
          [envelopeID, consumer] None)
        else throw (Errorf
          ''cannot quarantine delivery for envelope %q consumer %q: latest state is %q, not dead_letter''
          [envelopeID, consumer, latest] None))
     else wrap_st ''recording quarantine for envelope %q consumer %q: %w'' [envelopeID, consumer]
            (insertDeliveryRowQuarantined envelopeID consumer reason))"

section \<open>Soundness of every operation\<close>

lemma insert_delivery_Inr:
  "insert_delivery row d = Inr (x, d') \<longleftrightarrow>
     d' = d\<lparr>deliveries := deliveries d @ [row]\<rparr> \<and>
     (terminal_success row \<longrightarrow>
        del_IdempotencyKey row \<notin> del_IdempotencyKey ` set (filter terminal_success (deliveries d)))"
  unfolding insert_delivery_def list_ex_key by (auto split: if_splits)

lemma sound_insertDeliveryRow [within_intros]:
  "within (on_db sound_step) (insertDeliveryRow e c s n f t i)"
  "within (on_db sound_step) (insertDeliveryRowQuarantined e c r)"
  unfolding insertDeliveryRow_def insertDeliveryRowQuarantined_def
  by (intro within_intros sound.w_exec sound_stepI;
      auto simp: insert_delivery_Inr schema_ok_def)+

lemma on_db_run_attempt [within_intros]: "(\<And>d. T d d) \<Longrightarrow> within (on_db T) (run_attempt f)"
  by (simp add: within_def on_db_def run_attempt_def)

lemma sound_retry_from [within_intros]:
  "within (on_db sound_step) (retry_from e c s f left n le)"
  by (induction left arbitrary: n le) (auto simp: Let_def intro!: within_intros)

lemma sound_DeliverEnvelope [within_intros]: "within (on_db sound_step) (DeliverEnvelope e c crit f)"
  unfolding DeliverEnvelope_def isAlreadyTerminalSuccess_def deliverRetryLoop_def
  by (intro within_intros)

lemma sound_ReplayDelivery [within_intros]: "within (on_db sound_step) (ReplayDelivery e c f)"
  unfolding ReplayDelivery_def latestDeliveryState_def ListDeliveryHistory_def hasDeadLetterRow_def
    deliverRetryLoop_def Let_def
  by (intro within_intros)

lemma sound_QuarantineDelivery [within_intros]: "within (on_db sound_step) (QuarantineDelivery e c r)"
  unfolding QuarantineDelivery_def latestDeliveryState_def by (intro within_intros)

text \<open>The history is only appended to.\<close>

definition history_grows :: "tables \<Rightarrow> tables \<Rightarrow> bool" where
  "history_grows d d' \<longleftrightarrow> prefix (deliveries d) (deliveries d')"

interpretation hist: table_relation history_grows
  by unfold_locales (auto simp: history_grows_def)

lemma hist_insertDeliveryRow [within_intros]:
  "within (on_db history_grows) (insertDeliveryRow e c s n f t i)"
  "within (on_db history_grows) (insertDeliveryRowQuarantined e c r)"
  unfolding insertDeliveryRow_def insertDeliveryRowQuarantined_def
  by (intro within_intros hist.w_exec; auto simp: insert_delivery_Inr history_grows_def)+

lemma hist_retry_from [within_intros]: "within (on_db history_grows) (retry_from e c s f left n le)"
  by (induction left arbitrary: n le) (auto simp: Let_def intro!: within_intros)

text \<open>
  Under every schedule of failing statements and every outcome of the attempts, delivering,
  replaying and quarantining only append to the delivery history; no row is changed or removed.
\<close>

theorem delivery_history_append_only:
  "prefix (deliveries (db w)) (deliveries (db (snd (DeliverEnvelope e c crit f w)))) \<and>
   prefix (deliveries (db w)) (deliveries (db (snd (ReplayDelivery e c f w)))) \<and>
   prefix (deliveries (db w)) (deliveries (db (snd (QuarantineDelivery e c r w))))"
proof -
  have "within (on_db history_grows) (DeliverEnvelope e c crit f)"
    unfolding DeliverEnvelope_def isAlreadyTerminalSuccess_def deliverRetryLoop_def
    by (intro within_intros)
  moreover have "within (on_db history_grows) (ReplayDelivery e c f)"
    unfolding ReplayDelivery_def latestDeliveryState_def ListDeliveryHistory_def hasDeadLetterRow_def
      deliverRetryLoop_def Let_def
    by (intro within_intros)
  moreover have "within (on_db history_grows) (QuarantineDelivery e c r)"
    unfolding QuarantineDelivery_def latestDeliveryState_def by (intro within_intros)
  ultimately show ?thesis by (simp add: within_def on_db_def history_grows_def)
qed

section \<open>How often the attempt runs\<close>

text \<open>A computation that calls no attempt.\<close>

definition no_attempt :: "world \<Rightarrow> world \<Rightarrow> bool" where
  "no_attempt w w' \<longleftrightarrow> attempts w' = attempts w"

interpretation quiet: step_relation no_attempt
  by unfold_locales (auto simp: no_attempt_def)

lemma quiet_primitives [within_intros]:
  "within no_attempt time_now" "within no_attempt (exec stmt)" "within no_attempt (query q)"
  by (auto simp: within_def no_attempt_def time_now_def exec_def query_def Let_def
      split: sum.split prod.split)

lemma quiet_insertDeliveryRow [within_intros]: "within no_attempt (insertDeliveryRow e c s n f t i)"
  unfolding insertDeliveryRow_def by (intro within_intros)

text \<open>At most \<open>n\<close> calls.\<close>

definition calls_within :: "nat \<Rightarrow> 'a st \<Rightarrow> bool" where
  "calls_within n m \<longleftrightarrow> (\<forall>w. attempts (snd (m w)) \<le> attempts w + n)"

lemma calls_quiet: "within no_attempt m \<Longrightarrow> calls_within k m"
  unfolding within_def no_attempt_def calls_within_def by (simp add: trans_le_add1)

lemma calls_bind:
  assumes x: "calls_within m x" and f: "\<And>a. calls_within n (f a)"
  shows "calls_within (m + n) (bind_st x f)"
  unfolding calls_within_def
proof
  fix w
  obtain r w1 where eq: "x w = (r, w1)" by (cases "x w")
  have 1: "attempts w1 \<le> attempts w + m"
    using x eq unfolding calls_within_def by (metis snd_conv)
  show "attempts (snd (bind_st x f w)) \<le> attempts w + (m + n)"
  proof (cases r)
    case (Inl e)
    with eq 1 show ?thesis by (simp add: bind_st_def)
  next
    case (Inr a)
    have "attempts (snd (f a w1)) \<le> attempts w1 + n"
      using f unfolding calls_within_def by blast
    with eq Inr 1 show ?thesis by (simp add: bind_st_def)
  qed
qed

lemma calls_after_quiet:
  assumes "within no_attempt x" and "\<And>a. calls_within k (f a)"
  shows "calls_within k (bind_st x f)"
  using calls_bind [OF calls_quiet [OF assms(1), of 0] assms(2)] by simp

lemma calls_then_quiet:
  assumes "calls_within k x" and "\<And>a. within no_attempt (f a)"
  shows "calls_within k (bind_st x f)"
  using calls_bind [OF assms(1) calls_quiet [OF assms(2), of 0]] by simp

lemma calls_try_quiet:
  assumes x: "within no_attempt x" and f: "\<And>r. calls_within k (f r)"
  shows "calls_within k (try_st x f)"
  unfolding calls_within_def
proof
  fix w
  obtain r w1 where eq: "x w = (r, w1)" by (cases "x w")
  have "attempts w1 = attempts w" using withinD [OF x eq] by (simp add: no_attempt_def)
  moreover have "attempts (snd (f r w1)) \<le> attempts w1 + k"
    using f unfolding calls_within_def by blast
  ultimately show "attempts (snd (try_st x f w)) \<le> attempts w + k" using eq by (simp add: try_st_def)
qed

lemma calls_run_attempt: "calls_within 1 (run_attempt f)"
  by (simp add: calls_within_def run_attempt_def)

lemma calls_sum:
  "(\<And>e. calls_within k (m e)) \<Longrightarrow> (\<And>x. calls_within k (n x)) \<Longrightarrow>
   calls_within k (case v of Inl e \<Rightarrow> m e | Inr x \<Rightarrow> n x)"
  by (cases v) auto

lemma calls_retry_from: "calls_within left (retry_from e c s f left n le)"
proof (induction left arbitrary: n le)
  case 0
  show ?case by (simp add: calls_quiet quiet.w_return)
next
  case (Suc left)
  have "calls_within (1 + left) (retry_from e c s f (Suc left) n le)"
    unfolding retry_from.simps Let_def
  proof (rule calls_bind [OF calls_run_attempt], goal_cases)
    case (1 res)
    show ?case
    proof (cases res)
      case None
      show ?thesis unfolding None option.case by (intro calls_quiet within_intros)
    next
      case (Some x)
      show ?thesis unfolding Some option.case
        by (cases "n < s + deliveryMaxAttempts - 1")
           (simp_all, (intro calls_after_quiet calls_try_quiet calls_sum Suc.IH
              calls_quiet [OF quiet.w_return] within_intros)+)
    qed
  qed
  then show ?case by simp
qed

lemma calls_deliverRetryLoop: "calls_within 3 (deliverRetryLoop e c s f)"
  using calls_retry_from [of 3] by (simp add: deliverRetryLoop_def deliveryMaxAttempts_def)

lemma calls_cond: "calls_within k m \<Longrightarrow> calls_within k n \<Longrightarrow> calls_within k (if b then m else n)"
  by simp

text \<open>
  Whatever the attempts return and whichever statements fail, one call of \<open>DeliverEnvelope\<close> or of
  \<open>ReplayDelivery\<close> runs the attempt at most three times.
\<close>

theorem delivery_attempts_bounded:
  "attempts (snd (DeliverEnvelope e c crit f w)) \<le> attempts w + 3 \<and>
   attempts (snd (ReplayDelivery e c f w)) \<le> attempts w + 3"
proof -
  have "calls_within 3 (DeliverEnvelope e c crit f)"
    unfolding DeliverEnvelope_def isAlreadyTerminalSuccess_def
    by (intro calls_after_quiet calls_cond calls_then_quiet [OF calls_deliverRetryLoop]
        calls_quiet [OF quiet.w_return] within_intros)
  moreover have "calls_within 3 (ReplayDelivery e c f)"
    unfolding ReplayDelivery_def latestDeliveryState_def ListDeliveryHistory_def hasDeadLetterRow_def Let_def
    by (intro calls_after_quiet calls_cond calls_then_quiet [OF calls_deliverRetryLoop]
        calls_quiet [OF quiet.w_return] calls_quiet [OF quiet.w_throw] within_intros)
  ultimately show ?thesis unfolding calls_within_def by blast
qed

section \<open>What an uninterrupted delivery records\<close>

definition delivery_row :: "world \<Rightarrow> string \<Rightarrow> string \<Rightarrow> string \<Rightarrow> int \<Rightarrow> err option \<Rightarrow> time \<Rightarrow> string \<Rightarrow>
    DeliveryRecord" where
  "delivery_row w e c s n f t i = \<lparr>del_ID = deliveryID e (clock w (Suc (reads w))), del_EnvelopeID = e,
     del_Consumer = c, del_State = s, del_Attempt = n,
     del_NextAttemptAt = (if t = 0 then None else Some t),
     del_Error = f, del_ErrorClass = classifyDeliveryError f, del_RecoveryInstructions = i,
     del_IdempotencyKey = deliveryIdempotencyKey e c,
     del_CreatedAt = clock w (reads w), del_UpdatedAt = clock w (reads w)\<rparr>"

lemma delivery_row_fields [simp]:
  "del_State (delivery_row w e c s n f t i) = s" "del_Attempt (delivery_row w e c s n f t i) = n"
  "del_Error (delivery_row w e c s n f t i) = f"
  "del_IdempotencyKey (delivery_row w e c s n f t i) = deliveryIdempotencyKey e c"
  "del_EnvelopeID (delivery_row w e c s n f t i) = e" "del_Consumer (delivery_row w e c s n f t i) = c"
  "del_CreatedAt (delivery_row w e c s n f t i) = clock w (reads w)"
  by (simp_all add: delivery_row_def)

definition no_success :: "string \<Rightarrow> tables \<Rightarrow> bool" where
  "no_success key d \<longleftrightarrow>
     \<not> list_ex (\<lambda>r. del_IdempotencyKey r = key \<and> terminal_success r) (deliveries d)"

lemma no_success_append:
  "no_success key (d\<lparr>deliveries := deliveries d @ rs\<rparr>) \<longleftrightarrow>
     no_success key d \<and> (\<forall>r \<in> set rs. \<not> (del_IdempotencyKey r = key \<and> terminal_success r))"
  by (auto simp: no_success_def list_ex_iff)

lemma insertDeliveryRow_healthy:
  assumes "healthy w" and "no_success (deliveryIdempotencyKey e c) (db w)"
  shows "insertDeliveryRow e c s n f t i w =
     (Inr (), w\<lparr>reads := Suc (Suc (reads w)), ops := Suc (ops w),
        db := (db w)\<lparr>deliveries := deliveries (db w) @ [delivery_row w e c s n f t i]\<rparr>\<rparr>)"
  using assms
  by (auto simp: insertDeliveryRow_def st_simps healthy_simps insert_delivery_def delivery_row_def
      no_success_def list_ex_iff)

text \<open>
  The states and attempt numbers of the rows, the number of calls and the result, as a function of the
  outcomes of three attempts.
\<close>

definition delivery_trace ::
    "bool \<Rightarrow> err option \<Rightarrow> err option \<Rightarrow> err option \<Rightarrow> (string \<times> int \<times> err option) list \<times> nat \<times> err option" where
  "delivery_trace critical o1 o2 o3 =
     (if o1 = None then ([(''pending'', 1, None), (''delivered'', 1, None)], 1, None)
      else if o2 = None then
        ([(''pending'', 1, None), (''retrying'', 2, o1), (''delivered'', 2, None)], 2, None)
      else if o3 = None then
        ([(''pending'', 1, None), (''retrying'', 2, o1), (''retrying'', 3, o2), (''delivered'', 3, None)], 3, None)
      else
        ([(''pending'', 1, None), (''retrying'', 2, o1), (''retrying'', 3, o2), (''dead_letter'', 3, o3)], 3,
         if critical then o3 else None))"

definition row_view :: "DeliveryRecord \<Rightarrow> string \<times> int \<times> err option" where
  "row_view r = (del_State r, del_Attempt r, del_Error r)"

definition as_result :: "err option \<Rightarrow> err + unit" where
  "as_result oe = (case oe of None \<Rightarrow> Inr () | Some e \<Rightarrow> Inl e)"

lemma return_err_eq: "return_err oe w = (as_result oe, w)"
  by (simp add: return_err_def as_result_def st_simps split: option.split)

text \<open>
  C22: on a database in working order and with no successful delivery on record, \<open>DeliverEnvelope\<close>
  appends exactly the rows of the delivery protocol, a \<open>pending\<close> row, one \<open>retrying\<close> row per failed
  attempt before the last and one closing row, \<open>delivered\<close> after the first success or \<open>dead_letter\<close>
  after the third failure; it attempts once per row after the first, and reports an error only for a
  dead letter of a critical consumer.  Every row carries the key of the pair.
\<close>

theorem DeliverEnvelope_history:
  assumes w: "healthy w" and none: "no_success (deliveryIdempotencyKey e c) (db w)"
    and tr: "delivery_trace crit (f (attempts w)) (f (attempts w + 1)) (f (attempts w + 2)) = (rows, k, oe)"
  shows "\<exists>w' rs. DeliverEnvelope e c crit f w = (as_result oe, w') \<and>
    deliveries (db w') = deliveries (db w) @ rs \<and> map row_view rs = rows \<and>
    (\<forall>r \<in> set rs. del_IdempotencyKey r = deliveryIdempotencyKey e c) \<and> attempts w' = attempts w + k"
proof -
  have eq: "isAlreadyTerminalSuccess e c w = (Inr False, w\<lparr>ops := Suc (ops w)\<rparr>)"
    using w none by (simp add: isAlreadyTerminalSuccess_def query_healthy no_success_def)
  show ?thesis
    using w none tr
    by (auto simp: DeliverEnvelope_def st_simps eq insertDeliveryRow_healthy no_success_append
        deliverRetryLoop_def deliveryMaxAttempts_def numeral_3_eq_3 run_attempt_def terminal_success_def
        delivery_trace_def row_view_def return_err_eq as_result_def Let_def
        split: if_splits option.splits)
qed

text \<open>A database with one run and one envelope, for the concrete runs below.\<close>

definition flaky :: attempt_fn where
  "flaky n = (if n = 0 then Some (PathError ''/tmp/x'') else None)"

definition failing :: attempt_fn where
  "failing n = Some (Other ''refused'')"

theorem DeliverEnvelope_history_witness:
  "\<exists>w' rs. DeliverEnvelope ''env-1'' ''worktree'' True flaky (initial_world empty_tables) = (as_result None, w') \<and>
    deliveries (db w') = deliveries (db (initial_world empty_tables)) @ rs \<and>
    map row_view rs = [(''pending'', 1, None), (''retrying'', 2, Some (PathError ''/tmp/x'')),
      (''delivered'', 2, None)] \<and>
    (\<forall>r \<in> set rs. del_IdempotencyKey r = deliveryIdempotencyKey ''env-1'' ''worktree'') \<and>
    attempts w' = attempts (initial_world empty_tables) + 2"
  by (rule DeliverEnvelope_history)
     (simp_all add: no_success_def empty_tables_def initial_world_def delivery_trace_def flaky_def healthy_def)

text \<open>
  Once a delivery has succeeded it is never attempted again: \<open>DeliverEnvelope\<close> returns success
  without running the attempt and without writing a row.
\<close>

theorem DeliverEnvelope_once:
  assumes "healthy w" and "\<not> no_success (deliveryIdempotencyKey e c) (db w)"
  shows "\<exists>w'. DeliverEnvelope e c crit f w = (Inr (), w') \<and> db w' = db w \<and> attempts w' = attempts w"
  using assms
  by (simp add: DeliverEnvelope_def isAlreadyTerminalSuccess_def st_simps query_healthy no_success_def)

definition delivered_tables :: tables where
  "delivered_tables = empty_tables\<lparr>deliveries :=
     [\<lparr>del_ID = ''del-env-1-2'', del_EnvelopeID = ''env-1'', del_Consumer = ''worktree'',
       del_State = ''delivered'', del_Attempt = 1, del_NextAttemptAt = None, del_Error = None,
       del_ErrorClass = '''', del_RecoveryInstructions = '''', del_IdempotencyKey = ''env-1:worktree'',
       del_CreatedAt = 1, del_UpdatedAt = 1\<rparr>]\<rparr>"

theorem DeliverEnvelope_once_witness:
  "\<exists>w'. DeliverEnvelope ''env-1'' ''worktree'' True failing (initial_world delivered_tables) = (Inr (), w') \<and>
    db w' = db (initial_world delivered_tables) \<and> attempts w' = attempts (initial_world delivered_tables)"
  by (rule DeliverEnvelope_once)
     (simp_all add: no_success_def delivered_tables_def deliveryIdempotencyKey_def terminal_success_def
        initial_world_def healthy_def)

section \<open>Keys\<close>

text \<open>
  The idempotency key names one pair of envelope and consumer as long as the identifiers of the
  envelopes contain no colon.
\<close>

theorem deliveryIdempotencyKey_inject:
  assumes "CHR '':'' \<notin> set e1" and "CHR '':'' \<notin> set e2"
  shows "deliveryIdempotencyKey e1 c1 = deliveryIdempotencyKey e2 c2 \<longleftrightarrow> e1 = e2 \<and> c1 = c2"
  using sep_inject [OF assms, of c1 c2] by (auto simp: deliveryIdempotencyKey_def)

theorem deliveryIdempotencyKey_inject_witness:
  "(deliveryIdempotencyKey ''env-1'' ''a'' = deliveryIdempotencyKey ''env-1'' ''b'') = (''env-1'' = ''env-1'' \<and> ''a'' = ''b'')"
  by (rule deliveryIdempotencyKey_inject) simp_all

lemma deliveryIdempotencyKey_collision:
  "deliveryIdempotencyKey ''env'' ''a:b'' = deliveryIdempotencyKey ''env:a'' ''b''"
  by (simp add: deliveryIdempotencyKey_def)

section \<open>Dead letters, replay and quarantine\<close>

text \<open>The newest row by creation time and id is the last one inserted when the clock has advanced.\<close>

lemma sort_key_append_max:
  fixes f :: "'a \<Rightarrow> 'b :: linorder"
  assumes "\<forall>x \<in> set xs. f x \<le> f y"
  shows "sort_key f (xs @ [y]) = sort_key f xs @ [y]"
proof (rule properties_for_sort_key)
  show "mset (sort_key f xs @ [y]) = mset (xs @ [y])" by simp
next
  fix k
  have "filter (\<lambda>x. f x = f k) (sort_key f xs) = filter (\<lambda>x. f x = f k) xs" by (rule sort_key_stable)
  then show "filter (\<lambda>x. f k = f x) (sort_key f xs @ [y]) = filter (\<lambda>x. f k = f x) (xs @ [y])"
    by (simp add: eq_commute)
next
  show "sorted (map f (sort_key f xs @ [y]))" using assms by (simp add: sorted_append)
qed

lemma latest_state_append:
  assumes later: "\<forall>r \<in> set (deliveries d). del_IdempotencyKey r = key \<longrightarrow> del_CreatedAt r < del_CreatedAt row"
    and "del_IdempotencyKey row = key"
  shows "latest_state key (d\<lparr>deliveries := deliveries d @ [row]\<rparr>) = del_State row"
proof -
  have "history key (d\<lparr>deliveries := deliveries d @ [row]\<rparr>) = history key d @ [row]"
    using assms by (auto simp: history_def less_le_not_le intro!: sort_key_append_max)
  then show ?thesis by (simp add: latest_state_def)
qed

text \<open>
  A dead letter can be quarantined, and an operator's replay straight after is refused: it does not
  run the attempt and writes nothing.
\<close>

theorem quarantine_refuses_replay:
  assumes w: "healthy w"
    and dead: "latest_state (deliveryIdempotencyKey e c) (db w) = ''dead_letter''"
    and later: "\<forall>r \<in> set (deliveries (db w)). del_CreatedAt r < clock w (reads w)"
  shows "\<exists>w1. QuarantineDelivery e c reason w = (Inr (), w1) \<and>
    (\<exists>x w2. ReplayDelivery e c f w1 = (Inl x, w2) \<and> db w2 = db w1 \<and> attempts w2 = attempts w)"
proof -
  define row where "row = \<lparr>del_ID = deliveryID e (clock w (Suc (reads w))), del_EnvelopeID = e,
       del_Consumer = c, del_State = ''quarantined'', del_Attempt = 0,
       del_NextAttemptAt = None, del_Error = Some (Other reason), del_ErrorClass = ''quarantined'',
       del_RecoveryInstructions = '''', del_IdempotencyKey = deliveryIdempotencyKey e c,
       del_CreatedAt = clock w (reads w), del_UpdatedAt = clock w (reads w)\<rparr>"
  have ins: "insert_delivery row (db w) = Inr ((), (db w)\<lparr>deliveries := deliveries (db w) @ [row]\<rparr>)"
    by (simp add: insert_delivery_def row_def terminal_success_def)
  have "latest_state (deliveryIdempotencyKey e c) ((db w)\<lparr>deliveries := deliveries (db w) @ [row]\<rparr>) =
      ''quarantined''"
    using latest_state_append [of "db w" "deliveryIdempotencyKey e c" row] later by (simp add: row_def)
  with w dead ins show ?thesis
    by (simp add: QuarantineDelivery_def latestDeliveryState_def insertDeliveryRowQuarantined_def
        st_simps healthy_simps ReplayDelivery_def Let_def flip: row_def)
qed

definition dead_tables :: tables where
  "dead_tables = db (snd (DeliverEnvelope ''env-1'' ''worktree'' True failing (initial_world empty_tables)))"

lemma dead_tables_deliveries:
  "map (\<lambda>r. (del_State r, del_CreatedAt r)) (deliveries dead_tables) =
     [(''pending'', 1), (''retrying'', 4), (''retrying'', 7), (''dead_letter'', 9)]"
  "latest_state (deliveryIdempotencyKey ''env-1'' ''worktree'') dead_tables = ''dead_letter''"
  by code_simp+

definition later_world :: world where
  "later_world = (initial_world dead_tables)\<lparr>reads := 100\<rparr>"

theorem quarantine_refuses_replay_witness:
  "\<exists>w1. QuarantineDelivery ''env-1'' ''worktree'' ''poison'' later_world = (Inr (), w1) \<and>
    (\<exists>x w2. ReplayDelivery ''env-1'' ''worktree'' failing w1 = (Inl x, w2) \<and> db w2 = db w1 \<and>
       attempts w2 = attempts later_world)"
proof (rule quarantine_refuses_replay)
  show "healthy later_world" by (simp add: later_world_def)
  show "latest_state (deliveryIdempotencyKey ''env-1'' ''worktree'') (db later_world) = ''dead_letter''"
    using dead_tables_deliveries(2) by (simp add: later_world_def)
  have "map del_CreatedAt (deliveries dead_tables) = [1, 4, 7, 9]"
    using arg_cong [OF dead_tables_deliveries(1), of "map snd"] by (simp add: comp_def)
  then have "del_CreatedAt ` set (deliveries dead_tables) = {1, 4, 7, 9}"
    by (metis list.set_map list.simps(15) empty_set)
  then have "del_CreatedAt r \<in> {1, 4, 7, 9}" if "r \<in> set (deliveries dead_tables)" for r
    using that by blast
  then show "\<forall>r \<in> set (deliveries (db later_world)). del_CreatedAt r < clock later_world (reads later_world)"
    by (fastforce simp: later_world_def initial_world_def)
qed


end
