(* ===== verification/Retention.thy ===== *)
theory Retention
  imports Intents Deliveries
begin

text \<open>
  \<open>internal/store/retention.go\<close> and \<open>internal/store/analytics.go\<close>: folding finished runs into a
  rollup per project before deleting their rows, and the analytics that add the rollups back in.

  Proved here: the analytics compute the sums they stand for, an uninterrupted rotation changes no
  number of them for any project, and what a failure in the middle of a rotation does to them.
\<close>

section \<open>Provenance\<close>

record runProvenance =
  pr_Agent :: string
  pr_Model :: string
  pr_Provider :: string

definition no_provenance :: runProvenance where
  "no_provenance = \<lparr>pr_Agent = '''', pr_Model = '''', pr_Provider = ''''\<rparr>"

text \<open>
  \<open>json.Unmarshal\<close> into the struct: a member goes to the field whose name it has up to ASCII case, the
  last one wins, \<open>null\<close> leaves the field alone and any other type is an error.
\<close>

definition to_lower :: "char \<Rightarrow> char" where
  "to_lower c = (if 65 \<le> (of_char c :: nat) \<and> (of_char c :: nat) \<le> 90 then char_of ((of_char c :: nat) + 32) else c)"

definition fold_eq :: "string \<Rightarrow> string \<Rightarrow> bool" where
  "fold_eq a b \<longleftrightarrow> map to_lower a = map to_lower b"

definition set_text :: "(string \<Rightarrow> runProvenance \<Rightarrow> runProvenance) \<Rightarrow> json \<Rightarrow> runProvenance option \<Rightarrow>
    runProvenance option" where
  "set_text upd v p = (case v of JStr s \<Rightarrow> map_option (upd s) p | JNull \<Rightarrow> p | _ \<Rightarrow> None)"

definition decode_member :: "runProvenance option \<Rightarrow> string \<times> json \<Rightarrow> runProvenance option" where
  "decode_member p m =
     (if fold_eq (fst m) ''agent'' then set_text (\<lambda>s p. p\<lparr>pr_Agent := s\<rparr>) (snd m) p
      else if fold_eq (fst m) ''model'' then set_text (\<lambda>s p. p\<lparr>pr_Model := s\<rparr>) (snd m) p
      else if fold_eq (fst m) ''provider'' then set_text (\<lambda>s p. p\<lparr>pr_Provider := s\<rparr>) (snd m) p
      else p)"

fun decode_provenance :: "raw_json \<Rightarrow> runProvenance option" where
  "decode_provenance (RawDoc (JObj ms)) = foldl decode_member (Some no_provenance) ms"
| "decode_provenance (RawDoc JNull) = Some no_provenance"
| "decode_provenance _ = None"

fun first_provenance :: "PhaseRecord list \<Rightarrow> runProvenance" where
  "first_provenance [] = no_provenance"
| "first_provenance (p # ps) =
     (if ph_Payload p = RawEmpty then first_provenance ps
      else case decode_provenance (ph_Payload p) of
             None \<Rightarrow> first_provenance ps
           | Some prov \<Rightarrow> if pr_Agent prov \<noteq> '''' then prov else first_provenance ps)"

definition provenanceForRun :: "string \<Rightarrow> runProvenance st" where
  "provenanceForRun runID =
     bind_st (ListPhasesForRun runID) (\<lambda>ps. return_st (first_provenance ps))"

section \<open>Rollups\<close>

definition bump :: "string \<Rightarrow> counts \<Rightarrow> counts" where
  "bump k m = m(k := m k + 1)"

text \<open>
  The maps are stored as JSON objects the code itself wrote, so they read back as they were written.
\<close>

definition GetRetentionRollup :: "string \<Rightarrow> RetentionRollup option st" where
  "GetRetentionRollup project =
     query (\<lambda>d. find (\<lambda>r. ro_Project r = project) (retention_rollups d))"

definition upsert_rollup :: "RetentionRollup \<Rightarrow> tables \<Rightarrow> tables" where
  "upsert_rollup r d = d\<lparr>retention_rollups :=
     (if list_ex (\<lambda>x. ro_Project x = ro_Project r) (retention_rollups d)
      then update_where (\<lambda>x. ro_Project x = ro_Project r) (\<lambda>_. r) (retention_rollups d)
      else retention_rollups d @ [r])\<rparr>"

definition upsertRetentionRollup :: "RetentionRollup \<Rightarrow> unit st" where
  "upsertRetentionRollup r = modify (upsert_rollup r)"

definition rollup_projects :: "tables \<Rightarrow> string list" where
  "rollup_projects d = sort (map ro_Project (retention_rollups d))"

text \<open>\<open>""\<close> and \<open>"all"\<close> stand for every project.\<close>

definition every_project :: "string \<Rightarrow> bool" where
  "every_project project \<longleftrightarrow> project = '''' \<or> project = ''all''"

definition retentionRollupsFor :: "string \<Rightarrow> RetentionRollup list st" where
  "retentionRollupsFor project =
     (if \<not> every_project project then
        bind_st (GetRetentionRollup project) (\<lambda>found.
        return_st (case found of None \<Rightarrow> [] | Some r \<Rightarrow> [r]))
      else
        bind_st (query rollup_projects) (\<lambda>ps.
        fold_st (\<lambda>p acc. bind_st (GetRetentionRollup p) (\<lambda>found.
          return_st (case found of None \<Rightarrow> acc | Some r \<Rightarrow> acc @ [r]))) ps []))"

section \<open>Rotation\<close>

definition intentFullyMerged :: "string \<Rightarrow> bool st" where
  "intentFullyMerged intentID =
     (if intentID = '''' then return_st True else
      bind_st (ListBulletsForIntent intentID) (\<lambda>bs.
      return_st (list_all (\<lambda>b. bu_Status b = ''merged'') bs)))"

definition empty_rollup :: "string \<Rightarrow> RetentionRollup" where
  "empty_rollup project = \<lparr>ro_Project = project, ro_ComputedThrough = 0, ro_RunCount = 0,
     ro_PassedCount = 0, ro_FailedCount = 0, ro_CancelledCount = 0, ro_InterruptedCount = 0,
     ro_BulletTotal = 0, ro_BulletMerged = 0, ro_ByWorkType = (\<lambda>_. 0), ro_ByAgent = (\<lambda>_. 0),
     ro_ByModel = (\<lambda>_. 0), ro_ByProvider = (\<lambda>_. 0)\<rparr>"

definition count_status :: "string \<Rightarrow> RetentionRollup \<Rightarrow> RetentionRollup" where
  "count_status s r =
     (if s = ''passed'' then r\<lparr>ro_PassedCount := ro_PassedCount r + 1\<rparr>
      else if s = ''failed'' then r\<lparr>ro_FailedCount := ro_FailedCount r + 1\<rparr>
      else if s = ''cancelled'' then r\<lparr>ro_CancelledCount := ro_CancelledCount r + 1\<rparr>
      else if s = ''interrupted'' then r\<lparr>ro_InterruptedCount := ro_InterruptedCount r + 1\<rparr>
      else r)"

definition fold_run :: "RunRecord \<Rightarrow> runProvenance \<Rightarrow> RetentionRollup \<Rightarrow> RetentionRollup" where
  "fold_run run prov current =
     (let current = current\<lparr>ro_RunCount := ro_RunCount current + 1\<rparr>;
          current = count_status (run_Status run) current
      in current\<lparr>ro_ByWorkType := bump (run_Type run) (ro_ByWorkType current),
                 ro_ByAgent := bump (pr_Agent prov) (ro_ByAgent current),
                 ro_ByModel := bump (pr_Model prov) (ro_ByModel current),
                 ro_ByProvider := bump (pr_Provider prov) (ro_ByProvider current)\<rparr>)"

definition foldRunIntoRollup :: "string \<Rightarrow> RunRecord \<Rightarrow> runProvenance \<Rightarrow> unit st" where
  "foldRunIntoRollup project run prov =
     bind_st (GetRetentionRollup project) (\<lambda>found.
     let current = fold_run run prov (case found of None \<Rightarrow> empty_rollup project | Some r \<Rightarrow> r)
     in bind_st time_now (\<lambda>now.
        let current = current\<lparr>ro_ComputedThrough := now\<rparr> in
        if run_IntentID run = '''' then upsertRetentionRollup current
        else bind_st (ListBulletsForIntent (run_IntentID run)) (\<lambda>bs.
          upsertRetentionRollup (current\<lparr>
            ro_BulletTotal := ro_BulletTotal current + int (length bs),
            ro_BulletMerged := ro_BulletMerged current +
              int (length (filter (\<lambda>b. bu_Status b = ''merged'') bs))\<rparr>))))"

definition delete_deliveries_of :: "string \<Rightarrow> tables \<Rightarrow> tables" where
  "delete_deliveries_of runID d = d\<lparr>deliveries := filter (\<lambda>r.
     \<not> list_ex (\<lambda>e. env_ID e = del_EnvelopeID r \<and> env_RunID e = runID) (envelopes d)) (deliveries d)\<rparr>"

definition rotateOneRun :: "string \<Rightarrow> RunRecord \<Rightarrow> unit st" where
  "rotateOneRun project run =
     bind_st (provenanceForRun (run_ID run)) (\<lambda>prov.
     bind_st (foldRunIntoRollup project run prov) (\<lambda>_.
     bind_st (modify (delete_deliveries_of (run_ID run))) (\<lambda>_.
     bind_st (modify (delete_envelopes_of (run_ID run))) (\<lambda>_.
     bind_st (modify (delete_phases_of (run_ID run))) (\<lambda>_.
     modify (delete_run_row (run_ID run)))))))"

definition rotation_candidates :: "string \<Rightarrow> time \<Rightarrow> tables \<Rightarrow> RunRecord list" where
  "rotation_candidates project cutoff d = map scanRun (sort_key run_CreatedAt
     (filter (\<lambda>r. run_Project r = project \<and> List.member rotationEligibleStatuses (run_Status r) \<and>
        run_CreatedAt r < cutoff) (runs d)))"

text \<open>The loop; the number of runs rotated so far is returned along with an error.\<close>

fun rotate_loop :: "string \<Rightarrow> RunRecord list \<Rightarrow> int \<Rightarrow> (int \<times> err option) st" where
  "rotate_loop project [] rotated = return_st (rotated, None)"
| "rotate_loop project (r # rs) rotated =
     try_st (intentFullyMerged (run_IntentID r)) (\<lambda>res. case res of
       Inl e \<Rightarrow> return_st (rotated, Some (Errorf ''checking intent eligibility for run %q: %w'' [run_ID r] (Some e)))
     | Inr eligible \<Rightarrow>
         if \<not> eligible then rotate_loop project rs rotated
         else try_st (rotateOneRun project r) (\<lambda>res. case res of
           Inl e \<Rightarrow> return_st (rotated, Some (Errorf ''rotating run %q: %w'' [run_ID r] (Some e)))
         | Inr _ \<Rightarrow> rotate_loop project rs (rotated + 1)))"

definition RotateProject :: "string \<Rightarrow> time \<Rightarrow> (int \<times> err option) st" where
  "RotateProject project cutoff =
     try_st (query (rotation_candidates project cutoff)) (\<lambda>res. case res of
       Inl e \<Rightarrow> return_st (0, Some e)
     | Inr candidates \<Rightarrow> rotate_loop project candidates 0)"

text \<open>The file system answers the removal of a path; a file that is already gone is not an error.\<close>

definition delete_artifact :: "string \<Rightarrow> tables \<Rightarrow> tables" where
  "delete_artifact i d = d\<lparr>artifacts := filter (\<lambda>a. art_ID a \<noteq> i) (artifacts d)\<rparr>"

fun rotate_artifacts_loop :: "(string \<Rightarrow> err option) \<Rightarrow> (string \<times> string) list \<Rightarrow> int \<Rightarrow>
    (int \<times> err option) st" where
  "rotate_artifacts_loop remove [] rotated = return_st (rotated, None)"
| "rotate_artifacts_loop remove ((i, path) # cs) rotated =
     (case (if path = '''' then None else remove path) of
        Some e \<Rightarrow>
          if errors_Is e NotExist then
            try_st (modify (delete_artifact i)) (\<lambda>res. case res of
              Inl e \<Rightarrow> return_st (rotated, Some e)
            | Inr _ \<Rightarrow> rotate_artifacts_loop remove cs (rotated + 1))
          else return_st (rotated, Some (Errorf ''removing artifact file %s: %w'' [path] (Some e)))
      | None \<Rightarrow>
          try_st (modify (delete_artifact i)) (\<lambda>res. case res of
            Inl e \<Rightarrow> return_st (rotated, Some e)
          | Inr _ \<Rightarrow> rotate_artifacts_loop remove cs (rotated + 1)))"

definition RotateArtifacts :: "(string \<Rightarrow> err option) \<Rightarrow> time \<Rightarrow> (int \<times> err option) st" where
  "RotateArtifacts remove cutoff =
     try_st (query (\<lambda>d. map (\<lambda>a. (art_ID a, art_Path a))
       (filter (\<lambda>a. art_CapturedAt a < cutoff) (artifacts d)))) (\<lambda>res. case res of
       Inl e \<Rightarrow> return_st (0, Some e)
     | Inr cs \<Rightarrow> rotate_artifacts_loop remove cs 0)"

section \<open>Analytics\<close>

definition in_scope :: "string \<Rightarrow> string \<Rightarrow> bool" where
  "in_scope project p \<longleftrightarrow> every_project project \<or> p = project"

definition AllRunsForAnalytics :: "string \<Rightarrow> RunRecord list st" where
  "AllRunsForAnalytics project = query (\<lambda>d. map scanRun (sort_key run_CreatedAt
     (filter (\<lambda>r. in_scope project (run_Project r)) (runs d))))"

definition analytics_bullets :: "string \<Rightarrow> tables \<Rightarrow> BulletRecord list" where
  "analytics_bullets project d = concat (map (\<lambda>b. map (\<lambda>_. b)
     (filter (\<lambda>i. in_ID i = bu_IntentID b \<and> in_scope project (in_Project i)) (intents d))) (bullets d))"

definition AllBulletsForAnalytics :: "string \<Rightarrow> BulletRecord list st" where
  "AllBulletsForAnalytics project = query (analytics_bullets project)"

record WorkAnalytics =
  wa_Project :: string
  wa_TotalRuns :: int
  wa_ByStatus :: counts
  wa_ByType :: counts
  wa_ByAgent :: counts
  wa_ByModel :: counts
  wa_ByProvider :: counts
  wa_BulletsTotal :: int
  wa_BulletsMerged :: int

definition empty_analytics :: "string \<Rightarrow> WorkAnalytics" where
  "empty_analytics project = \<lparr>wa_Project = project, wa_TotalRuns = 0, wa_ByStatus = (\<lambda>_. 0),
     wa_ByType = (\<lambda>_. 0), wa_ByAgent = (\<lambda>_. 0), wa_ByModel = (\<lambda>_. 0), wa_ByProvider = (\<lambda>_. 0),
     wa_BulletsTotal = 0, wa_BulletsMerged = 0\<rparr>"

definition count_run :: "RunRecord \<Rightarrow> WorkAnalytics \<Rightarrow> WorkAnalytics st" where
  "count_run r wa =
     (let wa = wa\<lparr>wa_TotalRuns := wa_TotalRuns wa + 1, wa_ByStatus := bump (run_Status r) (wa_ByStatus wa),
                  wa_ByType := bump (run_Type r) (wa_ByType wa)\<rparr>
      in bind_st (provenanceForRun (run_ID r)) (\<lambda>prov.
         return_st (wa\<lparr>wa_ByAgent := bump (pr_Agent prov) (wa_ByAgent wa),
                       wa_ByModel := bump (pr_Model prov) (wa_ByModel wa),
                       wa_ByProvider := bump (pr_Provider prov) (wa_ByProvider wa)\<rparr>)))"

definition add_to :: "string \<Rightarrow> int \<Rightarrow> counts \<Rightarrow> counts" where
  "add_to k n m = m(k := m k + n)"

definition add_counts :: "counts \<Rightarrow> counts \<Rightarrow> counts" where
  "add_counts m m' = (\<lambda>k. m k + m' k)"

definition add_rollup :: "WorkAnalytics \<Rightarrow> RetentionRollup \<Rightarrow> WorkAnalytics" where
  "add_rollup wa ru = wa\<lparr>
     wa_TotalRuns := wa_TotalRuns wa + ro_RunCount ru,
     wa_ByStatus := add_to ''interrupted'' (ro_InterruptedCount ru) (add_to ''cancelled'' (ro_CancelledCount ru)
       (add_to ''failed'' (ro_FailedCount ru) (add_to ''passed'' (ro_PassedCount ru) (wa_ByStatus wa)))),
     wa_ByType := add_counts (wa_ByType wa) (ro_ByWorkType ru),
     wa_ByAgent := add_counts (wa_ByAgent wa) (ro_ByAgent ru),
     wa_ByModel := add_counts (wa_ByModel wa) (ro_ByModel ru),
     wa_ByProvider := add_counts (wa_ByProvider wa) (ro_ByProvider ru)\<rparr>"

definition ComputeWorkAnalytics :: "string \<Rightarrow> WorkAnalytics st" where
  "ComputeWorkAnalytics project =
     bind_st (AllRunsForAnalytics project) (\<lambda>rs.
     bind_st (fold_st count_run rs (empty_analytics project)) (\<lambda>wa.
     bind_st (AllBulletsForAnalytics project) (\<lambda>bs.
     let wa = wa\<lparr>wa_BulletsTotal := int (length bs),
                 wa_BulletsMerged := int (length (filter (\<lambda>b. bu_Status b = ''merged'') bs))\<rparr> in
     bind_st (retentionRollupsFor project) (\<lambda>rollups.
     return_st (foldl add_rollup wa rollups)))))"

section \<open>What the analytics compute\<close>

text \<open>
  Every number of an aggregate but the bullets, indexed by the counter it belongs to; what one run and
  what one rollup add to it.
\<close>

datatype metric = Total | Status string | WorkType string | Agent string | Model string | Provider string

fun wa_metric :: "WorkAnalytics \<Rightarrow> metric \<Rightarrow> int" where
  "wa_metric wa Total = wa_TotalRuns wa"
| "wa_metric wa (Status k) = wa_ByStatus wa k"
| "wa_metric wa (WorkType k) = wa_ByType wa k"
| "wa_metric wa (Agent k) = wa_ByAgent wa k"
| "wa_metric wa (Model k) = wa_ByModel wa k"
| "wa_metric wa (Provider k) = wa_ByProvider wa k"

fun run_metric :: "tables \<Rightarrow> RunRecord \<Rightarrow> metric \<Rightarrow> int" where
  "run_metric d r Total = 1"
| "run_metric d r (Status k) = of_bool (run_Status r = k)"
| "run_metric d r (WorkType k) = of_bool (run_Type r = k)"
| "run_metric d r (Agent k) = of_bool (pr_Agent (first_provenance (phases_of (run_ID r) d)) = k)"
| "run_metric d r (Model k) = of_bool (pr_Model (first_provenance (phases_of (run_ID r) d)) = k)"
| "run_metric d r (Provider k) = of_bool (pr_Provider (first_provenance (phases_of (run_ID r) d)) = k)"

fun rollup_metric :: "RetentionRollup \<Rightarrow> metric \<Rightarrow> int" where
  "rollup_metric ru Total = ro_RunCount ru"
| "rollup_metric ru (Status k) =
     (if k = ''passed'' then ro_PassedCount ru else if k = ''failed'' then ro_FailedCount ru
      else if k = ''cancelled'' then ro_CancelledCount ru
      else if k = ''interrupted'' then ro_InterruptedCount ru else 0)"
| "rollup_metric ru (WorkType k) = ro_ByWorkType ru k"
| "rollup_metric ru (Agent k) = ro_ByAgent ru k"
| "rollup_metric ru (Model k) = ro_ByModel ru k"
| "rollup_metric ru (Provider k) = ro_ByProvider ru k"

definition runs_total :: "string \<Rightarrow> tables \<Rightarrow> metric \<Rightarrow> int" where
  "runs_total q d m = (\<Sum>r\<leftarrow>filter (\<lambda>r. in_scope q (run_Project r)) (runs d). run_metric d (scanRun r) m)"

definition rollups_total :: "string \<Rightarrow> RetentionRollup list \<Rightarrow> metric \<Rightarrow> int" where
  "rollups_total q rs m = (\<Sum>ru\<leftarrow>filter (\<lambda>ru. in_scope q (ro_Project ru)) rs. rollup_metric ru m)"

definition total :: "string \<Rightarrow> tables \<Rightarrow> metric \<Rightarrow> int" where
  "total q d m = runs_total q d m + rollups_total q (retention_rollups d) m"

lemma wa_eqI:
  assumes "\<And>m. wa_metric a m = wa_metric b m" and "wa_Project a = wa_Project b"
    and "wa_BulletsTotal a = wa_BulletsTotal b" and "wa_BulletsMerged a = wa_BulletsMerged b"
  shows "a = b"
  using assms(2-4) assms(1) [of Total] assms(1) [of "Status _"] assms(1) [of "WorkType _"]
    assms(1) [of "Agent _"] assms(1) [of "Model _"] assms(1) [of "Provider _"]
  by (intro WorkAnalytics.equality) (auto simp: fun_eq_iff)

lemma sum_list_sort_key: "sum_list (map f (sort_key g xs)) = (sum_list (map f xs) :: int)"
  by (metis mset_map mset_sort sum_mset_sum_list)

lemma sum_list_mset_cong:
  assumes "mset xs = mset ys" shows "sum_list (map f xs) = (sum_list (map f ys) :: int)"
proof -
  have "sum_mset (mset (map f xs)) = sum_mset (mset (map f ys))" using assms by simp
  then show ?thesis by (simp only: sum_mset_sum_list)
qed

lemma count_run_healthy:
  assumes "healthy w"
  shows "\<exists>wa' w'. count_run r wa w = (Inr wa', w') \<and> healthy w' \<and> db w' = db w \<and>
    (\<forall>m. wa_metric wa' m = wa_metric wa m + run_metric (db w) r m) \<and> wa_Project wa' = wa_Project wa"
proof -
  have "wa_metric wa' m = wa_metric wa m + run_metric (db w) r m"
    if "wa' = wa\<lparr>wa_TotalRuns := wa_TotalRuns wa + 1, wa_ByStatus := bump (run_Status r) (wa_ByStatus wa),
        wa_ByType := bump (run_Type r) (wa_ByType wa),
        wa_ByAgent := bump (pr_Agent (first_provenance (phases_of (run_ID r) (db w)))) (wa_ByAgent wa),
        wa_ByModel := bump (pr_Model (first_provenance (phases_of (run_ID r) (db w)))) (wa_ByModel wa),
        wa_ByProvider := bump (pr_Provider (first_provenance (phases_of (run_ID r) (db w)))) (wa_ByProvider wa)\<rparr>"
    for wa' m
    using that by (cases m) (auto simp: bump_def)
  then show ?thesis using assms
    by (simp add: count_run_def provenanceForRun_def ListPhasesForRun_def st_simps query_healthy Let_def)
qed

lemma fold_count_run_healthy:
  "healthy w \<Longrightarrow> \<exists>wa' w'. fold_st count_run rs wa w = (Inr wa', w') \<and> healthy w' \<and> db w' = db w \<and>
    (\<forall>m. wa_metric wa' m = wa_metric wa m + (\<Sum>r\<leftarrow>rs. run_metric (db w) r m)) \<and> wa_Project wa' = wa_Project wa"
proof (induction rs arbitrary: w wa)
  case Nil
  then show ?case by (simp add: st_simps)
next
  case (Cons r rs)
  from count_run_healthy [OF Cons.prems, of r wa] obtain wa1 w1 where
    1: "count_run r wa w = (Inr wa1, w1)" "healthy w1" "db w1 = db w"
      "\<forall>m. wa_metric wa1 m = wa_metric wa m + run_metric (db w) r m" "wa_Project wa1 = wa_Project wa" by blast
  from Cons.IH [OF 1(2), of wa1] 1 show ?case by (fastforce simp: bind_st_def)
qed

lemma find_project:
  "distinct (map ro_Project rs) \<Longrightarrow> r \<in> set rs \<Longrightarrow> find (\<lambda>x. ro_Project x = ro_Project r) rs = Some r"
  by (induction rs) auto

lemma fold_rollups_healthy:
  assumes "distinct (map ro_Project (retention_rollups (db w)))" and "healthy w"
    and "set rs \<subseteq> set (retention_rollups (db w))"
  shows "\<exists>w'. fold_st (\<lambda>p acc. bind_st (GetRetentionRollup p) (\<lambda>found.
          return_st (case found of None \<Rightarrow> acc | Some r \<Rightarrow> acc @ [r]))) (map ro_Project rs) acc w =
      (Inr (acc @ rs), w') \<and> healthy w' \<and> db w' = db w"
  using assms
proof (induction rs arbitrary: w acc)
  case Nil
  then show ?case by (simp add: st_simps)
next
  case (Cons r rs)
  then have f: "find (\<lambda>x. ro_Project x = ro_Project r) (retention_rollups (db w)) = Some r"
    by (intro find_project) auto
  from Cons.IH [of "w\<lparr>ops := Suc (ops w)\<rparr>" "acc @ [r]"] Cons.prems show ?case
    by (auto simp: GetRetentionRollup_def st_simps query_healthy f)
qed

lemma sort_map_key: "sort (map f xs) = map f (sort_key f xs)"
  by (rule properties_for_sort) (simp_all only: mset_map mset_sort sorted_sort_key)

lemma retentionRollupsFor_healthy:
  assumes "distinct (map ro_Project (retention_rollups (db w)))" and "healthy w"
  shows "\<exists>rs w'. retentionRollupsFor q w = (Inr rs, w') \<and> healthy w' \<and> db w' = db w \<and>
    mset rs = mset (filter (\<lambda>ru. in_scope q (ro_Project ru)) (retention_rollups (db w)))"
proof (cases "every_project q")
  case True
  let ?rs = "sort_key ro_Project (retention_rollups (db w))"
  from fold_rollups_healthy [of "w\<lparr>ops := Suc (ops w)\<rparr>" ?rs "[]"] assms True show ?thesis
    by (auto simp: retentionRollupsFor_def st_simps query_healthy rollup_projects_def sort_map_key in_scope_def)
next
  case False
  have "(case find (\<lambda>r. ro_Project r = q) rs of None \<Rightarrow> [] | Some r \<Rightarrow> [r]) =
      filter (\<lambda>ru. ro_Project ru = q) rs" if "distinct (map ro_Project rs)" for rs
    using that
  proof (induction rs)
    case (Cons a rs)
    then have "q = ro_Project a \<Longrightarrow> filter (\<lambda>ru. ro_Project ru = q) rs = []"
      unfolding filter_empty_conv by (metis distinct.simps(2) imageI list.set_map list.simps(9))
    with Cons show ?case by auto
  qed simp
  from this [OF assms(1)] False assms(2) show ?thesis
    by (simp add: retentionRollupsFor_def GetRetentionRollup_def st_simps query_healthy in_scope_def)
qed

lemma foldl_add_rollup:
  "wa_metric (foldl add_rollup wa rs) m = wa_metric wa m + (\<Sum>ru\<leftarrow>rs. rollup_metric ru m)"
  "wa_Project (foldl add_rollup wa rs) = wa_Project wa"
  "wa_BulletsTotal (foldl add_rollup wa rs) = wa_BulletsTotal wa"
  "wa_BulletsMerged (foldl add_rollup wa rs) = wa_BulletsMerged wa"
proof -
  have "wa_metric (add_rollup wa ru) m = wa_metric wa m + rollup_metric ru m" for wa ru
    by (cases m) (auto simp: add_rollup_def add_to_def add_counts_def)
  then show "wa_metric (foldl add_rollup wa rs) m = wa_metric wa m + (\<Sum>ru\<leftarrow>rs. rollup_metric ru m)"
    by (induction rs arbitrary: wa) auto
qed (induction rs arbitrary: wa; simp add: add_rollup_def)+

text \<open>The value of the aggregate, as sums over the rows.\<close>

lemma ComputeWorkAnalytics_healthy:
  assumes w: "healthy w" and ok: "schema_ok (db w)"
  shows "\<exists>wa w'. ComputeWorkAnalytics q w = (Inr wa, w') \<and> db w' = db w \<and> wa_Project wa = q \<and>
    (\<forall>m. wa_metric wa m = total q (db w) m) \<and>
    wa_BulletsTotal wa = int (length (analytics_bullets q (db w))) \<and>
    wa_BulletsMerged wa = int (length (filter (\<lambda>b. bu_Status b = ''merged'') (analytics_bullets q (db w))))"
proof -
  let ?d = "db w"
  let ?rs = "map scanRun (sort_key run_CreatedAt (filter (\<lambda>r. in_scope q (run_Project r)) (runs ?d)))"
  have "healthy (w\<lparr>ops := Suc (ops w)\<rparr>)" using w by simp
  from fold_count_run_healthy [OF this, of ?rs "empty_analytics q"] obtain wa1 w1 where
    1: "fold_st count_run ?rs (empty_analytics q) (w\<lparr>ops := Suc (ops w)\<rparr>) = (Inr wa1, w1)" "healthy w1"
      "db w1 = ?d" "\<forall>m. wa_metric wa1 m = wa_metric (empty_analytics q) m + (\<Sum>r\<leftarrow>?rs. run_metric ?d r m)"
      "wa_Project wa1 = q" by (auto simp: empty_analytics_def)
  let ?w2 = "w1\<lparr>ops := Suc (ops w1)\<rparr>"
  define wa2 where "wa2 = wa1\<lparr>wa_BulletsTotal := int (length (analytics_bullets q ?d)),
    wa_BulletsMerged := int (length (filter (\<lambda>b. bu_Status b = ''merged'') (analytics_bullets q ?d)))\<rparr>"
  have "distinct (map ro_Project (retention_rollups (db ?w2)))" "healthy ?w2"
    using ok 1 by (simp_all add: schema_ok_def)
  from retentionRollupsFor_healthy [OF this, of q] obtain rus w3 where
    3: "retentionRollupsFor q ?w2 = (Inr rus, w3)" "db w3 = ?d"
      "mset rus = mset (filter (\<lambda>ru. in_scope q (ro_Project ru)) (retention_rollups ?d))" using 1 by auto
  have empty: "wa_metric (empty_analytics q) m = 0" for m by (cases m) (simp_all add: empty_analytics_def)
  have same: "wa_metric wa2 m = wa_metric wa1 m" for m by (cases m) (simp_all add: wa2_def)
  have runs: "(\<Sum>r\<leftarrow>?rs. run_metric ?d r m) = runs_total q ?d m" for m
    by (simp add: runs_total_def sum_list_sort_key comp_def)
  have rollups: "(\<Sum>ru\<leftarrow>rus. rollup_metric ru m) = rollups_total q (retention_rollups ?d) m" for m
    unfolding rollups_total_def by (rule sum_list_mset_cong [OF 3(3)])
  have "ComputeWorkAnalytics q w = (Inr (foldl add_rollup wa2 rus), w3)"
    using w 1 3 by (simp add: ComputeWorkAnalytics_def AllRunsForAnalytics_def AllBulletsForAnalytics_def
        st_simps query_healthy Let_def wa2_def)
  moreover have "wa_metric (foldl add_rollup wa2 rus) m = total q ?d m" for m
    unfolding foldl_add_rollup same rollups total_def using 1(4) by (simp only: empty runs)
  moreover have "wa_Project wa2 = q" "wa_BulletsTotal wa2 = int (length (analytics_bullets q ?d))"
    "wa_BulletsMerged wa2 = int (length (filter (\<lambda>b. bu_Status b = ''merged'') (analytics_bullets q ?d)))"
    using 1(5) by (simp_all add: wa2_def)
  ultimately show ?thesis using 3(2) by (simp add: foldl_add_rollup(2-4))
qed

text \<open>
  On a database in working order the analytics of a project, or of all of them, are the sums of
  one contribution per recorded run and the stored contribution of each rollup: the totals by status,
  work type, agent, model and provider count every run of the scope exactly once, and the query
  changes nothing.
\<close>

theorem ComputeWorkAnalytics_spec:
  assumes "healthy w" and "schema_ok (db w)"
  shows "\<exists>wa w'. ComputeWorkAnalytics q w = (Inr wa, w') \<and> db w' = db w \<and>
    (\<forall>m. wa_metric wa m =
      (\<Sum>r\<leftarrow>filter (\<lambda>r. in_scope q (run_Project r)) (runs (db w)). run_metric (db w) (scanRun r) m) +
      (\<Sum>ru\<leftarrow>filter (\<lambda>ru. in_scope q (ro_Project ru)) (retention_rollups (db w)). rollup_metric ru m))"
  using ComputeWorkAnalytics_healthy [OF assms, of q] by (auto simp: total_def runs_total_def rollups_total_def)

section \<open>Rotation keeps the totals\<close>

lemma rollups_total_upsert:
  assumes "distinct (map ro_Project rs)"
  shows "rollups_total q (retention_rollups (upsert_rollup new (d\<lparr>retention_rollups := rs\<rparr>))) m =
    rollups_total q rs m + (if in_scope q (ro_Project new) then rollup_metric new m -
      (case find (\<lambda>x. ro_Project x = ro_Project new) rs of None \<Rightarrow> 0 | Some old \<Rightarrow> rollup_metric old m) else 0)"
proof (cases "list_ex (\<lambda>x. ro_Project x = ro_Project new) rs")
  case False
  then have "find (\<lambda>x. ro_Project x = ro_Project new) rs = None"
    by (auto simp: list_ex_iff find_None_iff)
  with False show ?thesis by (simp add: upsert_rollup_def rollups_total_def)
next
  case True
  have "rollups_total q (update_where (\<lambda>x. ro_Project x = ro_Project new) (\<lambda>_. new) rs) m =
    rollups_total q rs m + (if in_scope q (ro_Project new) then rollup_metric new m -
      (case find (\<lambda>x. ro_Project x = ro_Project new) rs of None \<Rightarrow> 0 | Some old \<Rightarrow> rollup_metric old m) else 0)"
    using assms True
  proof (induction rs)
    case (Cons a rs)
    show ?case
    proof (cases "ro_Project a = ro_Project new")
      case True
      with Cons.prems(1) have "update_where (\<lambda>x. ro_Project x = ro_Project new) (\<lambda>_. new) rs = rs"
        by (intro update_where_none) (metis distinct.simps(2) imageI list.set_map list.simps(9))
      with True show ?thesis by (simp add: rollups_total_def)
    next
      case False
      with Cons show ?thesis by (auto simp: rollups_total_def)
    qed
  qed simp
  with True show ?thesis by (simp add: upsert_rollup_def)
qed

lemma count_status_metric:
  assumes "List.member rotationEligibleStatuses s"
  shows "rollup_metric (count_status s r) (Status k) = rollup_metric r (Status k) + of_bool (s = k)"
    "rollup_metric (count_status s r) (WorkType k) = rollup_metric r (WorkType k)"
    "ro_RunCount (count_status s r) = ro_RunCount r" "ro_ByWorkType (count_status s r) = ro_ByWorkType r"
    "ro_ByAgent (count_status s r) = ro_ByAgent r" "ro_ByModel (count_status s r) = ro_ByModel r"
    "ro_ByProvider (count_status s r) = ro_ByProvider r" "ro_Project (count_status s r) = ro_Project r"
  using assms by (auto simp: count_status_def rotationEligibleStatuses_def)

definition stored_rollup :: "string \<Rightarrow> tables \<Rightarrow> RetentionRollup" where
  "stored_rollup p d = (case find (\<lambda>r. ro_Project r = p) (retention_rollups d) of
     None \<Rightarrow> empty_rollup p | Some r \<Rightarrow> r)"

lemma stored_rollup_project: "ro_Project (stored_rollup p d) = p"
  by (auto simp: stored_rollup_def empty_rollup_def find_Some_iff split: option.split)

lemma stored_rollup_metric:
  "rollup_metric (stored_rollup p d) m =
     (case find (\<lambda>r. ro_Project r = p) (retention_rollups d) of None \<Rightarrow> 0 | Some r \<Rightarrow> rollup_metric r m)"
  by (cases m) (auto simp: stored_rollup_def empty_rollup_def split: option.split)

lemma fold_run_metric:
  assumes st: "List.member rotationEligibleStatuses (run_Status run)"
  shows "rollup_metric (fold_run run (first_provenance (phases_of (run_ID run) d)) r) m =
    rollup_metric r m + run_metric d run m"
proof (cases m)
  case (Status k)
  have "rollup_metric (fold_run run (first_provenance (phases_of (run_ID run) d)) r) (Status k) =
      rollup_metric (count_status (run_Status run) (r\<lparr>ro_RunCount := ro_RunCount r + 1\<rparr>)) (Status k)"
    by (simp add: fold_run_def Let_def)
  also have "\<dots> = rollup_metric r (Status k) + of_bool (run_Status run = k)"
    unfolding count_status_metric(1) [OF st] by simp
  finally show ?thesis unfolding Status by simp
qed (auto simp: fold_run_def Let_def count_status_metric [OF st] bump_def)

lemma fold_run_project:
  "List.member rotationEligibleStatuses (run_Status run) \<Longrightarrow> ro_Project (fold_run run prov r) = ro_Project r"
  by (simp add: fold_run_def Let_def count_status_metric)

lemma rollup_metric_other [simp]:
  "rollup_metric (r\<lparr>ro_ComputedThrough := t\<rparr>) m = rollup_metric r m"
  "rollup_metric (r\<lparr>ro_BulletTotal := a, ro_BulletMerged := b\<rparr>) m = rollup_metric r m"
  by (cases m; simp)+

lemma foldRunIntoRollup_healthy:
  assumes w: "healthy w" and st: "List.member rotationEligibleStatuses (run_Status run)"
  shows "\<exists>new w'. foldRunIntoRollup p run (first_provenance (phases_of (run_ID run) (db w))) w = (Inr (), w') \<and>
    healthy w' \<and> db w' = upsert_rollup new (db w) \<and> ro_Project new = p \<and>
    (\<forall>m. rollup_metric new m = rollup_metric (stored_rollup p (db w)) m + run_metric (db w) run m)"
proof -
  let ?new = "fold_run run (first_provenance (phases_of (run_ID run) (db w))) (stored_rollup p (db w))"
  let ?t = "?new\<lparr>ro_ComputedThrough := clock w (reads w)\<rparr>"
  let ?bs = "bullets_of (run_IntentID run) (db w)"
  let ?b = "?t\<lparr>ro_BulletTotal := ro_BulletTotal ?t + int (length ?bs),
     ro_BulletMerged := ro_BulletMerged ?t + int (length (filter (\<lambda>b. bu_Status b = ''merged'') ?bs))\<rparr>"
  have m: "rollup_metric ?new m = rollup_metric (stored_rollup p (db w)) m + run_metric (db w) run m" for m
    by (rule fold_run_metric [OF st])
  have p: "ro_Project ?new = p" by (simp add: fold_run_project [OF st] stored_rollup_project)
  show ?thesis
  proof (cases "run_IntentID run = ''''")
    case True
    with w show ?thesis
      by (intro exI [of _ ?t])
         (simp add: foldRunIntoRollup_def GetRetentionRollup_def upsertRetentionRollup_def Let_def st_simps
            query_healthy modify_healthy m p flip: stored_rollup_def)
  next
    case False
    with w show ?thesis
      by (intro exI [of _ ?b])
         (simp add: foldRunIntoRollup_def GetRetentionRollup_def upsertRetentionRollup_def ListBulletsForIntent_def
            Let_def st_simps query_healthy modify_healthy m p flip: stored_rollup_def)
  qed
qed

lemma schema_ok_upsert: "schema_ok d \<Longrightarrow> schema_ok (upsert_rollup r d)"
  by (auto simp: schema_ok_def upsert_rollup_def list_ex_key map_update_where)

lemma schema_ok_delete_deliveries: "schema_ok d \<Longrightarrow> schema_ok (delete_deliveries_of i d)"
proof -
  assume ok: "schema_ok d"
  have "filter Q (filter P xs) = filter P (filter Q xs)" for P Q and xs :: "DeliveryRecord list"
    by (induction xs) auto
  then have "distinct (map del_IdempotencyKey (filter terminal_success (filter P (deliveries d))))" for P
    using ok by (simp only: schema_ok_def distinct_map_filter_pred)
  with ok show ?thesis by (simp add: schema_ok_def delete_deliveries_of_def del: filter_filter)
qed

text \<open>The tables after one rotation.\<close>

definition rotated_tables :: "string \<Rightarrow> RetentionRollup \<Rightarrow> tables \<Rightarrow> tables" where
  "rotated_tables i new d = delete_run_row i (delete_phases_of i (delete_envelopes_of i
     (delete_deliveries_of i (upsert_rollup new d))))"

lemma rotated_tables_sel:
  "runs (rotated_tables i new d) = filter (\<lambda>r. run_ID r \<noteq> i) (runs d)"
  "phases (rotated_tables i new d) = filter (\<lambda>p. ph_RunID p \<noteq> i) (phases d)"
  "bullets (rotated_tables i new d) = bullets d" "intents (rotated_tables i new d) = intents d"
  "retention_rollups (rotated_tables i new d) = retention_rollups (upsert_rollup new d)"
  by (simp_all add: rotated_tables_def delete_run_row_def delete_phases_of_def delete_envelopes_of_def
      delete_deliveries_of_def upsert_rollup_def)

lemma phases_of_rotated: "j \<noteq> i \<Longrightarrow> phases_of j (rotated_tables i new d) = phases_of j d"
  by (simp add: phases_of_def rotated_tables_sel conj_commute)
     (metis (mono_tags, lifting) filter_cong)

lemma run_metric_rotated: "run_ID r \<noteq> i \<Longrightarrow> run_metric (rotated_tables i new d) r m = run_metric d r m"
  by (cases m) (simp_all add: phases_of_rotated)

lemma rollups_total_rotated:
  assumes "schema_ok d" and "ro_Project new = p"
  shows "rollups_total q (retention_rollups (rotated_tables i new d)) m = rollups_total q (retention_rollups d) m +
    (if in_scope q p then rollup_metric new m - rollup_metric (stored_rollup p d) m else 0)"
  using rollups_total_upsert [of "retention_rollups d" q new d m] assms
  by (simp add: rotated_tables_sel schema_ok_def stored_rollup_metric)

lemma total_rotated:
  assumes ok: "schema_ok d" and row: "row \<in> set (runs d)" "run_Project row = p" and new: "ro_Project new = p"
    and met: "\<And>m. rollup_metric new m = rollup_metric (stored_rollup p d) m + run_metric d (scanRun row) m"
  shows "total q (rotated_tables (run_ID row) new d) m = total q d m"
proof -
  let ?d = "rotated_tables (run_ID row) new d" and ?P = "\<lambda>r. in_scope q (run_Project r)"
  have "runs_total q ?d m = (\<Sum>r\<leftarrow>filter ?P (filter (\<lambda>y. run_ID y \<noteq> run_ID row) (runs d)). run_metric d (scanRun r) m)"
    unfolding runs_total_def rotated_tables_sel
    by (intro arg_cong [where f = sum_list] map_cong refl run_metric_rotated) auto
  moreover have "runs_total q d m = (\<Sum>r\<leftarrow>filter ?P (filter (\<lambda>y. run_ID y \<noteq> run_ID row) (runs d)). run_metric d (scanRun r) m)
      + (if in_scope q p then run_metric d (scanRun row) m else 0)"
    unfolding runs_total_def
    using sum_list_remove_key [of run_ID "runs d" row "\<lambda>r. run_metric d (scanRun r) m" ?P] ok row
    by (simp add: schema_ok_def)
  ultimately show ?thesis
    unfolding total_def rollups_total_rotated [OF ok new] by (simp add: met)
qed

lemma rotateOneRun_healthy:
  assumes w: "healthy w" and ok: "schema_ok (db w)" and row: "row \<in> set (runs (db w))"
    and st: "List.member rotationEligibleStatuses (run_Status row)"
  shows "\<exists>new w'. rotateOneRun (run_Project row) (scanRun row) w = (Inr (), w') \<and> healthy w' \<and>
    schema_ok (db w') \<and> db w' = rotated_tables (run_ID row) new (db w) \<and>
    (\<forall>q m. total q (db w') m = total q (db w) m)"
proof -
  have "healthy (w\<lparr>ops := Suc (ops w)\<rparr>)" using w by simp
  from foldRunIntoRollup_healthy [OF this, of "scanRun row" "run_Project row"] st obtain new w1 where
    1: "foldRunIntoRollup (run_Project row) (scanRun row) (first_provenance (phases_of (run_ID row) (db w)))
          (w\<lparr>ops := Suc (ops w)\<rparr>) = (Inr (), w1)" "healthy w1" "db w1 = upsert_rollup new (db w)"
      "ro_Project new = run_Project row"
      "\<And>m. rollup_metric new m = rollup_metric (stored_rollup (run_Project row) (db w)) m + run_metric (db w) (scanRun row) m"
    by auto
  have "sound_step d (delete_run_row i (delete_phases_of i (delete_envelopes_of i d)))" for i d
    by (rule sound.trans_tables [OF sound.trans_tables [OF sound_deletes(2) sound_deletes(1)] sound_deletes(3)])
  then have "schema_ok (rotated_tables (run_ID row) new (db w))"
    unfolding rotated_tables_def using schema_ok_delete_deliveries [OF schema_ok_upsert [OF ok]]
    by (auto simp: sound_step_def)
  moreover have "\<exists>w'. rotateOneRun (run_Project row) (scanRun row) w = (Inr (), w') \<and> healthy w' \<and>
      db w' = rotated_tables (run_ID row) new (db w)"
    using 1(1-3) w by (simp add: rotateOneRun_def provenanceForRun_def ListPhasesForRun_def st_simps query_healthy
        modify_healthy rotated_tables_def)
  ultimately show ?thesis using total_rotated [OF ok row refl 1(4,5)] by auto
qed

definition intent_merged :: "tables \<Rightarrow> string \<Rightarrow> bool" where
  "intent_merged d i \<longleftrightarrow> i = '''' \<or> list_all (\<lambda>b. bu_Status b = ''merged'') (bullets_of i d)"

lemma intentFullyMerged_healthy:
  "healthy w \<Longrightarrow> \<exists>w'. intentFullyMerged i w = (Inr (intent_merged (db w) i), w') \<and> db w' = db w \<and> healthy w'"
  by (simp add: intentFullyMerged_def intent_merged_def ListBulletsForIntent_def st_simps query_healthy)

lemma intent_merged_cong: "bullets d' = bullets d \<Longrightarrow> intent_merged d' = intent_merged d"
  by (simp add: intent_merged_def bullets_of_def fun_eq_iff)

definition rotates :: "tables \<Rightarrow> RunRow list \<Rightarrow> string \<Rightarrow> bool" where
  "rotates d rows i \<longleftrightarrow> list_ex (\<lambda>r. run_ID r = i \<and> intent_merged d (run_IntentID r)) rows"

definition rotation_result :: "tables \<Rightarrow> RunRow list \<Rightarrow> tables \<Rightarrow> bool" where
  "rotation_result d rows d' \<longleftrightarrow> schema_ok d' \<and> runs d' = filter (\<lambda>r. \<not> rotates d rows (run_ID r)) (runs d) \<and>
     phases d' = filter (\<lambda>p. \<not> rotates d rows (ph_RunID p)) (phases d) \<and>
     bullets d' = bullets d \<and> intents d' = intents d \<and> (\<forall>q m. total q d' m = total q d m)"

lemma rotate_loop_healthy:
  assumes "healthy w" and "schema_ok (db w)" and "set rows \<subseteq> set (runs (db w))" and "distinct (map run_ID rows)"
    and "\<forall>r \<in> set rows. run_Project r = p \<and> List.member rotationEligibleStatuses (run_Status r)"
  shows "\<exists>w'. rotate_loop p (map scanRun rows) n w =
      (Inr (n + int (length (filter (\<lambda>r. intent_merged (db w) (run_IntentID r)) rows)), None), w') \<and>
    rotation_result (db w) rows (db w')"
  using assms
proof (induction rows arbitrary: w n)
  case Nil
  then show ?case by (simp add: st_simps rotation_result_def rotates_def)
next
  case (Cons r rows)
  from intentFullyMerged_healthy [OF Cons.prems(1), of "run_IntentID r"] obtain w1 where
    w1: "intentFullyMerged (run_IntentID r) w = (Inr (intent_merged (db w) (run_IntentID r)), w1)"
      "db w1 = db w" "healthy w1" by blast
  show ?case
  proof (cases "intent_merged (db w) (run_IntentID r)")
    case False
    from Cons.IH [of w1 n] Cons.prems w1 False show ?thesis
      by (simp add: try_st_def rotation_result_def rotates_def)
  next
    case True
    have "r \<in> set (runs (db w1))" "List.member rotationEligibleStatuses (run_Status r)" "run_Project r = p"
      using Cons.prems w1 by auto
    with rotateOneRun_healthy [of w1 r] w1 Cons.prems(2) obtain new w2 where
      w2: "rotateOneRun p (scanRun r) w1 = (Inr (), w2)" "healthy w2" "schema_ok (db w2)"
        "db w2 = rotated_tables (run_ID r) new (db w)" "\<forall>q m. total q (db w2) m = total q (db w) m" by metis
    have merged: "intent_merged (db w2) = intent_merged (db w)"
      by (rule intent_merged_cong) (simp add: w2(4) rotated_tables_sel)
    have "run_ID x \<noteq> run_ID r" if "x \<in> set rows" for x
      using Cons.prems(4) that by (metis distinct.simps(2) imageI list.set_map list.simps(9))
    with Cons.prems(3) have "set rows \<subseteq> set (runs (db w2))" by (auto simp: w2(4) rotated_tables_sel)
    with Cons.IH [of w2 "n + 1"] w2(2,3) Cons.prems(4,5) obtain w3 where
      w3: "rotate_loop p (map scanRun rows) (n + 1) w2 =
        (Inr (n + 1 + int (length (filter (\<lambda>r. intent_merged (db w2) (run_IntentID r)) rows)), None), w3)"
        "rotation_result (db w2) rows (db w3)" by auto
    have "rotation_result (db w) (r # rows) (db w3)"
      using w3(2) w2(5) True by (auto simp: rotation_result_def w2(4) rotated_tables_sel rotates_def
          merged [unfolded w2(4)] list_ex_iff intro!: filter_cong)
    with w1 w2(1) w3(1) True show ?thesis by (simp add: try_st_def merged)
  qed
qed

lemma env_rotateOneRun [within_intros]: "within same_env (rotateOneRun p r)"
  unfolding rotateOneRun_def provenanceForRun_def ListPhasesForRun_def foldRunIntoRollup_def Let_def
    GetRetentionRollup_def upsertRetentionRollup_def ListBulletsForIntent_def
  by (intro within_intros)

lemma env_rotate_loop [within_intros]: "within same_env (rotate_loop p rs n)"
  by (induction rs arbitrary: n)
     (auto simp: intentFullyMerged_def ListBulletsForIntent_def intro!: within_intros)

lemma env_RotateProject [within_intros]: "within same_env (RotateProject p cutoff)"
  unfolding RotateProject_def by (intro within_intros)

text \<open>The runs a rotation is entitled to remove.\<close>

definition rotatable :: "string \<Rightarrow> time \<Rightarrow> tables \<Rightarrow> RunRow \<Rightarrow> bool" where
  "rotatable p cutoff d r \<longleftrightarrow> run_Project r = p \<and> List.member rotationEligibleStatuses (run_Status r) \<and>
     run_CreatedAt r < cutoff \<and> intent_merged d (run_IntentID r)"

lemma RotateProject_healthy:
  assumes w: "healthy w" and ok: "schema_ok (db w)"
  shows "\<exists>w'. RotateProject p cutoff w =
      (Inr (int (length (filter (rotatable p cutoff (db w)) (runs (db w)))), None), w') \<and>
    runs (db w') = filter (\<lambda>r. \<not> rotatable p cutoff (db w) r) (runs (db w)) \<and>
    schema_ok (db w') \<and> bullets (db w') = bullets (db w) \<and> intents (db w') = intents (db w) \<and>
    (\<forall>q m. total q (db w') m = total q (db w) m)"
proof -
  let ?d = "db w" and ?w = "w\<lparr>ops := Suc (ops w)\<rparr>"
  let ?C = "filter (\<lambda>r. run_Project r = p \<and> List.member rotationEligibleStatuses (run_Status r) \<and>
        run_CreatedAt r < cutoff) (runs ?d)"
  let ?rows = "sort_key run_CreatedAt ?C"
  have dist: "distinct (map run_ID ?rows)"
    using ok by (simp add: schema_ok_def distinct_map_filter_sort_key)
  have "healthy ?w" "schema_ok (db ?w)" "set ?rows \<subseteq> set (runs (db ?w))"
    "\<forall>r \<in> set ?rows. run_Project r = p \<and> List.member rotationEligibleStatuses (run_Status r)"
    using w ok by auto
  note loop = rotate_loop_healthy [OF this(1-3) dist this(4), of 0]
  have "db ?w = ?d" by simp
  from loop [unfolded this add_0] obtain w' where
    w': "rotate_loop p (map scanRun ?rows) 0 ?w =
        (Inr (int (length (filter (\<lambda>r. intent_merged ?d (run_IntentID r)) ?rows)), None), w')"
      "rotation_result ?d ?rows (db w')" by blast
  have "length (filter (\<lambda>r. intent_merged ?d (run_IntentID r)) ?rows) =
      length (filter (\<lambda>r. intent_merged ?d (run_IntentID r)) ?C)"
    by (rule length_filter_sort_key)
  then have n: "length (filter (\<lambda>r. intent_merged ?d (run_IntentID r)) ?rows) =
      length (filter (rotatable p cutoff ?d) (runs ?d))"
    by (simp add: rotatable_def [abs_def] conj_ac)
  have "rotates ?d ?rows (run_ID r) \<longleftrightarrow> rotatable p cutoff ?d r" if r: "r \<in> set (runs ?d)" for r
  proof -
    have "inj_on run_ID (set (runs ?d))" using ok by (simp add: schema_ok_def distinct_map)
    then have uniq: "x = r" if "x \<in> set (runs ?d)" "run_ID x = run_ID r" for x
      using that r by (simp add: inj_on_def)
    then show ?thesis using r unfolding rotates_def list_ex_iff rotatable_def by simp blast
  qed
  then have "filter (\<lambda>r. \<not> rotates ?d ?rows (run_ID r)) (runs ?d) = filter (\<lambda>r. \<not> rotatable p cutoff ?d r) (runs ?d)"
    by (intro filter_cong) auto
  with w' w n show ?thesis
    by (simp add: RotateProject_def rotation_candidates_def try_st_def query_healthy rotation_result_def)
qed

text \<open>
  C23: rotation loses nothing from the books.  On a database in working order \<open>RotateProject\<close> removes
  exactly the finished runs of the project that are older than the cutoff and whose intent, if they
  have one, has only merged bullets, reports how many, and leaves every number of the analytics of every
  scope as it was: \<open>ComputeWorkAnalytics\<close> returns the same aggregate before and after.
\<close>

theorem RotateProject_conserves_analytics:
  assumes w: "healthy w" and ok: "schema_ok (db w)"
  shows "\<exists>w'. RotateProject p cutoff w =
      (Inr (int (length (filter (rotatable p cutoff (db w)) (runs (db w)))), None), w') \<and>
    runs (db w') = filter (\<lambda>r. \<not> rotatable p cutoff (db w) r) (runs (db w)) \<and>
    (\<forall>q. fst (ComputeWorkAnalytics q w') = fst (ComputeWorkAnalytics q w))"
proof -
  from RotateProject_healthy [OF assms, of p cutoff] obtain w' where
    w': "RotateProject p cutoff w =
      (Inr (int (length (filter (rotatable p cutoff (db w)) (runs (db w)))), None), w')"
    "runs (db w') = filter (\<lambda>r. \<not> rotatable p cutoff (db w) r) (runs (db w))"
    "schema_ok (db w')" "bullets (db w') = bullets (db w)" "intents (db w') = intents (db w)"
    "\<forall>q m. total q (db w') m = total q (db w) m" by blast
  have "healthy w'" using within_env_healthy [OF env_RotateProject w'(1)] w by simp
  have "analytics_bullets q (db w') = analytics_bullets q (db w)" for q
    using w'(4,5) by (simp add: analytics_bullets_def)
  then have "fst (ComputeWorkAnalytics q w') = fst (ComputeWorkAnalytics q w)" for q
    using ComputeWorkAnalytics_healthy [OF assms, of q] w'(6)
      ComputeWorkAnalytics_healthy [OF \<open>healthy w'\<close> w'(3), of q]
    by (auto intro!: wa_eqI)
  with w'(1,2) show ?thesis by blast
qed

definition sample_history :: tables where
  "sample_history = empty_tables\<lparr>
     runs := [run_row (sample_run\<lparr>run_Status := ''passed'', run_IntentID := ''''\<rparr>),
              run_row (sample_run\<lparr>run_ID := ''r2'', run_RequestID := '''', run_Status := ''running''\<rparr>)],
     phases := [\<lparr>ph_ID = ''p1'', ph_RunID = ''r1'', ph_Repo = ''api'', ph_Name = ''plan'', ph_Kind = ''agent'',
       ph_Status = ''passed'', ph_Error = '''', ph_DurationMs = 0,
       ph_Payload = RawDoc (JObj [(''agent'', JStr ''goose'')]), ph_Attempt = 1, ph_FixCycle = 0,
       ph_CreatedAt = 1\<rparr>]\<rparr>"

lemma sample_history_ok: "schema_ok (db (initial_world sample_history))"
  by (simp add: schema_ok_def sample_history_def empty_tables_def sample_run_def)

theorem ComputeWorkAnalytics_spec_witness:
  "\<exists>wa w'. ComputeWorkAnalytics ''all'' (initial_world sample_history) = (Inr wa, w') \<and>
     wa_metric wa (Agent ''goose'') = 1 \<and> wa_metric wa Total = 2"
proof -
  have "(\<Sum>r\<leftarrow>filter (\<lambda>r. in_scope ''all'' (run_Project r)) (runs sample_history).
      run_metric sample_history (scanRun r) (Agent ''goose'')) = 1"
    "(\<Sum>r\<leftarrow>filter (\<lambda>r. in_scope ''all'' (run_Project r)) (runs sample_history).
      run_metric sample_history (scanRun r) Total) = 2"
    "retention_rollups sample_history = []"
    by code_simp+
  with ComputeWorkAnalytics_spec [OF healthy_initial sample_history_ok, of "''all''"] show ?thesis
    by (auto simp del: wa_metric.simps run_metric.simps)
qed

theorem RotateProject_conserves_analytics_witness:
  "\<exists>w'. RotateProject ''p'' 100 (initial_world sample_history) =
      (Inr (int (length (filter (rotatable ''p'' 100 sample_history) (runs sample_history))), None), w') \<and>
    runs (db w') = filter (\<lambda>r. \<not> rotatable ''p'' 100 sample_history r) (runs sample_history) \<and>
    (\<forall>q. fst (ComputeWorkAnalytics q w') = fst (ComputeWorkAnalytics q (initial_world sample_history)))"
  using RotateProject_conserves_analytics [OF healthy_initial sample_history_ok, of "''p''" 100] by simp


section \<open>Soundness of every operation\<close>

lemma sound_retention_rows [simp]:
  "sound_step d (upsert_rollup r d)" "sound_step d (delete_deliveries_of i d)" "sound_step d (delete_artifact i d)"
proof -
  show "sound_step d (upsert_rollup r d)"
    by (rule sound_stepI) (simp_all add: schema_ok_upsert, simp_all add: upsert_rollup_def)
  show "sound_step d (delete_deliveries_of i d)"
    by (rule sound_stepI) (simp_all add: schema_ok_delete_deliveries, simp_all add: delete_deliveries_of_def)
  show "sound_step d (delete_artifact i d)"
    by (rule sound_stepI) (simp_all add: delete_artifact_def schema_ok_def schema_delete_simps)
qed

lemma sound_rotateOneRun [within_intros]: "within (on_db sound_step) (rotateOneRun p r)"
  unfolding rotateOneRun_def provenanceForRun_def ListPhasesForRun_def foldRunIntoRollup_def Let_def
    GetRetentionRollup_def upsertRetentionRollup_def ListBulletsForIntent_def
  by (intro within_intros sound.w_modify sound_retention_rows sound_deletes)

lemma sound_rotate_loop [within_intros]: "within (on_db sound_step) (rotate_loop p rs n)"
  by (induction rs arbitrary: n)
     (auto simp: intentFullyMerged_def ListBulletsForIntent_def intro!: within_intros)

lemma sound_RotateProject [within_intros]: "within (on_db sound_step) (RotateProject p cutoff)"
  unfolding RotateProject_def by (intro within_intros)

lemma sound_rotate_artifacts_loop [within_intros]:
  "within (on_db sound_step) (rotate_artifacts_loop remove cs n)"
proof (induction cs arbitrary: n)
  case Nil
  show ?case by (simp add: sound.w_return)
next
  case (Cons c cs)
  obtain i path where "c = (i, path)" by (cases c)
  with Cons show ?case
    by (auto split: option.split intro!: within_intros sound.w_modify)
qed

lemma sound_RotateArtifacts [within_intros]: "within (on_db sound_step) (RotateArtifacts remove cutoff)"
  unfolding RotateArtifacts_def by (intro within_intros)

text \<open>
  \<open>RotateArtifacts\<close> on a database in working order and a file system that can remove every file
  that is there deletes exactly the artifacts captured before the cutoff and counts them.
\<close>

theorem RotateArtifacts_spec:
  assumes w: "healthy w" and ok: "schema_ok (db w)"
    and fs: "\<And>path e. remove path = Some e \<Longrightarrow> errors_Is e NotExist"
  shows "\<exists>w'. RotateArtifacts remove cutoff w =
      (Inr (int (length (filter (\<lambda>a. art_CapturedAt a < cutoff) (artifacts (db w)))), None), w') \<and>
    artifacts (db w') = filter (\<lambda>a. \<not> art_CapturedAt a < cutoff) (artifacts (db w))"
proof -
  have loop: "\<exists>w'. rotate_artifacts_loop remove cs n w = (Inr (n + int (length cs), None), w') \<and>
    artifacts (db w') = filter (\<lambda>a. art_ID a \<notin> fst ` set cs) (artifacts (db w))"
    if "healthy w" for cs n w
    using that
  proof (induction cs arbitrary: n w)
    case Nil
    then show ?case by (simp add: st_simps)
  next
    case (Cons c cs)
    obtain i path where c: "c = (i, path)" by (cases c)
    let ?w = "w\<lparr>ops := Suc (ops w), db := delete_artifact i (db w)\<rparr>"
    from Cons.IH [of ?w "n + 1"] Cons.prems obtain w' where
      "rotate_artifacts_loop remove cs (n + 1) ?w = (Inr (n + 1 + int (length cs), None), w')"
      "artifacts (db w') = filter (\<lambda>a. art_ID a \<notin> fst ` set cs) (artifacts (delete_artifact i (db w)))" by auto
    moreover have "rotate_artifacts_loop remove (c # cs) n w = rotate_artifacts_loop remove cs (n + 1) ?w"
      using Cons.prems fs by (auto simp: c try_st_def modify_healthy split: option.split)
    ultimately show ?case
      by (auto simp: c delete_artifact_def conj_commute intro!: filter_cong)
  qed
  let ?old = "filter (\<lambda>a. art_CapturedAt a < cutoff) (artifacts (db w))"
  have "healthy (w\<lparr>ops := Suc (ops w)\<rparr>)" using w by simp
  from loop [OF this, of "map (\<lambda>a. (art_ID a, art_Path a)) ?old" 0] obtain w' where
    w': "rotate_artifacts_loop remove (map (\<lambda>a. (art_ID a, art_Path a)) ?old) 0 (w\<lparr>ops := Suc (ops w)\<rparr>) =
      (Inr (int (length ?old), None), w')"
      "artifacts (db w') = filter (\<lambda>a. art_ID a \<notin> art_ID ` set ?old) (artifacts (db w))"
    by (auto simp: image_image)
  have "inj_on art_ID (set (artifacts (db w)))" using ok by (simp add: schema_ok_def distinct_map)
  then have "art_ID a \<in> art_ID ` set ?old \<longleftrightarrow> art_CapturedAt a < cutoff" if "a \<in> set (artifacts (db w))" for a
    using that by (auto simp: inj_on_def)
  then have "filter (\<lambda>a. art_ID a \<notin> art_ID ` set ?old) (artifacts (db w)) =
      filter (\<lambda>a. \<not> art_CapturedAt a < cutoff) (artifacts (db w))" by (intro filter_cong) auto
  with w' w show ?thesis by (simp add: RotateArtifacts_def try_st_def query_healthy)
qed

definition sample_artifact :: "string \<Rightarrow> time \<Rightarrow> ArtifactRecord" where
  "sample_artifact i t = \<lparr>art_ID = i, art_RunID = ''r1'', art_PhaseID = ''p1'', art_Repo = ''api'',
     art_Filename = ''log'', art_ContentType = ''text/plain'', art_SizeBytes = 1, art_Path = ''/a/log'',
     art_CapturedAt = t, art_DroppedCount = 0, art_DroppedReason = ''''\<rparr>"

theorem RotateArtifacts_spec_witness:
  "\<exists>w'. RotateArtifacts (\<lambda>_. Some NotExist) 10
      (initial_world (empty_tables\<lparr>artifacts := [sample_artifact ''a1'' 5, sample_artifact ''a2'' 15]\<rparr>)) =
      (Inr (1, None), w') \<and> map art_ID (artifacts (db w')) = [''a2'']"
  using RotateArtifacts_spec [OF healthy_initial, of "empty_tables\<lparr>artifacts := [sample_artifact ''a1'' 5,
      sample_artifact ''a2'' 15]\<rparr>" "\<lambda>_. Some NotExist" 10]
  by (auto simp: schema_ok_def empty_tables_def sample_artifact_def)

end
