(* ===== verification/Reconcile.thy ===== *)
theory Reconcile
  imports Runs
begin

text \<open>
  \<open>internal/store/reconcile.go\<close>: the recovery a coordinator runs once at startup.  Every run still
  marked \<open>running\<close> becomes \<open>interrupted\<close>, with its running phases, and each transition is announced.

  Proved here: the exact effect and the exact counts on a database in working order, that a second
  call changes nothing, and that under any schedule of failing statements nothing but running rows is
  touched.
\<close>

section \<open>The code\<close>

record ReconcileResult =
  RunsReconciled :: int
  PhasesReconciled :: int

text \<open>SQLite's \<open>datetime('now')\<close> has a resolution of one second.\<close>

definition sqlite_now :: "time \<Rightarrow> time" where
  "sqlite_now t = t div 1000000000 * 1000000000"

definition orphans :: "tables \<Rightarrow> RunRecord list" where
  "orphans d = map scanRun (sort_key run_CreatedAt (filter (\<lambda>r. run_Status r = ''running'') (runs d)))"

definition running_phase_rows :: "string list \<Rightarrow> tables \<Rightarrow> (string \<times> string) list" where
  "running_phase_rows ids d = map (\<lambda>p. (ph_ID p, ph_RunID p))
     (filter (\<lambda>p. ph_Status p = ''running'' \<and> List.member ids (ph_RunID p)) (phases d))"

text \<open>\<open>phasesByRun\<close>, a Go map from strings to slices: a missing key reads as the empty slice.\<close>

type_synonym phase_map = "string \<Rightarrow> string list"

definition add_row :: "phase_map \<Rightarrow> string \<times> string \<Rightarrow> phase_map" where
  "add_row m row = m(snd row := m (snd row) @ [fst row])"

definition chunkSize :: nat where
  "chunkSize = 500"

function fetch_phases :: "string list \<Rightarrow> phase_map \<Rightarrow> phase_map st" where
  "fetch_phases ids m =
     (if ids = [] then return_st m else
      bind_st (query (running_phase_rows (take chunkSize ids))) (\<lambda>rows.
      fetch_phases (drop chunkSize ids) (foldl add_row m rows)))"
  by pat_completeness auto
termination
  by (relation "measure (length \<circ> fst)") (auto simp: chunkSize_def)

declare fetch_phases.simps [simp del]

definition reconcile_run_row :: "string \<Rightarrow> time \<Rightarrow> tables \<Rightarrow> tables" where
  "reconcile_run_row runID now d = d\<lparr>runs :=
     update_where (\<lambda>r. run_ID r = runID \<and> run_Status r = ''running'')
       (\<lambda>r. r\<lparr>run_Status := ''interrupted'', run_UpdatedAt := sqlite_now now\<rparr>) (runs d)\<rparr>"

definition reconcileRun :: "string \<Rightarrow> unit st" where
  "reconcileRun runID =
     bind_st time_now (\<lambda>now.
     bind_st (modify (reconcile_run_row runID now)) (\<lambda>_.
     recordTransition ChannelRun runID (JObj [
       (''transition'', JStr ''status''), (''id'', JStr runID), (''status'', JStr ''interrupted''),
       (''terminal'', JBool True), (''reconciled'', JBool True)])))"

definition reconcile_phase_row :: "string \<Rightarrow> tables \<Rightarrow> tables" where
  "reconcile_phase_row phaseID d = d\<lparr>phases :=
     update_where (\<lambda>p. ph_ID p = phaseID \<and> ph_Status p = ''running'')
       (\<lambda>p. p\<lparr>ph_Status := ''interrupted''\<rparr>) (phases d)\<rparr>"

definition interrupt_phase :: "string \<Rightarrow> string \<Rightarrow> unit st" where
  "interrupt_phase runID phaseID =
     bind_st (modify (reconcile_phase_row phaseID)) (\<lambda>_.
       recordTransition ChannelPhase phaseID (JObj [
         (''id'', JStr phaseID), (''run_id'', JStr runID), (''status'', JStr ''interrupted''),
         (''reconciled'', JBool True)]))"

text \<open>The count the code returns is the number of phases it was given, on every path.\<close>

definition reconcileRunningPhases :: "string \<Rightarrow> string list \<Rightarrow> (int \<times> err option) st" where
  "reconcileRunningPhases runID phaseIDs =
     try_st (for_each (interrupt_phase runID) phaseIDs) (\<lambda>res.
       return_st (int (length phaseIDs), case res of Inl e \<Rightarrow> Some e | Inr _ \<Rightarrow> None))"

text \<open>The second loop; the partial result is returned along with the error.\<close>

fun reconcile_loop ::
    "phase_map \<Rightarrow> RunRecord list \<Rightarrow> ReconcileResult \<Rightarrow> (ReconcileResult \<times> err option) st" where
  "reconcile_loop m [] result = return_st (result, None)"
| "reconcile_loop m (run # rest) result =
     try_st (reconcileRun (run_ID run)) (\<lambda>res. case res of
       Inl e \<Rightarrow> return_st (result, Some e)
     | Inr _ \<Rightarrow>
         let result = result\<lparr>RunsReconciled := RunsReconciled result + 1\<rparr>;
             phaseIDs = m (run_ID run)
         in if phaseIDs = [] then reconcile_loop m rest result
            else bind_st (reconcileRunningPhases (run_ID run) phaseIDs) (\<lambda>(n, oe).
              case oe of
                Some e \<Rightarrow> return_st (result, Some e)
              | None \<Rightarrow> reconcile_loop m rest
                  (result\<lparr>PhasesReconciled := PhasesReconciled result + n\<rparr>)))"

definition no_result :: ReconcileResult where
  "no_result = \<lparr>RunsReconciled = 0, PhasesReconciled = 0\<rparr>"

definition ReconcileOrphanedRuns :: "(ReconcileResult \<times> err option) st" where
  "ReconcileOrphanedRuns =
     try_st (query orphans) (\<lambda>res. case res of
       Inl e \<Rightarrow> return_st (no_result, Some e)
     | Inr os \<Rightarrow>
         if os = [] then return_st (no_result, None)
         else try_st (fetch_phases (map run_ID os) (\<lambda>_. [])) (\<lambda>res. case res of
                Inl e \<Rightarrow> return_st (no_result, Some e)
              | Inr m \<Rightarrow> reconcile_loop m os no_result))"

section \<open>The effect on a database in working order\<close>

definition runs_view :: "tables \<Rightarrow> RunRow list" where
  "runs_view d = map (\<lambda>r. r\<lparr>run_UpdatedAt := 0\<rparr>) (runs d)"

definition log_view :: "tables \<Rightarrow> (string \<times> string) list" where
  "log_view d = map (\<lambda>c. (ch_Channel c, ch_EntityID c)) (changes d)"

definition other_tables :: "tables \<Rightarrow> tables" where
  "other_tables d = d\<lparr>runs := [], phases := [], changes := [], watermark := None\<rparr>"

text \<open>The outcome, up to the times: which runs and phases moved and what was announced.\<close>

definition interrupted_runs :: "string set \<Rightarrow> RunRow list \<Rightarrow> RunRow list" where
  "interrupted_runs ids = update_where (\<lambda>r. run_ID r \<in> ids \<and> run_Status r = ''running'')
     (\<lambda>r. r\<lparr>run_Status := ''interrupted''\<rparr>)"

definition interrupted_phases :: "string set \<Rightarrow> PhaseRecord list \<Rightarrow> PhaseRecord list" where
  "interrupted_phases ids = update_where (\<lambda>p. ph_ID p \<in> ids \<and> ph_Status p = ''running'')
     (\<lambda>p. p\<lparr>ph_Status := ''interrupted''\<rparr>)"

definition moved :: "string set \<Rightarrow> string set \<Rightarrow> (string \<times> string) list \<Rightarrow> tables \<Rightarrow> tables \<Rightarrow> bool" where
  "moved rs ps entries d d' \<longleftrightarrow> runs_view d' = interrupted_runs rs (runs_view d) \<and>
     phases d' = interrupted_phases ps (phases d) \<and> log_view d' = log_view d @ entries \<and>
     other_tables d' = other_tables d"

lemma interrupted_empty [simp]: "interrupted_runs {} = id" "interrupted_phases {} = id"
  by (rule ext, simp add: interrupted_runs_def interrupted_phases_def update_where_def)+

lemma interrupted_runs_again [simp]:
  "interrupted_runs A (interrupted_runs B rs) = interrupted_runs (B \<union> A) rs"
  by (auto simp: interrupted_runs_def update_where_def)

lemma interrupted_phases_again [simp]:
  "interrupted_phases A (interrupted_phases B ps) = interrupted_phases (B \<union> A) ps"
  by (auto simp: interrupted_phases_def update_where_def)

lemma moved_refl [simp]: "moved {} {} [] d d"
  by (simp add: moved_def)

lemma moved_trans:
  "moved rs ps es d d' \<Longrightarrow> moved rs' ps' es' d' d'' \<Longrightarrow> moved (rs \<union> rs') (ps \<union> ps') (es @ es') d d''"
  by (simp add: moved_def)

lemma moved_run: "moved {i} {} [(ChannelRun, i)] d (insert_change ChannelRun i p t (reconcile_run_row i now d))"
proof -
  have "runs_view (reconcile_run_row i now d) = interrupted_runs {i} (runs_view d)"
    unfolding runs_view_def interrupted_runs_def reconcile_run_row_def
    by simp (rule map_update_where_comm; simp)
  then show ?thesis
    by (simp add: moved_def runs_view_def log_view_def other_tables_def insert_change_def reconcile_run_row_def)
qed

lemma moved_phase:
  "moved {} {i} [(ChannelPhase, i)] d (insert_change ChannelPhase i p t (reconcile_phase_row i d))"
  by (simp add: moved_def runs_view_def log_view_def other_tables_def insert_change_def
      reconcile_phase_row_def interrupted_phases_def)

lemma reconcileRun_healthy:
  assumes "healthy w"
  shows "\<exists>w'. reconcileRun i w = (Inr (), w') \<and> healthy w' \<and> moved {i} {} [(ChannelRun, i)] (db w) (db w')"
  using assms moved_run [of i "db w"]
  by (auto simp: reconcileRun_def st_simps healthy_simps recordTransition_def AppendChange_def notifyChange_def)

lemma reconcileRunningPhases_healthy:
  assumes "healthy w"
  shows "\<exists>w'. reconcileRunningPhases i ids w = (Inr (int (length ids), None), w') \<and> healthy w' \<and>
    moved {} (set ids) (map (Pair ChannelPhase) ids) (db w) (db w')"
proof -
  have "\<exists>w'. for_each (interrupt_phase i) ids w = (Inr (), w') \<and> healthy w' \<and>
    moved {} (set ids) (map (Pair ChannelPhase) ids) (db w) (db w')"
    using assms
  proof (induction ids arbitrary: w)
    case Nil
    then show ?case by (simp add: st_simps)
  next
    case (Cons a ids)
    have "\<exists>w1. interrupt_phase i a w = (Inr (), w1) \<and> healthy w1 \<and> moved {} {a} [(ChannelPhase, a)] (db w) (db w1)"
      using Cons.prems moved_phase [of a "db w"]
      by (auto simp: interrupt_phase_def st_simps healthy_simps recordTransition_def AppendChange_def notifyChange_def)
    then obtain w1 where w1: "interrupt_phase i a w = (Inr (), w1)" "healthy w1"
      and m1: "moved {} {a} [(ChannelPhase, a)] (db w) (db w1)" by blast
    from Cons.IH [OF w1(2)] obtain w2 where
      w2: "for_each (interrupt_phase i) ids w1 = (Inr (), w2)" "healthy w2"
      and m2: "moved {} (set ids) (map (Pair ChannelPhase) ids) (db w1) (db w2)" by blast
    from moved_trans [OF m1 m2] w1(1) w2 show ?case
      by (simp add: bind_st_def)
  qed
  then show ?thesis by (auto simp: reconcileRunningPhases_def try_st_def return_st_def)
qed

lemma foldl_add_row: "foldl add_row m rows r = m r @ map fst (filter (\<lambda>row. snd row = r) rows)"
  by (induction rows arbitrary: m) (auto simp: add_row_def)

definition running_phases_of :: "string \<Rightarrow> tables \<Rightarrow> string list" where
  "running_phases_of r d = map ph_ID (filter (\<lambda>p. ph_Status p = ''running'' \<and> ph_RunID p = r) (phases d))"

lemma rows_of_run:
  "map fst (filter (\<lambda>row. snd row = r) (running_phase_rows ids d)) =
     (if r \<in> set ids then running_phases_of r d else [])"
proof -
  have "map fst (filter (\<lambda>row. snd row = r) (running_phase_rows ids d)) =
      map ph_ID (filter (\<lambda>p. ph_RunID p = r)
        (filter (\<lambda>p. ph_Status p = ''running'' \<and> ph_RunID p \<in> set ids) (phases d)))"
    by (simp add: running_phase_rows_def filter_map comp_def)
  also have "\<dots> = (if r \<in> set ids then running_phases_of r d else [])"
    by (auto simp: running_phases_of_def filter_empty_conv intro!: arg_cong [where f = "map ph_ID"] filter_cong)
  finally show ?thesis .
qed

lemma fetch_phases_healthy:
  "healthy w \<Longrightarrow> distinct ids \<Longrightarrow> \<exists>w'. fetch_phases ids m w =
     (Inr (\<lambda>r. m r @ (if r \<in> set ids then running_phases_of r (db w) else [])), w') \<and>
     db w' = db w \<and> healthy w'"
proof (induction ids m arbitrary: w rule: fetch_phases.induct)
  case (1 ids m)
  show ?case
  proof (cases "ids = []")
    case True
    with 1(2) show ?thesis by (simp add: fetch_phases.simps [of "[]" m] st_simps)
  next
    case False
    let ?a = "take chunkSize ids" and ?b = "drop chunkSize ids"
    let ?w = "w\<lparr>ops := Suc (ops w)\<rparr>"
    have split: "set ids = set ?a \<union> set ?b" "set ?a \<inter> set ?b = {}" "distinct ?b"
      using 1(3) set_take_disj_set_drop_if_distinct [OF 1(3), of chunkSize chunkSize]
      by (metis append_take_drop_id set_append, simp_all)
    have "healthy ?w" using 1(2) by simp
    from 1(1) [OF False this split(3), of "running_phase_rows ?a (db w)"] obtain w' where
      w': "fetch_phases ?b (foldl add_row m (running_phase_rows ?a (db w))) ?w =
        (Inr (\<lambda>r. foldl add_row m (running_phase_rows ?a (db w)) r @
           (if r \<in> set ?b then running_phases_of r (db ?w) else [])), w')" "db w' = db ?w" "healthy w'"
      by blast
    have "(\<lambda>r. foldl add_row m (running_phase_rows ?a (db w)) r @
           (if r \<in> set ?b then running_phases_of r (db ?w) else [])) =
        (\<lambda>r. m r @ (if r \<in> set ids then running_phases_of r (db w) else []))"
      using split by (auto simp: foldl_add_row rows_of_run fun_eq_iff)
    with w' False 1(2) show ?thesis
      by (simp add: fetch_phases.simps [of ids m] st_simps query_healthy)
  qed
qed

definition orphan_entries :: "phase_map \<Rightarrow> RunRecord \<Rightarrow> (string \<times> string) list" where
  "orphan_entries m run = (ChannelRun, run_ID run) # map (Pair ChannelPhase) (m (run_ID run))"

lemma reconcile_loop_healthy:
  "healthy w \<Longrightarrow> \<exists>w'. reconcile_loop m os res w =
     (Inr (\<lparr>RunsReconciled = RunsReconciled res + int (length os),
            PhasesReconciled = PhasesReconciled res + int (\<Sum>r\<leftarrow>os. length (m (run_ID r)))\<rparr>, None), w') \<and>
     healthy w' \<and> moved (run_ID ` set os) (\<Union>r \<in> set os. set (m (run_ID r)))
       (concat (map (orphan_entries m) os)) (db w) (db w')"
proof (induction os arbitrary: w res)
  case Nil
  then show ?case by (simp add: st_simps)
next
  case (Cons r os)
  from reconcileRun_healthy [OF Cons.prems, of "run_ID r"] obtain w1 where
    w1: "reconcileRun (run_ID r) w = (Inr (), w1)" "healthy w1"
    and m1: "moved {run_ID r} {} [(ChannelRun, run_ID r)] (db w) (db w1)" by blast
  from reconcileRunningPhases_healthy [OF w1(2), of "run_ID r" "m (run_ID r)"] obtain w2 where
    w2: "reconcileRunningPhases (run_ID r) (m (run_ID r)) w1 = (Inr (int (length (m (run_ID r))), None), w2)"
      "healthy w2"
    and m2: "moved {} (set (m (run_ID r))) (map (Pair ChannelPhase) (m (run_ID r))) (db w1) (db w2)" by blast
  obtain a b where res: "res = \<lparr>RunsReconciled = a, PhasesReconciled = b\<rparr>" by (cases res)
  show ?case
  proof (cases "m (run_ID r) = []")
    case True
    from Cons.IH [OF w1(2), of "\<lparr>RunsReconciled = a + 1, PhasesReconciled = b\<rparr>"] obtain w' where
      eq: "reconcile_loop m os \<lparr>RunsReconciled = a + 1, PhasesReconciled = b\<rparr> w1 =
        (Inr (\<lparr>RunsReconciled = a + 1 + int (length os),
            PhasesReconciled = b + int (\<Sum>r\<leftarrow>os. length (m (run_ID r)))\<rparr>, None), w')"
      and "healthy w'" and mo: "moved (run_ID ` set os) (\<Union>r \<in> set os. set (m (run_ID r)))
       (concat (map (orphan_entries m) os)) (db w1) (db w')" by auto
    with moved_trans [OF m1 mo] w1 True show ?thesis
      by (simp add: res st_simps orphan_entries_def [of m r] Let_def)
  next
    case False
    from Cons.IH [OF w2(2), of "\<lparr>RunsReconciled = a + 1,
        PhasesReconciled = b + int (length (m (run_ID r)))\<rparr>"] obtain w' where
      eq: "reconcile_loop m os \<lparr>RunsReconciled = a + 1,
          PhasesReconciled = b + int (length (m (run_ID r)))\<rparr> w2 =
        (Inr (\<lparr>RunsReconciled = a + 1 + int (length os),
            PhasesReconciled = b + int (length (m (run_ID r))) +
              int (\<Sum>r\<leftarrow>os. length (m (run_ID r)))\<rparr>, None), w')"
      and "healthy w'" and mo: "moved (run_ID ` set os) (\<Union>r \<in> set os. set (m (run_ID r)))
       (concat (map (orphan_entries m) os)) (db w2) (db w')" by auto
    with moved_trans [OF moved_trans [OF m1 m2] mo] w1 w2 False show ?thesis
      by (simp add: res st_simps orphan_entries_def [of m r] Let_def)
  qed
qed

section \<open>What reconciliation achieves\<close>

definition is_orphan :: "tables \<Rightarrow> string \<Rightarrow> bool" where
  "is_orphan d i \<longleftrightarrow> list_ex (\<lambda>r. run_Status r = ''running'' \<and> run_ID r = i) (runs d)"

definition orphan_phase :: "tables \<Rightarrow> PhaseRecord \<Rightarrow> bool" where
  "orphan_phase d p \<longleftrightarrow> ph_Status p = ''running'' \<and> is_orphan d (ph_RunID p)"

lemma set_orphans: "run_ID ` set (orphans d) = {i. is_orphan d i}"
  unfolding orphans_def is_orphan_def list_ex_iff by (simp add: image_image) blast

lemma length_orphans: "length (orphans d) = length (filter (\<lambda>r. run_Status r = ''running'') (runs d))"
  by (simp add: orphans_def)

lemma distinct_orphans: "schema_ok d \<Longrightarrow> distinct (map run_ID (orphans d))"
  by (simp add: orphans_def comp_def schema_ok_def distinct_map_filter_sort_key)

lemma orphans_moved:
  assumes ok: "schema_ok d"
    and m: "moved {i. is_orphan d i} (\<Union>i \<in> {i. is_orphan d i}. set (running_phases_of i d)) es d d'"
  shows "runs_view d' = map (\<lambda>r. if run_Status r = ''running'' then r\<lparr>run_Status := ''interrupted''\<rparr> else r) (runs_view d) \<and>
    phases d' = map (\<lambda>p. if orphan_phase d p then p\<lparr>ph_Status := ''interrupted''\<rparr> else p) (phases d)"
proof
  have "is_orphan d (run_ID r)" if "r \<in> set (runs_view d)" "run_Status r = ''running''" for r
    using that by (auto simp: runs_view_def is_orphan_def list_ex_iff)
  with m show "runs_view d' =
      map (\<lambda>r. if run_Status r = ''running'' then r\<lparr>run_Status := ''interrupted''\<rparr> else r) (runs_view d)"
    by (auto simp: moved_def interrupted_runs_def update_where_def)
next
  have "orphan_phase d p" if "p \<in> set (phases d)" and p: "ph_Status p = ''running''"
    and i: "is_orphan d i" and mem: "ph_ID p \<in> set (running_phases_of i d)" for p i
  proof -
    from mem obtain q where q: "q \<in> set (phases d)" "ph_RunID q = i" "ph_ID q = ph_ID p"
      by (auto simp: running_phases_of_def)
    with ok that(1) have "q = p" using distinct_key_eq [of ph_ID "phases d" q p] by (simp add: schema_ok_def)
    with p i q show ?thesis by (simp add: orphan_phase_def)
  qed
  moreover have "\<exists>i. is_orphan d i \<and> ph_ID p \<in> set (running_phases_of i d)"
    if "p \<in> set (phases d)" "orphan_phase d p" for p
    using that by (force simp: orphan_phase_def running_phases_of_def)
  ultimately show "phases d' = map (\<lambda>p. if orphan_phase d p then p\<lparr>ph_Status := ''interrupted''\<rparr> else p) (phases d)"
    using m by (auto simp: moved_def interrupted_phases_def update_where_def orphan_phase_def)
qed

lemma env_interrupt [within_intros]: "within same_env (interrupt_phase i j)"
  unfolding interrupt_phase_def by (intro within_intros)

lemma env_reconcileRun [within_intros]: "within same_env (reconcileRun i)"
  unfolding reconcileRun_def by (intro within_intros)

lemma env_reconcile_loop [within_intros]: "within same_env (reconcile_loop m os res)"
  by (induction os arbitrary: res)
     (auto simp: Let_def reconcileRunningPhases_def intro!: within_intros)

lemma env_fetch [within_intros]: "within same_env (fetch_phases ids m)"
proof (induction ids m rule: fetch_phases.induct)
  case (1 ids m)
  show ?case
    by (subst fetch_phases.simps) (intro within_intros 1)
qed

lemma env_Reconcile: "within same_env ReconcileOrphanedRuns"
  unfolding ReconcileOrphanedRuns_def by (intro within_intros)

definition sample_phase :: "string \<Rightarrow> string \<Rightarrow> string \<Rightarrow> PhaseRecord" where
  "sample_phase i r s = \<lparr>ph_ID = i, ph_RunID = r, ph_Repo = ''api'', ph_Name = ''plan'', ph_Kind = ''agent'',
     ph_Status = s, ph_Error = '''', ph_DurationMs = 0, ph_Payload = RawEmpty, ph_Attempt = 1, ph_FixCycle = 0,
     ph_CreatedAt = 1\<rparr>"

definition reconciliation_log :: "tables \<Rightarrow> (string \<times> string) list" where
  "reconciliation_log d = concat (map (\<lambda>r. (ChannelRun, run_ID r) #
     map (Pair ChannelPhase) (running_phases_of (run_ID r) d)) (orphans d))"

lemma ReconcileOrphanedRuns_orphans:
  assumes w: "healthy w" and ok: "schema_ok (db w)"
  shows "\<exists>w'. ReconcileOrphanedRuns w =
      (Inr (\<lparr>RunsReconciled = int (length (filter (\<lambda>r. run_Status r = ''running'') (runs (db w)))),
             PhasesReconciled = int (length (filter (orphan_phase (db w)) (phases (db w))))\<rparr>, None), w') \<and>
    runs_view (db w') = map (\<lambda>r. if run_Status r = ''running'' then r\<lparr>run_Status := ''interrupted''\<rparr> else r)
      (runs_view (db w)) \<and>
    phases (db w') = map (\<lambda>p. if orphan_phase (db w) p then p\<lparr>ph_Status := ''interrupted''\<rparr> else p) (phases (db w)) \<and>
    log_view (db w') = log_view (db w) @ reconciliation_log (db w) \<and>
    other_tables (db w') = other_tables (db w)"
proof -
  let ?d = "db w" and ?w = "w\<lparr>ops := Suc (ops w)\<rparr>"
  let ?os = "orphans ?d"
  define m where "m = (\<lambda>r. if r \<in> set (map run_ID ?os) then running_phases_of r ?d else [])"
  have dist: "distinct (map run_ID ?os)" using ok by (rule distinct_orphans)
  have mem: "m (run_ID r) = running_phases_of (run_ID r) ?d" if "r \<in> set ?os" for r
    using that by (auto simp: m_def)
  have count: "(\<Sum>r\<leftarrow>?os. length (m (run_ID r))) = length (filter (orphan_phase ?d) (phases ?d))"
  proof -
    have "(\<Sum>r\<leftarrow>?os. length (m (run_ID r))) = (\<Sum>i\<leftarrow>map run_ID ?os. length (running_phases_of i ?d))"
      using mem by (simp add: comp_def cong: map_cong)
    also have "\<dots> = length (filter (\<lambda>p. ph_Status p = ''running'' \<and> ph_RunID p \<in> set (map run_ID ?os)) (phases ?d))"
      unfolding running_phases_of_def length_map by (rule sum_length_filter_keys [OF dist])
    also have "\<dots> = length (filter (orphan_phase ?d) (phases ?d))"
      using set_orphans [of ?d] by (simp add: orphan_phase_def [abs_def])
    finally show ?thesis .
  qed
  have "healthy ?w" using w by simp
  from fetch_phases_healthy [OF this dist, of "\<lambda>_. []"] obtain w1 where
    w1': "fetch_phases (map run_ID ?os) (\<lambda>_. []) ?w = (Inr (\<lambda>r. [] @
       (if r \<in> set (map run_ID ?os) then running_phases_of r (db ?w) else [])), w1)" "db w1 = db ?w" "healthy w1"
    by blast
  moreover have "(\<lambda>r. [] @ (if r \<in> set (map run_ID ?os) then running_phases_of r (db ?w) else [])) = m"
    by (auto simp: m_def fun_eq_iff)
  ultimately have w1: "fetch_phases (map run_ID ?os) (\<lambda>_. []) ?w = (Inr m, w1)" "db w1 = ?d" "healthy w1"
    by simp_all
  from reconcile_loop_healthy [OF w1(3), of m ?os no_result] obtain w2 where
    w2: "reconcile_loop m ?os no_result w1 =
     (Inr (\<lparr>RunsReconciled = int (length ?os), PhasesReconciled = int (\<Sum>r\<leftarrow>?os. length (m (run_ID r)))\<rparr>, None), w2)"
    and mv: "moved (run_ID ` set ?os) (\<Union>r \<in> set ?os. set (m (run_ID r)))
       (concat (map (orphan_entries m) ?os)) ?d (db w2)" 
    by (auto simp: no_result_def w1(2))
  have es: "concat (map (orphan_entries m) ?os) = reconciliation_log ?d"
    using mem by (simp add: orphan_entries_def reconciliation_log_def cong: map_cong)
  have ps: "(\<Union>r \<in> set ?os. set (m (run_ID r))) = (\<Union>i \<in> {i. is_orphan ?d i}. set (running_phases_of i ?d))"
    using mem by (simp flip: set_orphans)
  note mv' = mv [unfolded es ps set_orphans]
  have res: "ReconcileOrphanedRuns w = (Inr (\<lparr>RunsReconciled = int (length ?os),
      PhasesReconciled = int (length (filter (orphan_phase ?d) (phases ?d)))\<rparr>, None),
      if ?os = [] then ?w else w2)"
    using w w1 w2 count set_orphans [of ?d]
    by (auto simp: ReconcileOrphanedRuns_def st_simps query_healthy no_result_def)
  show ?thesis
  proof (cases "?os = []")
    case True
    then have "moved {i. is_orphan ?d i} (\<Union>i \<in> {i. is_orphan ?d i}. set (running_phases_of i ?d))
        (reconciliation_log ?d) ?d (db ?w)"
      using set_orphans [of ?d] by (simp add: reconciliation_log_def)
    with orphans_moved [OF ok this] res True length_orphans [of ?d] show ?thesis by (auto simp: moved_def)
  next
    case False
    with orphans_moved [OF ok mv'] res mv' show ?thesis by (auto simp: length_orphans moved_def)
  qed
qed

text \<open>
  C24: on a database in working order, reconciliation interrupts every running run and every running
  phase of such a run and nothing else; it counts each of them once, whatever the number of runs and
  so of chunks, announces each run followed by its phases in order of creation, and leaves the other
  tables alone.  Phases of runs that already finished keep their status.
\<close>

theorem ReconcileOrphanedRuns_spec:
  assumes w: "healthy w" and ok: "schema_ok (db w)"
  shows "\<exists>w'. ReconcileOrphanedRuns w =
      (Inr (\<lparr>RunsReconciled = int (length (filter (\<lambda>r. run_Status r = ''running'') (runs (db w)))),
             PhasesReconciled = int (length (filter (orphan_phase (db w)) (phases (db w))))\<rparr>, None), w') \<and>
    runs_view (db w') = map (\<lambda>r. if run_Status r = ''running'' then r\<lparr>run_Status := ''interrupted''\<rparr> else r)
      (runs_view (db w)) \<and>
    phases (db w') = map (\<lambda>p. if orphan_phase (db w) p then p\<lparr>ph_Status := ''interrupted''\<rparr> else p) (phases (db w)) \<and>
    log_view (db w') = log_view (db w) @ reconciliation_log (db w) \<and>
    other_tables (db w') = other_tables (db w)"
  using assms by (rule ReconcileOrphanedRuns_orphans)

definition sample_orphans :: tables where
  "sample_orphans = empty_tables\<lparr>
     runs := [run_row (sample_run\<lparr>run_Status := ''running''\<rparr>),
              run_row (sample_run\<lparr>run_ID := ''r2'', run_RequestID := ''q2'', run_Status := ''passed''\<rparr>)],
     phases := [sample_phase ''p1'' ''r1'' ''running'', sample_phase ''p2'' ''r1'' ''passed'',
                sample_phase ''p3'' ''r2'' ''running'']\<rparr>"

lemma sample_orphans_ok: "schema_ok (db (initial_world sample_orphans))"
  by (simp add: schema_ok_def sample_orphans_def empty_tables_def sample_phase_def sample_run_def)

theorem ReconcileOrphanedRuns_spec_witness:
  "\<exists>w'. fst (ReconcileOrphanedRuns (initial_world sample_orphans)) =
      Inr (\<lparr>RunsReconciled = 1, PhasesReconciled = 1\<rparr>, None) \<and>
    ReconcileOrphanedRuns (initial_world sample_orphans) =
      (Inr (\<lparr>RunsReconciled = 1, PhasesReconciled = 1\<rparr>, None), w') \<and>
    map ph_Status (phases (db w')) = [''interrupted'', ''passed'', ''running''] \<and>
    log_view (db w') = [(''run'', ''r1''), (''phase'', ''p1'')]"
  using ReconcileOrphanedRuns_spec [OF healthy_initial sample_orphans_ok]
  by (auto simp: sample_orphans_def empty_tables_def sample_phase_def sample_run_def orphan_phase_def
      is_orphan_def reconciliation_log_def running_phases_of_def orphans_def log_view_def
      ChannelRun_def ChannelPhase_def)

text \<open>
  Reconciliation is idempotent: after one call no run is marked running, so a second call reports
  nothing, changes no table and announces nothing.
\<close>

theorem ReconcileOrphanedRuns_idempotent:
  assumes w: "healthy w" and ok: "schema_ok (db w)" and run: "ReconcileOrphanedRuns w = (res, w')"
  shows "(\<forall>r \<in> set (runs (db w')). run_Status r \<noteq> ''running'') \<and>
    (\<exists>w''. ReconcileOrphanedRuns w' = (Inr (no_result, None), w'') \<and> db w'' = db w')"
proof -
  have views: "runs_view (db w') = map (\<lambda>r. if run_Status r = ''running'' then r\<lparr>run_Status := ''interrupted''\<rparr> else r)
      (runs_view (db w))"
    using ReconcileOrphanedRuns_orphans [OF w ok] run by auto
  have "map run_Status (runs (db w')) = map run_Status (runs_view (db w'))"
    by (simp add: runs_view_def)
  also have "\<dots> = map (\<lambda>r. if run_Status r = ''running'' then ''interrupted'' else run_Status r) (runs_view (db w))"
    unfolding views by simp
  finally have "''running'' \<notin> set (map run_Status (runs (db w')))" by auto
  then have none: "\<forall>r \<in> set (runs (db w')). run_Status r \<noteq> ''running''" by (metis imageI list.set_map)
  moreover have "healthy w'" using run w within_env_healthy [OF env_Reconcile] by blast
  ultimately show ?thesis
    by (auto simp: ReconcileOrphanedRuns_def st_simps query_healthy orphans_def filter_empty_conv)
qed

theorem ReconcileOrphanedRuns_idempotent_witness:
  "\<exists>w' w''. ReconcileOrphanedRuns (initial_world sample_orphans) =
       (Inr (\<lparr>RunsReconciled = 1, PhasesReconciled = 1\<rparr>, None), w') \<and>
     ReconcileOrphanedRuns w' = (Inr (no_result, None), w'') \<and> db w'' = db w'"
proof -
  have "fst (ReconcileOrphanedRuns (initial_world sample_orphans)) =
      Inr (\<lparr>RunsReconciled = 1, PhasesReconciled = 1\<rparr>, None)"
    by code_simp
  then obtain w' where eq: "ReconcileOrphanedRuns (initial_world sample_orphans) =
      (Inr (\<lparr>RunsReconciled = 1, PhasesReconciled = 1\<rparr>, None), w')" by (metis prod.collapse)
  from ReconcileOrphanedRuns_idempotent [OF healthy_initial sample_orphans_ok eq] eq show ?thesis by blast
qed

section \<open>Under every schedule of failures\<close>

text \<open>What recovery may do: interrupt running rows.\<close>

definition run_recovered :: "RunRow \<Rightarrow> RunRow \<Rightarrow> bool" where
  "run_recovered r r' \<longleftrightarrow> r' = r \<or> (run_Status r = ''running'' \<and>
     (\<exists>t. r' = r\<lparr>run_Status := ''interrupted'', run_UpdatedAt := t\<rparr>))"

definition phase_recovered :: "PhaseRecord \<Rightarrow> PhaseRecord \<Rightarrow> bool" where
  "phase_recovered p p' \<longleftrightarrow> p' = p \<or> (ph_Status p = ''running'' \<and> p' = p\<lparr>ph_Status := ''interrupted''\<rparr>)"

definition recovers :: "tables \<Rightarrow> tables \<Rightarrow> bool" where
  "recovers d d' \<longleftrightarrow> list_all2 run_recovered (runs d) (runs d') \<and>
     list_all2 phase_recovered (phases d) (phases d') \<and> other_tables d' = other_tables d \<and>
     prefix (changes d) (changes d')"

lemma run_recovered_trans: "run_recovered r s \<Longrightarrow> run_recovered s t \<Longrightarrow> run_recovered r t"
  by (auto simp: run_recovered_def)

lemma phase_recovered_trans: "phase_recovered r s \<Longrightarrow> phase_recovered s t \<Longrightarrow> phase_recovered r t"
  by (auto simp: phase_recovered_def)

interpretation recovery: table_relation recovers
proof unfold_locales
  show "recovers d d" for d
    by (auto simp: recovers_def run_recovered_def phase_recovered_def intro!: list_all2_refl)
next
  show "recovers d1 d2 \<Longrightarrow> recovers d2 d3 \<Longrightarrow> recovers d1 d3" for d1 d2 d3
    unfolding recovers_def
    by (auto intro: list_all2_trans [OF run_recovered_trans] list_all2_trans [OF phase_recovered_trans])
qed

lemma recovers_rows [simp]:
  "recovers d (reconcile_run_row i now d)" "recovers d (reconcile_phase_row i d)"
  "recovers d (insert_change ch e p now d)"
  by (auto simp: recovers_def reconcile_run_row_def reconcile_phase_row_def update_where_def other_tables_def
      insert_change_def list_all2_map2 run_recovered_def phase_recovered_def intro!: list_all2_refl list.rel_refl_strong)

lemma recovery_recordTransition [within_intros]: "within (on_db recovers) (recordTransition ch e p)"
  unfolding recordTransition_def AppendChange_def by (intro within_intros recovery.w_exec) auto

lemma recovery_steps [within_intros]:
  "within (on_db recovers) (reconcileRun i)" "within (on_db recovers) (interrupt_phase i j)"
  unfolding reconcileRun_def interrupt_phase_def by (intro within_intros recovery.w_modify recovers_rows)+

lemma recovery_loop [within_intros]: "within (on_db recovers) (reconcile_loop m os res)"
  by (induction os arbitrary: res)
     (auto simp: Let_def reconcileRunningPhases_def intro!: within_intros)

context table_relation
begin

lemma w_fetch [within_intros]: "within (on_db T) (fetch_phases ids m)"
proof (induction ids m rule: fetch_phases.induct)
  case (1 ids m)
  show ?case by (subst fetch_phases.simps) (intro w_cond w_return w_bind w_query 1)
qed

end

text \<open>
  Whichever statements fail, and so wherever reconciliation stops, it has only turned running runs
  and running phases into interrupted ones and appended to the log: terminal runs, their phases and
  every other table are as they were.
\<close>

theorem ReconcileOrphanedRuns_touches_running_only:
  "list_all2 run_recovered (runs (db w)) (runs (db (snd (ReconcileOrphanedRuns w)))) \<and>
   list_all2 phase_recovered (phases (db w)) (phases (db (snd (ReconcileOrphanedRuns w)))) \<and>
   other_tables (db (snd (ReconcileOrphanedRuns w))) = other_tables (db w) \<and>
   prefix (changes (db w)) (changes (db (snd (ReconcileOrphanedRuns w))))"
proof -
  have "within (on_db recovers) ReconcileOrphanedRuns"
    unfolding ReconcileOrphanedRuns_def by (intro within_intros)
  then show ?thesis by (simp add: within_def on_db_def recovers_def)
qed

lemma sound_reconcile_rows [simp]:
  "sound_step d (reconcile_run_row i now d)" "sound_step d (reconcile_phase_row i d)"
  by (intro sound_stepI; auto simp: reconcile_run_row_def reconcile_phase_row_def schema_ok_def map_update_where)+

lemma sound_reconcile_steps [within_intros]:
  "within (on_db sound_step) (reconcileRun i)" "within (on_db sound_step) (interrupt_phase i j)"
  unfolding reconcileRun_def interrupt_phase_def by (intro within_intros sound.w_modify sound_reconcile_rows)+

lemma sound_reconcile_loop [within_intros]: "within (on_db sound_step) (reconcile_loop m os res)"
  by (induction os arbitrary: res)
     (auto simp: Let_def reconcileRunningPhases_def intro!: within_intros)

lemma sound_ReconcileOrphanedRuns [within_intros]: "within (on_db sound_step) ReconcileOrphanedRuns"
  unfolding ReconcileOrphanedRuns_def by (intro within_intros)

end
