(* ===== verification/Export.thy ===== *)
theory Export
  imports Intents
begin

text \<open>
  \<open>internal/export/runner.go\<close> and the export cursor of \<open>internal/store/store.go\<close>: a poll that hands
  intent and bullet transitions to an external tracker and advances a durable cursor past those that
  were delivered.

  The tracker is an external service: the outcome of each call, numbered by the world's call counter,
  is a parameter.  \<open>Tick\<close> also returns the records the tracker accepted, with the sequence number of
  the change each came from, which the code keeps nowhere.

  Proved here: no transition is skipped under any failure of the database or of the tracker, and a tick
  against a tracker that accepts everything exports a whole page.
\<close>

section \<open>The cursor\<close>

text \<open>A store that never saved a cursor reads back zero.\<close>

definition cursor_of :: "tables \<Rightarrow> int" where
  "cursor_of d = (case export_cursor d of None \<Rightarrow> 0 | Some s \<Rightarrow> s)"

definition LoadExportCursor :: "int st" where
  "LoadExportCursor = try_st (query_row export_cursor) (\<lambda>res. case res of
     Inr seq \<Rightarrow> return_st seq
   | Inl e \<Rightarrow> if e = NoRows then return_st 0 else throw e)"

definition SaveExportCursor :: "int \<Rightarrow> unit st" where
  "SaveExportCursor seq = modify (\<lambda>d. d\<lparr>export_cursor := Some seq\<rparr>)"

section \<open>The runner\<close>

record Record =
  rec_Kind :: string
  rec_ID :: string
  rec_Project :: string
  rec_Repo :: string
  rec_Position :: int
  rec_Status :: string
  rec_Statement :: string
  rec_CreatedAt :: time
  rec_UpdatedAt :: time

definition buildRecord :: "ChangeRecord \<Rightarrow> Record st" where
  "buildRecord c =
     (if ch_Channel c = ChannelIntent then
        bind_st (wrap_st ''loading intent %q: %w'' [ch_EntityID c] (GetIntent (ch_EntityID c))) (\<lambda>i.
        return_st \<lparr>rec_Kind = ''intent'', rec_ID = in_ID i, rec_Project = in_Project i, rec_Repo = '''',
          rec_Position = -1, rec_Status = in_Status i, rec_Statement = Text (in_Statement i),
          rec_CreatedAt = in_CreatedAt i, rec_UpdatedAt = in_UpdatedAt i\<rparr>)
      else if ch_Channel c = ChannelBullet then
        bind_st (wrap_st ''loading bullet %q: %w'' [ch_EntityID c] (GetBullet (ch_EntityID c))) (\<lambda>b.
        bind_st (wrap_st ''loading intent %q for bullet %q: %w'' [bu_IntentID b, bu_ID b]
          (GetIntent (bu_IntentID b))) (\<lambda>i.
        return_st \<lparr>rec_Kind = ''bullet'', rec_ID = bu_ID b, rec_Project = in_Project i, rec_Repo = bu_Repo b,
          rec_Position = bu_Position b, rec_Status = bu_Status b, rec_Statement = '''',
          rec_CreatedAt = bu_CreatedAt b, rec_UpdatedAt = bu_UpdatedAt b\<rparr>))
      else throw (Errorf ''unexpected channel %q'' [ch_Channel c] None))"

type_synonym target = "nat \<Rightarrow> Record \<Rightarrow> err option"

definition target_export :: "target \<Rightarrow> Record \<Rightarrow> err option st" where
  "target_export t r = (\<lambda>w. (Inr (t (attempts w) r), w\<lparr>attempts := Suc (attempts w)\<rparr>))"

definition exportable :: "ChangeRecord \<Rightarrow> bool" where
  "exportable c \<longleftrightarrow> ch_Channel c = ChannelIntent \<or> ch_Channel c = ChannelBullet"

text \<open>The loop over one page: the sequence reached and the records accepted so far.\<close>

fun tick_loop :: "target \<Rightarrow> ChangeRecord list \<Rightarrow> int \<Rightarrow> (int \<times> Record) list \<Rightarrow> (int \<times> (int \<times> Record) list) st" where
  "tick_loop t [] adv out = return_st (adv, out)"
| "tick_loop t (c # cs) adv out =
     (if \<not> exportable c then tick_loop t cs (ch_Seq c) out
      else try_st (buildRecord c) (\<lambda>res. case res of
        Inl _ \<Rightarrow> return_st (adv, out)
      | Inr r \<Rightarrow> bind_st (target_export t r) (\<lambda>oe. case oe of
          Some _ \<Rightarrow> return_st (adv, out)
        | None \<Rightarrow> tick_loop t cs (ch_Seq c) (out @ [(ch_Seq c, r)]))))"

definition Tick :: "target \<Rightarrow> ((int \<times> Record) list \<times> err option) st" where
  "Tick t =
     try_st LoadExportCursor (\<lambda>res. case res of
       Inl e \<Rightarrow> return_st ([], Some (Errorf ''loading export cursor: %w'' [] (Some e)))
     | Inr cursor \<Rightarrow>
         try_st (ListChangesSince cursor 0) (\<lambda>res. case res of
           Inl e \<Rightarrow> return_st ([], Some (Errorf ''listing changes since %d: %w'' [show_int cursor] (Some e)))
         | Inr cs \<Rightarrow>
             bind_st (tick_loop t cs cursor []) (\<lambda>(adv, out).
             if adv = cursor then return_st (out, None)
             else try_st (SaveExportCursor adv) (\<lambda>res. case res of
               Inl e \<Rightarrow> return_st (out, Some (Errorf ''saving export cursor: %w'' [] (Some e)))
             | Inr _ \<Rightarrow> return_st (out, None)))))"

text \<open>\<open>Run\<close>: a tick per wake-up until the context is cancelled; an error is logged and retried.\<close>

fun run_ticks :: "target \<Rightarrow> nat \<Rightarrow> (int \<times> Record) list st" where
  "run_ticks t 0 = return_st []"
| "run_ticks t (Suc n) =
     bind_st (Tick t) (\<lambda>(out, _). bind_st (run_ticks t n) (\<lambda>rest. return_st (out @ rest)))"

section \<open>Nothing is skipped\<close>

lemma ro_target [within_intros]: "within (on_db same_db) (target_export t r)"
  by (simp add: within_def on_db_def same_db_def target_export_def)

lemma ro_buildRecord [within_intros]: "within (on_db same_db) (buildRecord c)"
  unfolding buildRecord_def GetIntent_def GetBullet_def by (intro within_intros)

lemma ro_tick_loop [within_intros]: "within (on_db same_db) (tick_loop t cs adv out)"
  by (induction cs arbitrary: adv out) (auto intro!: within_intros)

lemma tick_loop_prefix:
  assumes "tick_loop t cs adv out w = (Inr (adv', out'), w')"
  shows "\<exists>pre suf. cs = pre @ suf \<and> adv' = (if pre = [] then adv else ch_Seq (last pre)) \<and>
    map fst out' = map fst out @ map ch_Seq (filter exportable pre)"
  using assms
proof (induction cs arbitrary: adv out w)
  case Nil
  then show ?case by (simp add: st_simps)
next
  case (Cons c cs)
  have stop: ?case if "adv' = adv" "out' = out"
    using that by (intro exI [of _ "[]"] exI [of _ "c # cs"]) simp
  have go: ?case if "tick_loop t cs (ch_Seq c) o1 w1 = (Inr (adv', out'), w')"
    "map fst o1 = map fst out @ (if exportable c then [ch_Seq c] else [])" for o1 w1
  proof -
    from Cons.IH [OF that(1)] obtain pre suf where
      "cs = pre @ suf" "adv' = (if pre = [] then ch_Seq c else ch_Seq (last pre))"
      "map fst out' = map fst o1 @ map ch_Seq (filter exportable pre)" by blast
    with that(2) show ?thesis by (intro exI [of _ "c # pre"] exI [of _ suf]) auto
  qed
  obtain r1 w1 where b: "buildRecord c w = (r1, w1)" by (cases "buildRecord c w")
  show ?case
  proof (cases "exportable c")
    case False
    with Cons.prems have "tick_loop t cs (ch_Seq c) out w = (Inr (adv', out'), w')" by simp
    then show ?thesis by (rule go) (simp add: False)
  next
    case True
    show ?thesis
    proof (cases r1)
      case (Inl e)
      with Cons.prems b True have "adv' = adv" "out' = out" by (simp_all add: try_st_def return_st_def)
      then show ?thesis by (rule stop)
    next
      case (Inr r)
      show ?thesis
      proof (cases "t (attempts w1) r")
        case None
        with Inr Cons.prems b True
        have "tick_loop t cs (ch_Seq c) (out @ [(ch_Seq c, r)]) (w1\<lparr>attempts := Suc (attempts w1)\<rparr>) =
            (Inr (adv', out'), w')"
          by (simp add: try_st_def bind_st_def target_export_def)
        then show ?thesis by (rule go) (simp add: True)
      next
        case (Some e)
        with Inr Cons.prems b True have "adv' = adv" "out' = out"
          by (simp_all add: try_st_def bind_st_def target_export_def return_st_def)
        then show ?thesis by (rule stop)
      qed
    qed
  qed
qed

lemma page_sorted: "sorted (map ch_Seq (changes_since from limit d))"
proof -
  have "sorted (map ch_Seq (sql_limit limit (sort_key ch_Seq xs)))" for xs
    by (auto simp: sql_limit_def take_map [symmetric] sorted_wrt_take)
  then show ?thesis by (simp add: changes_since_def comp_def scanChange_def)
qed

lemma LoadExportCursor_value:
  assumes "LoadExportCursor w = (Inr cur, w1)" shows "cur = cursor_of (db w) \<and> db w1 = db w"
  using assms
  by (auto simp: LoadExportCursor_def cursor_of_def st_simps query_row_def exec_def Let_def
      split: if_splits option.splits sum.splits prod.splits)

lemma ListChangesSince_value:
  assumes "ListChangesSince from 0 w = (Inr cs, w1)"
  shows "cs = changes_since from 500 (db w) \<and> db w1 = db w"
  using assms
  by (auto simp: ListChangesSince_def defaultChangeReplayLimit_def query_def exec_def Let_def split: if_splits)

lemma changes_ok_distinct: "changes_ok d \<Longrightarrow> distinct (map ch_Seq (changes d))"
  by (simp add: changes_ok_def)

text \<open>In a page of an intact log a row below the last one of a prefix is in the prefix.\<close>

lemma page_prefix_complete:
  assumes ok: "changes_ok d" and page: "changes_since from limit d = pre @ suf" and "0 \<le> limit"
    and c: "c \<in> set (changes d)" "from < ch_Seq c" and le: "pre \<noteq> []" "ch_Seq c \<le> ch_Seq (last pre)"
  shows "scanChange c \<in> set pre"
proof -
  define S where "S = sort_key ch_Seq (filter (\<lambda>c. from < ch_Seq c) (changes d))"
  have page': "map scanChange (take (nat limit) S) = pre @ suf"
    using page \<open>0 \<le> limit\<close> by (simp add: changes_since_def sql_limit_def S_def)
  have "distinct (map ch_Seq S)"
    using changes_ok_distinct [OF ok] by (simp add: S_def distinct_map_filter_sort_key)
  then have strict: "sorted_wrt (<) (map ch_Seq S)"
    by (simp add: strict_sorted_iff S_def)
  have seq: "map ch_Seq (take (nat limit) S) = map ch_Seq pre @ map ch_Seq suf"
    using arg_cong [OF page', of "map ch_Seq"] by (simp add: comp_def scanChange_def)
  have "S = take (nat limit) S @ drop (nat limit) S" by simp
  then have split: "map ch_Seq S = map ch_Seq pre @ (map ch_Seq suf @ map ch_Seq (drop (nat limit) S))"
    using seq by (metis append.assoc map_append)
  have "ch_Seq (last pre) \<in> set (map ch_Seq pre)" using le(1) by auto
  then have above: "ch_Seq (last pre) < s" if "s \<in> set (map ch_Seq suf @ map ch_Seq (drop (nat limit) S))" for s
    using strict that unfolding split by (auto simp: sorted_wrt_append)
  have "c \<in> set S" using c by (simp add: S_def)
  then consider "c \<in> set (take (nat limit) S)" | "c \<in> set (drop (nat limit) S)"
    by (metis Un_iff append_take_drop_id set_append)
  then show ?thesis
  proof cases
    case 1
    then have "scanChange c \<in> set (pre @ suf)" unfolding page' [symmetric] by simp
    moreover have "ch_Seq (scanChange c) = ch_Seq c" by (simp add: scanChange_def)
    moreover have "ch_Seq c \<notin> set (map ch_Seq suf)" using above [of "ch_Seq c"] le(2) by auto
    ultimately show ?thesis by (metis Un_iff imageI list.set_map set_append)
  next
    case 2
    with above [of "ch_Seq c"] le(2) show ?thesis by auto
  qed
qed

lemma exportable_scan [simp]: "exportable (scanChange c) = exportable c" "ch_Seq (scanChange c) = ch_Seq c"
  by (simp_all add: exportable_def scanChange_def)

lemma page_above: "c \<in> set (changes_since from limit d) \<Longrightarrow> from < ch_Seq c"
  using set_sql_limit by (fastforce simp: changes_since_def)

lemma Tick_outcome:
  assumes "Tick t w = (Inr (out, oe), w')" and ok: "changes_ok (db w)"
  shows "db w' = (db w)\<lparr>export_cursor := export_cursor (db w')\<rparr> \<and> sorted (map fst out) \<and>
    cursor_of (db w) \<le> cursor_of (db w') \<and>
    (\<forall>c \<in> set (changes (db w)). exportable c \<and> cursor_of (db w) < ch_Seq c \<and> ch_Seq c \<le> cursor_of (db w') \<longrightarrow>
       ch_Seq c \<in> fst ` set out)"
proof -
  let ?cur = "cursor_of (db w)"
  have idle: ?thesis if "db w' = db w" "out = []"
    using that by (auto simp: leD)
  obtain r1 w1 where 1: "LoadExportCursor w = (r1, w1)" by (cases "LoadExportCursor w")
  show ?thesis
  proof (cases r1)
    case (Inl e)
    have "within (on_db same_db) LoadExportCursor"
      unfolding LoadExportCursor_def by (intro within_intros)
    with 1 have "db w1 = db w" by (blast dest: read_onlyD)
    with assms(1) 1 Inl show ?thesis by (auto simp: Tick_def try_st_def return_st_def leD)
  next
    case (Inr cur)
    with 1 LoadExportCursor_value [of w cur w1] have cur: "cur = ?cur" "db w1 = db w" by auto
    obtain r2 w2 where 2: "ListChangesSince cur 0 w1 = (r2, w2)" by (cases "ListChangesSince cur 0 w1")
    show ?thesis
    proof (cases r2)
      case (Inl e)
      have "within (on_db same_db) (ListChangesSince cur 0)"
        unfolding ListChangesSince_def Let_def by (intro within_intros)
      with 2 have "db w2 = db w1" by (blast dest: read_onlyD)
      with assms(1) 1 2 Inl \<open>r1 = Inr cur\<close> cur show ?thesis
        by (auto simp: Tick_def try_st_def return_st_def leD)
    next
      case (Inr cs)
      with 2 ListChangesSince_value [of cur w1 cs w2] cur have cs: "cs = changes_since ?cur 500 (db w)" "db w2 = db w"
        by auto
      obtain r3 w3 where 3: "tick_loop t cs cur [] w2 = (r3, w3)" by (cases "tick_loop t cs cur [] w2")
      have db3: "db w3 = db w" using read_onlyD [OF ro_tick_loop 3] cs(2) by simp
      obtain adv out' where r3: "r3 = Inr (adv, out')"
        using assms(1) 1 2 3 Inr \<open>r1 = Inr cur\<close> by (cases r3) (auto simp: Tick_def try_st_def bind_st_def)
      from tick_loop_prefix [OF 3 [unfolded r3]] obtain pre suf where
        pre: "cs = pre @ suf" "adv = (if pre = [] then cur else ch_Seq (last pre))"
          "map fst out' = map ch_Seq (filter exportable pre)" by auto
      have below: "ch_Seq c \<in> fst ` set out'" if "c \<in> set (changes (db w))" "exportable c" "?cur < ch_Seq c" "ch_Seq c \<le> adv" for c
      proof -
        have "pre \<noteq> []" using that pre(2) cur(1) by (auto split: if_splits)
        with that pre(2) have "scanChange c \<in> set pre"
          using page_prefix_complete [OF ok, of ?cur 500 pre suf c] cs(1) pre(1) by simp
        then have "ch_Seq c \<in> set (map ch_Seq (filter exportable pre))"
          using that(2) by (auto simp: image_iff intro!: bexI [of _ "scanChange c"])
        then show ?thesis by (simp flip: pre(3))
      qed
      have "sorted (map ch_Seq pre)"
        using page_sorted [of ?cur 500 "db w"] unfolding cs(1) [symmetric] pre(1) by (simp add: sorted_append)
      then have sorted: "sorted (map fst out')"
        unfolding pre(3) by (rule sorted_filter)
      have "cur \<le> adv"
        using page_above [of "last pre" ?cur 500 "db w"] pre(2) cur(1)
        unfolding cs(1) [symmetric] pre(1) by (cases "pre = []") (auto simp: less_imp_le)
      with assms(1) 1 2 3 r3 Inr \<open>r1 = Inr cur\<close> cur db3 below sorted show ?thesis
        by (auto simp: Tick_def try_st_def bind_st_def return_st_def SaveExportCursor_def modify_def exec_def
            cursor_of_def Let_def leD split: if_splits)
    qed
  qed
qed

text \<open>
  C28: no transition is skipped.  Whatever statements fail and whatever the tracker answers, a tick never
  moves the durable cursor backwards and changes nothing else in the database, and every intent or
  bullet transition the cursor passes over was accepted by the tracker in that tick, in the order of the
  log.  A transition that could not be delivered stays ahead of the cursor.
\<close>

theorem Tick_never_skips:
  assumes "Tick t w = (Inr (out, oe), w')" and "changes_ok (db w)"
  shows "db w' = (db w)\<lparr>export_cursor := export_cursor (db w')\<rparr> \<and> sorted (map fst out) \<and>
    cursor_of (db w) \<le> cursor_of (db w') \<and>
    (\<forall>c \<in> set (changes (db w)). exportable c \<and> cursor_of (db w) < ch_Seq c \<and> ch_Seq c \<le> cursor_of (db w') \<longrightarrow>
       ch_Seq c \<in> fst ` set out)"
  using assms by (rule Tick_outcome)

section \<open>Progress\<close>

text \<open>The row a transition names, and for a bullet its intent, are in the tables.\<close>

definition resolvable :: "tables \<Rightarrow> ChangeRecord \<Rightarrow> bool" where
  "resolvable d c \<longleftrightarrow> (ch_Channel c = ChannelIntent \<longrightarrow> list_ex (\<lambda>i. in_ID i = ch_EntityID c) (intents d)) \<and>
     (ch_Channel c = ChannelBullet \<longrightarrow> (\<exists>b. find (\<lambda>b. bu_ID b = ch_EntityID c) (bullets d) = Some b \<and>
        list_ex (\<lambda>i. in_ID i = bu_IntentID b) (intents d)))"

lemma buildRecord_healthy:
  assumes w: "healthy w" and r: "resolvable (db w) c" and ex: "exportable c"
  shows "\<exists>r w'. buildRecord c w = (Inr r, w') \<and> db w' = db w \<and> healthy w'"
proof (cases "ch_Channel c = ChannelIntent")
  case True
  with r have "ch_EntityID c \<in> in_ID ` set (intents (db w))" by (simp add: resolvable_def list_ex_key)
  from find_key_Some [OF this] obtain i where "find (\<lambda>i. in_ID i = ch_EntityID c) (intents (db w)) = Some i"
    by blast
  with w True show ?thesis by (simp add: buildRecord_def GetIntent_def st_simps query_row_healthy)
next
  case False
  with ex have b: "ch_Channel c = ChannelBullet" by (simp add: exportable_def)
  with r obtain b where b1: "find (\<lambda>b. bu_ID b = ch_EntityID c) (bullets (db w)) = Some b"
    and i: "bu_IntentID b \<in> in_ID ` set (intents (db w))"
    by (auto simp: resolvable_def list_ex_key)
  from find_key_Some [OF i] obtain i where "find (\<lambda>x. in_ID x = bu_IntentID b) (intents (db w)) = Some i" by blast
  with w b b1 False show ?thesis
    by (simp add: buildRecord_def GetIntent_def GetBullet_def st_simps query_row_healthy)
qed

lemma tick_loop_accepts:
  assumes "healthy w" and "\<forall>c \<in> set cs. resolvable (db w) c" and "\<forall>n r. t n r = None"
  shows "\<exists>out' w'. tick_loop t cs adv out w = (Inr (if cs = [] then adv else ch_Seq (last cs), out'), w') \<and>
    healthy w' \<and> db w' = db w \<and> map fst out' = map fst out @ map ch_Seq (filter exportable cs)"
  using assms(1,2)
proof (induction cs arbitrary: adv out w)
  case Nil
  then show ?case by (simp add: st_simps)
next
  case (Cons c cs)
  show ?case
  proof (cases "exportable c")
    case False
    with Cons.IH [OF Cons.prems(1), of "ch_Seq c" out] Cons.prems(2) show ?thesis by auto
  next
    case True
    with buildRecord_healthy [OF Cons.prems(1), of c] Cons.prems(2) obtain r w1 where
      1: "buildRecord c w = (Inr r, w1)" "db w1 = db w" "healthy w1" by auto
    let ?w2 = "w1\<lparr>attempts := Suc (attempts w1)\<rparr>"
    from Cons.IH [of ?w2 "ch_Seq c" "out @ [(ch_Seq c, r)]"] 1 Cons.prems(2) obtain out' w' where
      "tick_loop t cs (ch_Seq c) (out @ [(ch_Seq c, r)]) ?w2 =
        (Inr (if cs = [] then ch_Seq c else ch_Seq (last cs), out'), w')" "healthy w'" "db w' = db w"
      "map fst out' = map fst (out @ [(ch_Seq c, r)]) @ map ch_Seq (filter exportable cs)" by auto
    moreover have "tick_loop t (c # cs) adv out w = tick_loop t cs (ch_Seq c) (out @ [(ch_Seq c, r)]) ?w2"
      using 1 True assms(3) by (simp add: try_st_def bind_st_def target_export_def)
    ultimately show ?thesis using True by simp
  qed
qed

lemma LoadExportCursor_healthy:
  "healthy w \<Longrightarrow> \<exists>w'. LoadExportCursor w = (Inr (cursor_of (db w)), w') \<and> healthy w' \<and> db w' = db w"
  by (auto simp: LoadExportCursor_def cursor_of_def st_simps query_row_healthy split: option.splits)

lemma Tick_accepts:
  assumes w: "healthy w" and ok: "changes_ok (db w)"
    and res: "\<forall>c \<in> set (changes (db w)). resolvable (db w) c" and acc: "\<forall>n r. t n r = None"
    and cur: "0 \<le> cursor_of (db w) \<and> cursor_of (db w) \<le> mark (db w)" and full: "mark (db w) = int (length (changes (db w)))"
  shows "\<exists>out w'. Tick t w = (Inr (out, None), w') \<and> healthy w' \<and>
    db w' = (db w)\<lparr>export_cursor := export_cursor (db w')\<rparr> \<and>
    min (mark (db w)) (cursor_of (db w) + 500) \<le> cursor_of (db w') \<and> cursor_of (db w') \<le> mark (db w)"
proof -
  let ?cur = "cursor_of (db w)" and ?cs = "changes_since (cursor_of (db w)) 500 (db w)"
  from LoadExportCursor_healthy [OF w] obtain w1 where
    1: "LoadExportCursor w = (Inr ?cur, w1)" "healthy w1" "db w1 = db w" by blast
  let ?w2 = "w1\<lparr>ops := Suc (ops w1)\<rparr>"
  have 2: "ListChangesSince ?cur 0 w1 = (Inr ?cs, ?w2)"
    using 1 by (simp add: ListChangesSince_def query_healthy defaultChangeReplayLimit_def)
  have "resolvable (db w) c" if "c \<in> set ?cs" for c
  proof -
    from that obtain c' where "c' \<in> set (changes (db w))" "c = scanChange c'"
      using set_sql_limit [of 500] by (fastforce simp: changes_since_def)
    with res show ?thesis by (simp add: resolvable_def scanChange_def)
  qed
  with tick_loop_accepts [of ?w2 ?cs t ?cur "[]"] 1 acc obtain out w3 where
    3: "tick_loop t ?cs ?cur [] ?w2 = (Inr (if ?cs = [] then ?cur else ch_Seq (last ?cs), out), w3)"
      "healthy w3" "db w3 = db w" by auto
  define adv where "adv = (if ?cs = [] then ?cur else ch_Seq (last ?cs))"
  have seqs: "map ch_Seq ?cs = [page_start ?cur (db w) .. min (mark (db w)) (page_start ?cur (db w) + 499)]"
    using changes_since_seqs [OF ok, of 500 ?cur] by (simp add: add.commute)
  have start: "?cur + 1 \<le> page_start ?cur (db w)" by (simp add: page_start_def)
  have adv: "min (mark (db w)) (?cur + 500) \<le> adv \<and> adv \<le> mark (db w)"
  proof (cases "?cs = []")
    case True
    with seqs have "\<not> page_start ?cur (db w) \<le> mark (db w)" by (auto simp: min_def split: if_splits)
    then have "mark (db w) \<le> ?cur"
      using full cur by (cases "changes (db w)") (auto simp: page_start_def)
    with True cur show ?thesis by (simp add: adv_def)
  next
    case False
    then have "adv = last (map ch_Seq ?cs)" by (simp add: adv_def last_map)
    also have "\<dots> = min (mark (db w)) (page_start ?cur (db w) + 499)"
    proof -
      have "[page_start ?cur (db w) .. min (mark (db w)) (page_start ?cur (db w) + 499)] \<noteq> []"
        using False seqs by auto
      then show ?thesis unfolding seqs by (subst upto_rec2) auto
    qed
    finally show ?thesis using start by auto
  qed
  have "\<exists>w'. Tick t w = (Inr (out, None), w') \<and> healthy w' \<and> db w' = (db w)\<lparr>export_cursor := export_cursor (db w')\<rparr> \<and>
      cursor_of (db w') = adv"
  proof (cases "adv = ?cur")
    case True
    with 1 2 3(2,3) 3(1) [folded adv_def] show ?thesis
      by (simp add: Tick_def try_st_def bind_st_def return_st_def)
  next
    case False
    with 1 2 3(2,3) 3(1) [folded adv_def] show ?thesis
      by (simp add: Tick_def try_st_def bind_st_def return_st_def SaveExportCursor_def modify_healthy)
         (simp add: cursor_of_def)
  qed
  with adv show ?thesis by auto
qed

lemma run_ticks_progress:
  assumes "healthy w" and "changes_ok (db w)" and "\<forall>c \<in> set (changes (db w)). resolvable (db w) c"
    and "\<forall>n r. t n r = None" and "0 \<le> cursor_of (db w) \<and> cursor_of (db w) \<le> mark (db w)"
    and "mark (db w) = int (length (changes (db w)))"
  shows "\<exists>out w'. run_ticks t n w = (Inr out, w') \<and>
    min (mark (db w)) (cursor_of (db w) + 500 * int n) \<le> cursor_of (db w') \<and> cursor_of (db w') \<le> mark (db w)"
  using assms(1-3,5,6)
proof (induction n arbitrary: w)
  case 0
  then show ?case by (simp add: st_simps)
next
  case (Suc n)
  from Tick_accepts [OF Suc.prems(1-3) assms(4) Suc.prems(4,5)] obtain out w1 where
    1: "Tick t w = (Inr (out, None), w1)" "healthy w1" "db w1 = (db w)\<lparr>export_cursor := export_cursor (db w1)\<rparr>"
      "min (mark (db w)) (cursor_of (db w) + 500) \<le> cursor_of (db w1)" "cursor_of (db w1) \<le> mark (db w)" by blast
  have same: "changes (db w1) = changes (db w)" "watermark (db w1) = watermark (db w)"
    "intents (db w1) = intents (db w)" "bullets (db w1) = bullets (db w)" by (subst 1(3), simp)+
  then have "changes_ok (db w1)" "mark (db w1) = mark (db w)" "resolvable (db w1) = resolvable (db w)"
    using Suc.prems(2) by (auto simp: changes_ok_def mark_def resolvable_def fun_eq_iff)
  moreover have "0 \<le> cursor_of (db w1)" using 1(4) Suc.prems(4) mark_nonneg [OF Suc.prems(2)] by auto
  ultimately obtain rest w2 where
    2: "run_ticks t n w1 = (Inr rest, w2)" "min (mark (db w)) (cursor_of (db w1) + 500 * int n) \<le> cursor_of (db w2)"
      "cursor_of (db w2) \<le> mark (db w)" using Suc.IH [OF 1(2)] Suc.prems(3,5) 1(5) same by auto
  have "min (mark (db w)) (cursor_of (db w) + 500 * int (Suc n)) \<le> cursor_of (db w2)"
    using 1(4) 2(2) by (auto simp: min_def split: if_splits)
  with 1(1) 2 show ?case by (simp add: bind_st_def return_st_def)
qed

text \<open>
  C31: the export catches up.  On an intact log in a working database, against a tracker that accepts
  every record, and when every row the log names is there, one tick per started page of 500 changes
  brings the cursor exactly to the newest change.  (Nothing prunes the log.)
\<close>

theorem export_catches_up:
  assumes "healthy w" and "changes_ok (db w)" and "\<forall>c \<in> set (changes (db w)). resolvable (db w) c"
    and "\<forall>n r. t n r = None" and "0 \<le> cursor_of (db w) \<and> cursor_of (db w) \<le> mark (db w)"
    and "mark (db w) = int (length (changes (db w)))"
    and "mark (db w) - cursor_of (db w) \<le> 500 * int n"
  shows "\<exists>out w'. run_ticks t n w = (Inr out, w') \<and> cursor_of (db w') = mark (db w)"
  using run_ticks_progress [OF assms(1-6), of n] assms(7) by fastforce

definition sample_feed :: tables where
  "sample_feed = insert_change ''bullet'' ''b1'' JNull 2 (insert_change ''intent'' ''i1'' JNull 1 sample_tables)"

lemma sample_feed_ok: "changes_ok sample_feed"
proof -
  have "changes_ok sample_tables" by (simp add: changes_ok_def sample_simps mark_def)
  then show ?thesis by (simp add: sample_feed_def changes_ok_insert)
qed

theorem export_catches_up_witness:
  "\<exists>out w'. run_ticks (\<lambda>_ _. None) 1 (initial_world sample_feed) = (Inr out, w') \<and> cursor_of (db w') = 2"
proof -
  have "list_all (\<lambda>c. (ch_Channel c = ChannelIntent \<longrightarrow> list_ex (\<lambda>i. in_ID i = ch_EntityID c) (intents sample_feed)) \<and>
     (ch_Channel c = ChannelBullet \<longrightarrow> (case find (\<lambda>b. bu_ID b = ch_EntityID c) (bullets sample_feed) of
        None \<Rightarrow> False | Some b \<Rightarrow> list_ex (\<lambda>i. in_ID i = bu_IntentID b) (intents sample_feed)))) (changes sample_feed)"
    "mark sample_feed = 2" "length (changes sample_feed) = 2" "cursor_of sample_feed = 0"
    by code_simp+
  moreover from this(1) have "\<forall>c \<in> set (changes sample_feed). resolvable sample_feed c"
    unfolding resolvable_def list_all_iff by (auto split: option.splits)
  ultimately show ?thesis
    using export_catches_up [OF healthy_initial, of sample_feed "\<lambda>_ _. None" 1] sample_feed_ok by simp
qed

theorem Tick_never_skips_witness:
  "\<exists>out oe w'. Tick (\<lambda>n _. if n = 0 then None else Some (Other ''down'')) (initial_world sample_feed) =
      (Inr (out, oe), w') \<and> cursor_of (db w') = 1 \<and> map fst out = [1] \<and>
    (\<forall>c \<in> set (changes sample_feed). exportable c \<and> 0 < ch_Seq c \<and> ch_Seq c \<le> 1 \<longrightarrow> ch_Seq c \<in> fst ` set out)"
proof -
  let ?t = "\<lambda>(n::nat) (_::Record). if n = 0 then None else Some (Other ''down'')"
  have v: "case Tick ?t (initial_world sample_feed) of
      (Inr (out, oe), w') \<Rightarrow> cursor_of (db w') = 1 \<and> map fst out = [1] | _ \<Rightarrow> False" "cursor_of sample_feed = 0"
    by code_simp+
  then obtain out oe w' where eq: "Tick ?t (initial_world sample_feed) = (Inr (out, oe), w')"
    and "cursor_of (db w') = 1" "map fst out = [1]" by (auto split: prod.splits sum.splits)
  with Tick_never_skips [OF eq] sample_feed_ok v(2) show ?thesis by auto
qed

end
