(* ===== verification/Stream.thy ===== *)
theory Stream
  imports Runs
begin

text \<open>
  \<open>internal/ui/stream.go\<close>: the event stream a client follows the change log with.  A connection opens
  with a snapshot or a replay and then alternates between draining the log by pages of 500 and waiting
  for the in-process notification, a tick or a heartbeat.

  The connection is an external service: whether the \<open>n\<close>-th write succeeds is a parameter, and the
  events that were written are kept in the state of the connection.  Other goroutines and other
  processes append changes between any two steps of the connection.

  Proved here: the events of a connection are the changes after its starting point in order, without a
  gap or a repetition, however the appends interleave; a connection that waits while changes are
  pending holds a notification; draining ends and reaches the newest change.
\<close>

section \<open>The cursor a client sends\<close>

text \<open>\<open>strconv.ParseInt(s, 10, 64)\<close>: an optional sign, one digit or more, and a value that fits.\<close>

definition digit_value :: "char \<Rightarrow> nat" where
  "digit_value c = of_char c - 48"

definition parse_nat :: "string \<Rightarrow> nat option" where
  "parse_nat s = (if s = [] \<or> list_ex (\<lambda>c. \<not> is_digit c) s then None
     else Some (foldl (\<lambda>n c. 10 * n + digit_value c) 0 s))"

definition fits_int64 :: "int \<Rightarrow> bool" where
  "fits_int64 n \<longleftrightarrow> - (2 ^ 63) \<le> n \<and> n < 2 ^ 63"

fun ParseInt :: "string \<Rightarrow> int option" where
  "ParseInt [] = None"
| "ParseInt (c # s) =
     (case (if c = CHR ''-'' then map_option (\<lambda>n. - int n) (parse_nat s)
            else if c = CHR ''+'' then map_option int (parse_nat s)
            else map_option int (parse_nat (c # s))) of
        None \<Rightarrow> None
      | Some n \<Rightarrow> if fits_int64 n then Some n else None)"

text \<open>The \<open>Last-Event-ID\<close> header and the \<open>from\<close> parameter of the query; an absent one is empty.\<close>

definition streamCursor :: "string \<Rightarrow> string \<Rightarrow> int \<times> bool" where
  "streamCursor lastEventID from_param =
     (case (if TrimSpace lastEventID = [] then None else ParseInt (TrimSpace lastEventID)) of
        Some n \<Rightarrow> (n, True)
      | None \<Rightarrow>
          if TrimSpace from_param = [] then (0, False)
          else case ParseInt (TrimSpace from_param) of None \<Rightarrow> (0, False) | Some n \<Rightarrow> (n, True))"

section \<open>Writing events\<close>

datatype event = Snapshot int "RunRecord list" | Change ChangeRecord | Comment string

type_synonym writer = "nat \<Rightarrow> bool"

text \<open>\<open>writeSSE\<close>: an event is written or the connection reports an error.\<close>

definition writeSSE :: "writer \<Rightarrow> event \<Rightarrow> unit st" where
  "writeSSE wr e = (\<lambda>w. (if wr (attempts w) then Inr () else Inl (Other ''write''),
     w\<lparr>attempts := Suc (attempts w)\<rparr>))"

definition streamReplayPage :: int where
  "streamReplayPage = 500"

definition streamSnapshotRuns :: int where
  "streamSnapshotRuns = 50"

definition writeSnapshot :: "writer \<Rightarrow> (int \<times> event) st" where
  "writeSnapshot wr =
     bind_st (wrap_st ''reading the current sequence: %w'' [] CurrentSequence) (\<lambda>seq.
     bind_st (wrap_st ''reading the run list: %w'' [] (ListRecentRuns streamSnapshotRuns)) (\<lambda>rs.
     bind_st (writeSSE wr (Snapshot seq rs)) (\<lambda>_.
     return_st (seq, Snapshot seq rs))))"

fun write_page :: "writer \<Rightarrow> ChangeRecord list \<Rightarrow> int \<Rightarrow> event list \<Rightarrow> (int \<times> event list \<times> err option) st" where
  "write_page wr [] cursor sent = return_st (cursor, sent, None)"
| "write_page wr (c # cs) cursor sent =
     try_st (writeSSE wr (Change c)) (\<lambda>res. case res of
       Inl e \<Rightarrow> return_st (cursor, sent, Some e)
     | Inr _ \<Rightarrow> write_page wr cs (ch_Seq c) (sent @ [Change c]))"

text \<open>The cursor reached, whether the page was full, the events written so far and the error.\<close>

definition writeChangesSince :: "writer \<Rightarrow> int \<Rightarrow> event list \<Rightarrow> (int \<times> bool \<times> event list \<times> err option) st" where
  "writeChangesSince wr cursor sent =
     try_st (ListChangesSince cursor streamReplayPage) (\<lambda>res. case res of
       Inl e \<Rightarrow> return_st (cursor, False, sent, Some e)
     | Inr cs \<Rightarrow>
         bind_st (write_page wr cs cursor sent) (\<lambda>(cursor', sent', oe). case oe of
           Some e \<Rightarrow> return_st (cursor', False, sent', Some e)
         | None \<Rightarrow> return_st (cursor', int (length cs) = streamReplayPage, sent', None)))"

section \<open>A connection\<close>

datatype stream_phase = Draining | Waiting | Closed

record conn =
  wld :: world
  sub :: int
  cursor :: int
  sent :: "event list"
  phase :: stream_phase

datatype opened = Rejected world | Opened conn

text \<open>
  \<open>handleStream\<close> up to its loop: subscribe, read the cursor, decide between replay and snapshot.  An
  error before the headers is a 500, an error of the snapshot is a comment on a closed stream; both
  end the subscription.
\<close>

definition replayable :: "int \<times> bool \<Rightarrow> bool st" where
  "replayable c = (if snd c then CanReplayFrom (fst c) else return_st False)"

definition stream_open :: "writer \<Rightarrow> string \<Rightarrow> string \<Rightarrow> world \<Rightarrow> opened" where
  "stream_open wr lastEventID from_param w =
     (case SubscribeChanges w of
        (Inl _, w1) \<Rightarrow> Rejected w1
      | (Inr i, w1) \<Rightarrow>
          let c = streamCursor lastEventID from_param in
          case replayable c w1 of
            (Inl _, w2) \<Rightarrow> Rejected (snd (unsubscribe i w2))
          | (Inr True, w2) \<Rightarrow>
              Opened \<lparr>wld = w2, sub = i, cursor = fst c, sent = [], phase = Draining\<rparr>
          | (Inr False, w2) \<Rightarrow>
              (case writeSnapshot wr w2 of
                 (Inl _, w3) \<Rightarrow> Opened \<lparr>wld = snd (unsubscribe i w3), sub = i, cursor = fst c,
                   sent = [Comment ''snapshot failed''], phase = Closed\<rparr>
               | (Inr (seq, e), w3) \<Rightarrow>
                   Opened \<lparr>wld = w3, sub = i, cursor = seq, sent = [e], phase = Draining\<rparr>))"

text \<open>One pass of the loop up to its \<open>select\<close>.\<close>

definition drain :: "writer \<Rightarrow> conn \<Rightarrow> conn" where
  "drain wr s =
     (case writeChangesSince wr (cursor s) (sent s) (wld s) of
        (Inr (next', full, sent', None), w) \<Rightarrow>
          s\<lparr>wld := w, cursor := next', sent := sent', phase := (if full then Draining else Waiting)\<rparr>
      | (Inr (next', full, sent', Some e), w) \<Rightarrow>
          s\<lparr>wld := snd (unsubscribe (sub s) w), cursor := next', sent := sent' @ [Comment ''replay failed''],
            phase := Closed\<rparr>
      | (Inl e, w) \<Rightarrow> s\<lparr>wld := w, phase := Closed\<rparr>)"

text \<open>
  The arms of the \<open>select\<close>, and the appends of other goroutines, which notify, and of other processes,
  which do not.
\<close>

inductive local_step :: "writer \<Rightarrow> conn \<Rightarrow> conn \<Rightarrow> bool" for wr :: writer where
  page: "phase s = Draining \<Longrightarrow> local_step wr s (drain wr s)"
| notified: "phase s = Waiting \<Longrightarrow> receive (sub s) (wld s) = (Inr (Some n), w) \<Longrightarrow>
     local_step wr s (s\<lparr>wld := w, phase := Draining\<rparr>)"
| tick: "phase s = Waiting \<Longrightarrow> local_step wr s (s\<lparr>phase := Draining\<rparr>)"
| heartbeat: "phase s = Waiting \<Longrightarrow>
     local_step wr s (s\<lparr>sent := sent s @ [Comment ''heartbeat''], phase := Draining\<rparr>)"
| hang_up: "phase s = Waiting \<Longrightarrow>
     local_step wr s (s\<lparr>wld := snd (unsubscribe (sub s) (wld s)), phase := Closed\<rparr>)"
| append_here: "AppendChange ch e p (wld s) = (r, w) \<Longrightarrow> local_step wr s (s\<lparr>wld := w\<rparr>)"

inductive stream_step :: "writer \<Rightarrow> conn \<Rightarrow> conn \<Rightarrow> bool" for wr :: writer where
  local: "local_step wr s t \<Longrightarrow> stream_step wr s t"
| append_elsewhere: "stream_step wr s (s\<lparr>wld := (wld s)\<lparr>db := insert_change ch e p now (db (wld s))\<rparr>\<rparr>)"

inductive_cases local_stepE [elim]: "local_step wr s t"
inductive_cases stream_stepE [elim]: "stream_step wr s t"

text \<open>Runs of a relation.\<close>

inductive runs_to :: "(conn \<Rightarrow> conn \<Rightarrow> bool) \<Rightarrow> conn \<Rightarrow> conn \<Rightarrow> bool" for R where
  here: "runs_to R s s"
| further: "runs_to R s t \<Longrightarrow> R t u \<Longrightarrow> runs_to R s u"

lemma runs_to_invariant:
  assumes "runs_to R s t" and "I s" and "\<And>a b. R a b \<Longrightarrow> I a \<Longrightarrow> I b"
  shows "I t"
  using assms by (induction rule: runs_to.induct) auto

section \<open>What a connection has delivered\<close>

fun change_seqs :: "event list \<Rightarrow> int list" where
  "change_seqs [] = []"
| "change_seqs (Change c # es) = ch_Seq c # change_seqs es"
| "change_seqs (Snapshot n rs # es) = change_seqs es"
| "change_seqs (Comment t # es) = change_seqs es"

lemma change_seqs_append [simp]: "change_seqs (xs @ ys) = change_seqs xs @ change_seqs ys"
  by (induction xs rule: change_seqs.induct) auto

lemma change_seqs_changes [simp]: "change_seqs (map Change cs) = map ch_Seq cs"
  by (induction cs) auto

lemma write_page_prefix:
  assumes "write_page wr cs cur es w = (r, w')"
  shows "\<exists>pre suf oe. cs = pre @ suf \<and> r = Inr (if pre = [] then cur else ch_Seq (last pre), es @ map Change pre, oe) \<and>
    db w' = db w \<and> subs w' = subs w \<and> (oe = None \<longrightarrow> suf = [])"
  using assms
proof (induction cs arbitrary: cur es w)
  case Nil
  then show ?case by (auto simp: st_simps)
next
  case (Cons c cs)
  let ?w = "w\<lparr>attempts := Suc (attempts w)\<rparr>"
  show ?case
  proof (cases "wr (attempts w)")
    case True
    with Cons.prems have "write_page wr cs (ch_Seq c) (es @ [Change c]) ?w = (r, w')"
      by (simp add: try_st_def writeSSE_def)
    from Cons.IH [OF this] obtain pre suf oe where
      "cs = pre @ suf" "r = Inr (if pre = [] then ch_Seq c else ch_Seq (last pre), (es @ [Change c]) @ map Change pre, oe)"
      "db w' = db w" "subs w' = subs w" "oe = None \<longrightarrow> suf = []" by auto
    then show ?thesis by (intro exI [of _ "c # pre"] exI [of _ suf] exI [of _ oe]) auto
  next
    case False
    with Cons.prems have "r = Inr (cur, es, Some (Other ''write''))" "w' = ?w"
      by (auto simp: try_st_def writeSSE_def return_st_def)
    then show ?thesis
      by (intro exI [of _ "[]"] exI [of _ "c # cs"] exI [of _ "Some (Other ''write'')"]) simp
  qed
qed

text \<open>What is known of the log while a connection follows it from \<open>start\<close>.\<close>

definition gapless :: "int \<Rightarrow> conn \<Rightarrow> bool" where
  "gapless start s \<longleftrightarrow> changes_ok (db (wld s)) \<and>
     mark (db (wld s)) - int (length (changes (db (wld s)))) \<le> cursor s \<and> cursor s \<le> mark (db (wld s)) \<and>
     start \<le> cursor s \<and> change_seqs (sent s) = [start + 1 .. cursor s]"

lemma ListChangesSince_cases:
  assumes "ListChangesSince from streamReplayPage w = (r, w')"
  shows "db w' = db w \<and> subs w' = subs w \<and> (r = Inl DbError \<or> r = Inr (changes_since from 500 (db w)))"
  using assms
  by (auto simp: ListChangesSince_def streamReplayPage_def query_def exec_def Let_def split: if_splits)

lemma upto_join: "a \<le> b + 1 \<Longrightarrow> b \<le> c \<Longrightarrow> [a..b] @ [b + 1..c] = [a..c]" for a b c :: int
proof (cases "a \<le> b")
  case True
  assume "b \<le> c"
  with True show ?thesis using upto_split2 [of a b c] by simp
next
  case False
  assume "a \<le> b + 1"
  with False have "a = b + 1" by simp
  then show ?thesis by simp
qed

text \<open>The cases of one pass.\<close>

lemma drain_cases:
  assumes ok: "changes_ok (db (wld s))"
    and kept: "mark (db (wld s)) - int (length (changes (db (wld s)))) \<le> cursor s"
    and top: "cursor s \<le> mark (db (wld s))"
  shows "\<exists>n. 0 \<le> n \<and> n \<le> 500 \<and> cursor (drain wr s) = cursor s + n \<and> cursor s + n \<le> mark (db (wld s)) \<and>
    change_seqs (sent (drain wr s)) = change_seqs (sent s) @ [cursor s + 1 .. cursor s + n] \<and>
    db (wld (drain wr s)) = db (wld s) \<and> sub (drain wr s) = sub s \<and>
    (phase (drain wr s) = Closed \<or> subs (wld (drain wr s)) = subs (wld s) \<and>
      n = min (mark (db (wld s)) - cursor s) 500 \<and> phase (drain wr s) = (if n = 500 then Draining else Waiting))"
proof -
  let ?d = "db (wld s)" and ?cs = "changes_since (cursor s) 500 (db (wld s))"
  have start: "page_start (cursor s) ?d = cursor s + 1" using kept by (simp add: page_start_def)
  have seqs: "map ch_Seq ?cs = [cursor s + 1 .. min (mark ?d) (cursor s + 500)]"
    using changes_since_seqs [OF ok, of 500 "cursor s"] by (simp add: start add.commute)
  have len: "int (length ?cs) = min (mark ?d - cursor s) 500"
  proof -
    have "length ?cs = length [cursor s + 1 .. min (mark ?d) (cursor s + 500)]" by (metis length_map seqs)
    with top show ?thesis by (simp add: min_def)
  qed
  obtain r w1 where 1: "ListChangesSince (cursor s) streamReplayPage (wld s) = (r, w1)"
    by (cases "ListChangesSince (cursor s) streamReplayPage (wld s)")
  from ListChangesSince_cases [OF 1] have w1: "db w1 = ?d" "subs w1 = subs (wld s)"
    and r: "r = Inl DbError \<or> r = Inr ?cs" by auto
  from r show ?thesis
  proof
    assume "r = Inl DbError"
    with 1 w1 top show ?thesis
      by (intro exI [of _ 0])
         (simp add: drain_def writeChangesSince_def try_st_def return_st_def unsubscribe_def)
  next
    assume r: "r = Inr ?cs"
    obtain r2 w2 where 2: "write_page wr ?cs (cursor s) (sent s) w1 = (r2, w2)"
      by (cases "write_page wr ?cs (cursor s) (sent s) w1")
    from write_page_prefix [OF 2] obtain pre suf oe where
      p: "?cs = pre @ suf" "r2 = Inr (if pre = [] then cursor s else ch_Seq (last pre), sent s @ map Change pre, oe)"
        "db w2 = ?d" "subs w2 = subs (wld s)" "oe = None \<longrightarrow> suf = []" using w1 by auto
    let ?n = "int (length pre)"
    have "?n \<le> int (length ?cs)" unfolding p(1) by simp
    then have n: "?n \<le> min (mark ?d - cursor s) 500" unfolding len .
    have pre: "map ch_Seq pre = [cursor s + 1 .. cursor s + ?n]"
    proof -
      have "map ch_Seq pre = take (length pre) (map ch_Seq ?cs)" by (simp add: p(1))
      also have "\<dots> = [cursor s + 1 .. min (min (mark ?d) (cursor s + 500)) (cursor s + 1 + ?n - 1)]"
        unfolding seqs take_upto ..
      also have "min (min (mark ?d) (cursor s + 500)) (cursor s + 1 + ?n - 1) = cursor s + ?n" using n by simp
      finally show ?thesis .
    qed
    have cur: "(if pre = [] then cursor s else ch_Seq (last pre)) = cursor s + ?n"
    proof (cases "pre = []")
      case False
      then have "ch_Seq (last pre) = last (map ch_Seq pre)" by (simp add: last_map)
      also have "\<dots> = cursor s + ?n"
        unfolding pre using False by (subst upto_rec2) (auto simp: Suc_le_eq)
      finally show ?thesis using False by simp
    qed simp
    have full: "int (length ?cs) = streamReplayPage \<longleftrightarrow> ?n = 500" if "oe = None"
      using that p(1,5) by (simp add: streamReplayPage_def)
    have all: "?n = min (mark ?d - cursor s) 500" if "oe = None" using that p(1,5) len by simp
    have bounds: "?n \<le> 500" "cursor s + ?n \<le> mark ?d" using n by auto
    show ?thesis
    proof (cases oe)
      case None
      have "drain wr s = s\<lparr>wld := w2, cursor := cursor s + ?n, sent := sent s @ map Change pre,
          phase := (if ?n = 500 then Draining else Waiting)\<rparr>"
        using 1 2 r p(2) cur full [OF None] None
        by (simp add: drain_def writeChangesSince_def try_st_def bind_st_def return_st_def)
      with bounds pre p(3,4) all [OF None] show ?thesis by (intro exI [of _ ?n]) simp
    next
      case (Some e)
      have "drain wr s = s\<lparr>wld := snd (unsubscribe (sub s) w2), cursor := cursor s + ?n,
          sent := (sent s @ map Change pre) @ [Comment ''replay failed''], phase := Closed\<rparr>"
        using 1 2 r p(2) cur Some
        by (simp add: drain_def writeChangesSince_def try_st_def bind_st_def return_st_def)
      with bounds pre p(3) show ?thesis by (intro exI [of _ ?n]) (simp add: unsubscribe_def)
    qed
  qed
qed

section \<open>Every interleaving\<close>

lemma gapless_drain: "gapless start s \<Longrightarrow> gapless start (drain wr s)"
  using drain_cases [of s wr] upto_join [of "start + 1" "cursor s"]
  by (auto simp: gapless_def)

lemma gapless_insert:
  assumes "gapless start s" and "db w = insert_change ch e p now (db (wld s))"
  shows "gapless start (s\<lparr>wld := w\<rparr>)"
  using assms changes_ok_insert [of "db (wld s)" ch e p now]
  by (auto simp: gapless_def next_seq_ok) (simp_all add: insert_change_def)

lemma gapless_same: "gapless start s \<Longrightarrow> db w = db (wld s) \<Longrightarrow> gapless start (s\<lparr>wld := w, phase := ph\<rparr>)"
  by (simp add: gapless_def)

lemma AppendChange_cases:
  assumes "AppendChange ch e p w = (r, w')"
  shows "(\<exists>now. db w' = insert_change ch e p now (db w) \<and>
      subs w' = map (\<lambda>(i, c). (i, case c of None \<Rightarrow> Some (next_seq (db w)) | Some s \<Rightarrow> Some s)) (subs w)) \<or>
    (db w' = db w \<and> subs w' = subs w)"
  using assms
  by (auto simp: AppendChange_def st_simps exec_def notifyChange_def Let_def split: if_splits prod.splits sum.splits)

lemma gapless_step: "stream_step wr s t \<Longrightarrow> gapless start s \<Longrightarrow> gapless start t"
proof (erule stream_stepE)
  assume g: "gapless start s" and "local_step wr s t"
  from this(2) show "gapless start t"
  proof cases
    case page
    with g show ?thesis by (simp add: gapless_drain)
  next
    case (notified n w)
    then have "db w = db (wld s)" by (auto simp: receive_def)
    with g notified show ?thesis by (simp add: gapless_same)
  next
    case (append_here ch e p r w)
    from AppendChange_cases [OF append_here(2)] g append_here show ?thesis
      by (auto simp: gapless_insert) (simp add: gapless_def)
  qed (use g in \<open>auto simp: gapless_def unsubscribe_def\<close>)
next
  fix ch e p now
  assume "gapless start s" and "t = s\<lparr>wld := (wld s)\<lparr>db := insert_change ch e p now (db (wld s))\<rparr>\<rparr>"
  then show "gapless start t" by (simp add: gapless_insert)
qed

text \<open>Opening a connection: it starts at a cursor the log can be replayed from, or at a snapshot.\<close>



lemma read_only_CurrentSequence [within_intros]: "within (on_db same_db) CurrentSequence"
  unfolding CurrentSequence_def by (intro within_intros)

lemma CurrentSequence_value:
  assumes "CurrentSequence w = (Inr n, w')" and "changes_ok (db w)" shows "n = mark (db w)"
  using assms mark_nonneg [of "db w"]
  by (auto simp: CurrentSequence_def st_simps query_def exec_def Let_def max_seq_ok mark_def
      split: if_splits option.splits)

lemma CanReplayFrom_value:
  assumes "CanReplayFrom from w = (Inr True, w')" and ok: "changes_ok (db w)"
  shows "db w' = db w \<and> from \<le> mark (db w) \<and> mark (db w) - int (length (changes (db w))) \<le> from"
proof -
  have "0 < from" using assms(1) by (auto simp: CanReplayFrom_def return_st_def split: if_splits)
  obtain r w1 where 1: "CurrentSequence w = (r, w1)" by (cases "CurrentSequence w")
  have db1: "db w1 = db w" using read_onlyD [OF read_only_CurrentSequence 1] .
  obtain n where r: "r = Inr n" using assms(1) 1 \<open>0 < from\<close>
    by (cases r) (auto simp: CanReplayFrom_def bind_st_def)
  have n: "n = mark (db w)" using CurrentSequence_value 1 r ok by blast
  have "from \<le> n" using assms(1) 1 r \<open>0 < from\<close>
    by (auto simp: CanReplayFrom_def bind_st_def return_st_def split: if_splits)
  then have "(Inr True, w') = bind_st EarliestSequence (\<lambda>earliest.
      if earliest = 0 then return_st (from = n) else return_st (earliest - 1 \<le> from)) w1"
    using assms(1) 1 r \<open>0 < from\<close> by (simp add: CanReplayFrom_def bind_st_def)
  then have "db w' = db w \<and> (if min_seq (db w) = 0 then from = n else min_seq (db w) - 1 \<le> from)"
    by (auto simp: EarliestSequence_def query_def exec_def bind_st_def return_st_def Let_def db1 split: if_splits)
  then show ?thesis
    using n \<open>from \<le> n\<close> min_seq_ok [OF ok] ok by (auto simp: changes_ok_def split: if_splits)
qed

lemma writeSnapshot_value:
  assumes "writeSnapshot wr w = (Inr (seq, e), w')" and ok: "changes_ok (db w)"
  shows "seq = mark (db w) \<and> db w' = db w \<and> (\<exists>rs. e = Snapshot seq rs)"
proof -
  obtain r w1 where 1: "CurrentSequence w = (r, w1)" by (cases "CurrentSequence w")
  have db1: "db w1 = db w" using read_onlyD [OF read_only_CurrentSequence 1] .
  obtain n where r: "r = Inr n" using assms(1) 1
    by (cases r) (auto simp: writeSnapshot_def bind_st_def wrap_st_def)
  have "n = mark (db w)" using CurrentSequence_value 1 r ok by blast
  with assms(1) 1 r db1 show ?thesis
    by (auto simp: writeSnapshot_def bind_st_def wrap_st_def return_st_def writeSSE_def ListRecentRuns_def
        query_def exec_def Let_def split: if_splits prod.splits sum.splits)
qed

lemma open_gapless:
  assumes op: "stream_open wr hdr frm w = Opened s" and ok: "changes_ok (db w)" and "phase s \<noteq> Closed"
  shows "gapless (cursor s) s"
proof -
  define c where "c = streamCursor hdr frm"
  let ?i = "nextSubID w + 1"
  let ?w1 = "w\<lparr>nextSubID := ?i, subs := subs w @ [(?i, None)]\<rparr>"
  have ok1: "changes_ok (db ?w1)" using ok by simp
  obtain r w2 where 2: "replayable c ?w1 = (r, w2)" by (cases "replayable c ?w1")
  obtain b where r: "r = Inr b"
    using op 2 by (cases r) (auto simp: stream_open_def SubscribeChanges_def Let_def c_def)
  show ?thesis
  proof (cases b)
    case True
    then have "CanReplayFrom (fst c) ?w1 = (Inr True, w2)"
      using 2 r by (auto simp: replayable_def return_st_def split: if_splits)
    from CanReplayFrom_value [OF this ok1] True op 2 r ok show ?thesis
      by (auto simp: stream_open_def SubscribeChanges_def Let_def c_def gapless_def)
  next
    case False
    have db2: "db w2 = db w"
    proof -
      have "within (on_db same_db) (replayable c)"
        unfolding replayable_def CanReplayFrom_def EarliestSequence_def by (intro within_intros)
      from read_onlyD [OF this 2] show ?thesis by simp
    qed
    obtain r3 w3 where 3: "writeSnapshot wr w2 = (r3, w3)" by (cases "writeSnapshot wr w2")
    obtain seq e where r3: "r3 = Inr (seq, e)"
      using op 2 3 r False \<open>phase s \<noteq> Closed\<close>
      by (cases r3) (auto simp: stream_open_def SubscribeChanges_def Let_def c_def)
    from writeSnapshot_value [OF 3 [unfolded r3]] op 2 3 r r3 False db2 ok show ?thesis
      by (auto simp: stream_open_def SubscribeChanges_def Let_def c_def gapless_def)
  qed
qed

text \<open>
  C25: a connection delivers the log.  However the pages, the wake-ups, the failures, the appends of this
  process and those of other processes interleave, the change events written to a connection are exactly
  the changes after the point where it opened, in order, each once and none missing, up to its cursor,
  which never passes the newest change.
\<close>

theorem stream_gapless:
  assumes op: "stream_open wr hdr frm w = Opened s" and ok: "changes_ok (db w)" and live: "phase s \<noteq> Closed"
    and run: "runs_to (stream_step wr) s t"
  shows "change_seqs (sent t) = [cursor s + 1 .. cursor t] \<and> cursor s \<le> cursor t \<and>
    cursor t \<le> mark (db (wld t))"
proof -
  have "gapless (cursor s) t"
    by (rule runs_to_invariant [where I = "gapless (cursor s)", OF run open_gapless [OF op ok live]])
       (rule gapless_step)
  then show ?thesis by (simp add: gapless_def)
qed

text \<open>A log with one change per entry, for the concrete runs below.\<close>

definition busy_world :: world where
  "busy_world = initial_world sample_log"

theorem stream_gapless_witness:
  "\<exists>s t. stream_open (\<lambda>_. True) ''1'' '''' busy_world = Opened s \<and> runs_to (stream_step (\<lambda>_. True)) s t \<and>
     change_seqs (sent t) = [2, 3] \<and> cursor t = 3"
proof -
  have "case stream_open (\<lambda>_. True) ''1'' '''' busy_world of Rejected _ \<Rightarrow> False
      | Opened s \<Rightarrow> phase s = Draining \<and> cursor s = 1 \<and>
          (let s2 = s\<lparr>wld := snd (AppendChange ''run'' ''r2'' JNull (wld s))\<rparr>
           in cursor (drain (\<lambda>_. True) s2) = 3 \<and> phase (drain (\<lambda>_. True) s2) = Waiting)"
    by code_simp
  then obtain s where s: "stream_open (\<lambda>_. True) ''1'' '''' busy_world = Opened s" "phase s = Draining" "cursor s = 1"
    and t: "cursor (drain (\<lambda>_. True) (s\<lparr>wld := snd (AppendChange ''run'' ''r2'' JNull (wld s))\<rparr>)) = 3"
    by (auto split: opened.splits simp: Let_def)
  let ?s2 = "s\<lparr>wld := snd (AppendChange ''run'' ''r2'' JNull (wld s))\<rparr>"
  have "local_step (\<lambda>_. True) s ?s2"
    by (rule append_here) (rule prod.collapse [symmetric])
  moreover have "local_step (\<lambda>_. True) ?s2 (drain (\<lambda>_. True) ?s2)" using s(2) by (intro page) simp
  ultimately have run: "runs_to (stream_step (\<lambda>_. True)) s (drain (\<lambda>_. True) ?s2)"
    by (blast intro: runs_to.intros stream_step.local)
  have "changes_ok (db busy_world)" by (simp add: busy_world_def sample_log_def changes_ok_insert)
  from stream_gapless [OF s(1) this _ run] s t run show ?thesis
    by (intro exI [of _ s] exI [of _ "drain (\<lambda>_. True) ?s2"]) (simp add: upto.simps)
qed

section \<open>No lost wake-up\<close>

text \<open>
  The subscription of an open connection exists, and while it waits behind the newest change its
  channel holds a notification.
\<close>

definition awake :: "conn \<Rightarrow> bool" where
  "awake s \<longleftrightarrow> phase s \<noteq> Closed \<longrightarrow> (\<exists>c. map_of (subs (wld s)) (sub s) = Some c \<and>
     (phase s = Waiting \<longrightarrow> cursor s = mark (db (wld s)) \<or> c \<noteq> None))"

lemma map_of_notify:
  "map_of (map (\<lambda>(i, c). (i, f c)) xs) k = map_option f (map_of xs k)"
  by (induction xs) auto

lemma map_of_receive:
  "map_of (map (\<lambda>(j, c). (j, if j = i then None else c)) xs) i = map_option (\<lambda>_. None) (map_of xs i)"
  by (induction xs) auto

lemma awake_drain:
  assumes "gapless start s" and "awake s" and "phase s = Draining"
  shows "awake (drain wr s)"
proof -
  from assms(1) obtain n where
    n: "cursor (drain wr s) = cursor s + n" "db (wld (drain wr s)) = db (wld s)" "sub (drain wr s) = sub s"
      "phase (drain wr s) = Closed \<or> subs (wld (drain wr s)) = subs (wld s) \<and>
        n = min (mark (db (wld s)) - cursor s) 500 \<and> phase (drain wr s) = (if n = 500 then Draining else Waiting)"
    using drain_cases [of s wr] by (auto simp: gapless_def)
  show ?thesis
  proof (cases "phase (drain wr s) = Closed")
    case True
    then show ?thesis by (simp add: awake_def)
  next
    case False
    with n have "n = 500 \<or> n = mark (db (wld s)) - cursor s" by (auto simp: min_def split: if_splits)
    with False n assms(2,3) show ?thesis by (auto simp: awake_def split: if_splits)
  qed
qed

lemma awake_step:
  assumes "local_step wr s t" and "gapless start s" and "awake s"
  shows "awake t"
  using assms(1)
proof cases
  case page
  with assms(2,3) show ?thesis by (simp add: awake_drain)
next
  case (notified n w)
  then have "subs w = map (\<lambda>(j, c). (j, if j = sub s then None else c)) (subs (wld s))"
    by (auto simp: receive_def)
  with assms(3) notified show ?thesis by (auto simp: awake_def map_of_receive)
next
  case (append_here ch e p r w)
  from AppendChange_cases [OF append_here(2)] assms(3) append_here(1) show ?thesis
    by (auto simp: awake_def map_of_notify split: option.splits)
qed (use assms(3) in \<open>auto simp: awake_def\<close>)

definition subs_ok :: "world \<Rightarrow> bool" where
  "subs_ok w \<longleftrightarrow> list_all (\<lambda>(i, _). i \<le> nextSubID w) (subs w)"

lemma fresh_subscription: "subs_ok w \<Longrightarrow> map_of (subs w @ [(nextSubID w + 1, c)]) (nextSubID w + 1) = Some c"
proof -
  assume "subs_ok w"
  then have "nextSubID w + 1 \<notin> fst ` set (subs w)"
    by (force simp: subs_ok_def list_all_iff)
  then have "map_of (subs w) (nextSubID w + 1) = None" by (simp add: map_of_eq_None_iff)
  then show ?thesis by (simp add: map_add_def map_of_append)
qed

definition same_subs :: "world \<Rightarrow> world \<Rightarrow> bool" where
  "same_subs w w' \<longleftrightarrow> subs w' = subs w"

interpretation calm: step_relation same_subs
  by unfold_locales (auto simp: same_subs_def)

lemma calm_primitives [within_intros]:
  "within same_subs (exec stmt)" "within same_subs (query q)" "within same_subs (writeSSE wr e)"
  by (auto simp: within_def same_subs_def exec_def query_def writeSSE_def Let_def split: sum.split prod.split)

lemma calm_replayable: "within same_subs (replayable c)"
  unfolding replayable_def CanReplayFrom_def CurrentSequence_def EarliestSequence_def by (intro within_intros)

lemma calm_writeSnapshot: "within same_subs (writeSnapshot wr)"
  unfolding writeSnapshot_def CurrentSequence_def ListRecentRuns_def by (intro within_intros)

lemma open_awake:
  assumes op: "stream_open wr hdr frm w = Opened s" and "subs_ok w"
  shows "awake s"
proof -
  define c where "c = streamCursor hdr frm"
  let ?i = "nextSubID w + 1"
  let ?w1 = "w\<lparr>nextSubID := ?i, subs := subs w @ [(?i, None)]\<rparr>"
  obtain r w2 where 2: "replayable c ?w1 = (r, w2)" by (cases "replayable c ?w1")
  have s2: "map_of (subs w2) ?i = Some None"
    using withinD [OF calm_replayable 2] fresh_subscription [OF assms(2)] by (simp add: same_subs_def)
  obtain r3 w3 where 3: "writeSnapshot wr w2 = (r3, w3)" by (cases "writeSnapshot wr w2")
  have s3: "map_of (subs w3) ?i = Some None"
    using withinD [OF calm_writeSnapshot 3] s2 by (simp add: same_subs_def)
  show ?thesis
    using op 2 3 s2 s3
    by (auto simp: stream_open_def SubscribeChanges_def Let_def c_def awake_def split: sum.splits bool.splits prod.splits)
qed



section \<open>Draining ends\<close>

fun drain_all :: "writer \<Rightarrow> nat \<Rightarrow> conn \<Rightarrow> conn" where
  "drain_all wr 0 s = s"
| "drain_all wr (Suc fuel) s = (if phase s = Draining then drain_all wr fuel (drain wr s) else s)"

lemma drain_closed_only_on_failure:
  assumes "healthy (wld s)" and "\<forall>n. wr n"
  shows "phase (drain wr s) \<noteq> Closed \<and> healthy (wld (drain wr s))"
proof -
  have wp: "\<exists>w'. write_page wr cs cur es w = (Inr (if cs = [] then cur else ch_Seq (last cs), es @ map Change cs, None), w') \<and>
      healthy w'" if "healthy w" for cs cur es w
    using that
  proof (induction cs arbitrary: cur es w)
    case Nil
    then show ?case by (simp add: st_simps)
  next
    case (Cons c cs)
    from Cons.IH [of "w\<lparr>attempts := Suc (attempts w)\<rparr>" "ch_Seq c" "es @ [Change c]"] Cons.prems assms(2)
    show ?case by (auto simp: try_st_def writeSSE_def)
  qed
  have "healthy ((wld s)\<lparr>ops := Suc (ops (wld s))\<rparr>)" using assms(1) by simp
  from wp [OF this, of "changes_since (cursor s) 500 (db (wld s))" "cursor s" "sent s"] assms(1)
  show ?thesis
    by (auto simp: drain_def writeChangesSince_def try_st_def bind_st_def return_st_def ListChangesSince_def
        streamReplayPage_def query_healthy split: if_splits)
qed

text \<open>
  C27: draining ends.  On a working database and an open connection, a client that is \<open>k\<close> changes behind
  has received all of them after \<open>k div 500 + 1\<close> pages, and the connection then waits.
\<close>

theorem stream_drains:
  assumes "healthy (wld s)" and "\<forall>n. wr n" and "gapless start s" and "phase s = Draining"
    and "nat (mark (db (wld s)) - cursor s) div 500 < fuel"
  shows "phase (drain_all wr fuel s) = Waiting \<and> cursor (drain_all wr fuel s) = mark (db (wld s))"
  using assms
proof (induction fuel arbitrary: s)
  case 0
  then show ?case by simp
next
  case (Suc fuel)
  from drain_cases [of s wr] drain_closed_only_on_failure [OF Suc.prems(1,2)] Suc.prems(3) obtain n where
    n: "cursor (drain wr s) = cursor s + n" "db (wld (drain wr s)) = db (wld s)"
      "n = min (mark (db (wld s)) - cursor s) 500" "phase (drain wr s) = (if n = 500 then Draining else Waiting)"
      "healthy (wld (drain wr s))"
    by (auto simp: gapless_def)
  show ?case
  proof (cases "n = 500")
    case True
    have "nat (mark (db (wld s)) - cursor s) = nat (mark (db (wld s)) - cursor s - 500) + 500"
      using True n(3) by (simp add: min_def split: if_splits)
    then have "nat (mark (db (wld s)) - cursor s - 500) div 500 < fuel" using Suc.prems(5) by simp
    with True n Suc.IH [OF n(5) Suc.prems(2) gapless_drain [OF Suc.prems(3)]] Suc.prems(4) show ?thesis
      by (simp add: algebra_simps)
  next
    case False
    with n(3) have "n = mark (db (wld s)) - cursor s" by (auto simp: min_def split: if_splits)
    with False n Suc.prems(4) show ?thesis by (cases fuel) simp_all
  qed
qed

definition idle_conn :: conn where
  "idle_conn = \<lparr>wld = busy_world, sub = 1, cursor = 0, sent = [], phase = Draining\<rparr>"

theorem stream_drains_witness:
  "phase (drain_all (\<lambda>_. True) 1 idle_conn) = Waiting \<and> cursor (drain_all (\<lambda>_. True) 1 idle_conn) = 2"
proof -
  have "mark sample_log = 2" "length (changes sample_log) = 2" by code_simp+
  moreover have "changes_ok sample_log" by (simp add: sample_log_def changes_ok_insert)
  ultimately show ?thesis
    using stream_drains [of idle_conn "\<lambda>_. True" 0 1]
    by (simp add: idle_conn_def busy_world_def gapless_def)
qed

section \<open>The cursor\<close>

lemma digit_char_digit:
  assumes "d < 10" shows "digit_value (digit_char d) = d" "is_digit (digit_char d)"
    "\<not> is_space (digit_char d)" "digit_char d \<noteq> CHR ''-''" "digit_char d \<noteq> CHR ''+''"
proof -
  have "list_all (\<lambda>d. digit_value (digit_char d) = d \<and> is_digit (digit_char d) \<and> \<not> is_space (digit_char d) \<and>
      digit_char d \<noteq> CHR ''-'' \<and> digit_char d \<noteq> CHR ''+'') [0..<10]"
    by code_simp
  then have "\<forall>d \<in> set [0..<10]. digit_value (digit_char d) = d \<and> is_digit (digit_char d) \<and> \<not> is_space (digit_char d) \<and>
      digit_char d \<noteq> CHR ''-'' \<and> digit_char d \<noteq> CHR ''+''"
    unfolding list_all_iff .
  with assms show "digit_value (digit_char d) = d" "is_digit (digit_char d)"
    "\<not> is_space (digit_char d)" "digit_char d \<noteq> CHR ''-''" "digit_char d \<noteq> CHR ''+''"
    by auto
qed

lemma digits_value: "foldl (\<lambda>n d. 10 * n + d) 0 (digits_in 10 n) = n"
proof (induction n rule: less_induct)
  case (less n)
  show ?case
    by (cases "n < 10") (simp_all add: digits_in.simps [of 10 n] less)
qed

lemma digits_in_nonempty: "digits_in b n \<noteq> []"
  by (simp add: digits_in.simps [of b n])

lemma parse_show_nat: "parse_nat (show_nat n) = Some n"
proof -
  have small: "d < 10" if "d \<in> set (digits_in 10 n)" for d
    using digits_in_bound [of 10 n] that by auto
  have "foldl (\<lambda>n c. 10 * n + digit_value c) a (map digit_char ds) = foldl (\<lambda>n d. 10 * n + d) a ds"
    if "\<forall>d \<in> set ds. d < 10" for a ds
    using that by (induction ds arbitrary: a) (auto simp: digit_char_digit)
  then have "foldl (\<lambda>n c. 10 * n + digit_value c) 0 (show_nat n) = n"
    using small by (simp add: show_nat_def digits_value)
  moreover have "\<not> list_ex (\<lambda>c. \<not> is_digit c) (show_nat n)"
    using small by (auto simp: show_nat_def list_ex_iff digit_char_digit)
  moreover have "show_nat n \<noteq> []" by (simp add: show_nat_def digits_in_nonempty)
  ultimately show ?thesis by (simp add: parse_nat_def)
qed

lemma show_nat_hd: obtains c s where "show_nat n = c # s" "c \<noteq> CHR ''-''" "c \<noteq> CHR ''+''"
proof -
  have "\<forall>c \<in> set (show_nat n). c \<noteq> CHR ''-'' \<and> c \<noteq> CHR ''+''"
    using digits_in_bound [of 10 n] by (auto simp: show_nat_def digit_char_digit)
  then show ?thesis using that digits_in_nonempty [of 10 n] by (cases "show_nat n") (auto simp: show_nat_def)
qed

lemma ParseInt_show: "fits_int64 n \<Longrightarrow> ParseInt (show_int n) = Some n"
proof (cases "n < 0")
  case True
  assume "fits_int64 n"
  with True show ?thesis by (simp add: show_int_def parse_show_nat)
next
  case False
  assume "fits_int64 n"
  obtain c s where cs: "show_nat (nat n) = c # s" "c \<noteq> CHR ''-''" "c \<noteq> CHR ''+''" by (rule show_nat_hd)
  then have "parse_nat (c # s) = Some (nat n)" using parse_show_nat [of "nat n"] by simp
  with cs False \<open>fits_int64 n\<close> show ?thesis by (simp add: show_int_def)
qed

lemma dropWhile_none: "\<forall>c \<in> set s. \<not> P c \<Longrightarrow> dropWhile P s = s"
  by (cases s) auto

lemma TrimSpace_show: "TrimSpace (show_int n) = show_int n"
proof -
  have "\<forall>c \<in> set (show_nat m). \<not> is_space c" for m
    using digits_in_bound [of 10 m] by (auto simp: show_nat_def digit_char_digit)
  then have "\<forall>c \<in> set (show_int n). \<not> is_space c" by (auto simp: show_int_def is_space_def)
  then show ?thesis by (simp add: TrimSpace_def dropWhile_none)
qed

text \<open>
  The id of an event resumes the stream.  An event id is the decimal form of its sequence number; a
  client that sends it back as \<open>Last-Event-ID\<close>, whatever its URL says, is understood to have applied
  exactly that number, for every value of an \<open>int64\<close>.
\<close>

theorem event_id_resumes:
  assumes "fits_int64 n"
  shows "streamCursor (show_int n) frm = (n, True)"
proof -
  have "show_int n \<noteq> []" using ParseInt_show [OF assms] by auto
  then show ?thesis using assms by (simp add: streamCursor_def TrimSpace_show ParseInt_show)
qed

theorem event_id_resumes_witness: "streamCursor (show_int 42) ''7'' = (42, True)"
  by (rule event_id_resumes) (simp add: fits_int64_def)

text \<open>A header that is no number falls back to the query, and an unknown position asks for a snapshot.\<close>

lemma streamCursor_examples:
  "streamCursor ''abc'' ''7'' = (7, True)" "streamCursor [] [] = (0, False)"
  by code_simp+

end
