(* ===== verification/Files.thy ===== *)
theory Files
  imports Deliveries "HOL-Library.State_Monad"
begin

text \<open>
  The machine the runner and the engine work on, beside the store: a file tree, external commands and
  the environment.  What the operating system and the commands answer is a parameter, kept in fields
  no operation rewrites: the outcome of the \<open>n\<close>-th command, the result of the \<open>n\<close>-th file operation,
  the environment variables, how durations are read, media types guessed, errors worded and fields laid
  out as YAML.  \<open>trace\<close> is the sequence of commands that were started, with whether each
  one succeeded.

  A path is rooted and given by its components; \<open>Join\<close> is \<open>filepath.Join\<close>, which cleans its result.
  An effect is a \<open>state\<close> computation over the host and returns an error as a value.
\<close>

section \<open>Paths\<close>

type_synonym path = "string list"

definition clean_step :: "path \<Rightarrow> string \<Rightarrow> path" where
  "clean_step p c = (if c = [] \<or> c = ''.'' then p else if c = ''..'' then butlast p else p @ [c])"

definition Join :: "path \<Rightarrow> string \<Rightarrow> path" where
  "Join p s = foldl clean_step p (split_on (CHR ''/'') s)"

definition path_text :: "path \<Rightarrow> string" where
  "path_text p = (if p = [] then ''/'' else concat (map (\<lambda>c. CHR ''/'' # c) p))"

text \<open>\<open>filepath.Base\<close> of a name given as text: the last component, \<open>.\<close> for the empty name.\<close>

definition Base :: "string \<Rightarrow> string" where
  "Base s = (if s = [] then ''.''
     else case rev (filter (\<lambda>c. c \<noteq> []) (split_on (CHR ''/'') s)) of [] \<Rightarrow> ''/'' | c # _ \<Rightarrow> c)"

section \<open>The file tree\<close>

text \<open>
  A regular file holds bytes that are, or are not, an encoded document; the layout of an encoding is
  not modelled.  The root directory is always there.
\<close>

datatype node = Dir | File raw_json

type_synonym tree = "(path \<times> node) list"

definition node_at :: "tree \<Rightarrow> path \<Rightarrow> node option" where
  "node_at t p = (if p = [] then Some Dir else map_of t p)"

definition put_node :: "path \<Rightarrow> node \<Rightarrow> tree \<Rightarrow> tree" where
  "put_node p n t = (p, n) # filter (\<lambda>(q, _). q \<noteq> p) t"

definition make_dirs :: "path \<Rightarrow> tree \<Rightarrow> tree" where
  "make_dirs p t = fold (\<lambda>q t. if node_at t q = None then put_node q Dir t else t) (prefixes p) t"

definition remove_tree :: "path \<Rightarrow> tree \<Rightarrow> tree" where
  "remove_tree p t = filter (\<lambda>(q, _). \<not> prefix p q) t"

text \<open>
  The entries of a directory, sorted by name, and the walk of a directory in lexical order, parents
  first.
\<close>

definition entries_of :: "tree \<Rightarrow> path \<Rightarrow> (string \<times> node) list" where
  "entries_of t p = sort_key fst
     (map (\<lambda>(q, n). (last q, n)) (filter (\<lambda>(q, _). q \<noteq> [] \<and> butlast q = p) t))"

definition walk_of :: "tree \<Rightarrow> path \<Rightarrow> (path \<times> node) list" where
  "walk_of t p = sort_key fst (filter (\<lambda>(q, _). prefix p q) t)"

section \<open>The host\<close>

text \<open>
  A command with its arguments, the variables added to the environment, its directory and the deadline
  its context adds, in nanoseconds.
\<close>

record request =
  req_exe :: string
  req_args :: "string list"
  req_env :: "string list"
  req_dir :: path
  req_budget :: "int option"

text \<open>
  What a command answers: the text of its exit error, its captured output, the tree it leaves, whether
  the operator cancelled while it ran and whether its deadline passed.
\<close>

record outcome =
  exit_error :: "string option"
  out_text :: string
  tree_after :: tree
  cancels :: bool
  overran :: bool

text \<open>A write that fails leaves the file alone or leaves arbitrary content in it.\<close>

datatype io_result = Done | Refused | Torn raw_json

record host =
  base :: world
  tree :: tree
  stopped :: bool
  trace :: "(request \<times> bool) list"
  io_ops :: nat
  proc :: "nat \<Rightarrow> request \<Rightarrow> tree \<Rightarrow> outcome"
  io_fault :: "nat \<Rightarrow> io_result"
  getenv :: "string \<Rightarrow> string"
  home_dir :: path
  size_of :: "raw_json \<Rightarrow> int"
  parse_duration :: "string \<Rightarrow> int option"
  mime_type :: "string \<Rightarrow> string"
  err_text :: "err \<Rightarrow> string"
  yaml_text :: "(string \<times> string) list \<Rightarrow> string"

type_synonym 'a io = "(host, 'a) state"

section \<open>Effects\<close>

definition get_host :: "host io" where
  "get_host = State (\<lambda>h. (h, h))"

definition store_io :: "'a st \<Rightarrow> (err + 'a) io" where
  "store_io m = State (\<lambda>h. case m (base h) of (r, w) \<Rightarrow> (r, h\<lparr>base := w\<rparr>))"

definition now_io :: "time io" where
  "now_io = State (\<lambda>h. (clock (base h) (reads (base h)),
     h\<lparr>base := (base h)\<lparr>reads := Suc (reads (base h))\<rparr>\<rparr>))"

text \<open>\<open>time.Duration.Milliseconds\<close> truncates towards zero.\<close>

definition milliseconds :: "int \<Rightarrow> int" where
  "milliseconds d = (if d < 0 then - ((- d) div 1000000) else d div 1000000)"

text \<open>The next file operation, on the current tree.\<close>

definition file_op :: "(io_result \<Rightarrow> tree \<Rightarrow> 'a \<times> tree) \<Rightarrow> 'a io" where
  "file_op f = State (\<lambda>h. case f (io_fault h (io_ops h)) (tree h) of
     (r, t) \<Rightarrow> (r, h\<lparr>io_ops := Suc (io_ops h), tree := t\<rparr>))"

definition MkdirAll :: "path \<Rightarrow> (err + unit) io" where
  "MkdirAll p = file_op (\<lambda>r t.
     if r = Done \<and> (\<forall>q \<in> set (prefixes p). case node_at t q of Some (File _) \<Rightarrow> False | _ \<Rightarrow> True)
     then (Inr (), make_dirs p t) else (Inl (PathError (path_text p)), t))"

definition WriteFile :: "path \<Rightarrow> raw_json \<Rightarrow> (err + unit) io" where
  "WriteFile p c = file_op (\<lambda>r t.
     if p = [] \<or> node_at t p = Some Dir \<or> node_at t (butlast p) \<noteq> Some Dir
     then (Inl (PathError (path_text p)), t)
     else case r of
       Done \<Rightarrow> (Inr (), put_node p (File c) t)
     | Refused \<Rightarrow> (Inl (PathError (path_text p)), t)
     | Torn c' \<Rightarrow> (Inl (PathError (path_text p)), put_node p (File c') t))"

definition ReadFile :: "path \<Rightarrow> (err + raw_json) io" where
  "ReadFile p = file_op (\<lambda>r t. (case node_at t p of
       Some (File c) \<Rightarrow> if r = Done then Inr c else Inl (PathError (path_text p))
     | _ \<Rightarrow> Inl (PathError (path_text p)), t))"

definition Stat :: "path \<Rightarrow> (err + node) io" where
  "Stat p = file_op (\<lambda>r t. (if r \<noteq> Done then Inl (PathError (path_text p))
     else case node_at t p of None \<Rightarrow> Inl NotExist | Some n \<Rightarrow> Inr n, t))"

definition ReadDir :: "path \<Rightarrow> (err + (string \<times> node) list) io" where
  "ReadDir p = file_op (\<lambda>r t.
     (if r = Done \<and> node_at t p = Some Dir then Inr (entries_of t p) else Inl (PathError (path_text p)), t))"

definition RemoveAll :: "path \<Rightarrow> (err + unit) io" where
  "RemoveAll p = file_op (\<lambda>r t.
     if r = Done then (Inr (), remove_tree p t) else (Inl (PathError (path_text p)), t))"

text \<open>
  A command.  One that carries the run's context does not start once the context is cancelled; the
  others, which only ask \<open>git\<close> a question, always run.
\<close>

definition run_command :: "bool \<Rightarrow> request \<Rightarrow> outcome io" where
  "run_command with_ctx r = State (\<lambda>h.
     if with_ctx \<and> stopped h then
       (\<lparr>exit_error = Some ''context canceled'', out_text = [], tree_after = tree h, cancels = False,
         overran = False\<rparr>, h)
     else let o' = proc h (length (trace h)) r (tree h) in
       (o', h\<lparr>tree := tree_after o', stopped := stopped h \<or> cancels o',
              trace := trace h @ [(r, exit_error o' = None)]\<rparr>))"

text \<open>Continue with the value, or return the error as it is.\<close>

definition or_fail :: "(err + 'a) io \<Rightarrow> ('a \<Rightarrow> (err + 'b) io) \<Rightarrow> (err + 'b) io" where
  "or_fail m f = do { r \<leftarrow> m; case r of Inl e \<Rightarrow> State_Monad.return (Inl e) | Inr x \<Rightarrow> f x }"

definition or_wrap :: "string \<Rightarrow> string list \<Rightarrow> (err + 'a) io \<Rightarrow> ('a \<Rightarrow> (err + 'b) io) \<Rightarrow> (err + 'b) io" where
  "or_wrap f args m k = do {
     r \<leftarrow> m;
     case r of Inl e \<Rightarrow> State_Monad.return (Inl (Errorf f args (Some e))) | Inr x \<Rightarrow> k x }"

text \<open>A loop over a list that stops at the first error.\<close>

fun each_io :: "('a \<Rightarrow> (err + unit) io) \<Rightarrow> 'a list \<Rightarrow> (err + unit) io" where
  "each_io f [] = State_Monad.return (Inr ())"
| "each_io f (x # xs) = or_fail (f x) (\<lambda>_. each_io f xs)"

text \<open>
  \<open>DeliverEnvelope\<close> around a closure that works on files.  The closure leaves the store alone, so its
  \<open>k\<close>-th outcome is that of running it on the tree its earlier calls left; afterwards the tree is the one
  left by the calls that were made.
\<close>

fun after_calls :: "'a io \<Rightarrow> nat \<Rightarrow> host \<Rightarrow> host" where
  "after_calls act 0 h = h"
| "after_calls act (Suc k) h = after_calls act k (snd (run_state act h))"

definition call_result :: "(err + unit) io \<Rightarrow> host \<Rightarrow> nat \<Rightarrow> err option" where
  "call_result act h k = (case fst (run_state act (after_calls act k h)) of
     Inl e \<Rightarrow> Some e | Inr _ \<Rightarrow> None)"

definition deliver_io :: "string \<Rightarrow> string \<Rightarrow> bool \<Rightarrow> (err + unit) io \<Rightarrow> (err + unit) io" where
  "deliver_io envelopeID consumer critical act = State (\<lambda>h.
     case DeliverEnvelope envelopeID consumer critical
            (\<lambda>n. call_result act h (n - attempts (base h))) (base h) of
       (r, w) \<Rightarrow> (r, (after_calls act (attempts w - attempts (base h)) h)\<lparr>base := w\<rparr>))"

lemmas io_defs = store_io_def now_io_def file_op_def run_command_def get_host_def


section \<open>What an effect may do to the host\<close>

text \<open>
  \<open>state_io_rel R m\<close> is \<open>within\<close> one level up: the host \<open>m\<close> leaves is related by \<open>R\<close> to the host it
  found.  A relation on worlds gives one on hosts, and the operations on files and commands leave the
  world alone.
\<close>

named_theorems keeps_intros

locale host_relation =
  fixes R :: "host \<Rightarrow> host \<Rightarrow> bool"
  assumes refl [simp]: "R h h"
    and trans: "R g h \<Longrightarrow> R h k \<Longrightarrow> R g k"
begin

lemma k_return [keeps_intros]: "state_io_rel R (State_Monad.return x)"
  by (simp add: state_io_rel_def)

lemma k_get [keeps_intros]: "state_io_rel R get_host"
  by (simp add: state_io_rel_def get_host_def)

lemma k_bind [keeps_intros]:
  assumes m: "state_io_rel R m" and f: "\<And>x. state_io_rel R (f x)"
  shows "state_io_rel R (State_Monad.bind m f)"
proof (rule state_io_relI)
  fix x s s'
  assume run: "run_state (State_Monad.bind m f) s = (x, s')"
  obtain y s1 where y: "run_state m s = (y, s1)" by (cases "run_state m s")
  with run have "run_state (f y) s1 = (x, s')" by simp
  with f have "R s1 s'" by blast
  moreover from m y have "R s s1" by blast
  ultimately show "R s s'" by (rule trans [rotated])
qed

lemma k_cond [keeps_intros]:
  "(b \<Longrightarrow> state_io_rel R m) \<Longrightarrow> (\<not> b \<Longrightarrow> state_io_rel R n) \<Longrightarrow> state_io_rel R (if b then m else n)"
  by simp

lemma k_sum [keeps_intros]:
  "(\<And>e. state_io_rel R (m e)) \<Longrightarrow> (\<And>x. state_io_rel R (f x)) \<Longrightarrow>
   state_io_rel R (case v of Inl e \<Rightarrow> m e | Inr x \<Rightarrow> f x)"
  by (cases v) auto

lemma k_option [keeps_intros]:
  "state_io_rel R m \<Longrightarrow> (\<And>x. state_io_rel R (f x)) \<Longrightarrow>
   state_io_rel R (case v of None \<Rightarrow> m | Some x \<Rightarrow> f x)"
  by (cases v) auto

lemma k_pair [keeps_intros]:
  "(\<And>x y. state_io_rel R (f x y)) \<Longrightarrow> state_io_rel R (case p of (x, y) \<Rightarrow> f x y)"
  by (cases p) auto

lemma k_node [keeps_intros]:
  "state_io_rel R m \<Longrightarrow> (\<And>c. state_io_rel R (f c)) \<Longrightarrow>
   state_io_rel R (case n of Dir \<Rightarrow> m | File c \<Rightarrow> f c)"
  by (cases n) auto

lemma k_or_fail [keeps_intros]:
  "state_io_rel R m \<Longrightarrow> (\<And>x. state_io_rel R (f x)) \<Longrightarrow> state_io_rel R (or_fail m f)"
  by (simp add: or_fail_def k_bind k_sum k_return)

lemma k_or_wrap [keeps_intros]:
  "state_io_rel R m \<Longrightarrow> (\<And>x. state_io_rel R (f x)) \<Longrightarrow> state_io_rel R (or_wrap fmt args m f)"
  by (simp add: or_wrap_def k_bind k_sum k_return)

lemma k_each [keeps_intros]: "(\<And>x. state_io_rel R (f x)) \<Longrightarrow> state_io_rel R (each_io f xs)"
  by (induction xs) (auto intro: k_return k_or_fail)

lemma k_calls: "state_io_rel R act \<Longrightarrow> R h (after_calls act k h)"
proof (induction k arbitrary: h)
  case (Suc k)
  then have "R h (snd (run_state act h))" by (simp add: state_io_rel_def)
  with Suc show ?case by (auto intro: trans)
qed simp

end

text \<open>The environment is given, the trace grows and a cancellation is final.\<close>

definition given_env :: "host \<Rightarrow> host \<Rightarrow> bool" where
  "given_env h k \<longleftrightarrow> proc k = proc h \<and> io_fault k = io_fault h \<and> getenv k = getenv h \<and>
     home_dir k = home_dir h \<and> size_of k = size_of h \<and> parse_duration k = parse_duration h \<and>
     mime_type k = mime_type h \<and> err_text k = err_text h \<and> yaml_text k = yaml_text h \<and> prefix (trace h) (trace k) \<and>
     (stopped h \<longrightarrow> stopped k)"

interpretation genv: host_relation given_env
  by unfold_locales (auto simp: given_env_def)

lemma genv_file_op [keeps_intros]: "state_io_rel given_env (file_op f)"
  by (auto simp: state_io_rel_def file_op_def given_env_def split: prod.split)

lemma genv_command [keeps_intros]: "state_io_rel given_env (run_command c r)"
  by (auto simp: state_io_rel_def run_command_def given_env_def Let_def)

lemma genv_store [keeps_intros]: "state_io_rel given_env (store_io m)"
  by (auto simp: state_io_rel_def store_io_def given_env_def split: prod.split)

lemma genv_now [keeps_intros]: "state_io_rel given_env now_io"
  by (auto simp: state_io_rel_def now_io_def given_env_def)

lemma genv_deliver [keeps_intros]:
  "state_io_rel given_env act \<Longrightarrow> state_io_rel given_env (deliver_io e c b act)"
  using genv.k_calls [of act] by (auto simp: state_io_rel_def deliver_io_def given_env_def split: prod.split)

definition on_base :: "(world \<Rightarrow> world \<Rightarrow> bool) \<Rightarrow> host \<Rightarrow> host \<Rightarrow> bool" where
  "on_base R h k \<longleftrightarrow> R (base h) (base k)"

context step_relation
begin

sublocale base: host_relation "on_base R"
  by unfold_locales (auto simp: on_base_def intro: trans)

lemma base_file_op [keeps_intros]: "state_io_rel (on_base R) (file_op f)"
  by (auto simp: state_io_rel_def file_op_def on_base_def split: prod.split)

lemma base_command [keeps_intros]: "state_io_rel (on_base R) (run_command c r)"
  by (auto simp: state_io_rel_def run_command_def on_base_def Let_def)

lemma base_store: "within R m \<Longrightarrow> state_io_rel (on_base R) (store_io m)"
  by (auto simp: state_io_rel_def store_io_def on_base_def within_def split: prod.split) (metis snd_conv)

lemma base_now: "within R time_now \<Longrightarrow> state_io_rel (on_base R) now_io"
  by (simp add: state_io_rel_def now_io_def on_base_def within_def time_now_def)

lemma base_deliver:
  "(\<And>f. within R (DeliverEnvelope e c b f)) \<Longrightarrow> state_io_rel (on_base R) (deliver_io e c b act)"
  by (auto simp: state_io_rel_def deliver_io_def on_base_def within_def split: prod.split) (metis snd_conv)

end

lemmas file_op_defs = MkdirAll_def WriteFile_def ReadFile_def Stat_def ReadDir_def RemoveAll_def


section \<open>Lookup after an update\<close>

lemma node_at_put [simp]: "node_at (put_node p n t) q = (if q = [] then Some Dir else if q = p then Some n else node_at t q)"
proof -
  have "map_of (filter (\<lambda>(q, _). q \<noteq> p) t) q = (if q = p then None else map_of t q)"
    by (induction t) auto
  then show ?thesis by (simp add: node_at_def put_node_def)
qed

lemma node_at_root [simp]: "node_at t [] = Some Dir"
  by (simp add: node_at_def)

text \<open>Creating directories replaces nothing.\<close>

lemma make_dirs_keeps: "node_at t q = Some n \<Longrightarrow> node_at (make_dirs p t) q = Some n"
proof -
  have "node_at t q = Some n \<Longrightarrow>
      node_at (fold (\<lambda>q t. if node_at t q = None then put_node q Dir t else t) ps t) q = Some n" for ps
  proof (induction ps arbitrary: t)
    case (Cons a ps)
    have "node_at (if node_at t a = None then put_node a Dir t else t) q = Some n"
      using Cons.prems by (cases "q = []") auto
    then show ?case by (simp add: Cons.IH)
  qed simp
  then show "node_at t q = Some n \<Longrightarrow> ?thesis" by (simp add: make_dirs_def)
qed

lemma WriteFile_Inr:
  assumes "run_state (WriteFile p c) h = (Inr (), k)"
  shows "tree k = put_node p (File c) (tree h)" and "p \<noteq> []"
  using assms
  by (auto simp: WriteFile_def file_op_def split: prod.splits if_splits io_result.splits)

lemma ReadFile_Inr:
  assumes "run_state (ReadFile p) h = (Inr c, k)"
  shows "node_at (tree h) p = Some (File c)" and "tree k = tree h"
  using assms
  by (auto simp: ReadFile_def file_op_def split: prod.splits if_splits option.splits node.splits)

lemma ReadFile_tree: "tree (snd (run_state (ReadFile p) h)) = tree h"
  by (simp add: ReadFile_def file_op_def)

text \<open>How a sequence of steps with error returns came to its end.\<close>

lemma or_wrap_Inr:
  assumes "run_state (or_wrap f args m g) h = (Inr y, k)"
  obtains x h1 where "run_state m h = (Inr x, h1)" "run_state (g x) h1 = (Inr y, k)"
  using assms by (auto simp: or_wrap_def split: prod.splits sum.splits)

lemma or_fail_Inr:
  assumes "run_state (or_fail m g) h = (Inr y, k)"
  obtains x h1 where "run_state m h = (Inr x, h1)" "run_state (g x) h1 = (Inr y, k)"
  using assms by (auto simp: or_fail_def split: prod.splits sum.splits)


section \<open>Names in a tree\<close>

definition clean_name :: "string \<Rightarrow> bool" where
  "clean_name c \<longleftrightarrow> c \<noteq> [] \<and> c \<noteq> ''.'' \<and> c \<noteq> ''..'' \<and> CHR ''/'' \<notin> set c"

lemma Join_clean [simp]: "clean_name c \<Longrightarrow> Join p c = p @ [c]"
  by (simp add: clean_name_def Join_def split_on_none clean_step_def)

text \<open>A tree in which every path has one node and every component is a name.\<close>

definition tree_ok :: "tree \<Rightarrow> bool" where
  "tree_ok t \<longleftrightarrow> distinct (map fst t) \<and> (\<forall>(p, n) \<in> set t. list_all clean_name p)"

lemma set_entries_of: "(c, n) \<in> set (entries_of t p) \<longleftrightarrow> (p @ [c], n) \<in> set t"
  by (force simp: entries_of_def image_iff)

lemma distinct_map_sort_key: "distinct (map f xs) \<Longrightarrow> distinct (map f (sort_key g xs))"
  by (simp add: distinct_map)

lemma entries_of_ok:
  assumes "tree_ok t"
  shows "distinct (map fst (entries_of t p))"
    and "\<And>c n. (c, n) \<in> set (entries_of t p) \<longleftrightarrow> node_at t (p @ [c]) = Some n"
    and "\<And>c n. (c, n) \<in> set (entries_of t p) \<Longrightarrow> clean_name c"
proof -
  have d: "distinct (map fst t)" using assms by (simp add: tree_ok_def)
  show node: "(c, n) \<in> set (entries_of t p) \<longleftrightarrow> node_at t (p @ [c]) = Some n" for c n
    using d by (simp add: set_entries_of node_at_def)
  show "clean_name c" if "(c, n) \<in> set (entries_of t p)" for c n
    using assms that by (auto simp: set_entries_of tree_ok_def)
  let ?L = "filter (\<lambda>(q, _). q \<noteq> [] \<and> butlast q = p) t"
  have eq: "map fst (map (\<lambda>(q, n). (last q, n)) ?L) = map last (map fst ?L)"
    by (induction t) auto
  have "inj_on last (set (map fst ?L))"
    by (rule inj_onI) (auto, metis append_butlast_last_id)
  moreover have "distinct (map fst ?L)" using d by (rule distinct_map_filter_pred)
  ultimately have "distinct (map fst (map (\<lambda>(q, n). (last q, n)) ?L))"
    unfolding eq distinct_map [of last] by (rule conjI [rotated])
  then show "distinct (map fst (entries_of t p))"
    unfolding entries_of_def by (rule distinct_map_sort_key)
qed

text \<open>A host on which every file operation and every command succeeds.\<close>

definition calm_host :: "world \<Rightarrow> tree \<Rightarrow> host" where
  "calm_host w t = \<lparr>base = w, tree = t, stopped = False, trace = [], io_ops = 0,
     proc = (\<lambda>_ _ t. \<lparr>exit_error = None, out_text = [], tree_after = t, cancels = False, overran = False\<rparr>),
     io_fault = (\<lambda>_. Done), getenv = (\<lambda>_. []), home_dir = [''home'', ''op''], size_of = (\<lambda>_. 0),
     parse_duration = (\<lambda>_. None), mime_type = (\<lambda>_. []), err_text = (\<lambda>_. []),
     yaml_text = (\<lambda>_. [])\<rparr>"


lemma tree_ok_put:
  assumes "tree_ok t" and "list_all clean_name p"
  shows "tree_ok (put_node p n t)"
proof -
  have "distinct (map fst (filter (\<lambda>(q, _). q \<noteq> p) t))"
    using assms(1) by (intro distinct_map_filter_pred) (simp add: tree_ok_def)
  with assms show ?thesis by (auto simp: tree_ok_def put_node_def)
qed

lemma tree_ok_make_dirs:
  assumes "tree_ok t" and "list_all clean_name p"
  shows "tree_ok (make_dirs p t)"
proof -
  have "tree_ok t \<Longrightarrow> \<forall>q \<in> set ps. list_all clean_name q \<Longrightarrow>
      tree_ok (fold (\<lambda>q t. if node_at t q = None then put_node q Dir t else t) ps t)" for ps
    by (induction ps arbitrary: t) (auto intro: tree_ok_put)
  moreover have "\<forall>q \<in> set (prefixes p). list_all clean_name q"
    using assms(2) by (auto simp: list_all_iff elim!: prefixE)
  ultimately show ?thesis using assms(1) by (simp add: make_dirs_def)
qed

lemma MkdirAll_Inr:
  assumes "run_state (MkdirAll p) h = (Inr (), k)"
  shows "tree k = make_dirs p (tree h)"
  using assms by (auto simp: MkdirAll_def file_op_def split: if_splits prod.splits)

lemma ReadDir_Inr:
  assumes "run_state (ReadDir p) h = (Inr es, k)"
  shows "es = entries_of (tree h) p" and "tree k = tree h"
  using assms by (auto simp: ReadDir_def file_op_def split: if_splits prod.splits)

lemma Stat_tree: "run_state (Stat p) h = (r, k) \<Longrightarrow> tree k = tree h"
  by (auto simp: Stat_def file_op_def)

lemma Stat_NotExist: "run_state (Stat p) h = (Inl NotExist, k) \<Longrightarrow> node_at (tree h) p = None"
  by (auto simp: Stat_def file_op_def split: if_splits option.splits)

end
