(* ===== verification/Documents.thy ===== *)
theory Documents
  imports Redact
begin

text \<open>
  What \<open>encoding/json\<close> does when it decodes a document into a struct, a slice or a map: a member is
  matched with a field by name, ignoring case; a value of the wrong kind is skipped, decoding goes on
  and an error is returned at the end.  A decoder takes a value and the current content and returns
  the new content and whether every value fitted.
\<close>

text \<open>Names are folded; two code points beyond ASCII fold to a letter.\<close>

fun fold_name :: "string \<Rightarrow> string" where
  "fold_name [] = []"
| "fold_name (c # s) =
     (if c = CHR 0xE2 \<and> take 2 s = [CHR 0x84, CHR 0xAA] then CHR ''k'' # fold_name (drop 2 s)
      else if c = CHR 0xC5 \<and> take 1 s = [CHR 0xBF] then CHR ''s'' # fold_name (drop 1 s)
      else to_lower c # fold_name s)"

definition set_string :: "(string \<Rightarrow> 'a \<Rightarrow> 'a) \<Rightarrow> json \<Rightarrow> 'a \<Rightarrow> 'a \<times> bool" where
  "set_string upd v x = (case v of JStr s \<Rightarrow> (upd s x, True) | JNull \<Rightarrow> (x, True) | _ \<Rightarrow> (x, False))"

text \<open>A slice is emptied and its elements are appended, each starting from the zero value.\<close>

definition set_list :: "('b \<Rightarrow> json \<Rightarrow> 'b \<times> bool) \<Rightarrow> 'b \<Rightarrow> ('b list \<Rightarrow> 'a \<Rightarrow> 'a) \<Rightarrow> json \<Rightarrow> 'a \<Rightarrow> 'a \<times> bool" where
  "set_list dec zero upd v x = (case v of
     JNull \<Rightarrow> (upd [] x, True)
   | JArr vs \<Rightarrow> (upd (map (\<lambda>v. fst (dec zero v)) vs) x, list_all (\<lambda>v. snd (dec zero v)) vs)
   | _ \<Rightarrow> (x, False))"

fun set_members :: "(string \<Rightarrow> json \<Rightarrow> 'a \<Rightarrow> 'a \<times> bool) \<Rightarrow> (string \<times> json) list \<Rightarrow> 'a \<Rightarrow> 'a \<times> bool" where
  "set_members fld [] x = (x, True)"
| "set_members fld ((k, v) # ms) x =
     (let (x1, ok1) = fld (fold_name k) v x; (x2, ok2) = set_members fld ms x1 in (x2, ok1 \<and> ok2))"

definition set_struct :: "(string \<Rightarrow> json \<Rightarrow> 'a \<Rightarrow> 'a \<times> bool) \<Rightarrow> 'a \<Rightarrow> json \<Rightarrow> 'a \<times> bool" where
  "set_struct fld x v = (case v of
     JNull \<Rightarrow> (x, True)
   | JObj ms \<Rightarrow> set_members fld ms x
   | _ \<Rightarrow> (x, False))"

text \<open>\<open>json.Unmarshal\<close>: the content after decoding and the error, if any.  Bytes that do not parse set nothing.\<close>

definition Unmarshal :: "('a \<Rightarrow> json \<Rightarrow> 'a \<times> bool) \<Rightarrow> raw_json \<Rightarrow> 'a \<Rightarrow> 'a \<times> err option" where
  "Unmarshal dec data x = (case data of
     RawDoc j \<Rightarrow> (case dec x j of (y, ok) \<Rightarrow> (y, if ok then None else Some (Other ''json: cannot unmarshal'')))
   | RawEmpty \<Rightarrow> (x, Some (Other ''unexpected end of JSON input''))
   | RawBad s \<Rightarrow> (x, Some (Other ''invalid character'')))"

text \<open>
  Decoding into \<open>map[string]interface{}\<close>: \<open>None\<close> is an error, a \<open>null\<close> gives the nil map.  A later member
  replaces an earlier one with the same key.
\<close>

definition as_map :: "raw_json \<Rightarrow> (string \<times> json) list option" where
  "as_map data = (case data of
     RawDoc JNull \<Rightarrow> Some []
   | RawDoc (JObj ms) \<Rightarrow> Some ms
   | _ \<Rightarrow> None)"

definition member :: "string \<Rightarrow> (string \<times> json) list \<Rightarrow> json option" where
  "member k ms = map_of (rev ms) k"

definition member_string :: "string \<Rightarrow> (string \<times> json) list \<Rightarrow> string option" where
  "member_string k ms = (case member k ms of Some (JStr s) \<Rightarrow> Some s | _ \<Rightarrow> None)"

lemma Unmarshal_doc [simp]:
  "Unmarshal dec (RawDoc j) x = (case dec x j of (y, ok) \<Rightarrow> (y, if ok then None else Some (Other ''json: cannot unmarshal'')))"
  by (simp add: Unmarshal_def)

lemmas decode_simps = set_string_def set_list_def set_struct_def

end
