(* ===== verification/Plans.thy ===== *)
theory Plans
  imports Files Documents
begin

text \<open>
  \<open>internal/plan/plan.go\<close>: the checklist seeded into a worktree, one item per scenario heading of the
  change's specs, and read back to report progress.
\<close>

section \<open>Plans\<close>

record PlanItem =
  pi_ID :: string
  pi_Scenario :: string
  pi_Status :: string

type_synonym Plan = "PlanItem list"

definition Complete :: "Plan \<Rightarrow> int" where
  "Complete p = foldl (\<lambda>n item. if pi_Status item = ''complete'' then n + 1 else n) 0 p"

definition Total :: "Plan \<Rightarrow> int" where
  "Total p = int (length p)"

definition InProgressItem :: "Plan \<Rightarrow> PlanItem option" where
  "InProgressItem p = find (\<lambda>item. pi_Status item = ''in_progress'') p"

section \<open>Scenarios\<close>

definition TrimRightCR :: "string \<Rightarrow> string" where
  "TrimRightCR s = rev (dropWhile (\<lambda>c. c = CHR 0x0D) (rev s))"

definition scenario_heading :: string where
  "scenario_heading = ''#### Scenario:''"

definition ParseScenarios :: "string \<Rightarrow> string list" where
  "ParseScenarios markdown = concat (map (\<lambda>line.
     let text' = TrimRightCR line in
     if \<not> HasPrefix text' scenario_heading then []
     else let scenario = TrimSpace (drop (length scenario_heading) text') in
          if scenario = [] then [] else [scenario])
     (split_on (CHR 0x0A) markdown))"

text \<open>
  The text of a file.  A file that is a document of \<open>encoding/json\<close> has no line that starts with a
  hash: a line break cannot be inside a string of it, and outside a string a hash is not allowed.
\<close>

definition file_text :: "raw_json \<Rightarrow> string" where
  "file_text c = (case c of RawBad s \<Rightarrow> s | _ \<Rightarrow> [])"

text \<open>\<open>filepath.WalkDir\<close> over the specs; reading a file may fail, and then the walk stops.\<close>

fun collect_scenarios :: "(path \<times> node) list \<Rightarrow> (err + string list) io" where
  "collect_scenarios [] = State_Monad.return (Inr [])"
| "collect_scenarios ((p, n) # ps) =
     (if n = Dir \<or> \<not> HasSuffix (last p) ''.md'' then collect_scenarios ps
      else or_wrap ''reading %s: %w'' [path_text p] (ReadFile p) (\<lambda>data.
           or_fail (collect_scenarios ps) (\<lambda>rest.
           State_Monad.return (Inr (ParseScenarios (file_text data) @ rest)))))"

definition WalkDir :: "path \<Rightarrow> (err + (path \<times> node) list) io" where
  "WalkDir p = file_op (\<lambda>r t. (if r = Done \<and> node_at t p \<noteq> None then Inr (walk_of t p) else Inl (PathError (path_text p)), t))"

definition ParseScenariosFromDir :: "path \<Rightarrow> (err + string list) io" where
  "ParseScenariosFromDir changeDir =
     (let specsRoot = Join changeDir ''specs'' in
      do { st \<leftarrow> Stat specsRoot;
           if st = Inl NotExist then State_Monad.return (Inr [])
           else or_fail (WalkDir specsRoot) collect_scenarios })"

section \<open>Seeding and reading\<close>

definition planFilePath :: "path \<Rightarrow> path" where
  "planFilePath worktree = Join (Join worktree ''.sgt'') ''plan.json''"

definition marshal_item :: "PlanItem \<Rightarrow> json" where
  "marshal_item i = JObj [(''id'', JStr (pi_ID i)), (''scenario'', JStr (pi_Scenario i)), (''status'', JStr (pi_Status i))]"

definition marshal_plan :: "Plan \<Rightarrow> json" where
  "marshal_plan p = JObj [(''items'', JArr (map marshal_item p))]"

definition seed_items :: "string list \<Rightarrow> Plan" where
  "seed_items scenarios = map (\<lambda>(i, text').
     \<lparr>pi_ID = ''s-'' @ show_nat (i + 1), pi_Scenario = text', pi_Status = ''pending''\<rparr>)
     (List.enumerate 0 scenarios)"

definition SeedPlan :: "path \<Rightarrow> path \<Rightarrow> (err + unit) io" where
  "SeedPlan changeDir worktree =
     or_wrap ''parsing scenarios from %s: %w'' [path_text changeDir] (ParseScenariosFromDir changeDir) (\<lambda>scenarios.
     or_wrap ''creating .sgt dir in worktree: %w'' [] (MkdirAll (butlast (planFilePath worktree))) (\<lambda>_.
     or_wrap ''writing plan.json: %w'' []
       (WriteFile (planFilePath worktree) (RawDoc (marshal_plan (seed_items scenarios)))) (\<lambda>_.
     State_Monad.return (Inr ()))))"

definition zero_item :: PlanItem where
  "zero_item = \<lparr>pi_ID = [], pi_Scenario = [], pi_Status = []\<rparr>"

definition item_field :: "string \<Rightarrow> json \<Rightarrow> PlanItem \<Rightarrow> PlanItem \<times> bool" where
  "item_field k v i =
     (if k = ''id'' then set_string (\<lambda>s i. i\<lparr>pi_ID := s\<rparr>) v i
      else if k = ''scenario'' then set_string (\<lambda>s i. i\<lparr>pi_Scenario := s\<rparr>) v i
      else if k = ''status'' then set_string (\<lambda>s i. i\<lparr>pi_Status := s\<rparr>) v i
      else (i, True))"

definition plan_field :: "string \<Rightarrow> json \<Rightarrow> Plan \<Rightarrow> Plan \<times> bool" where
  "plan_field k v p =
     (if k = ''items'' then set_list (set_struct item_field) zero_item (\<lambda>is _. is) v p else (p, True))"

definition ReadPlan :: "path \<Rightarrow> Plan option io" where
  "ReadPlan worktree = do {
     data \<leftarrow> ReadFile (planFilePath worktree);
     State_Monad.return (case data of
       Inl _ \<Rightarrow> None
     | Inr c \<Rightarrow> (case Unmarshal (set_struct plan_field) c [] of (p, None) \<Rightarrow> Some p | (p, Some _) \<Rightarrow> None)) }"


section \<open>A seeded plan reads back\<close>

text \<open>The scenarios declared by a change: those of its Markdown files, in the order of the walk.\<close>

definition declared_scenarios :: "tree \<Rightarrow> path \<Rightarrow> string list" where
  "declared_scenarios t changeDir =
     (let specsRoot = Join changeDir ''specs'' in
      if node_at t specsRoot = None then []
      else concat (map (\<lambda>(p, n). case n of
             File c \<Rightarrow> if HasSuffix (last p) ''.md'' then ParseScenarios (file_text c) else []
           | Dir \<Rightarrow> []) (walk_of t specsRoot)))"

lemma collect_scenarios_Inr:
  assumes "run_state (collect_scenarios ps) h = (Inr ss, k)"
    and "\<forall>(p, n) \<in> set ps. node_at (tree h) p = Some n"
  shows "ss = concat (map (\<lambda>(p, n). case n of
      File c \<Rightarrow> if HasSuffix (last p) ''.md'' then ParseScenarios (file_text c) else [] | Dir \<Rightarrow> []) ps)
    \<and> tree k = tree h"
  using assms
proof (induction ps arbitrary: h ss k)
  case (Cons a ps)
  obtain p n where a: "a = (p, n)" by (cases a)
  show ?case
  proof (cases "n = Dir \<or> \<not> HasSuffix (last p) ''.md''")
    case True
    with Cons.prems have "run_state (collect_scenarios ps) h = (Inr ss, k)" by (simp add: a)
    from Cons.IH [OF this] Cons.prems(2) True show ?thesis by (auto simp: a split: node.split)
  next
    case False
    then obtain c where n: "n = File c" by (cases n) auto
    from Cons.prems(1) False obtain d h1 rest h2 where r: "run_state (ReadFile p) h = (Inr d, h1)"
        and c: "run_state (collect_scenarios ps) h1 = (Inr rest, h2)"
        and ss: "ss = ParseScenarios (file_text d) @ rest" "h2 = k"
      by (auto simp: a elim!: or_wrap_Inr or_fail_Inr)
    from ReadFile_Inr [OF r] Cons.prems(2) have d: "d = c" "tree h1 = tree h" by (auto simp: a n)
    from Cons.IH [OF c] Cons.prems(2) show ?thesis using False by (auto simp: a n ss d)
  qed
qed simp

lemma walk_nodes:
  assumes "tree_ok t" and "(p, n) \<in> set (walk_of t q)" shows "p = [] \<or> node_at t p = Some n"
  using assms by (auto simp: walk_of_def tree_ok_def node_at_def)

lemma item_names:
  "fold_name ''items'' = ''items''" "fold_name ''id'' = ''id''" "fold_name ''scenario'' = ''scenario''"
  "fold_name ''status'' = ''status''"
  by code_simp+

lemma item_fields:
  "item_field ''id'' (JStr s) i = (i\<lparr>pi_ID := s\<rparr>, True)"
  "item_field ''scenario'' (JStr s) i = (i\<lparr>pi_Scenario := s\<rparr>, True)"
  "item_field ''status'' (JStr s) i = (i\<lparr>pi_Status := s\<rparr>, True)"
  by (simp_all add: item_field_def set_string_def)

lemma decode_item: "set_struct item_field zero_item (marshal_item i) = (i, True)"
proof -
  obtain a b c where i: "i = \<lparr>pi_ID = a, pi_Scenario = b, pi_Status = c\<rparr>" by (cases i)
  show ?thesis
    by (simp add: i marshal_item_def set_struct_def item_names item_fields zero_item_def del: fold_name.simps)
qed

lemma decode_plan: "set_struct plan_field [] (marshal_plan p) = (p, True)"
proof -
  have "plan_field ''items'' (JArr (map marshal_item p)) [] = (p, True)"
    by (simp add: plan_field_def set_list_def comp_def decode_item list_all_iff)
  then show ?thesis
    by (simp add: marshal_plan_def set_struct_def item_names del: fold_name.simps)
qed

text \<open>
  The checklist an agent finds is the change's.  When \<open>SeedPlan\<close> returned no error, whatever
  happened to its file operations, \<open>ReadPlan\<close> then reads one pending item per declared scenario, in the
  order of the specs, numbered from one.
\<close>

theorem SeedPlan_roundtrip:
  assumes seed: "run_state (SeedPlan changeDir worktree) h = (Inr (), k)"
    and ok: "tree_ok (tree h)" and rooted: "Join changeDir ''specs'' \<noteq> []"
    and "io_fault k (io_ops k) = Done"
  shows "fst (run_state (ReadPlan worktree) k) = Some (seed_items (declared_scenarios (tree h) changeDir))"
proof -
  let ?root = "Join changeDir ''specs''" and ?file = "planFilePath worktree"
  obtain ss h1 h2 where s: "run_state (ParseScenariosFromDir changeDir) h = (Inr ss, h1)"
      and w: "run_state (WriteFile ?file (RawDoc (marshal_plan (seed_items ss)))) h2 = (Inr (), k)"
    using seed unfolding SeedPlan_def by (elim or_wrap_Inr) auto
  obtain st h0 where st: "run_state (Stat ?root) h = (st, h0)" by (cases "run_state (Stat ?root) h")
  have "ss = declared_scenarios (tree h) changeDir"
  proof (cases "st = Inl NotExist")
    case True
    with s st have "ss = []" by (simp add: ParseScenariosFromDir_def Let_def)
    with Stat_NotExist True st show ?thesis by (simp add: declared_scenarios_def Let_def)
  next
    case False
    with s st have "run_state (or_fail (WalkDir ?root) collect_scenarios) h0 = (Inr ss, h1)"
      by (simp add: ParseScenariosFromDir_def Let_def)
    then obtain ps h3 where d: "run_state (WalkDir ?root) h0 = (Inr ps, h3)"
        and c: "run_state (collect_scenarios ps) h3 = (Inr ss, h1)"
      by (elim or_fail_Inr) simp
    from d Stat_tree [OF st] have ps: "ps = walk_of (tree h) ?root" "tree h3 = tree h"
        and present: "node_at (tree h) ?root \<noteq> None"
      by (auto simp: WalkDir_def file_op_def split: if_splits)
    have "\<forall>(p, n) \<in> set ps. node_at (tree h3) p = Some n"
    proof (intro ballI, clarify)
      fix p n
      assume pn: "(p, n) \<in> set ps"
      then have "prefix ?root p" by (simp add: ps walk_of_def)
      with rooted have "p \<noteq> []" by auto
      with walk_nodes [OF ok pn [unfolded ps(1)]] show "node_at (tree h3) p = Some n" by (simp add: ps(2))
    qed
    with collect_scenarios_Inr [OF c] have "ss = concat (map (\<lambda>(p, n). case n of
        File c \<Rightarrow> if HasSuffix (last p) ''.md'' then ParseScenarios (file_text c) else [] | Dir \<Rightarrow> []) ps)"
      by blast
    with present show ?thesis by (auto simp: declared_scenarios_def Let_def ps)
  qed
  moreover from WriteFile_Inr [OF w] have "node_at (tree k) ?file = Some (File (RawDoc (marshal_plan (seed_items ss))))"
    by simp
  then obtain k' where "run_state (ReadFile ?file) k = (Inr (RawDoc (marshal_plan (seed_items ss))), k')"
    using assms(4) by (simp add: ReadFile_def file_op_def)
  ultimately show ?thesis by (simp add: ReadPlan_def decode_plan)
qed


definition change_tree :: tree where
  "change_tree = [([''ch''], Dir), ([''ch'', ''specs''], Dir), ([''wt''], Dir),
     ([''ch'', ''specs'', ''a.md''],
      File (RawBad (''#### Scenario: first'' @ [CHR 0x0A] @ ''##### Scenario: no'' @ [CHR 0x0A] @
        ''#### Scenario:  second'')))]"

theorem SeedPlan_roundtrip_witness:
  "fst (run_state (ReadPlan [''wt''])
     (snd (run_state (SeedPlan [''ch''] [''wt'']) (calm_host (initial_world empty_tables) change_tree)))) =
   Some [\<lparr>pi_ID = ''s-1'', pi_Scenario = ''first'', pi_Status = ''pending''\<rparr>,
         \<lparr>pi_ID = ''s-2'', pi_Scenario = ''second'', pi_Status = ''pending''\<rparr>]"
proof -
  let ?h = "calm_host (initial_world empty_tables) change_tree"
  let ?m = "SeedPlan [''ch''] [''wt'']"
  have "fst (run_state ?m ?h) = Inr ()" by code_simp
  then have run: "run_state ?m ?h = (Inr (), snd (run_state ?m ?h))" by (metis prod.collapse)
  have ok: "tree_ok (tree ?h)" by code_simp
  have rooted: "Join [''ch''] ''specs'' \<noteq> []" by code_simp
  have io: "io_fault (snd (run_state ?m ?h)) (io_ops (snd (run_state ?m ?h))) = Done" by code_simp
  have "seed_items (declared_scenarios (tree ?h) [''ch'']) =
      [\<lparr>pi_ID = ''s-1'', pi_Scenario = ''first'', pi_Status = ''pending''\<rparr>,
       \<lparr>pi_ID = ''s-2'', pi_Scenario = ''second'', pi_Status = ''pending''\<rparr>]"
    by code_simp
  with SeedPlan_roundtrip [OF run ok rooted io] show ?thesis by simp
qed

end
