(* ===== verification/Handoff.thy ===== *)
theory Handoff
  imports Files Documents
begin

text \<open>
  \<open>internal/handoff/envelope.go\<close>: the envelope an agent phase produces, what a payload may say about
  being blocked and about review findings, and the router that keeps envelopes in files and copies
  them into downstream worktrees.
\<close>

section \<open>Envelopes\<close>

record Envelope =
  he_TaskID :: string
  he_Repo :: string
  he_Stage :: string
  he_Summary :: string
  he_Artifacts :: "string list"
  he_Payload :: raw_json

definition zero_envelope :: Envelope where
  "zero_envelope = \<lparr>he_TaskID = [], he_Repo = [], he_Stage = [], he_Summary = [], he_Artifacts = [],
     he_Payload = RawEmpty\<rparr>"

text \<open>\<open>omitempty\<close> leaves out an empty slice; a payload that does not parse cannot be encoded.\<close>

definition marshal_envelope :: "Envelope \<Rightarrow> err + json" where
  "marshal_envelope e = (case he_Payload e of
     RawBad s \<Rightarrow> Inl (Other ''json: error calling MarshalJSON for type json.RawMessage'')
   | p \<Rightarrow> Inr (JObj (
       [(''task_id'', JStr (he_TaskID e)), (''repo'', JStr (he_Repo e)), (''stage'', JStr (he_Stage e)),
        (''summary'', JStr (he_Summary e))] @
       (if he_Artifacts e = [] then [] else [(''artifacts'', JArr (map JStr (he_Artifacts e)))]) @
       (case p of RawDoc j \<Rightarrow> [(''payload'', j)] | _ \<Rightarrow> []))))"

definition decode_string :: "string \<Rightarrow> json \<Rightarrow> string \<times> bool" where
  "decode_string s v = set_string (\<lambda>t _. t) v s"

definition envelope_field :: "string \<Rightarrow> json \<Rightarrow> Envelope \<Rightarrow> Envelope \<times> bool" where
  "envelope_field k v e =
     (if k = ''task_id'' then set_string (\<lambda>s e. e\<lparr>he_TaskID := s\<rparr>) v e
      else if k = ''repo'' then set_string (\<lambda>s e. e\<lparr>he_Repo := s\<rparr>) v e
      else if k = ''stage'' then set_string (\<lambda>s e. e\<lparr>he_Stage := s\<rparr>) v e
      else if k = ''summary'' then set_string (\<lambda>s e. e\<lparr>he_Summary := s\<rparr>) v e
      else if k = ''artifacts'' then set_list decode_string [] (\<lambda>ss e. e\<lparr>he_Artifacts := ss\<rparr>) v e
      else if k = ''payload'' then (e\<lparr>he_Payload := RawDoc v\<rparr>, True)
      else (e, True))"

definition decode_envelope :: "Envelope \<Rightarrow> json \<Rightarrow> Envelope \<times> bool" where
  "decode_envelope = set_struct envelope_field"

section \<open>What a payload says\<close>

definition BlockedReason :: "raw_json \<Rightarrow> string" where
  "BlockedReason payload =
     (if payload = RawEmpty then []
      else case as_map payload of
        None \<Rightarrow> []
      | Some ms \<Rightarrow> (case member_string ''blocked_reason'' ms of None \<Rightarrow> [] | Some reason \<Rightarrow> reason))"

record ReviewFinding =
  rf_Axis :: string
  rf_Severity :: string
  rf_Summary :: string
  rf_Disposition :: string

definition zero_finding :: ReviewFinding where
  "zero_finding = \<lparr>rf_Axis = [], rf_Severity = [], rf_Summary = [], rf_Disposition = []\<rparr>"

definition finding_field :: "string \<Rightarrow> json \<Rightarrow> ReviewFinding \<Rightarrow> ReviewFinding \<times> bool" where
  "finding_field k v f =
     (if k = ''axis'' then set_string (\<lambda>s f. f\<lparr>rf_Axis := s\<rparr>) v f
      else if k = ''severity'' then set_string (\<lambda>s f. f\<lparr>rf_Severity := s\<rparr>) v f
      else if k = ''summary'' then set_string (\<lambda>s f. f\<lparr>rf_Summary := s\<rparr>) v f
      else if k = ''disposition'' then set_string (\<lambda>s f. f\<lparr>rf_Disposition := s\<rparr>) v f
      else (f, True))"

definition findings_field :: "string \<Rightarrow> json \<Rightarrow> ReviewFinding list \<Rightarrow> ReviewFinding list \<times> bool" where
  "findings_field k v fs =
     (if k = ''findings'' then set_list (set_struct finding_field) zero_finding (\<lambda>fs _. fs) v fs else (fs, True))"

definition ReviewFindings :: "raw_json \<Rightarrow> ReviewFinding list" where
  "ReviewFindings payload =
     (if payload = RawEmpty then []
      else case Unmarshal (set_struct findings_field) payload [] of
        (fs, None) \<Rightarrow> fs
      | (fs, Some e) \<Rightarrow> [])"

definition HasBlockingFinding :: "ReviewFinding list \<Rightarrow> bool" where
  "HasBlockingFinding findings = list_ex (\<lambda>f. rf_Severity f = ''error'') findings"

section \<open>The router\<close>

text \<open>A router is its base directory.\<close>

definition SaveEnvelope :: "path \<Rightarrow> Envelope \<Rightarrow> (err + unit) io" where
  "SaveEnvelope baseDir e =
     (let repoDir = Join baseDir (he_Repo e) in
      or_wrap ''creating handoff dir: %w'' [] (MkdirAll repoDir) (\<lambda>_.
      case marshal_envelope e of
        Inl x \<Rightarrow> State_Monad.return (Inl (Errorf ''marshaling envelope: %w'' [] (Some x)))
      | Inr j \<Rightarrow>
          or_wrap ''writing envelope file: %w'' []
            (WriteFile (Join repoDir (''envelope_'' @ he_Stage e @ ''.json'')) (RawDoc j)) (\<lambda>_.
          WriteFile (Join repoDir ''envelope_latest.json'') (RawDoc j))))"

definition ReadLatestEnvelope :: "path \<Rightarrow> string \<Rightarrow> (err + Envelope) io" where
  "ReadLatestEnvelope baseDir repo =
     or_wrap ''reading latest envelope for %s: %w'' [repo]
       (ReadFile (Join (Join baseDir repo) ''envelope_latest.json'')) (\<lambda>data.
     State_Monad.return (case Unmarshal decode_envelope data zero_envelope of
       (e, None) \<Rightarrow> Inr e
     | (e, Some x) \<Rightarrow> Inl (Errorf ''parsing envelope for %s: %w'' [repo] (Some x))))"

definition copy_entry :: "path \<Rightarrow> path \<Rightarrow> string \<times> node \<Rightarrow> (err + unit) io" where
  "copy_entry srcDir destDir entry = (case entry of
     (name, Dir) \<Rightarrow> State_Monad.return (Inr ())
   | (name, File _) \<Rightarrow> or_fail (ReadFile (Join srcDir name)) (\<lambda>data. WriteFile (Join destDir name) data))"

definition InjectHandoffToWorktree :: "path \<Rightarrow> string \<Rightarrow> path \<Rightarrow> (err + unit) io" where
  "InjectHandoffToWorktree baseDir upstreamRepo downstreamWorktree =
     (let srcDir = Join baseDir upstreamRepo;
          destDir = Join (Join (Join downstreamWorktree ''.sgt'') ''handoff'') upstreamRepo in
      do { st \<leftarrow> Stat srcDir;
           if st = Inl NotExist then State_Monad.return (Inr ())
           else or_wrap ''creating downstream handoff dir: %w'' [] (MkdirAll destDir) (\<lambda>_.
                or_fail (ReadDir srcDir) (each_io (copy_entry srcDir destDir))) })"


section \<open>An envelope survives the router\<close>

lemma fold_names:
  "fold_name ''task_id'' = ''task_id''" "fold_name ''repo'' = ''repo''" "fold_name ''stage'' = ''stage''"
  "fold_name ''summary'' = ''summary''" "fold_name ''artifacts'' = ''artifacts''" "fold_name ''payload'' = ''payload''"
  by code_simp+

lemma envelope_fields:
  "envelope_field ''task_id'' (JStr s) e = (e\<lparr>he_TaskID := s\<rparr>, True)"
  "envelope_field ''repo'' (JStr s) e = (e\<lparr>he_Repo := s\<rparr>, True)"
  "envelope_field ''stage'' (JStr s) e = (e\<lparr>he_Stage := s\<rparr>, True)"
  "envelope_field ''summary'' (JStr s) e = (e\<lparr>he_Summary := s\<rparr>, True)"
  "envelope_field ''artifacts'' (JArr (map JStr ss)) e = (e\<lparr>he_Artifacts := ss\<rparr>, True)"
  "envelope_field ''payload'' v e = (e\<lparr>he_Payload := RawDoc v\<rparr>, True)"
  by (simp_all add: envelope_field_def set_string_def set_list_def decode_string_def comp_def list_all_iff)

lemma decode_marshal:
  assumes "marshal_envelope e = Inr j"
  shows "decode_envelope zero_envelope j = (e, True)"
proof -
  note step = decode_envelope_def set_struct_def fold_names envelope_fields zero_envelope_def
  obtain a b c d ss p where e: "e = \<lparr>he_TaskID = a, he_Repo = b, he_Stage = c, he_Summary = d, he_Artifacts = ss, he_Payload = p\<rparr>"
    by (cases e)
  show ?thesis
  proof (cases p)
    case RawEmpty
    with assms have "j = JObj ([(''task_id'', JStr a), (''repo'', JStr b), (''stage'', JStr c), (''summary'', JStr d)] @
        (if ss = [] then [] else [(''artifacts'', JArr (map JStr ss))]))"
      by (cases "ss = []") (auto simp: e marshal_envelope_def)
    then show ?thesis by (simp add: e RawEmpty step del: fold_name.simps)
  next
    case (RawDoc q)
    with assms have "j = JObj ([(''task_id'', JStr a), (''repo'', JStr b), (''stage'', JStr c), (''summary'', JStr d)] @
        (if ss = [] then [] else [(''artifacts'', JArr (map JStr ss))]) @ [(''payload'', q)])"
      by (cases "ss = []") (auto simp: e marshal_envelope_def)
    then show ?thesis by (simp add: e RawDoc step del: fold_name.simps)
  next
    case (RawBad s)
    with assms show ?thesis by (simp add: e marshal_envelope_def)
  qed
qed

text \<open>
  C40: an envelope the router has saved reads back.  When \<open>SaveEnvelope\<close> returned no error, whatever
  happened to its file operations, a later read of the repository's latest envelope that can read the file
  returns exactly the envelope that was saved.
\<close>

theorem SaveEnvelope_roundtrip:
  assumes save: "run_state (SaveEnvelope baseDir e) h = (Inr (), k)"
    and "io_fault k (io_ops k) = Done"
  shows "fst (run_state (ReadLatestEnvelope baseDir (he_Repo e)) k) = Inr e"
proof -
  let ?latest = "Join (Join baseDir (he_Repo e)) ''envelope_latest.json''"
  obtain j h1 where j: "marshal_envelope e = Inr j"
      and w: "run_state (WriteFile ?latest (RawDoc j)) h1 = (Inr (), k)"
    using save unfolding SaveEnvelope_def Let_def
    by (auto elim!: or_wrap_Inr split: sum.splits)
  from WriteFile_Inr [OF w] have "node_at (tree k) ?latest = Some (File (RawDoc j))" by simp
  then obtain k' where "run_state (ReadFile ?latest) k = (Inr (RawDoc j), k')"
    using assms(2) by (simp add: ReadFile_def file_op_def)
  then show ?thesis
    by (simp add: ReadLatestEnvelope_def or_wrap_def decode_marshal [OF j])
qed


definition sample_envelope :: Envelope where
  "sample_envelope = \<lparr>he_TaskID = ''sgt-1'', he_Repo = ''api'', he_Stage = ''build'', he_Summary = ''done'',
     he_Artifacts = [''a.txt''], he_Payload = RawDoc (JObj [(''k'', JNum 1)])\<rparr>"

theorem SaveEnvelope_roundtrip_witness:
  "fst (run_state (ReadLatestEnvelope [''fleet''] ''api'')
     (snd (run_state (SaveEnvelope [''fleet''] sample_envelope) (calm_host (initial_world empty_tables) [])))) =
   Inr sample_envelope"
proof -
  let ?h = "calm_host (initial_world empty_tables) []"
  let ?k = "snd (run_state (SaveEnvelope [''fleet''] sample_envelope) ?h)"
  have "fst (run_state (SaveEnvelope [''fleet''] sample_envelope) ?h) = Inr ()" by code_simp
  then have "run_state (SaveEnvelope [''fleet''] sample_envelope) ?h = (Inr (), ?k)" by (metis prod.collapse)
  moreover have "io_fault ?k (io_ops ?k) = Done" by code_simp
  ultimately show ?thesis
    using SaveEnvelope_roundtrip [of "[''fleet'']" sample_envelope ?h ?k] by (simp add: sample_envelope_def)
qed

section \<open>Handoffs are copied\<close>

lemma copy_entry_tree:
  assumes "run_state (copy_entry src dest (n, v)) h = (Inr (), k)" and "clean_name n"
  shows "(v = Dir \<and> tree k = tree h) \<or>
    (\<exists>c. node_at (tree h) (src @ [n]) = Some (File c) \<and> tree k = put_node (dest @ [n]) (File c) (tree h))"
proof (cases v)
  case Dir
  with assms show ?thesis by (simp add: copy_entry_def)
next
  case (File c)
  with assms obtain d h1 where r: "run_state (ReadFile (src @ [n])) h = (Inr d, h1)"
      and w: "run_state (WriteFile (dest @ [n]) d) h1 = (Inr (), k)"
    by (auto simp: copy_entry_def elim: or_fail_Inr)
  from ReadFile_Inr [OF r] WriteFile_Inr [OF w] show ?thesis by auto
qed

lemma copy_loop_other:
  assumes "run_state (each_io (copy_entry src dest) es) h = (Inr (), k)"
    and "\<forall>(n, v) \<in> set es. clean_name n" and "\<forall>(n, v) \<in> set es. q \<noteq> dest @ [n]"
  shows "node_at (tree k) q = node_at (tree h) q"
  using assms
proof (induction es arbitrary: h)
  case (Cons e es)
  obtain n v where e: "e = (n, v)" by (cases e)
  from Cons.prems(1) obtain h1 where 1: "run_state (copy_entry src dest (n, v)) h = (Inr (), h1)"
      and 2: "run_state (each_io (copy_entry src dest) es) h1 = (Inr (), k)"
    by (auto simp: e elim: or_fail_Inr)
  from Cons.prems(2,3) have "clean_name n" "q \<noteq> dest @ [n]" by (auto simp: e)
  with copy_entry_tree [OF 1] have "node_at (tree h1) q = node_at (tree h) q" by (cases "q = []") auto
  moreover from Cons.IH [OF 2] Cons.prems(2,3) have "node_at (tree k) q = node_at (tree h1) q" by simp
  ultimately show ?case by simp
qed simp

lemma copy_loop_copies:
  assumes "run_state (each_io (copy_entry src dest) es) h = (Inr (), k)"
    and "\<forall>(n, v) \<in> set es. clean_name n \<and> node_at (tree h) (src @ [n]) = Some v"
    and "distinct (map fst es)" and "src \<noteq> dest" and "(n, File c) \<in> set es"
  shows "node_at (tree k) (dest @ [n]) = Some (File c)"
  using assms
proof (induction es arbitrary: h)
  case (Cons e es)
  obtain m v where e: "e = (m, v)" by (cases e)
  from Cons.prems(1) obtain h1 where 1: "run_state (copy_entry src dest (m, v)) h = (Inr (), h1)"
      and 2: "run_state (each_io (copy_entry src dest) es) h1 = (Inr (), k)"
    by (auto simp: e elim: or_fail_Inr)
  from Cons.prems(2) have m: "clean_name m" "node_at (tree h) (src @ [m]) = Some v" by (auto simp: e)
  note t = copy_entry_tree [OF 1 m(1)]
  show ?case
  proof (cases "(n, File c) = (m, v)")
    case True
    with t m have "node_at (tree h1) (dest @ [n]) = Some (File c)" by auto
    moreover have "\<forall>(n', v) \<in> set es. dest @ [n] \<noteq> dest @ [n']"
      using Cons.prems(3) True by (auto simp: e image_iff)
    ultimately show ?thesis using copy_loop_other [OF 2] Cons.prems(2) by force
  next
    case False
    with Cons.prems(5) have "(n, File c) \<in> set es" by (auto simp: e)
    moreover from t \<open>src \<noteq> dest\<close> have "node_at (tree h1) (src @ [n']) = node_at (tree h) (src @ [n'])" for n'
      by auto
    ultimately show ?thesis using Cons.IH [OF 2] Cons.prems(2-4) by (auto simp: e)
  qed
qed simp


text \<open>
  Handing off copies everything.  When \<open>InjectHandoffToWorktree\<close> returned no error, whatever
  happened to its file operations, every regular file the upstream repository had in its handoff directory
  is in the worktree's \<open>.sgt/handoff/<upstream>\<close> with the same content.
\<close>

theorem InjectHandoff_copies:
  assumes run: "run_state (InjectHandoffToWorktree baseDir up worktree) h = (Inr (), k)"
    and ok: "tree_ok (tree h)" and names: "clean_name up" "list_all clean_name worktree"
    and apart: "baseDir \<noteq> worktree @ [''.sgt'', ''handoff'']"
    and up_file: "node_at (tree h) (baseDir @ [up, n]) = Some (File c)" "node_at (tree h) (baseDir @ [up]) = Some Dir"
  shows "node_at (tree k) (worktree @ [''.sgt'', ''handoff'', up, n]) = Some (File c)"
proof -
  let ?src = "baseDir @ [up]" and ?dest = "worktree @ [''.sgt'', ''handoff'', up]"
  have lit: "clean_name ''.sgt''" "clean_name ''handoff''" by code_simp+
  obtain st h1 where st: "run_state (Stat ?src) h = (st, h1)" by (cases "run_state (Stat ?src) h")
  with up_file(2) have "st \<noteq> Inl NotExist" by (auto dest: Stat_NotExist)
  have joins: "Join baseDir up = ?src" "Join (Join (Join worktree ''.sgt'') ''handoff'') up = ?dest"
    by (simp_all add: names(1) lit)
  have "run_state (or_wrap ''creating downstream handoff dir: %w'' [] (MkdirAll ?dest) (\<lambda>_.
      or_fail (ReadDir ?src) (each_io (copy_entry ?src ?dest)))) h1 = (Inr (), k)"
    using run st \<open>st \<noteq> Inl NotExist\<close> unfolding InjectHandoffToWorktree_def Let_def joins by simp
  then obtain h2 es h3 where m: "run_state (MkdirAll ?dest) h1 = (Inr (), h2)"
      and d: "run_state (ReadDir ?src) h2 = (Inr es, h3)"
      and l: "run_state (each_io (copy_entry ?src ?dest) es) h3 = (Inr (), k)"
    by (elim or_wrap_Inr or_fail_Inr) simp
  have t2: "tree h2 = make_dirs ?dest (tree h)" using MkdirAll_Inr [OF m] Stat_tree [OF st] by simp
  have es: "es = entries_of (tree h2) ?src" and t3: "tree h3 = tree h2" using ReadDir_Inr [OF d] by simp_all
  have ok2: "tree_ok (tree h2)" unfolding t2 using ok names lit by (intro tree_ok_make_dirs) auto
  note entries = entries_of_ok [OF ok2, where p = "?src", folded es]
  have "node_at (tree h2) (?src @ [n]) = Some (File c)" using up_file(1) by (simp add: t2 make_dirs_keeps)
  then have "(n, File c) \<in> set es" using entries(2) [of n "File c"] by simp
  moreover have "\<forall>(n, v) \<in> set es. clean_name n \<and> node_at (tree h3) (?src @ [n]) = Some v"
  proof (intro ballI, clarify)
    fix m v
    assume "(m, v) \<in> set es"
    then show "clean_name m \<and> node_at (tree h3) (?src @ [m]) = Some v"
      using entries(2) [of m v] entries(3) [of m v] by (simp add: t3)
  qed
  moreover have "?src \<noteq> ?dest" using apart by simp
  ultimately have "node_at (tree k) (?dest @ [n]) = Some (File c)"
    using copy_loop_copies [OF l] entries(1) by blast
  then show ?thesis by simp
qed

definition sample_tree :: tree where
  "sample_tree = [([''fleet''], Dir), ([''fleet'', ''api''], Dir),
     ([''fleet'', ''api'', ''envelope_latest.json''], File (RawDoc JNull)), ([''wt''], Dir)]"

theorem InjectHandoff_copies_witness:
  "node_at (tree (snd (run_state (InjectHandoffToWorktree [''fleet''] ''api'' [''wt''])
      (calm_host (initial_world empty_tables) sample_tree))))
    [''wt'', ''.sgt'', ''handoff'', ''api'', ''envelope_latest.json''] = Some (File (RawDoc JNull))"
proof -
  let ?h = "calm_host (initial_world empty_tables) sample_tree"
  let ?m = "InjectHandoffToWorktree [''fleet''] ''api'' [''wt'']"
  have "fst (run_state ?m ?h) = Inr ()" by code_simp
  then have run: "run_state ?m ?h = (Inr (), snd (run_state ?m ?h))" by (metis prod.collapse)
  have ok: "tree_ok (tree ?h)" by code_simp
  have names: "clean_name ''api''" "list_all clean_name [''wt'']" by code_simp+
  have up_file: "node_at (tree ?h) ([''fleet''] @ [''api'', ''envelope_latest.json'']) = Some (File (RawDoc JNull))"
    "node_at (tree ?h) ([''fleet''] @ [''api'']) = Some Dir" by code_simp+
  have "[''fleet''] \<noteq> [''wt''] @ [''.sgt'', ''handoff'']" by simp
  from InjectHandoff_copies [OF run ok names this up_file] show ?thesis by simp
qed

end
