(* ===== verification/Projects.thy ===== *)
theory Projects
  imports Files "HOL-Library.AList"
begin

text \<open>
  \<open>internal/config\<close> and the parts of \<open>internal/dag/engine.go\<close>, \<open>internal/ui/workflow.go\<close>,
  \<open>dispatch.go\<close>, \<open>gatefix.go\<close> and \<open>bulletstate.go\<close> that only read a project: which phases and gates
  run, in what order, with how many retries, and the graph the dashboard draws of them.

  A Go map from names is an association list with distinct keys; nothing here depends on its order.
  Parsing YAML is a parameter.
\<close>

section \<open>Configuration\<close>

record FactoryConfig =
  fa_Pipeline :: "string list"
  fa_Gates :: "(string \<times> string) list"

record Repo =
  repo_Name :: string
  repo_Path :: string
  repo_Factory :: "FactoryConfig option"
  repo_Retries :: int
  repo_FixRetries :: int

record DAGStage =
  stg_Name :: string
  stg_Repos :: "string list"
  stg_After :: "string list"
  stg_Brief :: string

record ProjectDefaults =
  def_Agent :: string
  def_Model :: string
  def_Retries :: int
  def_FixRetries :: int

record RetentionPolicy =
  pol_RunsAfterDays :: int
  pol_ArtifactsAfterDays :: int

record Project =
  pj_Name :: string
  pj_ProjectName :: string
  pj_Defaults :: ProjectDefaults
  pj_Repos :: "(string \<times> Repo) list"
  pj_DAG :: "DAGStage list option"
  pj_ShippingGates :: "(string \<times> string) list"
  pj_Retention :: "RetentionPolicy option"

definition ResolvedRetries :: "Project \<Rightarrow> string \<Rightarrow> int" where
  "ResolvedRetries p repoName = (case map_of (pj_Repos p) repoName of
     Some repo \<Rightarrow> if repo_Retries repo \<noteq> 0 then repo_Retries repo else def_Retries (pj_Defaults p)
   | None \<Rightarrow> def_Retries (pj_Defaults p))"

definition ResolvedFixRetries :: "Project \<Rightarrow> string \<Rightarrow> int" where
  "ResolvedFixRetries p repoName =
     (let fallback = (if def_FixRetries (pj_Defaults p) \<noteq> 0 then def_FixRetries (pj_Defaults p) else 5) in
      case map_of (pj_Repos p) repoName of
        Some repo \<Rightarrow> if repo_FixRetries repo \<noteq> 0 then repo_FixRetries repo else fallback
      | None \<Rightarrow> fallback)"

section \<open>Loading\<close>

text \<open>
  What the YAML library decodes: the project without its repositories, and the \<open>repos\<close> node, a
  sequence that decodes or not, a mapping, or anything else.
\<close>

datatype RawRepos = SequenceNode "Repo list option" | MappingNode "(string \<times> Repo) list" | OtherNode

type_synonym yaml_parser = "raw_json \<Rightarrow> err + Project \<times> RawRepos"

text \<open>\<open>filepath.Ext\<close> and \<open>strings.TrimSuffix\<close>.\<close>

definition Ext :: "string \<Rightarrow> string" where
  "Ext s = (let b = last (split_on (CHR ''/'') s) in
     if CHR ''.'' \<in> set b then CHR ''.'' # last (split_on (CHR ''.'') b) else [])"

definition TrimSuffix :: "string \<Rightarrow> string \<Rightarrow> string" where
  "TrimSuffix s suf = (if HasSuffix s suf then take (length s - length suf) s else s)"

definition collect_repos :: "RawRepos \<Rightarrow> (string \<times> Repo) list" where
  "collect_repos raw = (case raw of
     SequenceNode (Some repoList) \<Rightarrow>
       fold (\<lambda>r m. AList.update (if repo_Name r = [] then Base (repo_Path r) else repo_Name r) r m) repoList []
   | SequenceNode None \<Rightarrow> []
   | MappingNode m \<Rightarrow> m
   | OtherNode \<Rightarrow> [])"

definition finish_project :: "string \<Rightarrow> Project \<times> RawRepos \<Rightarrow> err + Project" where
  "finish_project path' parsed = (case parsed of (p, raw) \<Rightarrow>
     if (case pj_Retention p of
           Some r \<Rightarrow> pol_RunsAfterDays r \<le> 0 \<or> pol_ArtifactsAfterDays r \<le> 0 | None \<Rightarrow> False)
     then Inl (Errorf
       ''parsing yaml in %s: retention block requires positive runs_after_days and artifacts_after_days, got %d and %d''
       (case pj_Retention p of Some r \<Rightarrow> [path', show_int (pol_RunsAfterDays r), show_int (pol_ArtifactsAfterDays r)] | None \<Rightarrow> []) None)
     else
       let name = (if pj_Name p \<noteq> [] then pj_Name p
                   else if pj_ProjectName p \<noteq> [] then pj_ProjectName p
                   else TrimSuffix (Base path') (Ext (Base path'))) in
       Inr (p\<lparr>pj_Name := name, pj_ProjectName := name, pj_Repos := collect_repos raw\<rparr>))"

definition config_dir :: "host \<Rightarrow> path" where
  "config_dir h = (if getenv h ''SGT_CONFIG'' = [] then Join (Join (home_dir h) ''.config'') ''sgt''
     else Join [] (getenv h ''SGT_CONFIG''))"

definition IsAbs :: "string \<Rightarrow> bool" where
  "IsAbs s = HasPrefix s ''/''"

definition fileExists :: "path \<Rightarrow> bool io" where
  "fileExists p = do { st \<leftarrow> Stat p; State_Monad.return (case st of Inr (File _) \<Rightarrow> True | _ \<Rightarrow> False) }"

text \<open>A relative name is looked up from the working directory \<open>cwd\<close> first.\<close>

definition load_from :: "yaml_parser \<Rightarrow> path \<Rightarrow> (err + Project) io" where
  "load_from parse p =
     or_wrap ''reading project config %s: %w'' [path_text p] (ReadFile p) (\<lambda>data.
     State_Monad.return (case parse data of
       Inl e \<Rightarrow> Inl (Errorf ''parsing yaml in %s: %w'' [path_text p] (Some e))
     | Inr parsed \<Rightarrow> finish_project (path_text p) parsed))"

definition LoadProject :: "yaml_parser \<Rightarrow> path \<Rightarrow> string \<Rightarrow> (err + Project) io" where
  "LoadProject parse cwd nameOrPath =
     (if IsAbs nameOrPath then load_from parse (Join [] nameOrPath)
      else do {
        here \<leftarrow> fileExists (Join cwd nameOrPath);
        if here then load_from parse (Join cwd nameOrPath)
        else do {
          h \<leftarrow> get_host;
          load_from parse (Join (config_dir h) (if Ext nameOrPath = [] then nameOrPath @ ''.yaml'' else nameOrPath)) } })"

fun load_listed :: "yaml_parser \<Rightarrow> path \<Rightarrow> (string \<times> node) list \<Rightarrow> Project list io" where
  "load_listed parse dir [] = State_Monad.return []"
| "load_listed parse dir ((name, n) # es) =
     (if n = Dir \<or> name = ''config.yaml'' \<or> \<not> (HasSuffix name ''.yaml'' \<or> HasSuffix name ''.yml'')
      then load_listed parse dir es
      else do {
        r \<leftarrow> load_from parse (Join dir name);
        rest \<leftarrow> load_listed parse dir es;
        State_Monad.return (case r of Inl _ \<Rightarrow> rest | Inr p \<Rightarrow> p # rest) })"

definition ListProjects :: "yaml_parser \<Rightarrow> (err + Project list) io" where
  "ListProjects parse = do {
     h \<leftarrow> get_host;
     st \<leftarrow> Stat (config_dir h);
     if st = Inl NotExist then State_Monad.return (Inr [])
     else or_fail (ReadDir (config_dir h)) (\<lambda>entries. do {
       ps \<leftarrow> load_listed parse (config_dir h) entries;
       State_Monad.return (Inr ps) }) }"

section \<open>Pipelines and gates\<close>

definition gates_of :: "Repo \<Rightarrow> (string \<times> string) list" where
  "gates_of repoCfg = (case repo_Factory repoCfg of None \<Rightarrow> [] | Some f \<Rightarrow> fa_Gates f)"

definition SortedGateNames :: "Repo \<Rightarrow> string list" where
  "SortedGateNames repoCfg = (case repo_Factory repoCfg of None \<Rightarrow> [] | Some f \<Rightarrow> sort (map fst (fa_Gates f)))"

definition gate_command :: "Repo \<Rightarrow> string \<Rightarrow> string" where
  "gate_command repoCfg name = (case map_of (gates_of repoCfg) name of None \<Rightarrow> [] | Some c \<Rightarrow> c)"

definition DefaultPipeline :: "string list" where
  "DefaultPipeline = [''plan'', ''build'', ''test'']"

definition PipelineFor :: "Repo \<Rightarrow> string list" where
  "PipelineFor repoCfg = (case repo_Factory repoCfg of
     Some f \<Rightarrow> if fa_Pipeline f \<noteq> [] then fa_Pipeline f else DefaultPipeline
   | None \<Rightarrow> DefaultPipeline)"

definition GatePhaseName :: "string \<Rightarrow> string \<Rightarrow> string" where
  "GatePhaseName stage gateName = stage @ '':'' @ gateName"

section \<open>Stages\<close>

definition targetRepositories :: "Project \<Rightarrow> string list \<Rightarrow> string list" where
  "targetRepositories proj requested =
     (if requested \<noteq> [] then requested else sort (map fst (pj_Repos proj)))"

definition resolveStages :: "Project \<Rightarrow> string list \<Rightarrow> string \<Rightarrow> DAGStage list" where
  "resolveStages proj repos brief = (case pj_DAG proj of
     Some stages \<Rightarrow> if stages \<noteq> [] then stages
       else [\<lparr>stg_Name = ''custom-dispatch'', stg_Repos = targetRepositories proj repos, stg_After = [], stg_Brief = brief\<rparr>]
   | None \<Rightarrow> [\<lparr>stg_Name = ''custom-dispatch'', stg_Repos = targetRepositories proj repos, stg_After = [], stg_Brief = brief\<rparr>])"

definition stageForRepo :: "DAGStage list \<Rightarrow> string \<Rightarrow> DAGStage option" where
  "stageForRepo stages repoName = (case find (\<lambda>s. repoName \<in> set (stg_Repos s)) stages of
     None \<Rightarrow> None | Some s \<Rightarrow> Some (s\<lparr>stg_Repos := [repoName]\<rparr>))"

definition validWorkTypes :: "string list" where
  "validWorkTypes = [''feat'', ''fix'', ''refactor'', ''docs'', ''chore'', ''test'']"

definition validateWorkType :: "string \<Rightarrow> err option" where
  "validateWorkType typ = (if typ \<in> set validWorkTypes then None
     else Some (Errorf ''invalid or missing type %q: must be one of %s'' [typ, join_with '', '' (sort validWorkTypes)] None))"

section \<open>The workflow graph\<close>

record WorkflowNode =
  wn_ID :: string
  wn_Label :: string
  wn_Kind :: string
  wn_Group :: string

record WorkflowGraph =
  wg_Project :: string
  wg_Repo :: string
  wg_Nodes :: "WorkflowNode list"
  wg_Edges :: "(string \<times> string) list"

record chain =
  cn_group :: string
  cn_nodes :: "WorkflowNode list"
  cn_edges :: "(string \<times> string) list"
  cn_used :: "string list"

definition newChain :: "string \<Rightarrow> chain" where
  "newChain grp = \<lparr>cn_group = grp, cn_nodes = [], cn_edges = [], cn_used = []\<rparr>"

text \<open>The loop over suffixes; as many tries as there are used ids are enough.\<close>

fun free_suffix :: "string \<Rightarrow> string list \<Rightarrow> nat \<Rightarrow> nat \<Rightarrow> string" where
  "free_suffix i used 0 n = i @ ''#'' @ show_nat n"
| "free_suffix i used (Suc fuel) n =
     (let candidate = i @ ''#'' @ show_nat n in
      if candidate \<notin> set used then candidate else free_suffix i used fuel (Suc n))"

definition chain_add :: "string \<Rightarrow> string \<Rightarrow> chain \<Rightarrow> chain" where
  "chain_add kind label c =
     (let i = cn_group c @ '':'' @ kind @ '':'' @ label;
          i = (if i \<in> set (cn_used c) then free_suffix i (cn_used c) (length (cn_used c)) 2 else i) in
      c\<lparr>cn_used := i # cn_used c,
        cn_edges := (if cn_nodes c \<noteq> [] then cn_edges c @ [(wn_ID (last (cn_nodes c)), i)] else cn_edges c),
        cn_nodes := cn_nodes c @ [\<lparr>wn_ID = i, wn_Label = label, wn_Kind = kind, wn_Group = cn_group c\<rparr>]\<rparr>)"

definition buildWorkflowGraph :: "string \<Rightarrow> string \<Rightarrow> Repo \<Rightarrow> WorkflowGraph" where
  "buildWorkflowGraph projectName repoName repoCfg =
     (let c = newChain repoName;
          c = fold (chain_add ''stage'') (PipelineFor repoCfg) c;
          c = fold (chain_add ''gate'') (SortedGateNames repoCfg) c;
          c = fold (chain_add ''lifecycle'') BulletProgression c in
      \<lparr>wg_Project = projectName, wg_Repo = repoName, wg_Nodes = cn_nodes c, wg_Edges = cn_edges c\<rparr>)"


section \<open>The graph is one path over every configured step\<close>

lemma free_suffix_used:
  "free_suffix i used fuel n \<in> set used \<Longrightarrow> \<forall>m. n \<le> m \<and> m \<le> n + fuel \<longrightarrow> i @ ''#'' @ show_nat m \<in> set used"
proof (induction i used fuel n rule: free_suffix.induct)
  case (1 i used n)
  show ?case
  proof (intro allI impI)
    fix m assume "n \<le> m \<and> m \<le> n + 0"
    then have "m = n" by simp
    with 1 show "i @ ''#'' @ show_nat m \<in> set used" by simp
  qed
next
  case (2 i used fuel n)
  then have now: "i @ ''#'' @ show_nat n \<in> set used" by (auto simp: Let_def split: if_splits)
  with 2 have "\<forall>m. Suc n \<le> m \<and> m \<le> Suc n + fuel \<longrightarrow> i @ ''#'' @ show_nat m \<in> set used"
    by (simp add: Let_def)
  with now show ?case by (metis add_Suc_shift le_antisym not_less_eq_eq)
qed

lemma free_suffix_free: "free_suffix i used (length used) n \<notin> set used"
proof
  assume "free_suffix i used (length used) n \<in> set used"
  from free_suffix_used [OF this]
  have "(\<lambda>m. i @ ''#'' @ show_nat m) ` {n..n + length used} \<subseteq> set used" by auto
  then have "card ((\<lambda>m. i @ ''#'' @ show_nat m) ` {n..n + length used}) \<le> length used"
    by (meson List.finite_set card_length card_mono le_trans)
  moreover have "inj_on (\<lambda>m. i @ ''#'' @ show_nat m) {n..n + length used}"
    by (rule inj_onI) (simp add: show_nat_inj)
  ultimately show False by (simp add: card_image)
qed

definition is_path :: "chain \<Rightarrow> bool" where
  "is_path c \<longleftrightarrow> (let ids = map wn_ID (cn_nodes c) in
     distinct ids \<and> set (cn_used c) = set ids \<and> length (cn_used c) = length ids \<and>
     cn_edges c = zip ids (tl ids))"

lemma zip_tl_snoc: "xs \<noteq> [] \<Longrightarrow> zip (xs @ [y]) (tl (xs @ [y])) = zip xs (tl xs) @ [(last xs, y)]"
  by (induction xs) (auto simp: neq_Nil_conv)

lemma is_path_add:
  assumes "is_path c"
  shows "is_path (chain_add kind label c)" and "cn_group (chain_add kind label c) = cn_group c"
    and "\<exists>i. cn_nodes (chain_add kind label c) = cn_nodes c @ [\<lparr>wn_ID = i, wn_Label = label, wn_Kind = kind, wn_Group = cn_group c\<rparr>]"
proof -
  define i0 where "i0 = cn_group c @ '':'' @ kind @ '':'' @ label"
  define i where "i = (if i0 \<in> set (cn_used c) then free_suffix i0 (cn_used c) (length (cn_used c)) 2 else i0)"
  have new: "i \<notin> set (cn_used c)" by (simp add: i_def free_suffix_free)
  have eq: "chain_add kind label c = c\<lparr>cn_used := i # cn_used c,
      cn_edges := (if cn_nodes c \<noteq> [] then cn_edges c @ [(wn_ID (last (cn_nodes c)), i)] else cn_edges c),
      cn_nodes := cn_nodes c @ [\<lparr>wn_ID = i, wn_Label = label, wn_Kind = kind, wn_Group = cn_group c\<rparr>]\<rparr>"
    by (simp add: chain_add_def i_def i0_def Let_def)
  show "cn_group (chain_add kind label c) = cn_group c"
    and "\<exists>i. cn_nodes (chain_add kind label c) = cn_nodes c @ [\<lparr>wn_ID = i, wn_Label = label, wn_Kind = kind, wn_Group = cn_group c\<rparr>]"
    by (simp_all add: eq)
  show "is_path (chain_add kind label c)"
  proof (cases "cn_nodes c = []")
    case True
    with assms show ?thesis by (simp add: is_path_def eq Let_def)
  next
    case False
    then have "zip (map wn_ID (cn_nodes c) @ [i]) (tl (map wn_ID (cn_nodes c) @ [i])) =
        cn_edges c @ [(wn_ID (last (cn_nodes c)), i)]"
      using assms zip_tl_snoc [of "map wn_ID (cn_nodes c)" i] by (simp add: is_path_def Let_def last_map)
    with assms new False show ?thesis by (simp add: is_path_def eq Let_def)
  qed
qed

lemma is_path_fold:
  "is_path c \<Longrightarrow> is_path (fold (chain_add kind) labels c) \<and>
    map wn_Label (cn_nodes (fold (chain_add kind) labels c)) = map wn_Label (cn_nodes c) @ labels \<and>
    map wn_Kind (cn_nodes (fold (chain_add kind) labels c)) = map wn_Kind (cn_nodes c) @ map (\<lambda>_. kind) labels"
proof (induction labels arbitrary: c)
  case (Cons l ls)
  note add = is_path_add [OF Cons.prems, of kind l]
  obtain i where i: "cn_nodes (chain_add kind l c) = cn_nodes c @ [\<lparr>wn_ID = i, wn_Label = l, wn_Kind = kind, wn_Group = cn_group c\<rparr>]"
    using add(3) by blast
  show ?case using Cons.IH [OF add(1)] by (simp add: i)
qed simp

text \<open>
  The dashboard draws what the engine runs.  The graph of a repository is a single path: its nodes
  are the pipeline the engine resolves, then the gates in the order it runs them, then the bullet
  lifecycle; every node has an id of its own, even when a name is listed twice, and the edges join each
  node to the next and nothing else.
\<close>

theorem buildWorkflowGraph_path:
  "let g = buildWorkflowGraph project repo cfg; ids = map wn_ID (wg_Nodes g) in
     distinct ids \<and> wg_Edges g = zip ids (tl ids) \<and>
     map wn_Label (wg_Nodes g) = PipelineFor cfg @ SortedGateNames cfg @ BulletProgression \<and>
     map wn_Kind (wg_Nodes g) = map (\<lambda>_. ''stage'') (PipelineFor cfg) @ map (\<lambda>_. ''gate'') (SortedGateNames cfg) @
       map (\<lambda>_. ''lifecycle'') BulletProgression"
proof -
  let ?c1 = "fold (chain_add ''stage'') (PipelineFor cfg) (newChain repo)"
  let ?c2 = "fold (chain_add ''gate'') (SortedGateNames cfg) ?c1"
  let ?c3 = "fold (chain_add ''lifecycle'') BulletProgression ?c2"
  have 0: "is_path (newChain repo)" "cn_nodes (newChain repo) = []" by (simp_all add: is_path_def newChain_def)
  have 1: "is_path ?c1" using is_path_fold [OF 0(1)] by blast
  have 2: "is_path ?c2" using is_path_fold [OF 1] by blast
  have "is_path ?c3" using is_path_fold [OF 2] by blast
  then have path: "distinct (map wn_ID (cn_nodes ?c3))"
      "cn_edges ?c3 = zip (map wn_ID (cn_nodes ?c3)) (tl (map wn_ID (cn_nodes ?c3)))"
    by (simp_all add: is_path_def Let_def)
  have "map wn_Label (cn_nodes ?c3) = PipelineFor cfg @ SortedGateNames cfg @ BulletProgression"
    "map wn_Kind (cn_nodes ?c3) = map (\<lambda>_. ''stage'') (PipelineFor cfg) @ map (\<lambda>_. ''gate'') (SortedGateNames cfg) @
       map (\<lambda>_. ''lifecycle'') BulletProgression"
    using is_path_fold [OF 0(1)] is_path_fold [OF 1] is_path_fold [OF 2] by (simp_all add: 0(2))
  with path show ?thesis by (simp add: buildWorkflowGraph_def Let_def)
qed

text \<open>
  Gates run in one order.  The order of a repository's gates is sorted, names each gate once and
  does not depend on the order in which the map of gates is enumerated.
\<close>

theorem SortedGateNames_order:
  assumes "repo_Factory r = Some f" and "repo_Factory r' = Some f'"
    and "distinct (map fst (fa_Gates f))" and "distinct (map fst (fa_Gates f'))"
    and same: "map_of (fa_Gates f) = map_of (fa_Gates f')"
  shows "SortedGateNames r = SortedGateNames r' \<and> sorted (SortedGateNames r) \<and> distinct (SortedGateNames r) \<and>
    set (SortedGateNames r) = dom (map_of (fa_Gates f))"
proof -
  have "set (map fst (fa_Gates f)) = set (map fst (fa_Gates f'))"
    using same by (metis dom_map_of_conv_image_fst set_map)
  then have "mset (map fst (fa_Gates f)) = mset (map fst (fa_Gates f'))"
    using assms(3,4) set_eq_iff_mset_eq_distinct by blast
  then have "sort (map fst (fa_Gates f)) = sort (map fst (fa_Gates f'))"
    by (metis properties_for_sort mset_sort sorted_sort)
  then show ?thesis using assms by (simp add: SortedGateNames_def dom_map_of_conv_image_fst)
qed

theorem SortedGateNames_order_witness:
  "SortedGateNames \<lparr>repo_Name = [], repo_Path = [], repo_Factory = Some \<lparr>fa_Pipeline = [], fa_Gates = [(''vet'', ''v''), (''lint'', ''l'')]\<rparr>,
       repo_Retries = 0, repo_FixRetries = 0\<rparr> =
   SortedGateNames \<lparr>repo_Name = [], repo_Path = [], repo_Factory = Some \<lparr>fa_Pipeline = [], fa_Gates = [(''lint'', ''l''), (''vet'', ''v'')]\<rparr>,
       repo_Retries = 0, repo_FixRetries = 0\<rparr>"
  (is "SortedGateNames ?r = SortedGateNames ?r'")
proof -
  have "map_of [(''vet'', ''v''), (''lint'', ''l'')] = map_of [(''lint'', ''l''), (''vet'', ''v'')]"
    by (rule ext) simp
  then show ?thesis
    using SortedGateNames_order [of ?r _ ?r'] by simp
qed

end
