(* ===== verification/Runner.thy ===== *)
theory Runner
  imports Handoff Intents Projects
begin

text \<open>
  \<open>internal/runner\<close>: running a gate or an agent in a run's worktree and recording what happened.  An
  agent or a gate is a command of the host; what it prints, what it leaves in the worktree and how it
  ends is a parameter.
\<close>

section \<open>Captured output\<close>

text \<open>The three alternatives of \<open>ansiEscape\<close>, anchored.\<close>

definition esc :: char where "esc = CHR 0x1B"

definition ansiEscape :: matcher where
  "ansiEscape bol s = (case s of
     e # c # rest \<Rightarrow>
       if e \<noteq> esc then None
       else if c = CHR ''['' then
         (let p = takeWhile (\<lambda>x. is_digit x \<or> x = CHR '';'' \<or> x = CHR ''?'') rest in
          case drop (length p) rest of
            l # _ \<Rightarrow> if is_upper l \<or> is_lower l then Some (length p + 3, []) else None
          | [] \<Rightarrow> None)
       else if c = CHR '']'' then
         (let p = takeWhile (\<lambda>x. x \<noteq> CHR 0x07) rest in
          if drop (length p) rest = [] then None else Some (length p + 3, []))
       else if c = CHR ''('' \<or> c = CHR '')'' then
         (case rest of l # _ \<Rightarrow> if is_alnum l then Some (3, []) else None | [] \<Rightarrow> None)
       else None
   | _ \<Rightarrow> None)"

definition stripANSI :: "string \<Rightarrow> string" where
  "stripANSI s = replace_all ansiEscape True s"

definition maxRawOutputBytes :: int where
  "maxRawOutputBytes = 64 * 1024"

text \<open>The limit is positive, so truncation does not panic.\<close>

definition captured :: "string \<Rightarrow> string" where
  "captured s = (case Truncate (Text (stripANSI s)) maxRawOutputBytes of Some t \<Rightarrow> t | None \<Rightarrow> [])"

text \<open>\<open>\\s\<close> of a Go expression, and the search for goose's banner.\<close>

definition re_space :: "char \<Rightarrow> bool" where
  "re_space c \<longleftrightarrow> c \<in> {CHR 0x09, CHR 0x0A, CHR 0x0C, CHR 0x0D, CHR '' ''}"

definition banner_at :: "string \<Rightarrow> (string \<times> string) option" where
  "banner_at s =
     (if \<not> HasPrefix s ''new session'' then None else
      let r = dropWhile re_space (drop 11 s) in
      if \<not> HasPrefix r [CHR 0xC2, CHR 0xB7] then None else
      let r = dropWhile re_space (drop 2 r);
          p = takeWhile (\<lambda>c. \<not> re_space c) r;
          r = drop (length p) r;
          m = takeWhile (\<lambda>c. \<not> re_space c) (dropWhile re_space r) in
      if p = [] \<or> m = [] then None else Some (p, m))"

fun gooseBanner :: "string \<Rightarrow> (string \<times> string) option" where
  "gooseBanner [] = None"
| "gooseBanner (c # s) = (case banner_at (c # s) of Some pm \<Rightarrow> Some pm | None \<Rightarrow> gooseBanner s)"

definition truthyEnv :: "host \<Rightarrow> string \<Rightarrow> bool" where
  "truthyEnv h key = (let v = map to_lower (TrimSpace (getenv h key)) in v = ''1'' \<or> v = ''true'')"

definition claudeProvider :: "host \<Rightarrow> string" where
  "claudeProvider h =
     (if truthyEnv h ''CLAUDE_CODE_USE_BEDROCK'' then ''bedrock''
      else if truthyEnv h ''CLAUDE_CODE_USE_VERTEX'' then ''vertex''
      else ''anthropic'')"

definition detectModelProvider :: "host \<Rightarrow> string \<Rightarrow> string \<Rightarrow> string \<Rightarrow> string \<times> string" where
  "detectModelProvider h agentExe rawOutput requestedModel =
     (if Base agentExe = ''goose'' then
        (case gooseBanner rawOutput of None \<Rightarrow> ([], []) | Some (p, m) \<Rightarrow> (p, m))
      else if Base agentExe = ''claude'' then (claudeProvider h, requestedModel)
      else ([], []))"

text \<open>The members of an object are a set: their order is not modelled.\<close>

definition put_member :: "string \<Rightarrow> json \<Rightarrow> (string \<times> json) list \<Rightarrow> (string \<times> json) list" where
  "put_member k v ms = filter (\<lambda>(k', _). k' \<noteq> k) ms @ [(k, v)]"

definition annotatePayloadWithProvenance :: "raw_json \<Rightarrow> string \<Rightarrow> string \<Rightarrow> raw_json" where
  "annotatePayloadWithProvenance payload model provider = (case as_map payload of
     None \<Rightarrow> payload
   | Some m \<Rightarrow> RawDoc (JObj (put_member ''provider'' (JStr provider) (put_member ''model'' (JStr model) m))))"

section \<open>The phase runner\<close>

record PhaseRunner =
  pr_Router :: path
  pr_Worktree :: path
  pr_RepoName :: string
  pr_RunID :: string
  pr_AgentCLI :: string
  pr_Model :: string
  pr_FixCycle :: int
  pr_AgentTimeout :: int
  pr_GateTimeout :: int

definition envDuration :: "host \<Rightarrow> string \<Rightarrow> int \<Rightarrow> int" where
  "envDuration h key fallback =
     (let v = TrimSpace (getenv h key) in
      if v \<noteq> [] then (case parse_duration h v of Some d \<Rightarrow> if d > 0 then d else fallback | None \<Rightarrow> fallback)
      else fallback)"

definition agentTimeout :: "host \<Rightarrow> PhaseRunner \<Rightarrow> int" where
  "agentTimeout h pr = (if pr_AgentTimeout pr > 0 then pr_AgentTimeout pr else envDuration h ''SGT_AGENT_TIMEOUT'' 0)"

definition gateTimeout :: "host \<Rightarrow> PhaseRunner \<Rightarrow> int" where
  "gateTimeout h pr =
     (if pr_GateTimeout pr > 0 then pr_GateTimeout pr else envDuration h ''SGT_GATE_TIMEOUT'' (5 * 60 * 1000000000))"

definition SupportedAgents :: "string list" where
  "SupportedAgents = [''opencode'', ''oc'', ''claude'', ''goose'', ''codex'', ''pi'', ''copilot'']"

definition ValidateAgent :: "string \<Rightarrow> err option" where
  "ValidateAgent agentCLI =
     (if agentCLI = [] then None
      else if Base agentCLI \<in> set SupportedAgents then None
      else Some (Errorf ''unsupported agent %q: this engine can drive %s'' [agentCLI, join_with '', '' SupportedAgents] None))"

definition BuildAgentCommand :: "string \<Rightarrow> string \<Rightarrow> string \<Rightarrow> string \<times> string list \<times> string list" where
  "BuildAgentCommand agentCLI model prompt =
     (let exe = (if agentCLI = [] then ''opencode'' else agentCLI);
          b = Base exe;
          flag = (if model \<noteq> [] then [''--model'', model] else []) in
      if b = ''opencode'' \<or> b = ''oc'' then (exe, [''run'', ''--auto''] @ flag @ [prompt], [])
      else if b = ''claude'' then (exe, [''--print'', ''--dangerously-skip-permissions''] @ flag @ [prompt], [])
      else if b = ''goose'' then
        (exe, [''run'', ''--no-session'', ''--output-format'', ''json'', ''-t'', prompt],
         if model \<noteq> [] then [''GOOSE_MODEL='' @ model] else [])
      else if b = ''codex'' then (exe, [''exec''] @ flag @ [prompt], [])
      else if b = ''pi'' then (exe, flag @ [''-p'', prompt], [])
      else if b = ''copilot'' then (exe, [''-p'', prompt, ''--allow-all-tools'', ''--no-ask-user''], [])
      else (exe, [prompt], []))"

definition git :: "string list \<Rightarrow> request" where
  "git args = \<lparr>req_exe = ''git'', req_args = args, req_env = [], req_dir = [], req_budget = None\<rparr>"

text \<open>An empty worktree path stands for the empty string.\<close>

definition currentBranch :: "PhaseRunner \<Rightarrow> string io" where
  "currentBranch pr =
     (if pr_Worktree pr = [] then State_Monad.return []
      else do {
        o' \<leftarrow> run_command False (git [''-C'', path_text (pr_Worktree pr), ''rev-parse'', ''--abbrev-ref'', ''HEAD'']);
        State_Monad.return (if exit_error o' = None then TrimSpace (out_text o') else []) })"



section \<open>Artifacts\<close>

definition maxArtifactCount :: int where "maxArtifactCount = 20"

definition maxArtifactTotalBytes :: int where "maxArtifactTotalBytes = 25 * 1024 * 1024"

definition artifactsRoot :: "host \<Rightarrow> path" where
  "artifactsRoot h = (if getenv h ''SGT_ARTIFACTS_ROOT'' \<noteq> [] then Join [] (getenv h ''SGT_ARTIFACTS_ROOT'')
     else Join (Join (Join (Join (home_dir h) ''.local'') ''share'') ''sgt'') ''artifacts'')"

text \<open>The regular files of the directory, with their sizes; a file that cannot be inspected is left out.\<close>

fun captured_files :: "path \<Rightarrow> (string \<times> node) list \<Rightarrow> (string \<times> int) list io" where
  "captured_files dir [] = State_Monad.return []"
| "captured_files dir ((name, n) # es) =
     (if n = Dir then captured_files dir es
      else do {
        st \<leftarrow> Stat (Join dir name);
        h \<leftarrow> get_host;
        rest \<leftarrow> captured_files dir es;
        State_Monad.return (case st of Inr (File c) \<Rightarrow> (name, size_of h c) # rest | _ \<Rightarrow> rest) })"

definition recordDroppedArtifacts :: "string \<Rightarrow> string \<Rightarrow> string \<Rightarrow> int \<Rightarrow> string \<Rightarrow> unit io" where
  "recordDroppedArtifacts runID phaseID repo droppedCount reason = do {
     nano \<leftarrow> now_io;
     at \<leftarrow> now_io;
     _ \<leftarrow> store_io (RecordArtifact \<lparr>art_ID = ''art-'' @ runID @ ''-'' @ phaseID @ ''-dropped-'' @ show_int nano,
       art_RunID = runID, art_PhaseID = phaseID, art_Repo = repo, art_Filename = [], art_ContentType = [],
       art_SizeBytes = 0, art_Path = [], art_CapturedAt = at, art_DroppedCount = droppedCount,
       art_DroppedReason = reason\<rparr>);
     State_Monad.return () }"

text \<open>Open the source, create the copy, copy, close; each step may fail.\<close>

definition copy_artifact :: "path \<Rightarrow> path \<Rightarrow> string \<Rightarrow> (string + unit) io" where
  "copy_artifact srcPath destPath name = do {
     h \<leftarrow> get_host;
     src \<leftarrow> ReadFile srcPath;
     case src of
       Inl e \<Rightarrow> State_Monad.return (Inl (name @ '': reading source file: '' @ err_text h e))
     | Inr data \<Rightarrow> do {
         dst \<leftarrow> WriteFile destPath RawEmpty;
         case dst of
           Inl e \<Rightarrow> State_Monad.return (Inl (name @ '': creating durable copy: '' @ err_text h e))
         | Inr _ \<Rightarrow> do {
             cp \<leftarrow> WriteFile destPath data;
             cl \<leftarrow> Stat destPath;
             State_Monad.return (case cp of
               Inl e \<Rightarrow> Inl (name @ '': copying file: '' @ err_text h e)
             | Inr _ \<Rightarrow> (case cl of
                 Inl e \<Rightarrow> Inl (name @ '': closing durable copy: '' @ err_text h e)
               | Inr _ \<Rightarrow> Inr ())) } } }"

text \<open>The loop carries the files kept, the bytes kept and the notes on the files dropped.\<close>

fun capture_loop :: "string \<Rightarrow> string \<Rightarrow> string \<Rightarrow> path \<Rightarrow> path \<Rightarrow> (string \<times> int) list \<Rightarrow> int \<Rightarrow> int \<Rightarrow> string list \<Rightarrow>
    string list io" where
  "capture_loop runID phaseID repo dir destDir [] kept totalBytes dropped = State_Monad.return dropped"
| "capture_loop runID phaseID repo dir destDir ((name, bytes) # fs) kept totalBytes dropped =
     (if kept \<ge> maxArtifactCount then
        capture_loop runID phaseID repo dir destDir fs kept totalBytes
          (dropped @ [name @ '': exceeded max artifact count ('' @ show_int maxArtifactCount @ '')''])
      else if totalBytes + bytes > maxArtifactTotalBytes then
        capture_loop runID phaseID repo dir destDir fs kept totalBytes
          (dropped @ [name @ '': exceeded max total artifact bytes ('' @ show_int maxArtifactTotalBytes @ '')''])
      else do {
        c \<leftarrow> copy_artifact (Join dir name) (Join destDir name) name;
        case c of
          Inl note \<Rightarrow> capture_loop runID phaseID repo dir destDir fs kept totalBytes (dropped @ [note])
        | Inr _ \<Rightarrow> do {
            h \<leftarrow> get_host;
            nano \<leftarrow> now_io;
            at \<leftarrow> now_io;
            res \<leftarrow> store_io (RecordArtifact \<lparr>art_ID = ''art-'' @ runID @ ''-'' @ phaseID @ ''-'' @ show_int nano,
              art_RunID = runID, art_PhaseID = phaseID, art_Repo = repo, art_Filename = name,
              art_ContentType = (let t = mime_type h (Ext name) in if t = [] then ''application/octet-stream'' else t),
              art_SizeBytes = bytes, art_Path = path_text (Join destDir name), art_CapturedAt = at,
              art_DroppedCount = 0, art_DroppedReason = []\<rparr>);
            case res of
              Inl e \<Rightarrow> capture_loop runID phaseID repo dir destDir fs kept totalBytes
                (dropped @ [name @ '': recording artifact: '' @ err_text h e])
            | Inr _ \<Rightarrow> capture_loop runID phaseID repo dir destDir fs (kept + 1) (totalBytes + bytes) dropped } })"

definition captureArtifacts :: "string \<Rightarrow> string \<Rightarrow> string \<Rightarrow> path \<Rightarrow> unit io" where
  "captureArtifacts runID phaseID repo dir = do {
     entries \<leftarrow> ReadDir dir;
     case entries of
       Inl _ \<Rightarrow> State_Monad.return ()
     | Inr es \<Rightarrow> do {
         unsorted \<leftarrow> captured_files dir es;
         if unsorted = [] then State_Monad.return ()
         else do {
           h \<leftarrow> get_host;
           let files = sort_key fst unsorted;
           let destDir = Join (Join (artifactsRoot h) runID) phaseID;
           mk \<leftarrow> MkdirAll destDir;
           case mk of
             Inl e \<Rightarrow> recordDroppedArtifacts runID phaseID repo (int (length files))
               (''durable artifact destination unwritable: '' @ err_text h e)
           | Inr _ \<Rightarrow> do {
               dropped \<leftarrow> capture_loop runID phaseID repo dir destDir files 0 0 [];
               if dropped \<noteq> [] then
                 recordDroppedArtifacts runID phaseID repo (int (length dropped)) (join_with ''; '' dropped)
               else State_Monad.return () } } } }"

section \<open>Gates\<close>

record GateResult =
  gr_GateName :: string
  gr_Command :: string
  gr_Passed :: bool
  gr_Output :: string
  gr_Worktree :: string
  gr_Branch :: string

text \<open>\<open>omitempty\<close> leaves out an empty location.\<close>

definition gate_json :: "GateResult \<Rightarrow> json" where
  "gate_json r = JObj ([(''gate_name'', JStr (gr_GateName r)), (''command'', JStr (gr_Command r)),
     (''passed'', JBool (gr_Passed r)), (''output'', JStr (gr_Output r))] @
     (if gr_Worktree r = [] then [] else [(''worktree'', JStr (gr_Worktree r))]) @
     (if gr_Branch r = [] then [] else [(''branch'', JStr (gr_Branch r))]))"

definition gateBudget :: int where "gateBudget = 30 * 1000000000"

text \<open>A gate is identified by its repository, its name and the clock.\<close>

definition phaseID_of :: "PhaseRunner \<Rightarrow> string \<Rightarrow> time \<Rightarrow> string" where
  "phaseID_of pr name nano = pr_RepoName pr @ ''-'' @ name @ ''-'' @ show_int nano"

definition RunCodeGate :: "PhaseRunner \<Rightarrow> string \<Rightarrow> string \<Rightarrow> (err + GateResult) io" where
  "RunCodeGate pr name command = do {
     start \<leftarrow> now_io;
     let artifactDir = Join (Join (pr_Worktree pr) ''.sgt'') ''artifacts'';
     _ \<leftarrow> RemoveAll artifactDir;
     _ \<leftarrow> MkdirAll artifactDir;
     o' \<leftarrow> run_command True \<lparr>req_exe = ''bash'', req_args = [''-c'', command],
       req_env = [''SGT_ARTIFACT_DIR='' @ path_text artifactDir], req_dir = pr_Worktree pr,
       req_budget = Some gateBudget\<rparr>;
     stop \<leftarrow> now_io;
     branch \<leftarrow> currentBranch pr;
     let cleaned = captured (out_text o');
     let result = \<lparr>gr_GateName = name, gr_Command = Text command, gr_Passed = (exit_error o' = None),
       gr_Output = cleaned, gr_Worktree = (if pr_Worktree pr = [] then [] else path_text (pr_Worktree pr)),
       gr_Branch = branch\<rparr>;
     nano \<leftarrow> now_io;
     _ \<leftarrow> store_io (RecordPhase \<lparr>ph_ID = phaseID_of pr name nano, ph_RunID = pr_RunID pr,
       ph_Repo = pr_RepoName pr, ph_Name = name, ph_Kind = ''code'',
       ph_Status = (if exit_error o' = None then ''passed'' else ''failed''),
       ph_Error = (case exit_error o' of None \<Rightarrow> [] | Some e \<Rightarrow> e @ '': '' @ cleaned),
       ph_DurationMs = milliseconds (stop - start), ph_Payload = RawDoc (gate_json result),
       ph_Attempt = 0, ph_FixCycle = pr_FixCycle pr, ph_CreatedAt = 0\<rparr>);
     _ \<leftarrow> captureArtifacts (pr_RunID pr) (phaseID_of pr name nano) (pr_RepoName pr) artifactDir;
     State_Monad.return (Inr result) }"

definition RunShippingGate :: "string \<Rightarrow> string \<Rightarrow> string list \<Rightarrow> (err + GateResult) io" where
  "RunShippingGate name command worktrees = do {
     o' \<leftarrow> run_command True \<lparr>req_exe = ''bash'', req_args = [''-c'', command],
       req_env = [''SGT_BULLET_WORKTREES='' @ join_with '','' worktrees], req_dir = [],
       req_budget = Some gateBudget\<rparr>;
     State_Monad.return (Inr \<lparr>gr_GateName = name, gr_Command = Text command, gr_Passed = (exit_error o' = None),
       gr_Output = captured (out_text o'), gr_Worktree = join_with '','' worktrees, gr_Branch = []\<rparr>) }"

definition DiffAgainstBase :: "PhaseRunner \<Rightarrow> (err + string) io" where
  "DiffAgainstBase pr = do {
     o' \<leftarrow> run_command True (git [''-C'', path_text (pr_Worktree pr), ''diff'', ''--merge-base'', ''HEAD'']);
     State_Monad.return (case exit_error o' of
       Some e \<Rightarrow> Inl (Errorf ''git diff in %s: %w'' [path_text (pr_Worktree pr)] (Some (Other e)))
     | None \<Rightarrow> Inr (out_text o')) }"


section \<open>Agents\<close>

definition planPromptExtension :: string where
  \<open>planPromptExtension = join_with nl [
     [],
     [],
     ''## Progress reporting'',
     [],
     ''A checklist has been seeded into .sgt/plan.json in your working directory.'',
     ''It contains one item per declared scenario for this change, each with:'',
     ''  - "id":       a stable identifier '' @ [CHR 0xE2] @ [CHR 0x80] @ [CHR 0x94] @ '' do not change it'',
     ''  - "scenario": the scenario text '' @ [CHR 0xE2] @ [CHR 0x80] @ [CHR 0x94] @ '' do not change it'',
     ''  - "status":   one of "pending", "in_progress", or "complete"'',
     [],
     ''As you work, update the file to reflect your progress:'',
     ''1. Before starting an item, set its "status" to "in_progress".'',
     ''2. When the item is done (test written and passing), set it to "complete".'',
     ''3. Only one item should be "in_progress" at a time.'',
     [],
     ''Example update for a single item:'',
     ''  {"id": "s-1", "scenario": "The checklist has one item per scenario", "status": "complete"}'',
     [],
     ''Read the file first, update the relevant item, and write the whole file back.'',
     ''Do not change any other field. Do not add or remove items.'',
     []]\<close>

text \<open>\<open>time.Duration.String\<close>: a fraction drops its trailing zeros.\<close>

fun zero_pad :: "nat \<Rightarrow> string \<Rightarrow> string" where
  "zero_pad n s = replicate (n - length s) (CHR ''0'') @ s"

definition fraction_text :: "nat \<Rightarrow> nat \<Rightarrow> string" where
  "fraction_text v prec =
     (let ds = rev (dropWhile (\<lambda>c. c = CHR ''0'') (rev (zero_pad prec (show_nat (v mod 10 ^ prec))))) in
      if ds = [] then [] else CHR ''.'' # ds)"

definition duration_nat :: "nat \<Rightarrow> string" where
  "duration_nat u =
     (if u = 0 then ''0s''
      else if u < 1000 then show_nat u @ ''ns''
      else if u < 1000000 then show_nat (u div 1000) @ fraction_text u 3 @ [CHR 0xC2, CHR 0xB5] @ ''s''
      else if u < 1000000000 then show_nat (u div 1000000) @ fraction_text u 6 @ ''ms''
      else
        let s = u div 1000000000; m = s div 60; h = m div 60 in
        (if h > 0 then show_nat h @ ''h'' else []) @
        (if m > 0 then show_nat (m mod 60) @ ''m'' else []) @
        show_nat (s mod 60) @ fraction_text u 9 @ ''s'')"

definition duration_text :: "int \<Rightarrow> string" where
  "duration_text d = (if d < 0 then CHR ''-'' # duration_nat (nat (- d)) else duration_nat (nat d))"

text \<open>The result of \<open>RunAgentPhase\<close>: the envelope or \<open>nil\<close>, the blocked reason and the error or \<open>nil\<close>.\<close>

type_synonym agent_result = "Envelope option \<times> string \<times> err option"

definition attemptID :: "string \<Rightarrow> nat \<Rightarrow> string" where
  "attemptID phaseID attempt =
     (if attempt > 0 then phaseID @ ''-attempt'' @ show_nat (attempt + 1) else phaseID)"

text \<open>
  The envelope of an attempt: the agent's own, when it left one and succeeded, or a summary.  The error
  of decoding it is ignored.  An envelope the agent wrote may name any repository.
\<close>

definition attempt_envelope :: "PhaseRunner \<Rightarrow> string \<Rightarrow> string \<Rightarrow> outcome \<Rightarrow> string \<Rightarrow> nat \<Rightarrow> int \<Rightarrow> err + raw_json \<Rightarrow>
    Envelope io" where
  "attempt_envelope pr phaseName exe o' failureReason attempt retries data =
     (case (data, exit_error o') of
        (Inr c, None) \<Rightarrow> State_Monad.return (fst (Unmarshal decode_envelope c zero_envelope))
      | _ \<Rightarrow> do {
          branch \<leftarrow> currentBranch pr;
          State_Monad.return
            \<lparr>he_TaskID = pr_RunID pr, he_Repo = pr_RepoName pr, he_Stage = phaseName,
             he_Summary = (if exit_error o' \<noteq> None
               then ''Phase '' @ phaseName @ '' failed for '' @ pr_RepoName pr @ '': '' @ failureReason
               else ''Phase '' @ phaseName @ '' completed for '' @ pr_RepoName pr),
             he_Artifacts = [''.sgt/prompt_'' @ phaseName @ ''.txt''],
             he_Payload = RawDoc (JObj [(''agent'', JStr exe),
               (''attempt'', JStr (show_nat (attempt + 1) @ ''/'' @ show_int (retries + 1))),
               (''branch'', JStr branch), (''raw_output'', JStr (captured (out_text o'))),
               (''worktree'', JStr (if pr_Worktree pr = [] then [] else path_text (pr_Worktree pr)))])\<rparr> })"

definition redact_envelope :: "Envelope \<Rightarrow> Envelope" where
  "redact_envelope e = e\<lparr>he_Summary := Text (he_Summary e), he_Payload := redact_JSON (he_Payload e),
     he_Artifacts := map Text (he_Artifacts e)\<rparr>"

definition agent_phase :: "PhaseRunner \<Rightarrow> string \<Rightarrow> string \<Rightarrow> nat \<Rightarrow> string \<Rightarrow> string \<Rightarrow> int \<Rightarrow> raw_json \<Rightarrow> PhaseRecord" where
  "agent_phase pr phaseName phaseID attempt status reason duration payload =
     \<lparr>ph_ID = attemptID phaseID attempt, ph_RunID = pr_RunID pr, ph_Repo = pr_RepoName pr, ph_Name = phaseName,
      ph_Kind = ''agent'', ph_Status = status, ph_Error = reason, ph_DurationMs = duration, ph_Payload = payload,
      ph_Attempt = int attempt + 1, ph_FixCycle = pr_FixCycle pr, ph_CreatedAt = 0\<rparr>"

text \<open>
  What follows a command that was not cancelled: redact, deliver and record the envelope, record the
  attempt, capture its artifacts.  \<open>RecordEnvelope\<close> redacts the shared slice of artifacts once more when
  it gets that far, which needs a run id.  \<open>Inl\<close> asks for another attempt.
\<close>

definition finish_attempt :: "PhaseRunner \<Rightarrow> string \<Rightarrow> string \<Rightarrow> nat \<Rightarrow> int \<Rightarrow> string \<Rightarrow> outcome \<Rightarrow> int \<Rightarrow>
    string \<Rightarrow> string \<times> string \<Rightarrow> path \<Rightarrow> (err + agent_result) io" where
  "finish_attempt pr phaseName phaseID attempt retries exe o' duration failureReason provider_model artifactDir = do {
     data \<leftarrow> ReadFile (Join (Join (pr_Worktree pr) ''.sgt'') ''envelope.json'');
     raw \<leftarrow> attempt_envelope pr phaseName exe o' failureReason attempt retries data;
     let e = redact_envelope raw;
     let blockedReason = BlockedReason (he_Payload e);
     let e = e\<lparr>he_Payload := annotatePayloadWithProvenance (he_Payload e) (snd provider_model) (fst provider_model)\<rparr>;
     now \<leftarrow> now_io;
     let envelopeID = phaseID_of pr phaseName now;
     de \<leftarrow> deliver_io envelopeID (pr_RepoName pr) True (SaveEnvelope (pr_Router pr) e);
     causation \<leftarrow> store_io (CausationFromLatest (pr_RunID pr) (pr_RepoName pr));
     _ \<leftarrow> store_io (RecordEnvelope \<lparr>env_ID = envelopeID, env_RunID = pr_RunID pr, env_Repo = pr_RepoName pr,
       env_Stage = phaseName, env_Summary = he_Summary e, env_Artifacts = he_Artifacts e, env_Data = he_Payload e,
       env_CreatedAt = 0, env_Type = ''phase.completed'', env_SchemaVersion = ''1'', env_OccurredAt = now,
       env_PublishedAt = 0, env_Producer = ''sgt/runner'', env_CorrelationID = pr_RunID pr,
       env_CausationID = (case causation of Inr c \<Rightarrow> c | Inl _ \<Rightarrow> None), env_PhaseID = phaseID\<rparr>);
     let e = e\<lparr>he_Artifacts := (if pr_RunID pr = [] then he_Artifacts e else map Text (he_Artifacts e))\<rparr>;
     _ \<leftarrow> store_io (RecordPhase (agent_phase pr phaseName phaseID attempt
       (if exit_error o' \<noteq> None then ''failed'' else ''passed'') failureReason duration (he_Payload e)));
     _ \<leftarrow> captureArtifacts (pr_RunID pr) (attemptID phaseID attempt) (pr_RepoName pr) artifactDir;
     State_Monad.return (
       if exit_error o' \<noteq> None then
         let lastErr = Errorf ''%s (output: %s)'' [failureReason, Text (stripANSI (TrimSpace (out_text o')))] None in
         if int attempt < retries then Inl lastErr else Inr (None, blockedReason, Some lastErr)
       else case de of
         Inl x \<Rightarrow> Inr (None, blockedReason,
           Some (Errorf ''delivering envelope for phase %s on %s: %w'' [phaseName, pr_RepoName pr] (Some x)))
       | Inr _ \<Rightarrow> Inr (Some e, blockedReason, None)) }"

definition agent_attempt :: "PhaseRunner \<Rightarrow> string \<Rightarrow> string \<Rightarrow> string \<Rightarrow> time \<Rightarrow> int \<Rightarrow> nat \<Rightarrow> (err + agent_result) io" where
  "agent_attempt pr phaseName prompt phaseID start retries attempt = do {
     h \<leftarrow> get_host;
     let (exe, args, extraEnv) = BuildAgentCommand (pr_AgentCLI pr) (pr_Model pr) prompt;
     let artifactDir = Join (Join (pr_Worktree pr) ''.sgt'') ''artifacts'';
     _ \<leftarrow> RemoveAll artifactDir;
     _ \<leftarrow> MkdirAll artifactDir;
     let budget = agentTimeout h pr;
     o' \<leftarrow> run_command True \<lparr>req_exe = exe, req_args = args,
       req_env = extraEnv @ [''SGT_ARTIFACT_DIR='' @ path_text artifactDir], req_dir = pr_Worktree pr,
       req_budget = (if budget > 0 then Some budget else None)\<rparr>;
     stop \<leftarrow> now_io;
     let duration = milliseconds (stop - start);
     after \<leftarrow> get_host;
     if stopped after then do {
       _ \<leftarrow> store_io (RecordPhase ((agent_phase pr phaseName phaseID attempt ''cancelled''
         ''cancelled: context canceled'' duration RawEmpty)\<lparr>ph_FixCycle := 0\<rparr>));
       State_Monad.return (Inr (None, [], Some Canceled)) }
     else finish_attempt pr phaseName phaseID attempt retries exe o' duration
       (if budget > 0 \<and> overran o' then ''agent '' @ exe @ '' exceeded its '' @ duration_text budget @ '' budget and was killed''
        else case exit_error o' of Some e \<Rightarrow> ''agent '' @ exe @ '' exited with error: '' @ e | None \<Rightarrow> [])
       (detectModelProvider h exe (out_text o') (pr_Model pr)) artifactDir }"

text \<open>The loop over attempts, \<open>left\<close> of them to go; it is not entered when \<open>retries\<close> is negative.\<close>

fun agent_loop :: "PhaseRunner \<Rightarrow> string \<Rightarrow> string \<Rightarrow> string \<Rightarrow> time \<Rightarrow> int \<Rightarrow> nat \<Rightarrow> nat \<Rightarrow> err option \<Rightarrow>
    agent_result io" where
  "agent_loop pr phaseName prompt phaseID start retries 0 attempt lastErr = State_Monad.return (None, [], lastErr)"
| "agent_loop pr phaseName prompt phaseID start retries (Suc left) attempt lastErr = do {
     r \<leftarrow> agent_attempt pr phaseName prompt phaseID start retries attempt;
     case r of
       Inl e \<Rightarrow> agent_loop pr phaseName prompt phaseID start retries left (Suc attempt) (Some e)
     | Inr result \<Rightarrow> State_Monad.return result }"

definition RunAgentPhase :: "PhaseRunner \<Rightarrow> string \<Rightarrow> string \<Rightarrow> int \<Rightarrow> agent_result io" where
  "RunAgentPhase pr phaseName prompt retries = do {
     start \<leftarrow> now_io;
     nano \<leftarrow> now_io;
     let phaseID = phaseID_of pr phaseName nano;
     _ \<leftarrow> store_io (RecordPhase (agent_phase pr phaseName phaseID 0 ''running'' [] 0 RawEmpty));
     let stateDir = Join (pr_Worktree pr) ''.sgt'';
     _ \<leftarrow> MkdirAll stateDir;
     st \<leftarrow> Stat (Join stateDir ''plan.json'');
     let prompt = (case st of Inr _ \<Rightarrow> prompt @ planPromptExtension | Inl _ \<Rightarrow> prompt);
     _ \<leftarrow> WriteFile (Join stateDir (''prompt_'' @ phaseName @ ''.txt'')) (RawBad prompt);
     agent_loop pr phaseName prompt phaseID start retries (nat (retries + 1)) 0 None }"


section \<open>What a phase may record\<close>

text \<open>
  What the runner's operations may do to the host, given what the primitives they are made of may do:
  files, commands, the clock, and the store's methods, where a phase may be recorded with an \<open>allowed\<close>
  status.  The facts hold under every failure of the store, the files and the commands.
\<close>

locale runner_relation = host_relation R for R :: "host \<Rightarrow> host \<Rightarrow> bool" +
  fixes allowed :: "string \<Rightarrow> bool" and runs :: "request \<Rightarrow> bool"
  assumes mkdir: "state_io_rel R (MkdirAll p)"
    and remove: "state_io_rel R (RemoveAll p)"
    and writes: "state_io_rel R (WriteFile p c)"
    and read: "state_io_rel R (ReadFile p)"
    and stat: "state_io_rel R (Stat p)"
    and readdir: "state_io_rel R (ReadDir p)"
    and command: "runs q \<Longrightarrow> state_io_rel R (run_command x q)"
    and asks_git: "runs (git args)"
    and now: "state_io_rel R now_io"
    and artifact: "state_io_rel R (store_io (RecordArtifact a))"
    and envelope: "state_io_rel R (store_io (RecordEnvelope e))"
    and latest: "state_io_rel R (store_io (CausationFromLatest i r))"
    and deliver: "state_io_rel R act \<Longrightarrow> state_io_rel R (deliver_io i consumer b act)"
    and phase: "allowed (ph_Status ph) \<Longrightarrow> state_io_rel R (store_io (RecordPhase ph))"
begin

abbreviation keeps :: "'a io \<Rightarrow> bool" where
  "keeps m \<equiv> state_io_rel R m"

lemmas keeps_files = mkdir remove writes read stat readdir

lemmas keeps_rules = keeps_intros now artifact envelope latest

lemma keeps_save: "keeps (SaveEnvelope p e)"
  unfolding SaveEnvelope_def Let_def by (intro keeps_rules keeps_files)

lemma keeps_branch: "keeps (currentBranch pr)"
  unfolding currentBranch_def by (intro keeps_rules command asks_git)

lemma keeps_captured_files: "keeps (captured_files dir es)"
  by (induction es rule: captured_files.induct) (auto intro!: keeps_rules keeps_files)

lemma keeps_dropped: "keeps (recordDroppedArtifacts a b c n r)"
  unfolding recordDroppedArtifacts_def by (intro keeps_rules)

lemma keeps_copy: "keeps (copy_artifact s d n)"
  unfolding copy_artifact_def by (intro keeps_rules keeps_files)

lemma keeps_capture_loop: "keeps (capture_loop a b c dir dest fs kept bytes dropped)"
  by (induction a b c dir dest fs kept bytes dropped rule: capture_loop.induct)
    (simp_all add: k_return, intro conjI impI keeps_rules keeps_copy)

lemma keeps_capture: "keeps (captureArtifacts a b c dir)"
  unfolding captureArtifacts_def Let_def
  by (intro keeps_rules keeps_files keeps_captured_files keeps_dropped keeps_capture_loop)

lemma keeps_gate:
  assumes "allowed ''passed''" and "allowed ''failed''" and "\<And>q. req_dir q = pr_Worktree pr \<Longrightarrow> runs q"
  shows "keeps (RunCodeGate pr name cmd)"
proof -
  have "keeps (store_io (RecordPhase p))" if "ph_Status p = (if b then ''passed'' else ''failed'')" for p b
    using assms that by (intro phase) simp
  then show ?thesis
    unfolding RunCodeGate_def Let_def
    by (intro keeps_rules keeps_files keeps_branch keeps_capture command assms) simp_all
qed

lemma keeps_attempt_envelope: "keeps (attempt_envelope pr n exe o' r a m data)"
  unfolding attempt_envelope_def by (intro keeps_rules keeps_branch)

lemma keeps_finish:
  assumes "allowed (if exit_error o' \<noteq> None then ''failed'' else ''passed'')"
  shows "keeps (finish_attempt pr n pid a m exe o' d reason pm dir)"
  unfolding finish_attempt_def Let_def
  by (intro keeps_rules keeps_files keeps_attempt_envelope keeps_capture deliver keeps_save phase)
    (use assms in \<open>simp add: agent_phase_def\<close>)

lemma keeps_attempt:
  assumes "allowed ''passed''" "allowed ''failed''" "allowed ''cancelled''" "\<And>q. req_dir q = pr_Worktree pr \<Longrightarrow> runs q"
  shows "keeps (agent_attempt pr n prompt pid start retries a)"
  unfolding agent_attempt_def Let_def
  by (intro keeps_rules keeps_files keeps_finish phase command assms) (use assms in \<open>simp_all add: agent_phase_def\<close>)

lemma keeps_agent_loop:
  assumes "allowed ''passed''" "allowed ''failed''" "allowed ''cancelled''" "\<And>q. req_dir q = pr_Worktree pr \<Longrightarrow> runs q"
  shows "keeps (agent_loop pr n prompt pid start retries left a e)"
proof -
  have "keeps (agent_attempt pr n prompt pid start retries a)" for a
    by (intro keeps_attempt assms)
  then show ?thesis
    by (induction left arbitrary: a e) (simp_all add: k_return, intro keeps_rules)
qed

lemma keeps_agent:
  assumes "allowed ''running''" "allowed ''passed''" "allowed ''failed''" "allowed ''cancelled''"
    "\<And>q. req_dir q = pr_Worktree pr \<Longrightarrow> runs q"
  shows "keeps (RunAgentPhase pr n prompt retries)"
  unfolding RunAgentPhase_def Let_def
  by (intro keeps_rules keeps_files keeps_agent_loop phase) (use assms in \<open>simp_all add: agent_phase_def\<close>)

end


text \<open>The interface of the store alone: a relation on tables that its methods satisfy.\<close>

locale phase_recorder = table_relation T for T :: "tables \<Rightarrow> tables \<Rightarrow> bool" +
  fixes allowed :: "string \<Rightarrow> bool"
  assumes store_artifact: "within (on_db T) (RecordArtifact a)"
    and store_envelope: "within (on_db T) (RecordEnvelope e)"
    and store_deliver: "within (on_db T) (DeliverEnvelope i c b f)"
    and store_latest: "within (on_db T) (CausationFromLatest i r)"
    and store_phase: "allowed (ph_Status p) \<Longrightarrow> within (on_db T) (RecordPhase p)"
begin

sublocale rec: runner_relation "on_base (on_db T)" allowed "\<lambda>_. True"
  by unfold_locales
    (auto simp: file_op_defs intro: base_file_op base_command base_now [OF w_now] base_store [OF store_artifact]
      base_store [OF store_envelope] base_store [OF store_latest] base_deliver [OF store_deliver]
      base_store [OF store_phase])

end

interpretation sound_recorder: phase_recorder sound_step "\<lambda>_. True"
  by unfold_locales (auto intro: within_intros simp: CausationFromLatest_def GetLatestEnvelope_def)

text \<open>Nothing becomes a passed phase.\<close>

definition no_new_pass :: "tables \<Rightarrow> tables \<Rightarrow> bool" where
  "no_new_pass d d' \<longleftrightarrow> (\<forall>p \<in> set (phases d'). ph_Status p = ''passed'' \<longrightarrow> p \<in> set (phases d))"

interpretation nopass: table_relation no_new_pass
  by unfold_locales (auto simp: no_new_pass_def)

lemma no_new_pass_keep [simp]: "phases d' = phases d \<Longrightarrow> no_new_pass d d'"
  by (simp add: no_new_pass_def)

lemma phases_simps [simp]:
  "phases (insert_change ch e p now d) = phases d"
  "phases (update_run i f d) = phases d"
  "insert_envelope v d = Inr (x, d') \<Longrightarrow> phases d' = phases d"
  "insert_artifact a d = Inr (x, d') \<Longrightarrow> phases d' = phases d"
  "insert_delivery r d = Inr (x, d') \<Longrightarrow> phases d' = phases d"
  by (auto simp: insert_change_def update_run_def insert_envelope_def insert_artifact_def insert_delivery_def
      split: if_splits)

lemma nopass_steps [within_intros]:
  "within (on_db no_new_pass) (recordTransition ch e p)"
  "within (on_db no_new_pass) (RecordArtifact a)"
  "within (on_db no_new_pass) (insertDeliveryRow i c s n f t r)"
  unfolding recordTransition_def AppendChange_def RecordArtifact_def insertDeliveryRow_def
  by (intro within_intros nopass.w_exec; auto)+

lemma nopass_retry [within_intros]: "within (on_db no_new_pass) (retry_from e c s f left n le)"
  by (induction left arbitrary: n le) (auto simp: Let_def intro!: within_intros)

lemma nopass_envelope: "within (on_db no_new_pass) (RecordEnvelope e)"
  unfolding RecordEnvelope_def Let_def by (intro within_intros nopass.w_exec) auto

lemma nopass_phase: "ph_Status p \<noteq> ''passed'' \<Longrightarrow> within (on_db no_new_pass) (RecordPhase p)"
  unfolding RecordPhase_def Let_def
  by (intro within_intros nopass.w_modify) (auto simp: no_new_pass_def replace_phase_def)

interpretation nopass_recorder: phase_recorder no_new_pass "\<lambda>s. s \<noteq> ''passed''"
  by unfold_locales (auto intro!: within_intros nopass_envelope nopass_phase
      simp: CausationFromLatest_def GetLatestEnvelope_def DeliverEnvelope_def isAlreadyTerminalSuccess_def deliverRetryLoop_def)

interpretation genv_runner: runner_relation given_env "\<lambda>_. True" "\<lambda>_. True"
  by unfold_locales (auto simp: file_op_defs intro: keeps_intros)

section \<open>A phase passes only on a clean exit\<close>

definition agent_exe :: "PhaseRunner \<Rightarrow> string" where
  "agent_exe pr = (if pr_AgentCLI pr = [] then ''opencode'' else pr_AgentCLI pr)"

lemma BuildAgentCommand_exe: "fst (BuildAgentCommand cli m p) = (if cli = [] then ''opencode'' else cli)"
  by (simp add: BuildAgentCommand_def Let_def)

text \<open>The agent ran and exited without an error, in the worktree, between two hosts.\<close>

definition clean_agent_exit :: "PhaseRunner \<Rightarrow> host \<Rightarrow> host \<Rightarrow> bool" where
  "clean_agent_exit pr h k \<longleftrightarrow> (\<exists>r new. trace k = trace h @ new \<and> (r, True) \<in> set new \<and>
     req_exe r = agent_exe pr \<and> req_dir r = pr_Worktree pr)"

definition pass_needs_exit :: "PhaseRunner \<Rightarrow> host \<Rightarrow> host \<Rightarrow> bool" where
  "pass_needs_exit pr h k \<longleftrightarrow> prefix (trace h) (trace k) \<and>
     (no_new_pass (db (base h)) (db (base k)) \<or> clean_agent_exit pr h k)"

lemma clean_exit_extend:
  assumes "clean_agent_exit pr h k" and "prefix (trace g) (trace h)" and "prefix (trace k) (trace l)"
  shows "clean_agent_exit pr g l"
proof -
  obtain r new a b where "trace k = trace h @ new" "(r, True) \<in> set new" "req_exe r = agent_exe pr"
      "req_dir r = pr_Worktree pr" "trace h = trace g @ a" "trace l = trace k @ b"
    using assms by (auto simp: clean_agent_exit_def elim!: prefixE)
  then show ?thesis unfolding clean_agent_exit_def by (intro exI [of _ r] exI [of _ "a @ new @ b"]) auto
qed

interpretation pne: host_relation "pass_needs_exit pr"
proof
  fix g h k
  assume gh: "pass_needs_exit pr g h" and hk: "pass_needs_exit pr h k"
  then have p: "prefix (trace g) (trace h)" "prefix (trace h) (trace k)" by (simp_all add: pass_needs_exit_def)
  from gh consider (a) "no_new_pass (db (base g)) (db (base h))" | (b) "clean_agent_exit pr g h"
    by (auto simp: pass_needs_exit_def)
  then show "pass_needs_exit pr g k"
  proof cases
    case a
    show ?thesis
    proof (cases "clean_agent_exit pr h k")
      case True
      with clean_exit_extend [OF True p(1)] p show ?thesis
        by (auto simp: pass_needs_exit_def intro: prefix_order.trans)
    next
      case False
      with hk have "no_new_pass (db (base h)) (db (base k))" by (simp add: pass_needs_exit_def)
      with a p show ?thesis
        by (auto simp: pass_needs_exit_def intro: nopass.trans_tables prefix_order.trans)
    qed
  next
    case b
    with clean_exit_extend [OF b _ p(2)] p show ?thesis
      by (auto simp: pass_needs_exit_def intro: prefix_order.trans)
  qed
qed (simp add: pass_needs_exit_def)


lemma pne_frame:
  assumes "state_io_rel (on_base (on_db no_new_pass)) m" and "state_io_rel given_env m"
  shows "state_io_rel (pass_needs_exit pr) m"
  using assms by (fastforce simp: state_io_rel_def pass_needs_exit_def on_base_def on_db_def given_env_def)

lemma pne_quiet [keeps_intros]:
  "state_io_rel (pass_needs_exit pr) (file_op f)"
  "state_io_rel (pass_needs_exit pr) (run_command c q)"
  "state_io_rel (pass_needs_exit pr) now_io"
  by (intro pne_frame keeps_intros nopass.base_file_op nopass.base_command nopass.base_now nopass.w_now)+

lemma trace_after_command:
  assumes "run_state (run_command True q) h = (o', k)" and "\<not> stopped k" and "exit_error o' = None"
  shows "trace k = trace h @ [(q, True)]"
  using assms by (auto simp: run_command_def Let_def split: if_splits)

lemma finish_no_pass:
  "exit_error o' \<noteq> None \<Longrightarrow> state_io_rel (pass_needs_exit pr) (finish_attempt pr n pid a m exe o' d reason pm dir)"
  by (intro pne_frame nopass_recorder.rec.keeps_finish genv_runner.keeps_finish) auto

text \<open>Once the agent has exited cleanly, recording a pass is accounted for.\<close>

lemma finish_after_exit:
  assumes "clean_agent_exit pr g h"
    and "run_state (finish_attempt pr n pid a m exe o' d reason pm dir) h = (r, k)"
  shows "pass_needs_exit pr g k"
proof -
  have "state_io_rel given_env (finish_attempt pr n pid a m exe o' d reason pm dir)"
    by (intro genv_runner.keeps_finish) auto
  with assms(2) have "prefix (trace h) (trace k)" by (auto simp: given_env_def)
  with clean_exit_extend [OF assms(1) _ this, of g] assms(1) show ?thesis
    by (auto simp: pass_needs_exit_def clean_agent_exit_def)
qed

lemma finish_result:
  assumes "run_state (finish_attempt pr n pid a m exe o' d reason pm dir) h = (Inr (Some e, b, x), k)"
  shows "exit_error o' = None"
  using assms by (auto simp: finish_attempt_def Let_def split: prod.splits if_splits sum.splits)

lemma finish_error:
  assumes "run_state (finish_attempt pr n pid a m exe o' d reason pm dir) h = (Inr (None, b, None), k)"
  shows False
  using assms by (auto simp: finish_attempt_def Let_def split: prod.splits if_splits sum.splits)


lemma pneD: "state_io_rel (pass_needs_exit pr) m \<Longrightarrow> run_state m h = (r, k) \<Longrightarrow> pass_needs_exit pr h k"
  by blast

lemma agent_attempt_pass:
  assumes "run_state (agent_attempt pr n prompt pid start retries a) h = (r, k)"
  shows "pass_needs_exit pr h k \<and> (\<forall>e b x. r = Inr (Some e, b, x) \<longrightarrow> clean_agent_exit pr h k)"
proof -
  obtain exe args xs where cmd: "BuildAgentCommand (pr_AgentCLI pr) (pr_Model pr) prompt = (exe, args, xs)"
    by (cases "BuildAgentCommand (pr_AgentCLI pr) (pr_Model pr) prompt")
  then have exe: "exe = agent_exe pr"
    using BuildAgentCommand_exe [of "pr_AgentCLI pr" "pr_Model pr" prompt] by (simp add: agent_exe_def)
  let ?dir = "Join (Join (pr_Worktree pr) ''.sgt'') ''artifacts''"
  let ?budget = "agentTimeout h pr"
  let ?q = "\<lparr>req_exe = exe, req_args = args, req_env = xs @ [''SGT_ARTIFACT_DIR='' @ path_text ?dir],
    req_dir = pr_Worktree pr, req_budget = (if ?budget > 0 then Some ?budget else None)\<rparr>"
  obtain r1 h1 where 1: "run_state (RemoveAll ?dir) h = (r1, h1)" by (cases "run_state (RemoveAll ?dir) h")
  obtain r2 h2 where 2: "run_state (MkdirAll ?dir) h1 = (r2, h2)" by (cases "run_state (MkdirAll ?dir) h1")
  obtain o' h3 where 3: "run_state (run_command True ?q) h2 = (o', h3)" by (cases "run_state (run_command True ?q) h2")
  obtain t h4 where 4: "run_state now_io h3 = (t, h4)" by (cases "run_state now_io h3")
  have rel: "state_io_rel (pass_needs_exit pr) (RemoveAll ?dir)" "state_io_rel (pass_needs_exit pr) (MkdirAll ?dir)"
    by (simp_all add: RemoveAll_def MkdirAll_def pne_quiet)
  have pre: "pass_needs_exit pr h h2" using pneD [OF rel(1) 1] pneD [OF rel(2) 2] by (rule pne.trans)
  have 34: "pass_needs_exit pr h h4"
    using pre pneD [OF pne_quiet(2) 3] pneD [OF pne_quiet(3) 4] by (blast intro: pne.trans)
  have st: "stopped h4 = stopped h3" "trace h4 = trace h3" using 4 by (auto simp: now_io_def)
  show ?thesis
  proof (cases "stopped h4")
    case True
    define p where "p = (agent_phase pr n pid a ''cancelled'' ''cancelled: context canceled''
      (milliseconds (t - start)) RawEmpty)\<lparr>ph_FixCycle := 0\<rparr>"
    have p: "ph_Status p = ''cancelled''" by (simp add: p_def agent_phase_def)
    have k: "r = Inr (None, [], Some Canceled)" and run: "k = snd (run_state (store_io (RecordPhase p)) h4)"
      using assms True 1 2 3 4
      by (auto simp: agent_attempt_def cmd Let_def get_host_def p_def split: prod.splits)
    have "state_io_rel (pass_needs_exit pr) (store_io (RecordPhase p))"
      using p by (intro pne_frame nopass_recorder.rec.phase genv_runner.phase) auto
    then have "pass_needs_exit pr h4 k" by (simp add: run state_io_rel_def)
    with 34 k show ?thesis by (auto intro: pne.trans)
  next
    case False
    obtain reason pm d where run: "run_state (finish_attempt pr n pid a retries exe o' d reason pm ?dir) h4 = (r, k)"
      using assms False 1 2 3 4
      by (auto simp: agent_attempt_def cmd Let_def get_host_def split: prod.splits)
    show ?thesis
    proof (cases "exit_error o' = None")
      case True
      have "trace h3 = trace h2 @ [(?q, True)]"
        using trace_after_command [OF 3] False st True by simp
      moreover have "prefix (trace h) (trace h2)" using pre by (simp add: pass_needs_exit_def)
      ultimately obtain zs where zs: "trace h4 = trace h @ zs @ [(?q, True)]"
        by (auto simp: st elim!: prefixE)
      have clean: "clean_agent_exit pr h h4"
        unfolding clean_agent_exit_def
        by (intro exI [of _ ?q] exI [of _ "zs @ [(?q, True)]"] conjI) (simp_all only: zs exe, simp_all)
      have "state_io_rel given_env (finish_attempt pr n pid a retries exe o' d reason pm ?dir)"
        by (intro genv_runner.keeps_finish) auto
      with run have "prefix (trace h4) (trace k)" by (auto simp: given_env_def)
      with clean_exit_extend [OF clean _ this, of h] finish_after_exit [OF clean run] show ?thesis by auto
    next
      case False
      from finish_no_pass [OF this] run have "pass_needs_exit pr h4 k" by blast
      moreover have "\<forall>e b x. r \<noteq> Inr (Some e, b, x)"
      proof (intro allI notI)
        fix e b x
        assume "r = Inr (Some e, b, x)"
        with finish_result run False show False by fastforce
      qed
      ultimately show ?thesis using 34 by (blast intro: pne.trans)
    qed
  qed
qed

lemma agent_loop_pass:
  "run_state (agent_loop pr n prompt pid start retries left a le) h = (r, k) \<Longrightarrow>
   pass_needs_exit pr h k \<and> (\<forall>e b x. r = (Some e, b, x) \<longrightarrow> clean_agent_exit pr h k)"
proof (induction left arbitrary: a le h)
  case (Suc left)
  obtain r1 h1 where 1: "run_state (agent_attempt pr n prompt pid start retries a) h = (r1, h1)"
    by (cases "run_state (agent_attempt pr n prompt pid start retries a) h")
  note att = agent_attempt_pass [OF 1]
  show ?case
  proof (cases r1)
    case (Inl e)
    with Suc.prems 1 have rest: "run_state (agent_loop pr n prompt pid start retries left (Suc a) (Some e)) h1 = (r, k)"
      by simp
    from Suc.IH [OF rest] att have "pass_needs_exit pr h k" by (blast intro: pne.trans)
    moreover have "prefix (trace h) (trace h1)" using att by (simp add: pass_needs_exit_def)
    ultimately show ?thesis using Suc.IH [OF rest] clean_exit_extend [of pr h1 k h k] by auto
  next
    case (Inr x)
    with Suc.prems 1 have "r = x" "k = h1" by simp_all
    with att Inr show ?thesis by blast
  qed
qed auto

text \<open>What \<open>RunAgentPhase\<close> does before its loop.\<close>

definition agent_prologue :: "PhaseRunner \<Rightarrow> string \<Rightarrow> string \<Rightarrow> (string \<times> time \<times> string) io" where
  "agent_prologue pr phaseName prompt = do {
     start \<leftarrow> now_io;
     nano \<leftarrow> now_io;
     _ \<leftarrow> store_io (RecordPhase (agent_phase pr phaseName (phaseID_of pr phaseName nano) 0 ''running'' [] 0 RawEmpty));
     _ \<leftarrow> MkdirAll (Join (pr_Worktree pr) ''.sgt'');
     st \<leftarrow> Stat (Join (Join (pr_Worktree pr) ''.sgt'') ''plan.json'');
     _ \<leftarrow> WriteFile (Join (Join (pr_Worktree pr) ''.sgt'') (''prompt_'' @ phaseName @ ''.txt''))
       (RawBad (case st of Inr _ \<Rightarrow> prompt @ planPromptExtension | Inl _ \<Rightarrow> prompt));
     State_Monad.return (phaseID_of pr phaseName nano, start,
       case st of Inr _ \<Rightarrow> prompt @ planPromptExtension | Inl _ \<Rightarrow> prompt) }"

lemma RunAgentPhase_prologue:
  "RunAgentPhase pr n prompt retries = do {
     (pid, start, prompt') \<leftarrow> agent_prologue pr n prompt;
     agent_loop pr n prompt' pid start retries (nat (retries + 1)) 0 None }"
  by (simp add: RunAgentPhase_def agent_prologue_def Let_def)

lemma RunAgentPhase_loop:
  assumes "run_state (RunAgentPhase pr n prompt retries) h = (r, k)"
  obtains pid start prompt' h1 where "pass_needs_exit pr h h1"
    "run_state (agent_prologue pr n prompt) h = ((pid, start, prompt'), h1)"
    "run_state (agent_loop pr n prompt' pid start retries (nat (retries + 1)) 0 None) h1 = (r, k)"
proof -
  have "state_io_rel (pass_needs_exit pr) (store_io (RecordPhase p))" if "ph_Status p \<noteq> ''passed''" for p
    using that by (intro pne_frame nopass_recorder.rec.phase genv_runner.phase) auto
  then have "state_io_rel (pass_needs_exit pr) (agent_prologue pr n prompt)"
    unfolding agent_prologue_def Let_def file_op_defs
    by (intro keeps_intros) (auto simp: agent_phase_def)
  moreover obtain pid start prompt' h1 where p: "run_state (agent_prologue pr n prompt) h = ((pid, start, prompt'), h1)"
    by (metis prod.collapse)
  ultimately have "pass_needs_exit pr h h1" by blast
  moreover from assms p have "run_state (agent_loop pr n prompt' pid start retries (nat (retries + 1)) 0 None) h1 = (r, k)"
    by (simp add: RunAgentPhase_prologue)
  ultimately show thesis using p that by blast
qed

lemma RunAgentPhase_exit:
  assumes "run_state (RunAgentPhase pr n prompt retries) h = ((oe, reason, x), k)"
  shows "pass_needs_exit pr h k \<and> (oe \<noteq> None \<longrightarrow> clean_agent_exit pr h k)"
proof -
  from assms obtain pid start prompt' h1 where pre: "pass_needs_exit pr h h1"
      and "run_state (agent_prologue pr n prompt) h = ((pid, start, prompt'), h1)"
      and loop: "run_state (agent_loop pr n prompt' pid start retries (nat (retries + 1)) 0 None) h1 = ((oe, reason, x), k)"
    by (rule RunAgentPhase_loop)
  have 1: "pass_needs_exit pr h1 k" and 2: "\<And>e. oe = Some e \<Longrightarrow> clean_agent_exit pr h1 k"
    using agent_loop_pass [OF loop] by simp_all
  have "prefix (trace h) (trace h1)" using pre by (simp add: pass_needs_exit_def)
  then have "oe \<noteq> None \<longrightarrow> clean_agent_exit pr h k" using 2 clean_exit_extend [of pr h1 k h k] by auto
  with pne.trans [OF pre 1] show ?thesis by simp
qed

text \<open>With at least one attempt, a phase without an error has an envelope.\<close>

lemma agent_attempt_result:
  assumes "run_state (agent_attempt pr n prompt pid start retries a) h = (Inr (None, b, None), k)"
  shows False
  using assms by (auto simp: agent_attempt_def Let_def split: prod.splits if_splits dest: finish_error)

lemma agent_loop_result:
  "run_state (agent_loop pr n prompt pid start retries left a le) h = ((None, b, None), k) \<Longrightarrow> left = 0 \<and> le = None"
proof (induction left arbitrary: a le h)
  case (Suc left)
  obtain r1 h1 where 1: "run_state (agent_attempt pr n prompt pid start retries a) h = (r1, h1)"
    by (cases "run_state (agent_attempt pr n prompt pid start retries a) h")
  show ?case
  proof (cases r1)
    case (Inl e)
    with Suc.prems 1 have "run_state (agent_loop pr n prompt pid start retries left (Suc a) (Some e)) h1 = ((None, b, None), k)"
      by simp
    from Suc.IH [OF this] show ?thesis by simp
  next
    case (Inr x)
    with Suc.prems 1 show ?thesis using agent_attempt_result by simp
  qed
qed auto

lemma RunAgentPhase_envelope:
  assumes "run_state (RunAgentPhase pr n prompt retries) h = ((oe, reason, None), k)" and "0 \<le> retries"
  shows "oe \<noteq> None"
proof
  assume "oe = None"
  with assms(1) obtain pid start prompt' h1 where
      "run_state (agent_loop pr n prompt' pid start retries (nat (retries + 1)) 0 None) h1 = ((None, reason, None), k)"
    by (metis RunAgentPhase_loop)
  from agent_loop_result [OF this] assms(2) show False by simp
qed

text \<open>
  C35: an exit cannot falsely pass a phase.  However the store, the files and the commands fail, if an
  agent phase returns an envelope, or leaves a phase recorded as passed that was not there before, then
  the agent was started in the worktree and exited without an error during it.
\<close>

theorem RunAgentPhase_pass_needs_exit:
  assumes "run_state (RunAgentPhase pr n prompt retries) h = ((oe, reason, x), k)"
    and "oe \<noteq> None \<or> (\<exists>p \<in> set (phases (db (base k))). ph_Status p = ''passed'' \<and> p \<notin> set (phases (db (base h))))"
  shows "clean_agent_exit pr h k"
proof -
  from RunAgentPhase_exit [OF assms(1)] assms(2) show ?thesis by (auto simp: pass_needs_exit_def no_new_pass_def)
qed


section \<open>A clean exit passes the phase\<close>

definition same_phases :: "tables \<Rightarrow> tables \<Rightarrow> bool" where
  "same_phases d d' \<longleftrightarrow> phases d' = phases d"

interpretation samep: table_relation same_phases
  by unfold_locales (auto simp: same_phases_def)

lemma samep_steps [within_intros]:
  "within (on_db same_phases) (recordTransition ch e p)"
  "within (on_db same_phases) (RecordArtifact a)"
  "within (on_db same_phases) (insertDeliveryRow i c s n f t r)"
  unfolding recordTransition_def AppendChange_def RecordArtifact_def insertDeliveryRow_def
  by (intro within_intros samep.w_exec; auto simp: same_phases_def)+

lemma samep_retry [within_intros]: "within (on_db same_phases) (retry_from e c s f left n le)"
  by (induction left arbitrary: n le) (auto simp: Let_def intro!: within_intros)

lemma samep_envelope: "within (on_db same_phases) (RecordEnvelope e)"
  unfolding RecordEnvelope_def Let_def by (intro within_intros samep.w_exec) (auto simp: same_phases_def)

interpretation samep_recorder: phase_recorder same_phases "\<lambda>_. False"
  by unfold_locales (auto intro!: within_intros samep_envelope
      simp: CausationFromLatest_def GetLatestEnvelope_def DeliverEnvelope_def isAlreadyTerminalSuccess_def deliverRetryLoop_def)

lemma env_RecordPhase: "within same_env (RecordPhase p)"
  unfolding RecordPhase_def Let_def by (intro within_intros)

lemma env_insertDeliveryRow [within_intros]: "within same_env (insertDeliveryRow i c s n f t r)"
  unfolding insertDeliveryRow_def by (intro within_intros)

lemma env_attempt [within_intros]: "within same_env (run_attempt f)"
  by (auto simp: within_def same_env_def run_attempt_def)

lemma env_retry [within_intros]: "within same_env (retry_from e c s f left n le)"
  by (induction left arbitrary: n le) (auto simp: Let_def intro!: within_intros)

interpretation env_runner: runner_relation "on_base same_env" "\<lambda>_. True" "\<lambda>_. True"
  by unfold_locales (auto simp: file_op_defs RecordArtifact_def RecordEnvelope_def CausationFromLatest_def GetLatestEnvelope_def
      DeliverEnvelope_def isAlreadyTerminalSuccess_def deliverRetryLoop_def Let_def
      intro!: within_intros env.base_file_op env.base_command env.base_now env.base_store env.base_deliver env_RecordPhase)

text \<open>Nothing but a command stops the run.\<close>

definition still_ready :: "host \<Rightarrow> host \<Rightarrow> bool" where
  "still_ready h k \<longleftrightarrow> same_env (base h) (base k) \<and> proc k = proc h \<and> stopped k = stopped h"

interpretation ready: host_relation still_ready
  by unfold_locales (auto simp: still_ready_def intro: env.trans)

lemma ready_file_op [keeps_intros]: "state_io_rel still_ready (file_op f)"
  by (simp add: state_io_rel_def still_ready_def file_op_def split: prod.split)

lemma ready_now [keeps_intros]: "state_io_rel still_ready now_io"
  by (simp add: state_io_rel_def still_ready_def now_io_def same_env_def)

lemma ready_store: "within same_env m \<Longrightarrow> state_io_rel still_ready (store_io m)"
  by (simp add: state_io_rel_def still_ready_def store_io_def within_def split: prod.split) (metis snd_conv)

definition passed_phase :: "PhaseRunner \<Rightarrow> string \<Rightarrow> int \<Rightarrow> tables \<Rightarrow> bool" where
  "passed_phase pr name n d \<longleftrightarrow> (\<exists>p \<in> set (phases d). ph_Status p = ''passed'' \<and> ph_RunID p = pr_RunID pr \<and>
     ph_Repo p = pr_RepoName pr \<and> ph_Name p = name \<and> ph_Attempt p = n \<and> ph_FixCycle p = pr_FixCycle pr)"

lemma RecordPhase_recorded:
  assumes "healthy w"
  shows "\<exists>p' \<in> set (phases (db (snd (RecordPhase p w)))). ph_Status p' = ph_Status p \<and> ph_RunID p' = ph_RunID p \<and>
    ph_Repo p' = ph_Repo p \<and> ph_Name p' = ph_Name p \<and> ph_Kind p' = ph_Kind p \<and> ph_Attempt p' = ph_Attempt p \<and>
    ph_FixCycle p' = ph_FixCycle p"
proof -
  let ?p = "p\<lparr>ph_CreatedAt := clock w (reads w), ph_Error := Text (ph_Error p), ph_Payload := redact_JSON (ph_Payload p)\<rparr>"
  let ?e = "JObj [(''id'', JStr (ph_ID ?p)), (''run_id'', JStr (ph_RunID ?p)), (''repo'', JStr (ph_Repo ?p)),
       (''name'', JStr (ph_Name ?p)), (''kind'', JStr (ph_Kind ?p)), (''status'', JStr (ph_Status ?p)),
       (''duration_ms'', JNum (ph_DurationMs ?p))]"
  let ?w = "w\<lparr>reads := Suc (reads w), ops := Suc (Suc (ops w)),
    db := update_run (ph_RunID p) (\<lambda>r. r\<lparr>run_UpdatedAt := clock w (reads w)\<rparr>) (replace_phase ?p (db w))\<rparr>"
  obtain x w' where t: "recordTransition ChannelPhase (ph_ID p) ?e ?w = (x, w')"
    by (cases "recordTransition ChannelPhase (ph_ID p) ?e ?w")
  have "db (snd (RecordPhase p w)) = db w'"
    using assms t
    by (simp add: RecordPhase_def Let_def bind_st_def time_now_def modify_def exec_def healthy_def return_st_def
        split: sum.split)
  moreover from t have "same_phases (db ?w) (db w')"
    using withinD [OF samep_steps(1)] by (fastforce simp: on_db_def)
  ultimately have "?p \<in> set (phases (db (snd (RecordPhase p w))))"
    by (simp add: same_phases_def replace_phase_def)
  then show ?thesis by (intro bexI [of _ ?p]) simp_all
qed


text \<open>A Hoare triple: what holds of the result and the host after a step, given what held before it.\<close>

definition yields :: "(host \<Rightarrow> bool) \<Rightarrow> ('a \<Rightarrow> host \<Rightarrow> bool) \<Rightarrow> 'a io \<Rightarrow> bool" where
  "yields P Q m \<longleftrightarrow> (\<forall>h. P h \<longrightarrow> (case run_state m h of (r, k) \<Rightarrow> Q r k))"

abbreviation makes :: "(host \<Rightarrow> bool) \<Rightarrow> (host \<Rightarrow> bool) \<Rightarrow> 'a io \<Rightarrow> bool" where
  "makes P Q m \<equiv> yields P (\<lambda>_. Q) m"

lemma yields_bind: "yields P Q m \<Longrightarrow> (\<And>x. yields (Q x) S (f x)) \<Longrightarrow> yields P S (State_Monad.bind m f)"
  by (fastforce simp: yields_def split: prod.splits)

lemma yields_pair: "(\<And>x y. yields P Q (f x y)) \<Longrightarrow> yields P Q (case p of (x, y) \<Rightarrow> f x y)"
  by (cases p) simp

lemma yields_return: "(\<And>h. P h \<Longrightarrow> Q x h) \<Longrightarrow> yields P Q (State_Monad.return x)"
  by (simp add: yields_def)

lemma yieldsD: "yields P Q m \<Longrightarrow> P h \<Longrightarrow> run_state m h = (r, k) \<Longrightarrow> Q r k"
  by (auto simp: yields_def)

lemma makes_step: "state_io_rel R m \<Longrightarrow> (\<And>h k. R h k \<Longrightarrow> P h \<Longrightarrow> P k) \<Longrightarrow> makes P P m"
  by (auto simp: yields_def)

abbreviation working :: "host \<Rightarrow> bool" where
  "working h \<equiv> healthy (base h)"

lemma working_step: "state_io_rel (on_base same_env) m \<Longrightarrow> makes working working m"
  by (erule makes_step) (auto simp: on_base_def dest: same_env_healthy)

lemma passed_step: "state_io_rel (on_base (on_db same_phases)) m \<Longrightarrow>
    makes (\<lambda>h. passed_phase pr n a (db (base h))) (\<lambda>h. passed_phase pr n a (db (base h))) m"
  by (erule makes_step) (simp add: on_base_def on_db_def same_phases_def passed_phase_def)

lemma records_pass:
  "makes working (\<lambda>h. passed_phase pr n (int a + 1) (db (base h)))
     (store_io (RecordPhase (agent_phase pr n pid a ''passed'' reason d x)))"
  using RecordPhase_recorded [of _ "agent_phase pr n pid a ''passed'' reason d x"]
  by (auto simp: yields_def store_io_def passed_phase_def agent_phase_def split: prod.split) (metis snd_conv)

lemma finish_records_pass:
  assumes ok: "exit_error o' = None"
  shows "yields working (\<lambda>r h. (\<exists>x. r = Inr x) \<and> passed_phase pr n (int a + 1) (db (base h)))
    (finish_attempt pr n pid a m exe o' d reason pm dir)"
  unfolding finish_attempt_def Let_def ok
  by (rule yields_bind [OF working_step [OF env_runner.read]]
      yields_bind [OF working_step [OF env_runner.keeps_attempt_envelope]] yields_bind [OF working_step [OF env_runner.now]]
      yields_bind [OF working_step [OF env_runner.deliver [OF env_runner.keeps_save]]]
      yields_bind [OF working_step [OF env_runner.latest]] yields_bind [OF working_step [OF env_runner.envelope]]
      yields_bind [OF records_pass] yields_bind [OF passed_step [OF samep_recorder.rec.keeps_capture]]
      yields_return
    | simp only: simp_thms if_False)+ (auto split: sum.split)

definition agent_succeeds :: "PhaseRunner \<Rightarrow> host \<Rightarrow> bool" where
  "agent_succeeds pr h \<longleftrightarrow> healthy (base h) \<and> \<not> stopped h \<and>
     (\<forall>n q t. req_dir q = pr_Worktree pr \<longrightarrow> exit_error (proc h n q t) = None \<and> \<not> cancels (proc h n q t))"

lemma ready_step: "state_io_rel still_ready m \<Longrightarrow> makes (agent_succeeds pr) (agent_succeeds pr) m"
  by (erule makes_step) (auto simp: still_ready_def agent_succeeds_def dest: same_env_healthy)

lemma ready_remove: "state_io_rel still_ready (RemoveAll p)"
  and ready_mkdir: "state_io_rel still_ready (MkdirAll p)"
  and ready_stat: "state_io_rel still_ready (Stat p)"
  and ready_write: "state_io_rel still_ready (WriteFile p c)"
  by (simp_all add: file_op_defs ready_file_op)

lemma attempt_records_pass:
  "yields (agent_succeeds pr) (\<lambda>r h. (\<exists>x. r = Inr x) \<and> passed_phase pr n (int a + 1) (db (base h)))
     (agent_attempt pr n prompt pid start retries a)"
proof -
  let ?Q = "\<lambda>r h. (\<exists>x. r = Inr x) \<and> passed_phase pr n (int a + 1) (db (base h))"
  have cmd: "yields (agent_succeeds pr) ?Q (State_Monad.bind (run_command True q) f)"
    if "req_dir q = pr_Worktree pr"
      and "\<And>o'. exit_error o' = None \<Longrightarrow> yields (\<lambda>h. working h \<and> \<not> stopped h) ?Q (f o')" for q f
    using that by (fastforce simp: yields_def run_command_def Let_def agent_succeeds_def split: prod.split)
  have after: "yields (\<lambda>h. working h \<and> \<not> stopped h) ?Q (do {
      stop \<leftarrow> now_io;
      h \<leftarrow> get_host;
      if stopped h then m stop else finish_attempt pr n pid a x exe o' (d stop) (r stop) pm dir })"
    if "exit_error o' = None" for m x exe o' r d pm dir
    using finish_records_pass [OF that, of pr n a pid x exe _ _ pm dir]
    by (simp add: yields_def now_io_def get_host_def healthy_def)
  show ?thesis
    unfolding agent_attempt_def Let_def
    by (rule yields_bind [OF ready_step [OF ready.k_get]] yields_bind [OF ready_step [OF ready_remove]]
        yields_bind [OF ready_step [OF ready_mkdir]] yields_pair cmd after
      | assumption | simp only: request.simps)+
qed

lemma agent_records_pass:
  assumes "0 \<le> retries"
  shows "makes (agent_succeeds pr) (\<lambda>h. passed_phase pr n 1 (db (base h))) (RunAgentPhase pr n prompt retries)"
proof -
  have loop: "makes (agent_succeeds pr) (\<lambda>h. passed_phase pr n 1 (db (base h)))
      (agent_loop pr n prompt pid start retries (Suc left) 0 e)" for prompt pid start left e
    using attempt_records_pass [of pr n 0 prompt pid start retries]
    by (fastforce simp: yields_def split: prod.splits)
  have "nat (retries + 1) = Suc (nat retries)" using assms by simp
  then show ?thesis
    unfolding RunAgentPhase_def Let_def
    by (auto simp del: agent_loop.simps intro!: loop yields_bind [OF ready_step [OF ready_now]] yields_bind [OF ready_step [OF ready_mkdir]]
        yields_bind [OF ready_step [OF ready_store [OF env_RecordPhase]]] yields_bind [OF ready_step [OF ready_stat]]
        yields_bind [OF ready_step [OF ready_write]])
qed

text \<open>
  Progress of a phase.  When the database works, the run is not cancelled and the commands in the
  worktree exit without an error, an agent phase with a budget of at least one attempt ends with that
  attempt recorded as passed, under the run, repository, phase and fix cycle it was run for.
\<close>

theorem RunAgentPhase_records_pass:
  assumes "agent_succeeds pr h" and "0 \<le> retries" and "run_state (RunAgentPhase pr n prompt retries) h = (r, k)"
  shows "\<exists>p \<in> set (phases (db (base k))). ph_Status p = ''passed'' \<and> ph_RunID p = pr_RunID pr \<and>
    ph_Repo p = pr_RepoName pr \<and> ph_Name p = n \<and> ph_Attempt p = 1 \<and> ph_FixCycle p = pr_FixCycle pr"
  using yieldsD [OF agent_records_pass [OF assms(2)] assms(1,3)] by (simp add: passed_phase_def)

definition sample_runner :: PhaseRunner where
  "sample_runner = \<lparr>pr_Router = [''fleet'', ''r'', ''handoff''], pr_Worktree = [''wt''], pr_RepoName = ''api'',
     pr_RunID = ''r1'', pr_AgentCLI = ''claude'', pr_Model = [], pr_FixCycle = 0, pr_AgentTimeout = 0,
     pr_GateTimeout = 0\<rparr>"

definition sample_host :: host where
  "sample_host = calm_host (initial_world empty_tables) [([''wt''], Dir)]"

lemma sample_succeeds: "agent_succeeds sample_runner sample_host"
  by (simp add: agent_succeeds_def sample_host_def calm_host_def)

lemma sample_no_pass: "phases (db (base sample_host)) = []"
  by (simp add: sample_host_def calm_host_def empty_tables_def)

theorem RunAgentPhase_records_pass_witness:
  "\<exists>p \<in> set (phases (db (base (snd (run_state (RunAgentPhase sample_runner ''build'' ''go'' 1) sample_host))))).
     ph_Status p = ''passed'' \<and> ph_RunID p = ''r1'' \<and> ph_Repo p = ''api'' \<and> ph_Name p = ''build'' \<and>
     ph_Attempt p = 1 \<and> ph_FixCycle p = 0"
  using RunAgentPhase_records_pass [OF sample_succeeds, of 1 "''build''" "''go''"]
  by (simp add: prod_eq_iff) (simp add: sample_runner_def)

theorem RunAgentPhase_pass_needs_exit_witness:
  "clean_agent_exit sample_runner sample_host (snd (run_state (RunAgentPhase sample_runner ''build'' ''go'' 1) sample_host))"
proof -
  let ?m = "run_state (RunAgentPhase sample_runner ''build'' ''go'' 1) sample_host"
  have run: "?m = ((fst (fst ?m), fst (snd (fst ?m)), snd (snd (fst ?m))), snd ?m)" by (simp only: prod.collapse)
  from yieldsD [OF agent_records_pass sample_succeeds run] have "passed_phase sample_runner ''build'' 1 (db (base (snd ?m)))"
    by simp
  then show ?thesis
    using RunAgentPhase_pass_needs_exit [OF run] by (auto simp: passed_phase_def sample_no_pass)
qed

section \<open>How many agents are started\<close>

definition commands_in :: "path \<Rightarrow> host \<Rightarrow> nat" where
  "commands_in dir h = length (filter (\<lambda>(r, _). req_dir r = dir) (trace h))"

definition same_commands :: "path \<Rightarrow> host \<Rightarrow> host \<Rightarrow> bool" where
  "same_commands dir h k \<longleftrightarrow> commands_in dir k = commands_in dir h"

interpretation idle: host_relation "same_commands dir"
  by unfold_locales (auto simp: same_commands_def)

lemma same_trace: "(\<And>h. trace (snd (run_state m h)) = trace h) \<Longrightarrow> state_io_rel (same_commands dir) m"
  by (simp add: state_io_rel_def same_commands_def commands_in_def)

lemma idle_quiet:
  "state_io_rel (same_commands dir) (file_op f)"
  "state_io_rel (same_commands dir) now_io"
  "state_io_rel (same_commands dir) (store_io m)"
  by (intro same_trace; simp add: file_op_def now_io_def store_io_def split: prod.split)+

lemma idle_git: "dir \<noteq> req_dir q \<Longrightarrow> state_io_rel (same_commands dir) (run_command c q)"
  by (auto simp: state_io_rel_def same_commands_def commands_in_def run_command_def Let_def)

lemma idle_deliver:
  "state_io_rel (same_commands dir) act \<Longrightarrow> state_io_rel (same_commands dir) (deliver_io i c b act)"
  using idle.k_calls [of dir act]
  by (auto simp: state_io_rel_def deliver_io_def same_commands_def commands_in_def split: prod.split)

text \<open>What is not a command in the worktree starts none there.\<close>

lemma idle_runner:
  assumes "dir \<noteq> []"
  shows "runner_relation (same_commands dir) (\<lambda>_. True) (\<lambda>q. req_dir q \<noteq> dir)"
  using assms by unfold_locales (auto simp: file_op_defs git_def intro: idle_quiet idle_git idle_deliver)

lemma command_count: "commands_in dir (snd (run_state (run_command c q) h)) \<le> Suc (commands_in dir h)"
  by (simp add: run_command_def Let_def commands_in_def)


text \<open>At most \<open>n\<close> more commands.\<close>

definition more_commands :: "path \<Rightarrow> nat \<Rightarrow> host \<Rightarrow> host \<Rightarrow> bool" where
  "more_commands dir n h k \<longleftrightarrow> commands_in dir k \<le> commands_in dir h + n"

lemma more_bind:
  assumes "state_io_rel (more_commands dir m) a" and "\<And>x. state_io_rel (more_commands dir n) (f x)"
  shows "state_io_rel (more_commands dir (m + n)) (State_Monad.bind a f)"
proof (rule state_io_relI)
  fix x h k
  assume "run_state (State_Monad.bind a f) h = (x, k)"
  moreover obtain y h1 where 1: "run_state a h = (y, h1)" by (cases "run_state a h")
  ultimately have "run_state (f y) h1 = (x, k)" by simp
  then show "more_commands dir (m + n) h k"
    using state_io_relD [OF assms(1) 1] state_io_relD [OF assms(2)] by (fastforce simp: more_commands_def)
qed

lemma more_idle: "state_io_rel (same_commands dir) m \<Longrightarrow> state_io_rel (more_commands dir 0) m"
  by (simp add: state_io_rel_def same_commands_def more_commands_def)

lemmas more_idle_bind = more_bind [OF more_idle, unfolded add_0]

lemma more_pair:
  "(\<And>x y. state_io_rel (more_commands dir n) (f x y)) \<Longrightarrow> state_io_rel (more_commands dir n) (case p of (x, y) \<Rightarrow> f x y)"
  by (cases p) simp

lemma more_one: "state_io_rel (more_commands dir 1) (run_command c q)"
  using command_count by (simp add: state_io_rel_def more_commands_def)

lemma attempt_starts_one:
  assumes wt: "pr_Worktree pr \<noteq> []"
  shows "state_io_rel (more_commands (pr_Worktree pr) 1) (agent_attempt pr n prompt pid start retries a)"
proof -
  note r = idle_runner [OF wt]
  have tail: "state_io_rel (same_commands (pr_Worktree pr)) (do {
      stop \<leftarrow> now_io;
      h \<leftarrow> get_host;
      if stopped h then do { _ \<leftarrow> store_io (RecordPhase (p stop)); State_Monad.return x }
      else finish_attempt pr n pid a m exe o' (d stop) (rs stop) pm dir })" for p x m exe o' d rs pm dir
    by (intro idle.k_bind idle.k_get idle.k_cond idle.k_return idle_quiet runner_relation.keeps_finish [OF r] TrueI)
  have one: "state_io_rel (more_commands (pr_Worktree pr) 1) (State_Monad.bind (run_command True q) f)"
    if "\<And>x. state_io_rel (same_commands (pr_Worktree pr)) (f x)" for q and f :: "outcome \<Rightarrow> 'a io"
    using more_bind [OF more_one more_idle [OF that]] by simp
  show ?thesis
    unfolding agent_attempt_def Let_def
    by (rule more_idle_bind [OF idle.k_get] more_idle_bind [OF runner_relation.remove [OF r]]
        more_idle_bind [OF runner_relation.mkdir [OF r]] more_pair one tail)+
qed

lemma loop_starts:
  assumes wt: "pr_Worktree pr \<noteq> []"
  shows "state_io_rel (more_commands (pr_Worktree pr) left) (agent_loop pr n prompt pid start retries left a e)"
proof (induction left arbitrary: a e)
  case (Suc left)
  have "state_io_rel (more_commands (pr_Worktree pr) left) (case r of
      Inl e \<Rightarrow> agent_loop pr n prompt pid start retries left (Suc a) (Some e)
    | Inr x \<Rightarrow> State_Monad.return x)" for r
    using Suc by (cases r) (auto simp: state_io_rel_def more_commands_def)
  from more_bind [OF attempt_starts_one [OF wt] this] show ?case by simp
qed (simp add: state_io_rel_def more_commands_def)

text \<open>
  C39: the budget of a phase.  However the agents, the store and the files behave, a phase starts at most
  one agent more than the retries configured for the repository, and none when that number is negative.
\<close>

theorem RunAgentPhase_attempts_bounded:
  assumes wt: "pr_Worktree pr \<noteq> []"
  shows "commands_in (pr_Worktree pr) (snd (run_state (RunAgentPhase pr n prompt retries) h))
      \<le> commands_in (pr_Worktree pr) h + nat (retries + 1)"
proof -
  note r = idle_runner [OF wt]
  have "state_io_rel (more_commands (pr_Worktree pr) (nat (retries + 1))) (RunAgentPhase pr n prompt retries)"
    unfolding RunAgentPhase_def Let_def
    by (rule more_idle_bind [OF idle_quiet(2)] more_idle_bind [OF idle_quiet(3)] more_idle_bind [OF runner_relation.mkdir [OF r]]
        more_idle_bind [OF runner_relation.stat [OF r]] more_idle_bind [OF runner_relation.writes [OF r]] loop_starts [OF wt])+
  then show ?thesis by (simp add: state_io_rel_def more_commands_def)
qed

theorem RunAgentPhase_attempts_bounded_witness:
  "commands_in [''wt''] (snd (run_state (RunAgentPhase sample_runner ''build'' ''go'' 1) sample_host)) \<le> 2"
  using RunAgentPhase_attempts_bounded [of sample_runner "''build''" "''go''" 1 sample_host]
  by (simp add: sample_runner_def sample_host_def calm_host_def commands_in_def)

text \<open>
  With a negative number of retries the phase is reported as run without an error, though no agent was
  started and no envelope came of it.
\<close>

lemma negative_retries_skip:
  assumes "retries < 0" and "pr_Worktree pr \<noteq> []"
  shows "fst (run_state (RunAgentPhase pr n prompt retries) h) = (None, [], None)"
    and "commands_in (pr_Worktree pr) (snd (run_state (RunAgentPhase pr n prompt retries) h))
      \<le> commands_in (pr_Worktree pr) h"
proof -
  show "fst (run_state (RunAgentPhase pr n prompt retries) h) = (None, [], None)"
    using assms by (simp add: RunAgentPhase_prologue split: prod.split)
  show "commands_in (pr_Worktree pr) (snd (run_state (RunAgentPhase pr n prompt retries) h))
      \<le> commands_in (pr_Worktree pr) h"
    using RunAgentPhase_attempts_bounded [OF assms(2), of n prompt retries h] assms(1) by simp
qed


section \<open>Gates\<close>

text \<open>The gate's command exited, without an error or with one, in the worktree, between two hosts.\<close>

definition gate_exit :: "bool \<Rightarrow> path \<Rightarrow> string \<Rightarrow> host \<Rightarrow> host \<Rightarrow> bool" where
  "gate_exit ok wt command h k \<longleftrightarrow> (\<exists>r new. trace k = trace h @ new \<and> (r, ok) \<in> set new \<and>
     req_exe r = ''bash'' \<and> req_args r = [''-c'', command] \<and> req_dir r = wt)"

abbreviation clean_gate_exit :: "path \<Rightarrow> string \<Rightarrow> host \<Rightarrow> host \<Rightarrow> bool" where
  "clean_gate_exit \<equiv> gate_exit True"

text \<open>What a gate that reports \<open>ok\<close> did; a gate that was not started reports a failure.\<close>

definition gate_outcome :: "bool \<Rightarrow> path \<Rightarrow> string \<Rightarrow> host \<Rightarrow> host \<Rightarrow> bool" where
  "gate_outcome ok wt command h k \<longleftrightarrow> gate_exit ok wt command h k \<or> (\<not> ok \<and> stopped k)"

lemma gate_exit_extend:
  assumes "gate_exit ok wt command h k" and "prefix (trace g) (trace h)" and "prefix (trace k) (trace l)"
  shows "gate_exit ok wt command g l"
proof -
  obtain r new a b where "trace k = trace h @ new" "(r, ok) \<in> set new" "req_exe r = ''bash''"
      "req_args r = [''-c'', command]" "req_dir r = wt" "trace h = trace g @ a" "trace l = trace k @ b"
    using assms by (auto simp: gate_exit_def elim!: prefixE)
  then show ?thesis unfolding gate_exit_def by (intro exI [of _ r] exI [of _ "a @ new @ b"]) auto
qed

lemma gate_outcome_extend:
  assumes "gate_outcome ok wt command h k" and "given_env g h" and "given_env k l"
  shows "gate_outcome ok wt command g l"
  using assms by (auto simp: gate_outcome_def given_env_def intro: gate_exit_extend)

lemma grown_step: "state_io_rel given_env m \<Longrightarrow> makes (\<lambda>k. prefix (trace h) (trace k)) (\<lambda>k. prefix (trace h) (trace k)) m"
  by (erule makes_step) (auto simp: given_env_def)

lemma outcome_step: "state_io_rel given_env m \<Longrightarrow> makes (gate_outcome ok wt c h) (gate_outcome ok wt c h) m"
  by (erule makes_step) (blast intro: gate_outcome_extend genv.refl)

lemma gate_command_step:
  assumes "req_exe q = ''bash''" and "req_args q = [''-c'', c]" and "req_dir q = wt"
  shows "yields (\<lambda>k. prefix (trace h) (trace k)) (\<lambda>o' k. gate_outcome (exit_error o' = None) wt c h k)
    (run_command True q)"
  using assms by (auto simp: yields_def run_command_def Let_def gate_outcome_def gate_exit_def elim!: prefixE)

lemma RunCodeGate_yields:
  "yields (\<lambda>k. prefix (trace h) (trace k))
     (\<lambda>r k. \<exists>g. r = Inr g \<and> gate_outcome (gr_Passed g) (pr_Worktree pr) command h k)
     (RunCodeGate pr name command)"
  unfolding RunCodeGate_def Let_def
  by (rule yields_bind [OF grown_step [OF genv_runner.now]] yields_bind [OF grown_step [OF genv_runner.remove]]
      yields_bind [OF grown_step [OF genv_runner.mkdir]] yields_bind [OF gate_command_step]
      yields_bind [OF outcome_step [OF genv_runner.now]] yields_bind [OF outcome_step [OF genv_runner.keeps_branch]]
      yields_bind [OF outcome_step [OF genv_runner.phase]] yields_bind [OF outcome_step [OF genv_runner.keeps_capture]]
      yields_return TrueI
    | simp only: request.simps)+ simp

lemma RunCodeGate_outcome:
  assumes "run_state (RunCodeGate pr name command) h = (r, k)"
  obtains g where "r = Inr g" and "gate_outcome (gr_Passed g) (pr_Worktree pr) command h k"
  using yieldsD [OF RunCodeGate_yields _ assms, of h] by auto

text \<open>On a working database the gate's result is recorded under its name.\<close>

definition gate_recorded :: "PhaseRunner \<Rightarrow> string \<Rightarrow> bool \<Rightarrow> tables \<Rightarrow> bool" where
  "gate_recorded pr name ok d \<longleftrightarrow> (\<exists>p \<in> set (phases d). ph_RunID p = pr_RunID pr \<and> ph_Repo p = pr_RepoName pr \<and>
     ph_Name p = name \<and> ph_Kind p = ''code'' \<and> ph_Status p = (if ok then ''passed'' else ''failed''))"


lemma recorded_step: "state_io_rel (on_base (on_db same_phases)) m \<Longrightarrow>
    makes (\<lambda>h. gate_recorded pr n ok (db (base h))) (\<lambda>h. gate_recorded pr n ok (db (base h))) m"
  by (erule makes_step) (simp add: on_base_def on_db_def same_phases_def gate_recorded_def)

lemma records_gate:
  assumes "ph_RunID p = pr_RunID pr" "ph_Repo p = pr_RepoName pr" "ph_Name p = n" "ph_Kind p = ''code''"
    "ph_Status p = (if ok then ''passed'' else ''failed'')"
  shows "makes working (\<lambda>h. gate_recorded pr n ok (db (base h))) (store_io (RecordPhase p))"
proof -
  have "gate_recorded pr n ok (db (snd (RecordPhase p w)))" if "healthy w" for w
    using RecordPhase_recorded [OF that, of p] assms unfolding gate_recorded_def by metis
  then show ?thesis by (auto simp: yields_def store_io_def split: prod.split) (metis snd_conv)
qed

lemma RunCodeGate_records:
  "yields working (\<lambda>r k. \<exists>g. r = Inr g \<and> gate_recorded pr name (gr_Passed g) (db (base k))) (RunCodeGate pr name command)"
  unfolding RunCodeGate_def Let_def
  by (rule yields_bind [OF working_step [OF env_runner.now]] yields_bind [OF working_step [OF env_runner.remove]]
      yields_bind [OF working_step [OF env_runner.mkdir]] yields_bind [OF working_step [OF env_runner.command]]
      yields_bind [OF working_step [OF env_runner.keeps_branch]] yields_bind [OF records_gate]
      yields_bind [OF recorded_step [OF samep_recorder.rec.keeps_capture]] yields_return TrueI
    | simp only: PhaseRecord.simps)+ simp

text \<open>
  C37: a gate's record is what its command did.  With a working database, running a gate never returns an
  error, and leaves a phase recorded under the gate's name that is passed exactly when the result says
  so; it says so only if the command exited without an error in the worktree, and it reports a failure
  only if the command exited with an error there or the run was cancelled.
\<close>

theorem RunCodeGate_honest:
  assumes "run_state (RunCodeGate pr name command) h = (r, k)" and "healthy (base h)"
  shows "\<exists>g. r = Inr g \<and> gate_recorded pr name (gr_Passed g) (db (base k)) \<and>
    gate_outcome (gr_Passed g) (pr_Worktree pr) command h k"
  using yieldsD [OF RunCodeGate_records _ assms(1)] RunCodeGate_outcome [OF assms(1)] assms(2) by (metis sum.inject(2))

theorem RunCodeGate_honest_witness:
  "\<exists>g. fst (run_state (RunCodeGate sample_runner ''vet'' ''go vet ./...'') sample_host) = Inr g \<and>
     gate_recorded sample_runner ''vet'' (gr_Passed g)
       (db (base (snd (run_state (RunCodeGate sample_runner ''vet'' ''go vet ./...'') sample_host))))"
proof -
  have "healthy (base sample_host)" by (simp add: sample_host_def calm_host_def)
  from RunCodeGate_honest [OF prod.collapse [symmetric] this] show ?thesis by blast
qed

end
