(* ===== verification/Engine.thy ===== *)
theory Engine
  imports Runner Plans
begin

text \<open>
  \<open>internal/dag/engine.go\<close>: preparing a run's isolated worktrees, running the phases of a stage in them,
  committing what the agents produced, and the red and green evidence of a gate.  The answers of \<open>git\<close>
  are those of the host's commands.
\<close>

section \<open>The engine\<close>

record Engine =
  en_Project :: Project
  en_Router :: path
  en_Resume :: bool
  en_ChangeDir :: string
  en_ChangeRepo :: string

text \<open>A failure to list the phases counts as not passed.\<close>

definition phasePassed :: "Engine \<Rightarrow> string \<Rightarrow> string \<Rightarrow> string \<Rightarrow> bool io" where
  "phasePassed e runID repo phase =
     (if \<not> en_Resume e then State_Monad.return False
      else do {
        res \<leftarrow> store_io (ListPhasesForRun runID);
        State_Monad.return (case res of
          Inl _ \<Rightarrow> False
        | Inr ps \<Rightarrow> list_ex (\<lambda>p. ph_Repo p = repo \<and> ph_Name p = phase \<and> ph_Status p = ''passed'') ps) })"

section \<open>Where a run lives\<close>

definition expandPath :: "host \<Rightarrow> string \<Rightarrow> string" where
  "expandPath h p = (if HasPrefix p ''~/'' then path_text (Join (home_dir h) (drop 2 p)) else p)"

definition FleetRoot :: "host \<Rightarrow> path" where
  "FleetRoot h = (if getenv h ''SGT_FLEET_DIR'' \<noteq> [] then Join [] (getenv h ''SGT_FLEET_DIR'')
     else Join (Join (Join (Join (home_dir h) ''.local'') ''share'') ''sgt-v2'') ''fleet'')"

definition FleetDir :: "host \<Rightarrow> string \<Rightarrow> string \<Rightarrow> path" where
  "FleetDir h runID repoName = Join (Join (FleetRoot h) runID) repoName"

section \<open>Asking git\<close>

definition isGitRepo :: "string \<Rightarrow> bool io" where
  "isGitRepo dir = do {
     o' \<leftarrow> run_command False (git [''-C'', dir, ''rev-parse'', ''--git-dir'']);
     State_Monad.return (exit_error o' = None) }"

definition gitOutput :: "bool \<Rightarrow> string \<Rightarrow> string list \<Rightarrow> string io" where
  "gitOutput c dir args = do {
     o' \<leftarrow> run_command c (git ([''-C'', dir] @ args));
     State_Monad.return (if exit_error o' \<noteq> None then [] else TrimSpace (out_text o')) }"

definition branchExists :: "string \<Rightarrow> string \<Rightarrow> bool io" where
  "branchExists repoPath branch = do {
     o' \<leftarrow> run_command True (git [''-C'', repoPath, ''show-ref'', ''--verify'', ''--quiet'', ''refs/heads/'' @ branch]);
     State_Monad.return (exit_error o' = None) }"

text \<open>The first candidate \<open>git\<close> verifies, if any.\<close>

fun first_verified :: "string \<Rightarrow> string list \<Rightarrow> string option io" where
  "first_verified repoPath [] = State_Monad.return None"
| "first_verified repoPath (c # cs) = do {
     out \<leftarrow> gitOutput True repoPath [''rev-parse'', ''--verify'', c];
     if out \<noteq> [] then State_Monad.return (Some c) else first_verified repoPath cs }"

definition TrimPrefix :: "string \<Rightarrow> string \<Rightarrow> string" where
  "TrimPrefix s p = (if HasPrefix s p then drop (length p) s else s)"

definition resolveDefaultBranch :: "string \<Rightarrow> string io" where
  "resolveDefaultBranch repoPath = do {
     r \<leftarrow> first_verified repoPath [''main'', ''master''];
     case r of Some c \<Rightarrow> State_Monad.return c | None \<Rightarrow> do {
     ref \<leftarrow> gitOutput True repoPath [''symbolic-ref'', ''refs/remotes/origin/HEAD''];
     if ref \<noteq> [] then State_Monad.return (TrimPrefix ref ''refs/remotes/'')
     else do {
       r \<leftarrow> first_verified repoPath [''origin/main'', ''origin/master''];
       case r of Some c \<Rightarrow> State_Monad.return c
       | None \<Rightarrow> gitOutput True repoPath [''rev-parse'', ''--abbrev-ref'', ''HEAD''] } } }"

section \<open>Worktrees\<close>

text \<open>The base branch recorded by an earlier attempt, or the repository's default, which is recorded.\<close>

definition base_branch :: "RunRecord \<Rightarrow> string \<Rightarrow> string \<Rightarrow> string io" where
  "base_branch run runID repoPath =
     (if run_BaseBranch run \<noteq> [] then State_Monad.return (run_BaseBranch run)
      else do {
        b \<leftarrow> resolveDefaultBranch repoPath;
        _ \<leftarrow> (if b \<noteq> [] then store_io (SetRunBaseBranch runID b) else State_Monad.return (Inr ()));
        State_Monad.return b })"

definition worktree_args :: "bool \<Rightarrow> string \<Rightarrow> path \<Rightarrow> string \<Rightarrow> string \<Rightarrow> string list" where
  "worktree_args exists repoPath wt branch baseBranch =
     [''-C'', repoPath, ''worktree'', ''add''] @
     (if exists then [path_text wt, branch]
      else [''-b'', branch, path_text wt, if baseBranch = [] then ''HEAD'' else baseBranch])"

definition prepareWorktree :: "string \<Rightarrow> string \<Rightarrow> string \<Rightarrow> (err + path \<times> bool) io" where
  "prepareWorktree repoPath runID repoName = do {
     h \<leftarrow> get_host;
     let repoPath = expandPath h repoPath;
     ok \<leftarrow> isGitRepo repoPath;
     if \<not> ok then State_Monad.return (Inl (Errorf
       ''repo %s at %s is not a git repository; refusing to dispatch agents into an unisolated directory''
       [repoName, repoPath] None))
     else do {
       let wt = FleetDir h runID repoName;
       st \<leftarrow> Stat wt;
       case st of
         Inr _ \<Rightarrow> State_Monad.return (Inr (wt, True))
       | Inl _ \<Rightarrow>
           or_wrap ''creating fleet dir: %w'' [] (MkdirAll (butlast wt)) (\<lambda>_.
           or_wrap ''loading run %q to name its branch: %w'' [runID] (store_io (GetRun runID)) (\<lambda>run. do {
             let branch = BranchName (run_Type run) (run_ChangeID run);
             baseBranch \<leftarrow> base_branch run runID repoPath;
             exists \<leftarrow> branchExists repoPath branch;
             o' \<leftarrow> run_command True (git (worktree_args exists repoPath wt branch baseBranch));
             State_Monad.return (case exit_error o' of
               Some x \<Rightarrow> Inl (Errorf ''creating worktree for %s: %v: %s'' [repoName, x, TrimSpace (out_text o')] None)
             | None \<Rightarrow> Inr (wt, True)) })) } }"

text \<open>
  The walk of the change directory, parents first; \<open>dst\<close> is outside of it.  The relative path of an
  entry is what follows the components of \<open>src\<close>.
\<close>

definition copy_walked :: "path \<Rightarrow> path \<Rightarrow> path \<times> node \<Rightarrow> (err + unit) io" where
  "copy_walked src dst entry = (case entry of
     (p, Dir) \<Rightarrow> MkdirAll (dst @ drop (length src) p)
   | (p, File _) \<Rightarrow> or_fail (ReadFile p) (\<lambda>data. WriteFile (dst @ drop (length src) p) data))"

definition copyChangeDir :: "path \<Rightarrow> path \<Rightarrow> (err + unit) io" where
  "copyChangeDir src dst = or_fail (WalkDir src) (each_io (copy_walked src dst))"

text \<open>
  The commit's identity is set in its environment.  \<open>c\<close> says whether the commands carry the run's context:
  both callers pass the background context, so a cancelled run is committed too.
\<close>

definition commit_identity :: "string list" where
  "commit_identity = [''GIT_AUTHOR_NAME=sgt'', ''GIT_AUTHOR_EMAIL=sgt@localhost'',
     ''GIT_COMMITTER_NAME=sgt'', ''GIT_COMMITTER_EMAIL=sgt@localhost'']"

definition CommitRunOutput :: "bool \<Rightarrow> string \<Rightarrow> string \<Rightarrow> string \<Rightarrow> (err + bool \<times> string) io" where
  "CommitRunOutput c runID repoName message = do {
     h \<leftarrow> get_host;
     let wt = FleetDir h runID repoName;
     st \<leftarrow> Stat wt;
     case st of Inl _ \<Rightarrow> State_Monad.return (Inr (False, []))
     | Inr _ \<Rightarrow> do {
         status \<leftarrow> gitOutput c (path_text wt) [''status'', ''--porcelain''];
         if status = [] then State_Monad.return (Inr (False, []))
         else do {
           o' \<leftarrow> run_command c (git [''-C'', path_text wt, ''add'', ''-A'']);
           case exit_error o' of
             Some x \<Rightarrow> State_Monad.return (Inl (Errorf ''staging %s: %v: %s'' [repoName, x, TrimSpace (out_text o')] None))
           | None \<Rightarrow> do {
               o' \<leftarrow> run_command c ((git [''-C'', path_text wt, ''commit'', ''-m'', message])\<lparr>req_env := commit_identity\<rparr>);
               case exit_error o' of
                 Some x \<Rightarrow> State_Monad.return (Inl (Errorf ''committing %s: %v: %s'' [repoName, x, TrimSpace (out_text o')] None))
               | None \<Rightarrow> do {
                   sha \<leftarrow> gitOutput c (path_text wt) [''rev-parse'', ''--short'', ''HEAD''];
                   State_Monad.return (Inr (True, sha)) } } } } }"

section \<open>Prompts\<close>

text \<open>
  The verb \<open>%q\<close> on a name: bytes of printable characters outside ASCII are copied, an unprintable
  character outside ASCII is not told apart from them.
\<close>

definition quote_char :: "char \<Rightarrow> string" where
  \<open>quote_char c = (let n = of_char c :: nat in
     if c = CHR ''"'' \<or> c = CHR 0x5C then [CHR 0x5C, c]
     else case map_of [(7, CHR ''a''), (8, CHR ''b''), (12, CHR ''f''), (10, CHR ''n''), (13, CHR ''r''),
            (9, CHR ''t''), (11, CHR ''v'')] n of
       Some d \<Rightarrow> [CHR 0x5C, d]
     | None \<Rightarrow> if n < 32 \<or> n = 127 then [CHR 0x5C, CHR ''x'', digit_char (n div 16), digit_char (n mod 16)]
              else [c])\<close>

definition quote :: "string \<Rightarrow> string" where
  \<open>quote s = ''"'' @ concat (map quote_char s) @ ''"''\<close>

definition em_dash :: string where
  "em_dash = [CHR 0xE2, CHR 0x80, CHR 0x94]"

definition reviewPrompt :: "string \<Rightarrow> string \<Rightarrow> string" where
  \<open>reviewPrompt diff repoName =
     ''# Phase objective: review'' @ nl @ nl @
     ''You are executing the "review" phase: judge the diff below, nothing else. '' @
     ''Do not modify files, do not commit, do not push, and do not open a pull request '' @
     em_dash @ '' report findings only.'' @ nl @ nl @
     ''Review this diff for repo '' @ repoName @ '' against its intent and OpenSpec change, if one is referenced. '' @
     ''Judge only what is in the diff and the referenced spec '' @ em_dash @ '' you have not seen and must not assume '' @
     ''the implementing agent'' @ [CHR 0x27] @ ''s own reasoning. Report findings as JSON: '' @
     ''{"findings":[{"axis":...,"severity":"error"|"warning"|"info","summary":...,"disposition":...}]}.'' @ nl @ nl @
     ''Diff:'' @ nl @ diff\<close>

definition phaseObjective :: "string \<Rightarrow> string list \<Rightarrow> string" where
  \<open>phaseObjective phase pipeline =
     (let c = join_with '' -> '' pipeline;
          this = ''This repo'' @ [CHR 0x27] @ ''s configured pipeline is: '' @ c @ ''. '' in
      if phase = ''plan'' then
        ''# Phase objective: plan'' @ nl @ nl @ this @ ''You are executing ONLY the '' @
        ''"plan" phase. Produce a plan for the approach '' @ em_dash @ '' what will change, '' @
        ''which files, and how it will be verified. Do not modify implementation '' @
        ''files, do not commit, do not push a branch, and do not open a pull '' @
        ''request. Later phases in this pipeline implement and verify the plan; '' @
        ''completing them is not your responsibility here.'' @ nl @ nl
      else if phase = ''build'' then
        ''# Phase objective: build'' @ nl @ nl @ this @ ''You are executing the '' @
        ''"build" phase: implement the change described below. Commit your '' @
        ''work if useful, but do not push this branch and do not open a pull '' @
        ''request '' @ em_dash @ '' delivery is a separate, explicitly human-approved action '' @
        ''outside this pipeline (POST /api/create-pr), never something a phase '' @
        ''does on its own.'' @ nl @ nl
      else
        ''# Phase objective: '' @ phase @ nl @ nl @ this @ ''You are executing ONLY the '' @
        quote phase @ '' phase. Perform this phase'' @ [CHR 0x27] @ ''s own responsibility and nothing more '' @ em_dash @ '' '' @
        ''do not perform work belonging to another phase in this pipeline, and '' @
        ''do not push a branch or open a pull request.'' @ nl @ nl)\<close>

section \<open>A stage\<close>

text \<open>
  Routing the artifacts of one upstream repository into the worktree: tracked as a delivery when an
  envelope of it is recorded.
\<close>

definition inject_upstream :: "Engine \<Rightarrow> string \<Rightarrow> path \<Rightarrow> string \<Rightarrow> (err + unit) io" where
  "inject_upstream e runID worktree upstream = do {
     latest \<leftarrow> store_io (GetLatestEnvelope runID upstream);
     case latest of
       Inl _ \<Rightarrow> or_wrap ''injecting handoff from %s into %s: %w'' [upstream, path_text worktree]
         (InjectHandoffToWorktree (en_Router e) upstream worktree) (\<lambda>_. State_Monad.return (Inr ()))
     | Inr env \<Rightarrow> or_wrap ''delivering handoff from upstream %s to worktree %s: %w'' [upstream, path_text worktree]
         (deliver_io (env_ID env) (path_text worktree) True (InjectHandoffToWorktree (en_Router e) upstream worktree))
         (\<lambda>_. State_Monad.return (Inr ())) }"

definition seed_change :: "Engine \<Rightarrow> string \<Rightarrow> path \<Rightarrow> (err + unit) io" where
  "seed_change e repoName worktree =
     or_fail
       (if en_ChangeDir e \<noteq> [] \<and> repoName = en_ChangeRepo e then
          or_wrap ''copying OpenSpec change %s into worktree for %s: %w'' [en_ChangeDir e, repoName]
            (copyChangeDir (Join [] (en_ChangeDir e))
              (Join (Join (Join worktree ''openspec'') ''changes'') (Base (en_ChangeDir e))))
            (\<lambda>_. State_Monad.return (Inr ()))
        else State_Monad.return (Inr ()))
     (\<lambda>_. do {
       _ \<leftarrow> (if en_ChangeDir e \<noteq> [] then SeedPlan (Join [] (en_ChangeDir e)) worktree else State_Monad.return (Inr ()));
       State_Monad.return (Inr ()) })"

definition stage_runner :: "Engine \<Rightarrow> string \<Rightarrow> string \<Rightarrow> path \<Rightarrow> PhaseRunner" where
  "stage_runner e runID repoName worktree =
     \<lparr>pr_Router = en_Router e, pr_Worktree = worktree, pr_RepoName = repoName, pr_RunID = runID,
      pr_AgentCLI = def_Agent (pj_Defaults (en_Project e)), pr_Model = def_Model (pj_Defaults (en_Project e)),
      pr_FixCycle = 0, pr_AgentTimeout = 0, pr_GateTimeout = 0\<rparr>"

text \<open>One configured gate: skipped when resuming a run that passed it.\<close>

definition run_gate :: "Engine \<Rightarrow> PhaseRunner \<Rightarrow> Repo \<Rightarrow> string \<Rightarrow> (err + unit) io" where
  "run_gate e pr repoCfg gateName = do {
     done \<leftarrow> phasePassed e (pr_RunID pr) (pr_RepoName pr) gateName;
     if done then State_Monad.return (Inr ())
     else do {
       res \<leftarrow> RunCodeGate pr gateName (gate_command repoCfg gateName);
       State_Monad.return (case res of
         Inr g \<Rightarrow> if gr_Passed g then Inr ()
           else Inl (Errorf ''deterministic code gate %s failed on %s'' [gateName, pr_RepoName pr] None)
       | Inl _ \<Rightarrow> Inl (Errorf ''deterministic code gate %s failed on %s'' [gateName, pr_RepoName pr] None)) } }"

definition placeholder_gate :: string where
  "placeholder_gate = ''echo '' @ [CHR 0x27] @ ''Deterministic gate passed'' @ [CHR 0x27]"

definition run_test_phase :: "Engine \<Rightarrow> PhaseRunner \<Rightarrow> Repo \<Rightarrow> (err + unit) io" where
  "run_test_phase e pr repoCfg =
     (if gates_of repoCfg \<noteq> [] then each_io (run_gate e pr repoCfg) (SortedGateNames repoCfg)
      else do {
        done \<leftarrow> phasePassed e (pr_RunID pr) (pr_RepoName pr) ''test'';
        if done then State_Monad.return (Inr ())
        else do {
          _ \<leftarrow> RunCodeGate pr ''test'' placeholder_gate;
          State_Monad.return (Inr ()) } })"

text \<open>
  A phase that returns neither an envelope nor an error, which a negative number of retries makes it
  do, panics when its payload is read.
\<close>

definition nil_dereference :: err where
  "nil_dereference = Other ''invalid memory address or nil pointer dereference''"

definition run_review_phase :: "Engine \<Rightarrow> PhaseRunner \<Rightarrow> (err + unit) io" where
  "run_review_phase e pr = do {
     done \<leftarrow> phasePassed e (pr_RunID pr) (pr_RepoName pr) ''review'';
     if done then State_Monad.return (Inr ())
     else or_wrap ''collecting diff for review phase on %s: %w'' [pr_RepoName pr] (DiffAgainstBase pr) (\<lambda>diff. do {
       (env, reason, x) \<leftarrow> RunAgentPhase pr ''review'' (reviewPrompt diff (pr_RepoName pr))
         (ResolvedRetries (en_Project e) (pr_RepoName pr));
       State_Monad.return (case x of
         Some err \<Rightarrow> Inl (Errorf ''review phase failed on repo %s: %w'' [pr_RepoName pr] (Some err))
       | None \<Rightarrow> (case env of
           None \<Rightarrow> Inl nil_dereference
         | Some env \<Rightarrow> if HasBlockingFinding (ReviewFindings (he_Payload env))
             then Inl (Errorf ''review phase on %s reported a blocking finding'' [pr_RepoName pr] None)
             else Inr ())) }) }"

text \<open>The brief of the run's intent, when it has one that can be rendered, in place of the stage's.\<close>

definition phase_prompt :: "PhaseRunner \<Rightarrow> DAGStage \<Rightarrow> Repo \<Rightarrow> string \<Rightarrow> string io" where
  "phase_prompt pr stage repoCfg phase = do {
     run \<leftarrow> store_io (GetRun (pr_RunID pr));
     rendered \<leftarrow> (case run of
       Inr r \<Rightarrow> if run_IntentID r \<noteq> []
         then store_io (RenderIntentBrief (run_IntentID r) (pr_RepoName pr) (SortedGateNames repoCfg))
         else State_Monad.return (Inr (stg_Brief stage))
     | Inl _ \<Rightarrow> State_Monad.return (Inr (stg_Brief stage)));
     let prompt = (case rendered of Inr b \<Rightarrow> b | Inl _ \<Rightarrow> stg_Brief stage);
     let prompt = (if prompt = []
       then ''Execute '' @ phase @ '' phase for stage '' @ stg_Name stage @ '' on '' @ pr_RepoName pr else prompt);
     State_Monad.return (phaseObjective phase (PipelineFor repoCfg) @ prompt) }"

definition run_agent_step :: "Engine \<Rightarrow> PhaseRunner \<Rightarrow> DAGStage \<Rightarrow> Repo \<Rightarrow> string \<Rightarrow> (err + unit) io" where
  "run_agent_step e pr stage repoCfg phase = do {
     done \<leftarrow> phasePassed e (pr_RunID pr) (pr_RepoName pr) phase;
     if done then State_Monad.return (Inr ())
     else do {
       prompt \<leftarrow> phase_prompt pr stage repoCfg phase;
       (env, reason, x) \<leftarrow> RunAgentPhase pr phase prompt (ResolvedRetries (en_Project e) (pr_RepoName pr));
       State_Monad.return (case x of
         Some err \<Rightarrow> Inl (Errorf ''agent phase %s failed on repo %s: %w'' [phase, pr_RepoName pr] (Some err))
       | None \<Rightarrow> Inr ()) } }"

definition run_phase :: "Engine \<Rightarrow> PhaseRunner \<Rightarrow> DAGStage \<Rightarrow> Repo \<Rightarrow> string \<Rightarrow> (err + unit) io" where
  "run_phase e pr stage repoCfg phase =
     (if phase = ''test'' then run_test_phase e pr repoCfg
      else if phase = ''review'' then run_review_phase e pr
      else run_agent_step e pr stage repoCfg phase)"

definition run_repo :: "Engine \<Rightarrow> string \<Rightarrow> DAGStage \<Rightarrow> string \<Rightarrow> (err + unit) io" where
  "run_repo e runID stage repoName = (case map_of (pj_Repos (en_Project e)) repoName of
     None \<Rightarrow> State_Monad.return (Inl (Errorf ''repo %s not configured in project'' [repoName] None))
   | Some repoCfg \<Rightarrow>
       or_fail (prepareWorktree (repo_Path repoCfg) runID repoName) (\<lambda>(worktree, isolated).
       if \<not> isolated then State_Monad.return (Inl (Errorf
         ''refusing to run agents for %s without an isolated worktree'' [repoName] None))
       else or_fail (each_io (inject_upstream e runID worktree) (stg_After stage)) (\<lambda>_.
            or_fail (seed_change e repoName worktree) (\<lambda>_.
            each_io (run_phase e (stage_runner e runID repoName worktree) stage repoCfg) (PipelineFor repoCfg)))))"

definition RunStage :: "Engine \<Rightarrow> string \<Rightarrow> DAGStage \<Rightarrow> (err + unit) io" where
  "RunStage e runID stage = each_io (run_repo e runID stage) (stg_Repos stage)"


section \<open>Red and green evidence\<close>

record GateEvidence =
  ge_Gate :: string
  ge_Status :: string
  ge_Stage :: string
  ge_Output :: string
  ge_Duration :: int

definition gateNamesOf :: "GateEvidence list \<Rightarrow> string list" where
  "gateNamesOf evidence = map ge_Gate evidence"

definition verifyEvidencePersisted :: "string \<Rightarrow> string \<Rightarrow> string \<Rightarrow> string list \<Rightarrow> (err + unit) io" where
  "verifyEvidencePersisted runID repoName stage gateNames =
     or_wrap ''reading back %s-state evidence for %s: %w'' [stage, repoName] (store_io (ListPhasesForRun runID)) (\<lambda>ps.
     let recorded = map ph_Name (filter (\<lambda>p. ph_Repo p = repoName \<and> ph_Kind p = ''code'') ps);
         missing = filter (\<lambda>g. GatePhaseName stage g \<notin> set recorded) gateNames in
     State_Monad.return (if missing \<noteq> [] then Inl (Errorf
         ''%s-state evidence for %s was not persisted: no phase record for gate(s) %s''
         [stage, repoName, join_with '', '' missing] None)
       else Inr ()))"

text \<open>The loop over the gates; the evidence gathered so far is returned along with an error.\<close>

fun gate_stage_loop :: "PhaseRunner \<Rightarrow> Repo \<Rightarrow> string \<Rightarrow> string list \<Rightarrow> GateEvidence list \<Rightarrow>
    (GateEvidence list \<times> err option) io" where
  "gate_stage_loop pr repoCfg stage [] evidence = State_Monad.return (evidence, None)"
| "gate_stage_loop pr repoCfg stage (g # gs) evidence = do {
     start \<leftarrow> now_io;
     res \<leftarrow> RunCodeGate pr (GatePhaseName stage g) (gate_command repoCfg g);
     stop \<leftarrow> now_io;
     case res of
       Inl x \<Rightarrow> State_Monad.return (evidence, Some (Errorf ''running %s-state gate %s on %s: %w''
         [stage, g, pr_RepoName pr] (Some x)))
     | Inr r \<Rightarrow> gate_stage_loop pr repoCfg stage gs (evidence @ [\<lparr>ge_Gate = g,
         ge_Status = (if gr_Passed r then ''passed'' else ''failed''), ge_Stage = stage,
         ge_Output = gr_Output r, ge_Duration = stop - start\<rparr>]) }"

definition recordGateStage :: "Engine \<Rightarrow> string \<Rightarrow> string \<Rightarrow> string \<Rightarrow> (GateEvidence list \<times> err option) io" where
  "recordGateStage e runID repoName stage = (case map_of (pj_Repos (en_Project e)) repoName of
     None \<Rightarrow> State_Monad.return ([], Some (Errorf ''repo %s not configured in project %s''
       [repoName, pj_Name (en_Project e)] None))
   | Some repoCfg \<Rightarrow>
       let gateNames = SortedGateNames repoCfg in
       if gateNames = [] then State_Monad.return ([], Some (Errorf
         ''repo %s configures no gates; %s-state evidence requires at least one deterministic gate''
         [repoName, stage] None))
       else do {
         prepared \<leftarrow> prepareWorktree (repo_Path repoCfg) runID repoName;
         case prepared of
           Inl x \<Rightarrow> State_Monad.return ([], Some x)
         | Inr (worktree, isolated) \<Rightarrow>
             if \<not> isolated then State_Monad.return ([], Some (Errorf
               ''refusing to run %s-state gates for %s without an isolated worktree'' [stage, repoName] None))
             else do {
               (evidence, x) \<leftarrow> gate_stage_loop (stage_runner e runID repoName worktree) repoCfg stage gateNames [];
               case x of Some x \<Rightarrow> State_Monad.return (evidence, Some x)
               | None \<Rightarrow> do {
                   v \<leftarrow> verifyEvidencePersisted runID repoName stage gateNames;
                   State_Monad.return (evidence, case v of Inl x \<Rightarrow> Some x | Inr _ \<Rightarrow> None) } } })"

definition RecordRedState :: "Engine \<Rightarrow> string \<Rightarrow> string \<Rightarrow> (GateEvidence list \<times> err option) io" where
  "RecordRedState e runID repoName = do {
     (evidence, x) \<leftarrow> recordGateStage e runID repoName ''red'';
     State_Monad.return (evidence, case x of
       Some x \<Rightarrow> Some x
     | None \<Rightarrow> if list_ex (\<lambda>ev. ge_Status ev = ''failed'') evidence then None
         else Some (Errorf (''no failing gate was observed for repo %s in run %s: all %d gate(s) (%s) passed before '' @
           ''implementation, so the work was not test-first; write the failing test first, or record an exemption '' @
           ''with RecordRedExemption'')
           [repoName, runID, show_nat (length evidence), join_with '', '' (gateNamesOf evidence)] None)) }"

definition RecordGreenState :: "Engine \<Rightarrow> string \<Rightarrow> string \<Rightarrow> (GateEvidence list \<times> err option) io" where
  "RecordGreenState e runID repoName = do {
     (evidence, x) \<leftarrow> recordGateStage e runID repoName ''green'';
     State_Monad.return (evidence, case x of
       Some x \<Rightarrow> Some x
     | None \<Rightarrow>
         let failed = map ge_Gate (filter (\<lambda>ev. ge_Status ev = ''failed'') evidence) in
         if failed \<noteq> [] then Some (Errorf
           ''green state not reached for repo %s in run %s: gate(s) %s still failing''
           [repoName, runID, join_with '', '' failed] None)
         else None) }"

definition RecordRedExemption :: "Engine \<Rightarrow> string \<Rightarrow> string \<Rightarrow> string \<Rightarrow> (err + unit) io" where
  "RecordRedExemption e runID repoName reason = do {
     h \<leftarrow> get_host;
     let reason = TrimSpace reason;
     if stopped h then State_Monad.return (Inl Canceled)
     else if reason = [] then State_Monad.return (Inl (Errorf (''red-state exemption for repo %s in run %s requires a '' @
       ''reason: state why this bullet has no natural failing test (for example a pure refactor with unchanged behaviour)'')
       [repoName, runID] None))
     else if runID = [] \<or> repoName = [] then State_Monad.return (Inl (Errorf
       ''red-state exemption requires both a run id and a repo name (got run %q, repo %q)'' [runID, repoName] None))
     else if map_of (pj_Repos (en_Project e)) repoName = None then State_Monad.return (Inl (Errorf (''repo %s not '' @
       ''configured in project %s; refusing to record an exemption for a repository the project does not own'')
       [repoName, pj_Name (en_Project e)] None))
     else do {
       nano \<leftarrow> now_io;
       or_wrap ''recording red-state exemption for %s: %w'' [repoName]
         (store_io (RecordPhase \<lparr>ph_ID = repoName @ ''-red:exempt-'' @ show_int nano, ph_RunID = runID,
           ph_Repo = repoName, ph_Name = ''red:exempt'', ph_Kind = ''exemption'', ph_Status = ''exempt'',
           ph_Error = [], ph_DurationMs = 0, ph_Payload = RawDoc (JObj [(''reason'', JStr reason),
             (''repo'', JStr repoName), (''run_id'', JStr runID), (''stage'', JStr ''red'')]),
           ph_Attempt = 0, ph_FixCycle = 0, ph_CreatedAt = 0\<rparr>))
         (\<lambda>_. State_Monad.return (Inr ())) } }"



section \<open>What a stage does to the host\<close>

text \<open>
  The store methods the engine calls itself, beside those of the runner, and the walk of a change.
\<close>

locale engine_relation = runner_relation +
  assumes list_phases: "state_io_rel R (store_io (ListPhasesForRun i))"
    and get_run: "state_io_rel R (store_io (GetRun i))"
    and set_base: "state_io_rel R (store_io (SetRunBaseBranch i b))"
    and brief: "state_io_rel R (store_io (RenderIntentBrief i rp gs))"
    and get_latest: "state_io_rel R (store_io (GetLatestEnvelope i rp))"
    and walk: "state_io_rel R (WalkDir p)"
begin

lemmas keeps_engine = keeps_rules list_phases get_run set_base brief get_latest

lemma keeps_passed: "keeps (phasePassed e i rp ph)"
  unfolding phasePassed_def by (intro keeps_engine)

lemma keeps_gitOutput: "keeps (gitOutput c dir args)"
  unfolding gitOutput_def by (intro keeps_engine command asks_git)

lemma keeps_verified: "keeps (first_verified dir cs)"
  by (induction cs) (auto intro!: keeps_engine keeps_gitOutput)

lemma keeps_default_branch: "keeps (resolveDefaultBranch dir)"
  unfolding resolveDefaultBranch_def by (intro keeps_engine keeps_verified keeps_gitOutput)

lemma keeps_prepare: "keeps (prepareWorktree p i rp)"
  unfolding prepareWorktree_def isGitRepo_def branchExists_def base_branch_def Let_def
  by (intro keeps_engine keeps_files keeps_default_branch command asks_git)

lemma keeps_inject_handoff: "keeps (InjectHandoffToWorktree b u w)"
proof -
  have "keeps (copy_entry s d entry)" for s d entry
    unfolding copy_entry_def by (intro keeps_engine keeps_files)
  then show ?thesis
    unfolding InjectHandoffToWorktree_def Let_def by (intro keeps_engine keeps_files)
qed

lemma keeps_inject: "keeps (inject_upstream e i w u)"
  unfolding inject_upstream_def by (intro keeps_engine keeps_inject_handoff deliver)

lemma keeps_collect: "keeps (collect_scenarios ps)"
  by (induction ps rule: collect_scenarios.induct) (auto intro!: keeps_engine keeps_files)

lemma keeps_seed: "keeps (SeedPlan c w)"
  unfolding SeedPlan_def ParseScenariosFromDir_def Let_def
  by (intro keeps_engine keeps_files keeps_collect walk)

lemma keeps_copy_change: "keeps (copyChangeDir s d)"
proof -
  have "keeps (copy_walked s d entry)" for entry
    unfolding copy_walked_def by (intro keeps_engine keeps_files)
  then show ?thesis unfolding copyChangeDir_def by (intro keeps_engine walk)
qed

lemma keeps_seed_change: "keeps (seed_change e rp w)"
  unfolding seed_change_def by (intro keeps_engine keeps_seed keeps_copy_change)

lemma keeps_diff: "keeps (DiffAgainstBase pr)"
  unfolding DiffAgainstBase_def by (intro keeps_engine command asks_git)

lemma keeps_prompt: "keeps (phase_prompt pr stage rc ph)"
  unfolding phase_prompt_def Let_def by (intro keeps_engine)

end

text \<open>
  A worktree the engine may run commands in is one it has prepared.
\<close>

locale stage_relation = engine_relation +
  fixes prepared :: "path \<Rightarrow> bool" and rid :: string
  assumes statuses: "allowed ''running''" "allowed ''passed''" "allowed ''failed''" "allowed ''cancelled''"
    and in_prepared: "prepared w \<Longrightarrow> req_dir q = w \<Longrightarrow> runs q"
    and prepare: "(\<And>w. prepared w \<Longrightarrow> state_io_rel R (f (w, True))) \<Longrightarrow>
      state_io_rel R (or_fail (prepareWorktree p rid rp) (f :: path \<times> bool \<Rightarrow> (err + unit) io))"
begin

lemma keeps_run_phase:
  assumes w: "prepared (pr_Worktree pr)"
  shows "keeps (run_phase e pr stage rc ph)"
proof -
  have gate: "keeps (RunCodeGate pr n c)" for n c
    using w by (intro keeps_gate statuses) (blast intro: in_prepared)
  have agent: "keeps (RunAgentPhase pr n prompt retries)" for n prompt retries
    using w by (intro keeps_agent statuses) (blast intro: in_prepared)
  show ?thesis
    unfolding run_phase_def run_test_phase_def run_review_phase_def run_agent_step_def run_gate_def
    by (intro keeps_engine keeps_passed keeps_diff keeps_prompt gate agent)
qed

lemma keeps_run_repo: "keeps (run_repo e rid stage rp)"
proof -
  have "prepared (pr_Worktree (stage_runner e rid rp w))" if "prepared w" for w
    using that by (simp add: stage_runner_def)
  then show ?thesis
    unfolding run_repo_def
    by (intro k_option k_return prepare)
      (simp only: prod.case not_True_eq_False if_False, intro keeps_engine keeps_inject keeps_seed_change keeps_run_phase)
qed

lemma keeps_RunStage: "keeps (RunStage e rid stage)"
  unfolding RunStage_def by (intro keeps_engine keeps_run_repo)

end


interpretation sound_engine: engine_relation "on_base (on_db sound_step)" "\<lambda>_. True" "\<lambda>_. True"
  by unfold_locales
    (auto intro!: within_intros sound.base_store sound.base_file_op
      simp: ListPhasesForRun_def GetLatestEnvelope_def RenderIntentBrief_def WalkDir_def)

interpretation genv_engine: engine_relation given_env "\<lambda>_. True" "\<lambda>_. True"
  by unfold_locales (auto intro!: keeps_intros simp: WalkDir_def)

lemma prepare_result:
  assumes "run_state (prepareWorktree p i rp) h = (Inr (w, b), k)"
  shows "w = FleetDir h i rp" and "b"
  using assms
  by (auto simp: prepareWorktree_def or_wrap_def Let_def get_host_def split: prod.splits sum.splits if_splits option.splits)

text \<open>How a composition with \<open>or_fail\<close> goes on after its first step.\<close>

lemma or_fail_rel:
  assumes "state_io_rel R m" and "\<And>g h k. R g h \<Longrightarrow> R h k \<Longrightarrow> R g k"
    and "\<And>h x h1 r k. run_state m h = (Inr x, h1) \<Longrightarrow> run_state (f x) h1 = (r, k) \<Longrightarrow> R h h1 \<Longrightarrow> R h1 k"
  shows "state_io_rel R (or_fail m f)"
proof (rule state_io_relI)
  fix r h k
  assume run: "run_state (or_fail m f) h = (r, k)"
  obtain y h1 where 1: "run_state m h = (y, h1)" by (cases "run_state m h")
  with assms(1) have R: "R h h1" by blast
  show "R h k"
  proof (cases y)
    case (Inl e)
    with run 1 R show ?thesis by (simp add: or_fail_def)
  next
    case (Inr x)
    with run 1 have "run_state (f x) h1 = (r, k)" by (simp add: or_fail_def)
    then show ?thesis by (rule assms(2) [OF R assms(3) [OF 1 [unfolded Inr] _ R]])
  qed
qed

context engine_relation
begin

lemma prepare_any:
  assumes "\<And>w. keeps (f (w, True))"
  shows "keeps (or_fail (prepareWorktree p i rp) f)"
proof (rule or_fail_rel [OF keeps_prepare trans])
  fix h x h1 r k
  assume "run_state (prepareWorktree p i rp) h = (Inr x, h1)" and run: "run_state (f x) h1 = (r, k)"
  then have "x = (FleetDir h i rp, True)" by (cases x) (auto dest: prepare_result)
  with run assms show "R h1 k" by blast
qed

end

interpretation sound_stage: stage_relation "on_base (on_db sound_step)" "\<lambda>_. True" "\<lambda>_. True" "\<lambda>_. True" rid
  for rid
  by unfold_locales (auto intro: sound_engine.prepare_any)

interpretation genv_stage: stage_relation given_env "\<lambda>_. True" "\<lambda>_. True" "\<lambda>_. True" rid
  for rid
  by unfold_locales (auto intro: genv_engine.prepare_any)

section \<open>Agents and gates run in the run's worktrees\<close>

text \<open>
  A command of a run is a question to \<open>git\<close> in no directory of its own, or it runs in one of the run's
  worktrees under the fleet root.
\<close>

definition in_fleet :: "path \<Rightarrow> string \<Rightarrow> request \<Rightarrow> bool" where
  "in_fleet fleet runID q \<longleftrightarrow> (req_exe q = ''git'' \<and> req_dir q = []) \<or> (\<exists>rp. req_dir q = Join (Join fleet runID) rp)"

definition stays_in_fleet :: "path \<Rightarrow> string \<Rightarrow> host \<Rightarrow> host \<Rightarrow> bool" where
  "stays_in_fleet fleet runID h k \<longleftrightarrow> (FleetRoot h = fleet \<longrightarrow> FleetRoot k = fleet \<and> prefix (trace h) (trace k) \<and>
     (\<forall>(q, b) \<in> set (drop (length (trace h)) (trace k)). in_fleet fleet runID q))"

interpretation isolated: host_relation "stays_in_fleet fleet runID"
proof (unfold_locales, goal_cases)
  case (2 g h k)
  then show ?case by (fastforce simp: stays_in_fleet_def elim!: prefixE)
qed (simp add: stays_in_fleet_def)

lemma isolated_frame:
  assumes "state_io_rel given_env m" and "\<And>h. trace (snd (run_state m h)) = trace h"
  shows "state_io_rel (stays_in_fleet fleet runID) m"
  using assms by (fastforce simp: state_io_rel_def stays_in_fleet_def given_env_def FleetRoot_def)

lemma isolated_quiet:
  "state_io_rel (stays_in_fleet fleet runID) (file_op f)"
  "state_io_rel (stays_in_fleet fleet runID) now_io"
  "state_io_rel (stays_in_fleet fleet runID) (store_io m)"
  by (intro isolated_frame keeps_intros; simp add: file_op_def now_io_def store_io_def split: prod.split)+

lemma isolated_command:
  "in_fleet fleet runID q \<Longrightarrow> state_io_rel (stays_in_fleet fleet runID) (run_command c q)"
  by (auto simp: state_io_rel_def stays_in_fleet_def run_command_def Let_def FleetRoot_def)

lemma isolated_base: "stays_in_fleet fleet runID h (k\<lparr>base := w\<rparr>) = stays_in_fleet fleet runID h k"
  by (simp add: stays_in_fleet_def FleetRoot_def)

lemma isolated_deliver:
  assumes "state_io_rel (stays_in_fleet fleet runID) act"
  shows "state_io_rel (stays_in_fleet fleet runID) (deliver_io i c b act)"
  using isolated.k_calls [OF assms]
  by (simp add: state_io_rel_def deliver_io_def isolated_base split: prod.split)

lemma in_fleet_git: "in_fleet fleet runID (git args)"
  by (simp add: in_fleet_def git_def)

interpretation isolated_engine: engine_relation "stays_in_fleet fleet runID" "\<lambda>_. True" "in_fleet fleet runID"
  by unfold_locales
    (auto simp: file_op_defs WalkDir_def intro: in_fleet_git isolated_quiet isolated_command isolated_deliver)

interpretation isolated_stage: stage_relation "stays_in_fleet fleet runID" "\<lambda>_. True" "in_fleet fleet runID"
  "\<lambda>w. \<exists>rp. w = Join (Join fleet runID) rp" runID
  for fleet runID
proof unfold_locales
  fix w and q :: request
  assume "\<exists>rp. w = Join (Join fleet runID) rp" and "req_dir q = w"
  then show "in_fleet fleet runID q" by (auto simp: in_fleet_def)
next
  fix f :: "path \<times> bool \<Rightarrow> (err + unit) io" and p rp
  assume f: "\<And>w. \<exists>rp. w = Join (Join fleet runID) rp \<Longrightarrow> state_io_rel (stays_in_fleet fleet runID) (f (w, True))"
  show "state_io_rel (stays_in_fleet fleet runID) (or_fail (prepareWorktree p runID rp) f)"
  proof (rule or_fail_rel [OF isolated_engine.keeps_prepare isolated.trans])
    fix h x h1 r k
    assume prep: "run_state (prepareWorktree p runID rp) h = (Inr x, h1)" and run: "run_state (f x) h1 = (r, k)"
      and "stays_in_fleet fleet runID h h1"
    have "FleetRoot h1 = FleetRoot h"
      using genv_engine.keeps_prepare [of p runID rp] prep by (auto simp: given_env_def FleetRoot_def)
    moreover have "x = (FleetDir h runID rp, True)" using prep by (cases x) (auto dest: prepare_result)
    ultimately have "stays_in_fleet fleet runID h1 k" if "FleetRoot h1 = fleet"
      using f [of "FleetDir h runID rp"] run that by (auto simp: FleetDir_def)
    then show "stays_in_fleet fleet runID h1 k" by (auto simp: stays_in_fleet_def)
  qed
qed simp_all


text \<open>
  Running a stage keeps the store sound.  Under every failure of the store, the files and the
  commands, the keys of the tables stay unique, and the change log stays gapless and only grows.
\<close>

theorem RunStage_sound:
  assumes "run_state (RunStage e runID stage) h = (r, k)"
    and "schema_ok (db (base h))" and "changes_ok (db (base h))"
  shows "schema_ok (db (base k)) \<and> changes_ok (db (base k)) \<and> prefix (changes (db (base h))) (changes (db (base k)))"
proof -
  from state_io_relD [OF sound_stage.keeps_RunStage assms(1)] have "sound_step (db (base h)) (db (base k))"
    by (simp add: on_base_def on_db_def)
  with assms(2,3) show ?thesis by (simp add: sound_step_def log_grows_def)
qed


section \<open>A stage that succeeds has run every step\<close>

text \<open>Every element of a loop that ends without an error was run, between the loop's start and its end.\<close>

lemma each_io_Inr:
  assumes "run_state (each_io f xs) h = (Inr (), k)" and "x \<in> set xs"
    and env: "\<And>x. state_io_rel given_env (f x)"
  obtains g l where "given_env h g" "run_state (f x) g = (Inr (), l)" "given_env l k"
proof -
  have "\<exists>g l. given_env h g \<and> run_state (f x) g = (Inr (), l) \<and> given_env l k"
    using assms(1,2)
  proof (induction xs arbitrary: h)
    case (Cons y ys)
    from Cons.prems(1) obtain u h1 where y: "run_state (f y) h = (Inr u, h1)"
        and rest: "run_state (each_io f ys) h1 = (Inr (), k)"
      by (auto elim: or_fail_Inr)
    have later: "given_env h1 k" using state_io_relD [OF genv.k_each rest] env by blast
    have first: "given_env h h1" using state_io_relD [OF env y] .
    show ?case
    proof (cases "x = y")
      case True
      with y later show ?thesis by (intro exI [of _ h] exI [of _ h1]) simp
    next
      case False
      with Cons.prems(2) Cons.IH [OF rest] first show ?thesis by (auto intro: genv.trans)
    qed
  qed simp
  then show thesis using that by blast
qed

lemma fresh_phasePassed: "\<not> en_Resume e \<Longrightarrow> phasePassed e i rp ph = State_Monad.return False"
  by (simp add: phasePassed_def)

definition step_evidence :: "Engine \<Rightarrow> string \<Rightarrow> Repo \<Rightarrow> string \<Rightarrow> path \<Rightarrow> host \<Rightarrow> host \<Rightarrow> string \<Rightarrow> bool" where
  "step_evidence e runID repoCfg rp wt h k phase \<longleftrightarrow>
     (if phase = ''test'' then \<forall>g \<in> set (SortedGateNames repoCfg). clean_gate_exit wt (gate_command repoCfg g) h k
      else ResolvedRetries (en_Project e) rp \<ge> 0 \<longrightarrow> clean_agent_exit (stage_runner e runID rp wt) h k)"

lemma step_evidence_extend:
  assumes "step_evidence e i rc rp wt h k ph" and "given_env g h" and "given_env k l"
  shows "step_evidence e i rc rp wt g l ph"
proof -
  have "prefix (trace g) (trace h)" and "prefix (trace k) (trace l)"
    using assms(2,3) by (simp_all add: given_env_def)
  with assms(1) show ?thesis
    by (auto simp: step_evidence_def intro: gate_exit_extend clean_exit_extend split: if_splits)
qed

lemma run_gate_evidence:
  assumes "\<not> en_Resume e" and "run_state (run_gate e pr rc g) h = (Inr (), k)"
  shows "clean_gate_exit (pr_Worktree pr) (gate_command rc g) h k"
proof -
  from assms obtain res where "run_state (RunCodeGate pr g (gate_command rc g)) h = (Inr res, k)" and "gr_Passed res"
    by (auto simp: run_gate_def fresh_phasePassed split: prod.splits sum.splits if_splits)
  then show ?thesis by (auto simp: gate_outcome_def elim!: RunCodeGate_outcome)
qed

lemma genv_run_gate: "state_io_rel given_env (run_gate e pr rc g)"
  unfolding run_gate_def by (intro genv_engine.keeps_engine genv_engine.keeps_passed genv_runner.keeps_gate TrueI)

lemma gates_of_none: "gates_of rc = [] \<Longrightarrow> SortedGateNames rc = []"
  by (simp add: gates_of_def SortedGateNames_def split: option.splits)

lemma test_phase_evidence:
  assumes fresh: "\<not> en_Resume e" and run: "run_state (run_test_phase e pr rc) h = (Inr (), k)"
    and g: "g \<in> set (SortedGateNames rc)"
  shows "clean_gate_exit (pr_Worktree pr) (gate_command rc g) h k"
proof -
  have "gates_of rc \<noteq> []" using g gates_of_none by fastforce
  with run have "run_state (each_io (run_gate e pr rc) (SortedGateNames rc)) h = (Inr (), k)"
    by (simp add: run_test_phase_def)
  then obtain h1 k1 where "given_env h h1" "run_state (run_gate e pr rc g) h1 = (Inr (), k1)" "given_env k1 k"
    using g genv_run_gate by (rule each_io_Inr)
  then show ?thesis
    using run_gate_evidence [OF fresh] gate_exit_extend by (fastforce simp: given_env_def)
qed

lemma agent_evidence:
  assumes "run_state (RunAgentPhase pr n prompt retries) h = ((oe, reason, None), k)" and "0 \<le> retries"
  shows "clean_agent_exit pr h k"
  using RunAgentPhase_exit [OF assms(1)] RunAgentPhase_envelope [OF assms] by blast

lemma agent_evidence_later:
  assumes "state_io_rel given_env m" and "run_state m h = (y, h1)"
    and "run_state (RunAgentPhase pr n prompt retries) h1 = ((oe, reason, None), k)" and "0 \<le> retries"
  shows "clean_agent_exit pr h k"
  using clean_exit_extend [OF agent_evidence [OF assms(3,4)], of h k] state_io_relD [OF assms(1,2)]
  by (simp add: given_env_def)

lemma run_phase_evidence:
  assumes fresh: "\<not> en_Resume e"
    and run: "run_state (run_phase e (stage_runner e i rp wt) stage rc ph) h = (Inr (), k)"
  shows "step_evidence e i rc rp wt h k ph"
proof -
  let ?pr = "stage_runner e i rp wt"
  have pr: "pr_Worktree ?pr = wt" "pr_RepoName ?pr = rp" by (simp_all add: stage_runner_def)
  consider "ph = ''test''" | "ph = ''review''" | "ph \<noteq> ''test''" "ph \<noteq> ''review''" by blast
  then show ?thesis
  proof cases
    case 1
    with run test_phase_evidence [OF fresh, of ?pr rc h k] show ?thesis
      by (simp add: run_phase_def step_evidence_def pr)
  next
    case 2
    with run have "run_state (run_review_phase e ?pr) h = (Inr (), k)" by (simp add: run_phase_def)
    then show ?thesis
      using 2 agent_evidence_later [OF genv_engine.keeps_diff]
      by (fastforce simp: run_review_phase_def fresh_phasePassed [OF fresh] step_evidence_def pr or_wrap_def
          split: prod.splits sum.splits option.splits)
  next
    case 3
    with run have "run_state (run_agent_step e ?pr stage rc ph) h = (Inr (), k)" by (simp add: run_phase_def)
    then show ?thesis
      using 3 agent_evidence_later [OF genv_engine.keeps_prompt]
      by (fastforce simp: run_agent_step_def fresh_phasePassed [OF fresh] step_evidence_def pr
          split: prod.splits sum.splits option.splits)
  qed
qed

lemma genv_run_phase: "state_io_rel given_env (run_phase e pr stage rc ph)"
  by (rule genv_stage.keeps_run_phase) simp

lemma run_repo_evidence:
  assumes fresh: "\<not> en_Resume e" and run: "run_state (run_repo e i stage rp) h = (Inr (), k)"
  obtains rc where "map_of (pj_Repos (en_Project e)) rp = Some rc"
    and "\<And>ph. ph \<in> set (PipelineFor rc) \<Longrightarrow> step_evidence e i rc rp (FleetDir h i rp) h k ph"
proof -
  from run obtain rc where rc: "map_of (pj_Repos (en_Project e)) rp = Some rc"
    by (auto simp: run_repo_def split: option.splits)
  let ?up = "each_io (inject_upstream e i (FleetDir h i rp)) (stg_After stage)"
  let ?seed = "seed_change e rp (FleetDir h i rp)"
  let ?phases = "each_io (run_phase e (stage_runner e i rp (FleetDir h i rp)) stage rc) (PipelineFor rc)"
  from run rc obtain w b h1 where prep: "run_state (prepareWorktree (repo_Path rc) i rp) h = (Inr (w, b), h1)"
      and rest: "run_state (if \<not> b then State_Monad.return (Inl (Errorf
         ''refusing to run agents for %s without an isolated worktree'' [rp] None))
       else or_fail (each_io (inject_upstream e i w) (stg_After stage)) (\<lambda>_.
            or_fail (seed_change e rp w) (\<lambda>_.
            each_io (run_phase e (stage_runner e i rp w) stage rc) (PipelineFor rc)))) h1 = (Inr (), k)"
    by (auto simp: run_repo_def elim!: or_fail_Inr)
  from prepare_result [OF prep] rest obtain h2 h3 where
      2: "run_state ?up h1 = (Inr (), h2)" and 3: "run_state ?seed h2 = (Inr (), h3)"
      and 4: "run_state ?phases h3 = (Inr (), k)"
    by (auto elim!: or_fail_Inr)
  have "given_env h h3"
    using state_io_relD [OF genv_engine.keeps_prepare prep]
      state_io_relD [OF genv.k_each [OF genv_engine.keeps_inject] 2] state_io_relD [OF genv_engine.keeps_seed_change 3]
    by (blast intro: genv.trans)
  then have "step_evidence e i rc rp (FleetDir h i rp) h k ph" if ph: "ph \<in> set (PipelineFor rc)" for ph
    using each_io_Inr [OF 4 ph genv_run_phase] run_phase_evidence [OF fresh] step_evidence_extend genv.trans
    by metis
  with rc show thesis by (rule that)
qed


lemma RunStage_evidence:
  assumes "\<not> en_Resume e" and "run_state (RunStage e runID stage) h = (Inr (), k)" and "rp \<in> set (stg_Repos stage)"
  obtains rc where "map_of (pj_Repos (en_Project e)) rp = Some rc"
    and "\<And>ph. ph \<in> set (PipelineFor rc) \<Longrightarrow> step_evidence e runID rc rp (FleetDir h runID rp) h k ph"
proof -
  have "state_io_rel given_env (run_repo e runID stage x)" for x by (rule genv_stage.keeps_run_repo)
  with assms(2,3) obtain g l where 1: "given_env h g" "run_state (run_repo e runID stage rp) g = (Inr (), l)" "given_env l k"
    unfolding RunStage_def by (rule each_io_Inr)
  obtain rc where rc: "map_of (pj_Repos (en_Project e)) rp = Some rc"
      and ev: "\<And>ph. ph \<in> set (PipelineFor rc) \<Longrightarrow> step_evidence e runID rc rp (FleetDir g runID rp) g l ph"
    using run_repo_evidence [OF assms(1) 1(2)] by blast
  have "FleetDir g runID rp = FleetDir h runID rp"
    using 1(1) by (simp add: FleetDir_def FleetRoot_def given_env_def)
  with ev 1(1,3) have "step_evidence e runID rc rp (FleetDir h runID rp) h k ph" if "ph \<in> set (PipelineFor rc)" for ph
    using that step_evidence_extend by metis
  with rc show thesis by (rule that)
qed


definition sample_repo :: Repo where
  "sample_repo = \<lparr>repo_Name = ''api'', repo_Path = ''/src/api'',
     repo_Factory = Some \<lparr>fa_Pipeline = [''test''], fa_Gates = [(''vet'', ''go vet ./...'')]\<rparr>,
     repo_Retries = 0, repo_FixRetries = 0\<rparr>"

definition sample_engine :: Engine where
  "sample_engine = \<lparr>en_Project = \<lparr>pj_Name = ''p'', pj_ProjectName = ''p'',
       pj_Defaults = \<lparr>def_Agent = ''claude'', def_Model = [], def_Retries = 0, def_FixRetries = 0\<rparr>,
       pj_Repos = [(''api'', sample_repo)], pj_DAG = None, pj_ShippingGates = [], pj_Retention = None\<rparr>,
     en_Router = [''handoff''], en_Resume = False, en_ChangeDir = [], en_ChangeRepo = []\<rparr>"

definition sample_stage :: DAGStage where
  "sample_stage = \<lparr>stg_Name = ''s'', stg_Repos = [''api''], stg_After = [], stg_Brief = ''go''\<rparr>"

definition fleet_host :: host where
  "fleet_host = calm_host (initial_world empty_tables)
     [([''home'', ''op'', ''.local'', ''share'', ''sgt-v2'', ''fleet'', ''r1'', ''api''], Dir)]"

text \<open>A machine on which nothing fails stays one.\<close>

definition calm :: "host \<Rightarrow> bool" where
  "calm h \<longleftrightarrow> healthy (base h) \<and> \<not> stopped h \<and> io_fault h = (\<lambda>_. Done) \<and>
     (\<forall>n q t. proc h n q t = \<lparr>exit_error = None, out_text = [], tree_after = t, cancels = False, overran = False\<rparr>)"

lemma calm_calm_host [simp]: "calm (calm_host (initial_world d) t)"
  by (simp add: calm_def calm_host_def)

definition stays_calm :: "host \<Rightarrow> host \<Rightarrow> bool" where
  "stays_calm h k \<longleftrightarrow> (calm h \<longrightarrow> calm k)"

interpretation calm: host_relation stays_calm
  by unfold_locales (auto simp: stays_calm_def)

lemma calm_quiet: "state_io_rel stays_calm (file_op f)" "state_io_rel stays_calm now_io"
    "state_io_rel stays_calm (run_command c q)"
  by (auto simp: state_io_rel_def stays_calm_def calm_def file_op_def now_io_def run_command_def healthy_def Let_def
      split: prod.split)

lemma calm_store: "within same_env m \<Longrightarrow> state_io_rel stays_calm (store_io m)"
  by (auto simp: state_io_rel_def stays_calm_def calm_def store_io_def healthy_def within_def same_env_def split: prod.split)
    (metis snd_conv)+

lemma env_DeliverEnvelope: "within same_env (DeliverEnvelope i c b f)"
  unfolding DeliverEnvelope_def isAlreadyTerminalSuccess_def deliverRetryLoop_def Let_def
  by (intro within_intros)

lemma calm_deliver:
  assumes "state_io_rel stays_calm act"
  shows "state_io_rel stays_calm (deliver_io i c b act)"
proof (rule state_io_relI)
  fix r h k
  assume run: "run_state (deliver_io i c b act) h = (r, k)"
  have "same_env (base h) (base k)"
    using state_io_relD [OF env.base_deliver [OF env_DeliverEnvelope] run] by (simp add: on_base_def)
  moreover obtain n w where "k = (after_calls act n h)\<lparr>base := w\<rparr>"
    using run by (auto simp: deliver_io_def split: prod.splits)
  ultimately show "stays_calm h k"
    using calm.k_calls [OF assms, of h n] by (auto simp: stays_calm_def calm_def dest: same_env_healthy)
qed

interpretation calm_engine: engine_relation stays_calm "\<lambda>_. True" "\<lambda>_. True"
  by unfold_locales
    (auto simp: file_op_defs WalkDir_def RecordArtifact_def RecordEnvelope_def CausationFromLatest_def
        GetLatestEnvelope_def ListPhasesForRun_def GetRun_def SetRunBaseBranch_def requireOneRow_def
        RenderIntentBrief_def GetIntent_def ListBulletsForIntent_def Let_def
      intro!: calm_quiet calm_deliver calm_store env_RecordPhase within_intros)

lemma calm_step: "state_io_rel stays_calm m \<Longrightarrow> makes calm calm m"
  by (erule makes_step) (simp add: stays_calm_def)

lemma calm_exit_step: "yields calm (\<lambda>o' k. exit_error o' = None \<and> calm k) (run_command c q)"
  using calm_quiet(3) [of c q] by (fastforce simp: yields_def run_command_def stays_calm_def state_io_rel_def calm_def Let_def)

lemma yields_fact: "(b \<Longrightarrow> yields P Q m) \<Longrightarrow> yields (\<lambda>h. b \<and> P h) Q m"
  by (auto simp: yields_def)

lemma gate_passes_when_calm:
  "yields calm (\<lambda>r k. (\<exists>g. r = Inr g \<and> gr_Passed g) \<and> calm k) (RunCodeGate pr n c)"
  unfolding RunCodeGate_def Let_def
  by (rule yields_bind [OF calm_step [OF calm_engine.now]] yields_bind [OF calm_step [OF calm_engine.remove]]
      yields_bind [OF calm_step [OF calm_engine.mkdir]] yields_bind [OF calm_exit_step] yields_fact
      yields_bind [OF calm_step [OF calm_engine.keeps_branch]]
      yields_bind [OF calm_step [OF calm_engine.phase]] yields_bind [OF calm_step [OF calm_engine.keeps_capture]]
      yields_return TrueI)+ simp

lemma prepare_existing:
  assumes "calm h" and "node_at (tree h) (FleetDir h i rp) \<noteq> None"
  shows "fst (run_state (prepareWorktree p i rp) h) = Inr (FleetDir h i rp, True)"
  using assms
  by (auto simp: prepareWorktree_def isGitRepo_def get_host_def run_command_def Stat_def file_op_def calm_def Let_def
      split: prod.split option.splits)

text \<open>Rules for the error returns.\<close>

lemma yields_or_fail:
  assumes "yields P (\<lambda>r k. \<exists>x. r = Inr x \<and> Q x k) m" and "\<And>x. yields (Q x) S (f x)"
  shows "yields P S (or_fail m f)"
  unfolding or_fail_def
proof (rule yields_bind [OF assms(1)])
  fix r
  show "yields (\<lambda>k. \<exists>x. r = Inr x \<and> Q x k) S (case r of Inl e \<Rightarrow> State_Monad.return (Inl e) | Inr x \<Rightarrow> f x)"
    using assms(2) by (cases r) (simp_all add: yields_def)
qed

lemma yields_or_fail_unit: "yields P (\<lambda>r k. r = Inr () \<and> Q k) m \<Longrightarrow> yields Q S (f ()) \<Longrightarrow> yields P S (or_fail m f)"
  by (rule yields_or_fail [where Q = "\<lambda>_. Q"]) (simp_all add: yields_def)

lemma yields_each:
  "(\<And>x. x \<in> set xs \<Longrightarrow> yields P (\<lambda>r k. r = Inr () \<and> P k) (f x)) \<Longrightarrow> yields P (\<lambda>r k. r = Inr () \<and> P k) (each_io f xs)"
proof (induction xs)
  case (Cons x xs)
  then show ?case by (auto intro!: yields_or_fail_unit)
qed (simp add: yields_def)

lemma run_gate_when_calm:
  "\<not> en_Resume e \<Longrightarrow> yields calm (\<lambda>r k. r = Inr () \<and> calm k) (run_gate e pr rc g)"
  unfolding run_gate_def
  by (simp add: fresh_phasePassed) (rule yields_bind [OF gate_passes_when_calm], auto simp: yields_def)

lemma calm_stage_runs:
  assumes calm: "calm g" and wt: "node_at (tree g) (FleetDir g ''r1'' ''api'') \<noteq> None"
    and stage: "stg_Repos stage = [''api'']" "stg_After stage = []"
  obtains k where "run_state (RunStage sample_engine ''r1'' stage) g = (Inr (), k)" "calm k"
proof -
  let ?wt = "FleetDir g ''r1'' ''api''"
  from wt calm have prep: "yields (\<lambda>h. h = g) (\<lambda>r k. \<exists>x. r = Inr x \<and> x = (?wt, True) \<and> calm k)
      (prepareWorktree (repo_Path sample_repo) ''r1'' ''api'')"
    using prepare_existing [of g "''r1''" "''api''" "repo_Path sample_repo"]
      yieldsD [OF calm_step [OF calm_engine.keeps_prepare] calm]
    by (auto simp: yields_def split: prod.splits)
  have inject: "each_io (inject_upstream sample_engine i w) (stg_After stage) = State_Monad.return (Inr ())" for i w
    by (simp add: stage)
  have seed: "seed_change sample_engine rp w = State_Monad.return (Inr ())" for rp w
    by (simp add: seed_change_def sample_engine_def or_fail_def)
  have phases: "yields calm (\<lambda>r k. r = Inr () \<and> calm k)
      (each_io (run_phase sample_engine pr stage sample_repo) (PipelineFor sample_repo))" for pr
    by (intro yields_each)
      (auto simp: PipelineFor_def sample_repo_def run_phase_def run_test_phase_def gates_of_def SortedGateNames_def
        sample_engine_def intro!: run_gate_when_calm yields_or_fail_unit yields_return)
  have repo: "yields (\<lambda>h. h = g) (\<lambda>r k. r = Inr () \<and> calm k) (run_repo sample_engine ''r1'' stage ''api'')"
  proof -
    have "map_of (pj_Repos (en_Project sample_engine)) ''api'' = Some sample_repo" by (simp add: sample_engine_def)
    moreover have "yields (\<lambda>h. h = g) (\<lambda>r k. r = Inr () \<and> calm k)
      (or_fail (prepareWorktree (repo_Path sample_repo) ''r1'' ''api'') (\<lambda>(worktree, isolated).
       if \<not> isolated then State_Monad.return (Inl (Errorf
         ''refusing to run agents for %s without an isolated worktree'' [''api''] None))
       else or_fail (each_io (inject_upstream sample_engine ''r1'' worktree) (stg_After stage)) (\<lambda>_.
            or_fail (seed_change sample_engine ''api'' worktree) (\<lambda>_.
            each_io (run_phase sample_engine (stage_runner sample_engine ''r1'' ''api'' worktree) stage sample_repo)
              (PipelineFor sample_repo)))))"
      by (rule yields_or_fail [OF prep]) (auto simp: inject seed or_fail_def intro!: yields_fact phases)
    ultimately show ?thesis by (simp only: run_repo_def option.case)
  qed
  have "yields (\<lambda>h. h = g) (\<lambda>r k. r = Inr () \<and> calm k) (RunStage sample_engine ''r1'' stage)"
    using repo unfolding RunStage_def by (simp add: stage or_fail_def yields_def split: prod.splits)
  with that show thesis by (simp add: yields_def split: prod.splits)
qed

lemma sample_stage_runs: "fst (run_state (RunStage sample_engine ''r1'' sample_stage) fleet_host) = Inr ()"
proof -
  have "FleetDir fleet_host ''r1'' ''api'' = [''home'', ''op'', ''.local'', ''share'', ''sgt-v2'', ''fleet'', ''r1'', ''api'']"
    by code_simp
  then have "node_at (tree fleet_host) (FleetDir fleet_host ''r1'' ''api'') \<noteq> None"
    by (simp add: fleet_host_def calm_host_def node_at_def)
  then obtain k where "run_state (RunStage sample_engine ''r1'' sample_stage) fleet_host = (Inr (), k)"
    using calm_stage_runs [of fleet_host sample_stage] by (auto simp: fleet_host_def sample_stage_def)
  then show ?thesis by simp
qed

lemma sample_run:
  "run_state (RunStage sample_engine ''r1'' sample_stage) fleet_host =
     (Inr (), snd (run_state (RunStage sample_engine ''r1'' sample_stage) fleet_host))"
  using sample_stage_runs by (simp add: prod_eq_iff)

lemmas sample_defs = sample_engine_def sample_stage_def sample_repo_def PipelineFor_def SortedGateNames_def
  gate_command_def gates_of_def



theorem RunStage_sound_witness:
  "schema_ok (db (base (snd (run_state (RunStage sample_engine ''r1'' sample_stage) fleet_host))))"
  using RunStage_sound [OF sample_run] by (simp add: fleet_host_def calm_host_def)


section \<open>Red and green evidence\<close>

lemma list_phases_result:
  assumes "run_state (store_io (ListPhasesForRun i)) h = (Inr ps, k)"
  shows "ps = phases_of i (db (base h))" and "db (base k) = db (base h)"
  using assms
  by (auto simp: store_io_def ListPhasesForRun_def query_def exec_def Let_def split: prod.splits if_splits)

lemma phases_of_member: "p \<in> set (phases_of i d) \<Longrightarrow>
    \<exists>q \<in> set (phases d). ph_RunID q = i \<and> ph_Repo q = ph_Repo p \<and> ph_Name q = ph_Name p \<and> ph_Kind q = ph_Kind p \<and>
      ph_Status q = ph_Status p"
  by (auto simp: phases_of_def scanPhase_def)

lemma verify_persisted:
  assumes "run_state (verifyEvidencePersisted i rp stage gs) h = (Inr (), k)" and "g \<in> set gs"
  shows "\<exists>p \<in> set (phases (db (base k))). ph_RunID p = i \<and> ph_Repo p = rp \<and> ph_Kind p = ''code'' \<and>
    ph_Name p = GatePhaseName stage g"
proof -
  from assms(1) obtain ps h1 where ps: "run_state (store_io (ListPhasesForRun i)) h = (Inr ps, h1)" and "k = h1"
      and "filter (\<lambda>g. GatePhaseName stage g \<notin> set (map ph_Name (filter (\<lambda>p. ph_Repo p = rp \<and> ph_Kind p = ''code'') ps))) gs = []"
    by (auto simp: verifyEvidencePersisted_def Let_def elim!: or_wrap_Inr split: if_splits)
  with assms(2) obtain p where "p \<in> set ps" "ph_Repo p = rp" "ph_Kind p = ''code''" "ph_Name p = GatePhaseName stage g"
    by (fastforce simp: filter_empty_conv)
  with list_phases_result [OF ps] \<open>k = h1\<close> phases_of_member [of p i] show ?thesis by metis
qed

text \<open>The evidence a loop over gates gathers: one entry for each gate, in order, about what its command did.\<close>

definition gate_evidence :: "path \<Rightarrow> Repo \<Rightarrow> string list \<Rightarrow> host \<Rightarrow> host \<Rightarrow> GateEvidence list \<Rightarrow> bool" where
  "gate_evidence wt rc gs h k ev \<longleftrightarrow> map ge_Gate ev = gs \<and> (\<forall>x \<in> set ev.
     (ge_Status x = ''passed'' \<or> ge_Status x = ''failed'') \<and>
     gate_outcome (ge_Status x = ''passed'') wt (gate_command rc (ge_Gate x)) h k)"

lemma gate_evidence_extend:
  "gate_evidence wt rc gs h k ev \<Longrightarrow> given_env g h \<Longrightarrow> given_env k l \<Longrightarrow> gate_evidence wt rc gs g l ev"
  unfolding gate_evidence_def by (blast intro: gate_outcome_extend)

lemma genv_gate_loop: "state_io_rel given_env (gate_stage_loop pr rc stage gs ev)"
  by (induction gs arbitrary: ev) (auto intro!: genv_engine.keeps_engine genv_runner.keeps_gate)

lemma genv_verify: "state_io_rel given_env (verifyEvidencePersisted i rp stage gs)"
  unfolding verifyEvidencePersisted_def Let_def by (intro genv_engine.keeps_engine)

lemma gate_stage_loop_evidence:
  "run_state (gate_stage_loop pr rc stage gs ev0) h = ((ev, x), k) \<Longrightarrow>
   x = None \<and> (\<exists>new. ev = ev0 @ new \<and> gate_evidence (pr_Worktree pr) rc gs h k new)"
proof (induction gs arbitrary: ev0 h)
  case Nil
  then show ?case by (simp add: gate_evidence_def)
next
  case (Cons g gs)
  obtain t0 h1 where 1: "run_state now_io h = (t0, h1)" by (cases "run_state now_io h")
  obtain r h2 where 2: "run_state (RunCodeGate pr (GatePhaseName stage g) (gate_command rc g)) h1 = (r, h2)"
    by (cases "run_state (RunCodeGate pr (GatePhaseName stage g) (gate_command rc g)) h1")
  obtain t1 h3 where 3: "run_state now_io h2 = (t1, h3)" by (cases "run_state now_io h2")
  obtain res where r: "r = Inr res" and out: "gate_outcome (gr_Passed res) (pr_Worktree pr) (gate_command rc g) h1 h2"
    using RunCodeGate_outcome [OF 2] by blast
  let ?x = "\<lparr>ge_Gate = g, ge_Status = (if gr_Passed res then ''passed'' else ''failed''), ge_Stage = stage,
    ge_Output = gr_Output res, ge_Duration = t1 - t0\<rparr>"
  have rest: "run_state (gate_stage_loop pr rc stage gs (ev0 @ [?x])) h3 = ((ev, x), k)"
    using Cons.prems by (simp add: 1 2 3 r)
  from Cons.IH [OF rest] obtain new where "x = None" and ev: "ev = (ev0 @ [?x]) @ new"
      and new: "gate_evidence (pr_Worktree pr) rc gs h3 k new"
    by blast
  have g1: "given_env h h1" using state_io_relD [OF genv_now 1] .
  have g3: "given_env h2 h3" using state_io_relD [OF genv_now 3] .
  have g2: "given_env h1 h2" using state_io_relD [OF genv_runner.keeps_gate 2] by simp
  have gk: "given_env h3 k" using state_io_relD [OF genv_gate_loop rest] .
  have "gate_evidence (pr_Worktree pr) rc gs h k new"
    using gate_evidence_extend [OF new genv.trans [OF g1 genv.trans [OF g2 g3]]] by simp
  moreover have "gate_outcome (gr_Passed res) (pr_Worktree pr) (gate_command rc g) h k"
    using gate_outcome_extend [OF out g1 genv.trans [OF g3 gk]] .
  ultimately have "gate_evidence (pr_Worktree pr) rc (g # gs) h k (?x # new)"
    by (cases "gr_Passed res") (simp_all add: gate_evidence_def)
  with \<open>x = None\<close> ev show ?case by simp
qed

lemma recordGateStage_evidence:
  assumes run: "run_state (recordGateStage e i rp stage) h = ((ev, None), k)"
  obtains rc where "map_of (pj_Repos (en_Project e)) rp = Some rc" and "SortedGateNames rc \<noteq> []"
    and "gate_evidence (FleetDir h i rp) rc (SortedGateNames rc) h k ev"
    and "\<And>g. g \<in> set (SortedGateNames rc) \<Longrightarrow> \<exists>p \<in> set (phases (db (base k))). ph_RunID p = i \<and> ph_Repo p = rp \<and>
      ph_Kind p = ''code'' \<and> ph_Name p = GatePhaseName stage g"
proof -
  from run obtain rc where rc: "map_of (pj_Repos (en_Project e)) rp = Some rc" and ne: "SortedGateNames rc \<noteq> []"
    by (auto simp: recordGateStage_def Let_def split: option.splits if_splits)
  obtain r h1 where prep: "run_state (prepareWorktree (repo_Path rc) i rp) h = (r, h1)"
    by (cases "run_state (prepareWorktree (repo_Path rc) i rp) h")
  with run rc ne obtain w b where r: "r = Inr (w, b)"
    by (auto simp: recordGateStage_def Let_def split: sum.splits)
  with prep have wb: "w = FleetDir h i rp" b by (auto dest: prepare_result)
  let ?pr = "stage_runner e i rp (FleetDir h i rp)"
  obtain ev' x h2 where loop: "run_state (gate_stage_loop ?pr rc stage (SortedGateNames rc) []) h1 = ((ev', x), h2)"
    by (metis prod.collapse)
  obtain v h3 where v: "run_state (verifyEvidencePersisted i rp stage (SortedGateNames rc)) h2 = (v, h3)"
    by (cases "run_state (verifyEvidencePersisted i rp stage (SortedGateNames rc)) h2")
  have "x = None" and ev': "gate_evidence (FleetDir h i rp) rc (SortedGateNames rc) h1 h2 ev'"
    using gate_stage_loop_evidence [OF loop] by (auto simp: stage_runner_def)
  with run rc ne prep r wb loop v have end': "v = Inr ()" "ev = ev'" "k = h3"
    by (auto simp: recordGateStage_def Let_def split: sum.splits)
  have "given_env h h1" using state_io_relD [OF genv_engine.keeps_prepare prep] .
  moreover have "given_env h2 k"
    using state_io_relD [OF genv_verify v] end' by simp
  ultimately have "gate_evidence (FleetDir h i rp) rc (SortedGateNames rc) h k ev"
    using gate_evidence_extend [OF ev'] end' by simp
  with rc ne show thesis using that verify_persisted v end' by blast
qed



text \<open>
  C21: green evidence is earned.  Whatever the store, the files and the commands do, when the green state
  of a repository is reported, every configured gate's command exited without an error in the run's
  worktree during the call, the evidence lists exactly the configured gates in order, and a record of
  each is in the store.
\<close>

theorem RecordGreenState_earned:
  assumes "run_state (RecordGreenState e runID rp) h = ((ev, None), k)"
  shows "\<exists>rc. map_of (pj_Repos (en_Project e)) rp = Some rc \<and> map ge_Gate ev = SortedGateNames rc \<and>
    (\<forall>g \<in> set (SortedGateNames rc). clean_gate_exit (FleetDir h runID rp) (gate_command rc g) h k \<and>
      (\<exists>p \<in> set (phases (db (base k))). ph_RunID p = runID \<and> ph_Repo p = rp \<and> ph_Kind p = ''code'' \<and>
        ph_Name p = ''green:'' @ g))"
proof -
  from assms have rec: "run_state (recordGateStage e runID rp ''green'') h = ((ev, None), k)"
      and "filter (\<lambda>x. ge_Status x = ''failed'') ev = []"
    by (auto simp: RecordGreenState_def Let_def split: prod.splits option.splits if_splits)
  from rec obtain rc where rc: "map_of (pj_Repos (en_Project e)) rp = Some rc"
      and ev: "gate_evidence (FleetDir h runID rp) rc (SortedGateNames rc) h k ev"
      and stored: "\<And>g. g \<in> set (SortedGateNames rc) \<Longrightarrow> \<exists>p \<in> set (phases (db (base k))). ph_RunID p = runID \<and> ph_Repo p = rp \<and>
        ph_Kind p = ''code'' \<and> ph_Name p = GatePhaseName ''green'' g"
    by (rule recordGateStage_evidence) blast
  have clean: "clean_gate_exit (FleetDir h runID rp) (gate_command rc g) h k" if "g \<in> set (SortedGateNames rc)" for g
  proof -
    from that ev obtain x where x: "x \<in> set ev" "ge_Gate x = g" unfolding gate_evidence_def by (metis image_iff set_map)
    with \<open>filter (\<lambda>x. ge_Status x = ''failed'') ev = []\<close> have "ge_Status x \<noteq> ''failed''"
      by (auto simp: filter_empty_conv)
    with x ev show ?thesis by (auto simp: gate_evidence_def gate_outcome_def)
  qed
  show ?thesis
    using rc ev clean stored by (auto simp: gate_evidence_def GatePhaseName_def)
qed



section \<open>Evidence on sample machines\<close>

lemma yields_conj: "yields P Q m \<Longrightarrow> yields P' Q' m \<Longrightarrow> yields (\<lambda>h. P h \<and> P' h) (\<lambda>r k. Q r k \<and> Q' r k) m"
  by (fastforce simp: yields_def split: prod.splits)

lemma yields_mono: "yields P Q m \<Longrightarrow> (\<And>h. P' h \<Longrightarrow> P h) \<Longrightarrow> (\<And>r k. Q r k \<Longrightarrow> Q' r k) \<Longrightarrow> yields P' Q' m"
  by (fastforce simp: yields_def split: prod.splits)

text \<open>A cancelled run on a working database, of which only \<open>git\<close> was started.\<close>

definition halted :: "host \<Rightarrow> bool" where
  "halted h \<longleftrightarrow> healthy (base h) \<and> stopped h \<and> (\<forall>(q, b) \<in> set (trace h). req_exe q = ''git'')"

definition stays_halted :: "host \<Rightarrow> host \<Rightarrow> bool" where
  "stays_halted h k \<longleftrightarrow> (halted h \<longrightarrow> halted k)"

interpretation halted: host_relation stays_halted
  by unfold_locales (auto simp: stays_halted_def)

lemma halted_quiet: "state_io_rel stays_halted (file_op f)" "state_io_rel stays_halted now_io"
  by (auto simp: state_io_rel_def stays_halted_def halted_def file_op_def now_io_def healthy_def split: prod.split)

lemma halted_command: "req_exe q = ''git'' \<Longrightarrow> state_io_rel stays_halted (run_command c q)"
  by (auto simp: state_io_rel_def stays_halted_def halted_def run_command_def Let_def)

lemma halted_store: "within same_env m \<Longrightarrow> state_io_rel stays_halted (store_io m)"
  by (auto simp: state_io_rel_def stays_halted_def halted_def store_io_def healthy_def within_def same_env_def split: prod.split)
    (metis snd_conv)+

lemma halted_deliver:
  assumes "state_io_rel stays_halted act"
  shows "state_io_rel stays_halted (deliver_io i c b act)"
proof (rule state_io_relI)
  fix r h k
  assume run: "run_state (deliver_io i c b act) h = (r, k)"
  have "same_env (base h) (base k)"
    using state_io_relD [OF env.base_deliver [OF env_DeliverEnvelope] run] by (simp add: on_base_def)
  moreover obtain n w where "k = (after_calls act n h)\<lparr>base := w\<rparr>"
    using run by (auto simp: deliver_io_def split: prod.splits)
  ultimately show "stays_halted h k"
    using halted.k_calls [OF assms, of h n] by (auto simp: stays_halted_def halted_def dest: same_env_healthy)
qed

interpretation halted_engine: engine_relation stays_halted "\<lambda>_. True" "\<lambda>q. req_exe q = ''git''"
  by unfold_locales
    (auto simp: file_op_defs WalkDir_def git_def RecordArtifact_def RecordEnvelope_def CausationFromLatest_def
        GetLatestEnvelope_def ListPhasesForRun_def GetRun_def SetRunBaseBranch_def requireOneRow_def
        RenderIntentBrief_def GetIntent_def ListBulletsForIntent_def Let_def
      intro!: halted_quiet halted_command halted_deliver halted_store env_RecordPhase within_intros)

lemma halted_step: "state_io_rel stays_halted m \<Longrightarrow> makes halted halted m"
  by (erule makes_step) (simp add: stays_halted_def)

lemma halted_exit_step: "yields halted (\<lambda>o' k. exit_error o' \<noteq> None \<and> halted k) (run_command True q)"
  by (auto simp: yields_def run_command_def halted_def)

lemma gate_fails_when_halted:
  "yields halted (\<lambda>r k. (\<exists>g. r = Inr g \<and> \<not> gr_Passed g) \<and> halted k) (RunCodeGate pr n c)"
  unfolding RunCodeGate_def Let_def
  by (rule yields_bind [OF halted_step [OF halted_engine.now]] yields_bind [OF halted_step [OF halted_engine.remove]]
      yields_bind [OF halted_step [OF halted_engine.mkdir]] yields_bind [OF halted_exit_step] yields_fact
      yields_bind [OF halted_step [OF halted_engine.keeps_branch]]
      yields_bind [OF halted_step [OF halted_engine.phase]] yields_bind [OF halted_step [OF halted_engine.keeps_capture]]
      yields_return TrueI)+ simp

lemma verify_one:
  assumes "gate_recorded pr (GatePhaseName stage g) ok (db (base h))" and "healthy (base h)"
  shows "fst (run_state (verifyEvidencePersisted (pr_RunID pr) (pr_RepoName pr) stage [g]) h) = Inr ()"
proof -
  obtain ps h1 where 1: "run_state (store_io (ListPhasesForRun (pr_RunID pr))) h = (Inr ps, h1)"
    using assms(2) by (auto simp: store_io_def ListPhasesForRun_def query_def exec_healthy)
  from assms(1) obtain p where "p \<in> set (phases (db (base h)))" "ph_RunID p = pr_RunID pr" "ph_Repo p = pr_RepoName pr"
      "ph_Name p = GatePhaseName stage g" "ph_Kind p = ''code''"
    by (auto simp: gate_recorded_def)
  then have "scanPhase p \<in> set ps" "ph_Repo (scanPhase p) = pr_RepoName pr" "ph_Name (scanPhase p) = GatePhaseName stage g"
      "ph_Kind (scanPhase p) = ''code''"
    using list_phases_result(1) [OF 1] by (auto simp: phases_of_def scanPhase_def)
  then have "GatePhaseName stage g \<in> set (map ph_Name (filter (\<lambda>p. ph_Repo p = pr_RepoName pr \<and> ph_Kind p = ''code'') ps))"
    by force
  with 1 show ?thesis by (simp add: verifyEvidencePersisted_def or_wrap_def Let_def)
qed

text \<open>The evidence of the sample repository's one gate.\<close>

lemma one_gate_stage:
  defines "pr i \<equiv> stage_runner sample_engine i ''api''"
  assumes gate: "\<And>i wt n c. yields P (\<lambda>r k. (\<exists>g. r = Inr g \<and> gr_Passed g = ok) \<and> P k) (RunCodeGate (pr i wt) n c)"
    and work: "\<And>k. P k \<Longrightarrow> healthy (base k)"
    and now: "makes P P now_io" and verify: "\<And>i rp st gs. makes P P (verifyEvidencePersisted i rp st gs)"
    and prep: "run_state (prepareWorktree ''/src/api'' i ''api'') h = (Inr (wt, True), h1)" and P: "P h1"
  shows "\<exists>ev k. run_state (recordGateStage sample_engine i ''api'' stage) h = (([ev], None), k) \<and> P k \<and>
    ge_Gate ev = ''vet'' \<and> ge_Status ev = (if ok then ''passed'' else ''failed'')"
proof -
  have cfg: "map_of (pj_Repos (en_Project sample_engine)) ''api'' = Some sample_repo"
      "SortedGateNames sample_repo = [''vet'']" "repo_Path sample_repo = ''/src/api''"
      "gate_command sample_repo ''vet'' = ''go vet ./...''"
    by (simp_all add: sample_defs)
  obtain t0 h2 where 2: "run_state now_io h1 = (t0, h2)" by (cases "run_state now_io h1")
  obtain r h3 where 3: "run_state (RunCodeGate (pr i wt) (GatePhaseName stage ''vet'') ''go vet ./...'') h2 = (r, h3)"
    by (cases "run_state (RunCodeGate (pr i wt) (GatePhaseName stage ''vet'') ''go vet ./...'') h2")
  obtain t1 h4 where 4: "run_state now_io h3 = (t1, h4)" by (cases "run_state now_io h3")
  have P2: "P h2" by (rule yieldsD [OF now P 2])
  from yieldsD [OF gate P2 3] obtain g where g: "r = Inr g" "gr_Passed g = ok" "P h3" by blast
  have P4: "P h4" by (rule yieldsD [OF now g(3) 4])
  have "gate_recorded (pr i wt) (GatePhaseName stage ''vet'') ok (db (base h3))"
    using yieldsD [OF RunCodeGate_records work [OF P2] 3] g by auto
  moreover have "db (base h4) = db (base h3)" using 4 by (auto simp: now_io_def)
  ultimately have "fst (run_state (verifyEvidencePersisted i ''api'' stage [''vet'']) h4) = Inr ()"
    using verify_one [of "pr i wt" stage "''vet''" ok h4] work [OF P4] by (simp add: pr_def stage_runner_def)
  then obtain k where 5: "run_state (verifyEvidencePersisted i ''api'' stage [''vet'']) h4 = (Inr (), k)"
    by (metis prod.collapse)
  have "P k" by (rule yieldsD [OF verify P4 5])
  then show ?thesis
    using prep 2 3 [unfolded pr_def] 4 5 g by (simp add: recordGateStage_def cfg Let_def)
qed

definition halted_host :: host where
  "halted_host = fleet_host\<lparr>stopped := True\<rparr>"

lemma sample_prepared:
  assumes "h = fleet_host \<or> h = halted_host"
  obtains k where "run_state (prepareWorktree p ''r1'' ''api'') h = (Inr (FleetDir h ''r1'' ''api'', True), k)"
proof -
  have dir: "FleetDir fleet_host ''r1'' ''api'' =
      [''home'', ''op'', ''.local'', ''share'', ''sgt-v2'', ''fleet'', ''r1'', ''api'']" by code_simp
  moreover have "FleetDir halted_host ''r1'' ''api'' = FleetDir fleet_host ''r1'' ''api''"
    by (simp add: halted_host_def FleetDir_def FleetRoot_def)
  ultimately have "fst (run_state (prepareWorktree p ''r1'' ''api'') h) = Inr (FleetDir h ''r1'' ''api'', True)"
    using assms
    by (auto simp: prepareWorktree_def isGitRepo_def get_host_def run_command_def Stat_def file_op_def Let_def
        halted_host_def fleet_host_def calm_host_def node_at_def)
  then show thesis using that by (metis prod.collapse)
qed

lemma halted_sample: "halted halted_host"
  by (simp add: halted_def halted_host_def fleet_host_def calm_host_def)

lemma calm_sample: "calm fleet_host"
  by (simp add: fleet_host_def)

lemma halted_evidence:
  "\<exists>ev k. run_state (RecordRedState sample_engine ''r1'' ''api'') halted_host = (([ev], None), k) \<and> halted k \<and>
     ge_Gate ev = ''vet'' \<and> ge_Status ev = ''failed''"
proof -
  obtain h1 where prep: "run_state (prepareWorktree ''/src/api'' ''r1'' ''api'') halted_host =
      (Inr (FleetDir halted_host ''r1'' ''api'', True), h1)"
    by (rule sample_prepared [of halted_host]) auto
  have "halted h1" using yieldsD [OF halted_step [OF halted_engine.keeps_prepare] halted_sample prep] .
  moreover have "state_io_rel stays_halted (verifyEvidencePersisted i rp st gs)" for i rp st gs
    unfolding verifyEvidencePersisted_def Let_def by (intro halted_engine.keeps_engine)
  ultimately obtain ev k where "run_state (recordGateStage sample_engine ''r1'' ''api'' ''red'') halted_host = (([ev], None), k)"
      "halted k" "ge_Gate ev = ''vet''" "ge_Status ev = ''failed''"
    using one_gate_stage [where P = halted and ok = False and stage = "''red''", OF _ _ _ _ prep]
      gate_fails_when_halted halted_step [OF halted_engine.now] halted_step
    by (fastforce simp: halted_def)
  then show ?thesis by (auto simp: RecordRedState_def)
qed

text \<open>
  A cancelled call observes a red state.  Recording the red state never asks whether the run was
  cancelled: in a cancelled run no gate is started, each is reported and recorded as failed, and the call
  reports that the red state was observed.
\<close>

theorem cancelled_run_is_red:
  "\<exists>ev k. run_state (RecordRedState sample_engine ''r1'' ''api'') halted_host = (([ev], None), k) \<and>
     ge_Status ev = ''failed'' \<and> list_all (\<lambda>(q, b). req_exe q = ''git'') (trace k)"
  using halted_evidence by (auto simp: halted_def list_all_iff)


theorem RecordGreenState_earned_witness:
  "clean_gate_exit (FleetDir fleet_host ''r1'' ''api'') ''go vet ./...'' fleet_host
     (snd (run_state (RecordGreenState sample_engine ''r1'' ''api'') fleet_host))"
proof -
  obtain h1 where prep: "run_state (prepareWorktree ''/src/api'' ''r1'' ''api'') fleet_host =
      (Inr (FleetDir fleet_host ''r1'' ''api'', True), h1)"
    by (rule sample_prepared [of fleet_host]) auto
  have "calm h1" using yieldsD [OF calm_step [OF calm_engine.keeps_prepare] calm_sample prep] .
  moreover have "state_io_rel stays_calm (verifyEvidencePersisted i rp st gs)" for i rp st gs
    unfolding verifyEvidencePersisted_def Let_def by (intro calm_engine.keeps_engine)
  ultimately obtain ev k where "run_state (recordGateStage sample_engine ''r1'' ''api'' ''green'') fleet_host = (([ev], None), k)"
      "ge_Status ev = ''passed''"
    using one_gate_stage [where P = calm and ok = True and stage = "''green''", OF _ _ _ _ prep]
      gate_passes_when_calm calm_step [OF calm_engine.now] calm_step
    by (fastforce simp: calm_def)
  then have run: "run_state (RecordGreenState sample_engine ''r1'' ''api'') fleet_host = (([ev], None), k)"
    by (simp add: RecordGreenState_def)
  from RecordGreenState_earned [OF this]
  have "clean_gate_exit (FleetDir fleet_host ''r1'' ''api'') ''go vet ./...'' fleet_host k"
    by (auto simp: sample_defs split: if_splits)
  then show ?thesis by (simp only: run snd_conv)
qed



section \<open>Resuming\<close>

text \<open>On a working database a phase counts as passed exactly when resuming a run with a passed record of that name.\<close>

lemma phasePassed_healthy:
  assumes "healthy (base h)"
  shows "fst (run_state (phasePassed e i rp ph) h) = (en_Resume e \<and> (\<exists>p \<in> set (phases (db (base h))).
      ph_RunID p = i \<and> ph_Repo p = rp \<and> ph_Name p = ph \<and> ph_Status p = ''passed''))"
    and "trace (snd (run_state (phasePassed e i rp ph) h)) = trace h"
    and "db (base (snd (run_state (phasePassed e i rp ph) h))) = db (base h)"
  using assms
  by (auto simp: phasePassed_def store_io_def ListPhasesForRun_def query_def exec_healthy list_ex_iff phases_of_def
      scanPhase_def split: prod.split)

text \<open>
  C38: a record is matched by its name alone.  When a run is resumed, a configured gate is skipped as
  soon as any phase of its name has passed in the repository, an agent phase included: its command is not
  started, nothing is recorded, and the stage goes on as if the gate had passed.
\<close>

theorem resume_skips_gate_by_name:
  assumes "healthy (base h)" and "en_Resume e"
    and "p \<in> set (phases (db (base h)))" and "ph_RunID p = pr_RunID pr" and "ph_Repo p = pr_RepoName pr"
    and "ph_Name p = g" and "ph_Kind p = ''agent''" and "ph_Status p = ''passed''"
  shows "\<exists>k. run_state (run_gate e pr repoCfg g) h = (Inr (), k) \<and> trace k = trace h \<and> db (base k) = db (base h)"
proof -
  obtain b k where run: "run_state (phasePassed e (pr_RunID pr) (pr_RepoName pr) g) h = (b, k)"
    by (cases "run_state (phasePassed e (pr_RunID pr) (pr_RepoName pr) g) h")
  with phasePassed_healthy [OF assms(1), of e "pr_RunID pr" "pr_RepoName pr" g] assms(2-8)
  have "b" "trace k = trace h" "db (base k) = db (base h)" by auto
  with run show ?thesis by (simp add: run_gate_def)
qed

definition built_phase :: PhaseRecord where
  "built_phase = \<lparr>ph_ID = ''api-build-1'', ph_RunID = ''r1'', ph_Repo = ''api'', ph_Name = ''build'', ph_Kind = ''agent'',
     ph_Status = ''passed'', ph_Error = [], ph_DurationMs = 0, ph_Payload = RawEmpty, ph_Attempt = 1, ph_FixCycle = 0,
     ph_CreatedAt = 1\<rparr>"

theorem resume_skips_gate_by_name_witness:
  "\<exists>k. run_state (run_gate (sample_engine\<lparr>en_Resume := True\<rparr>) sample_runner sample_repo ''build'')
     (calm_host (initial_world (empty_tables\<lparr>phases := [built_phase]\<rparr>)) []) = (Inr (), k) \<and> trace k = []"
  using resume_skips_gate_by_name [of "calm_host (initial_world (empty_tables\<lparr>phases := [built_phase]\<rparr>)) []"
      "sample_engine\<lparr>en_Resume := True\<rparr>" built_phase sample_runner "''build''" sample_repo]
  by (auto simp: calm_host_def sample_runner_def built_phase_def)

text \<open>
  A resumed run never spends an agent on a phase it passed.  With a working database, when a run is
  resumed, an agent phase with a passed record starts no command and records nothing.
\<close>

theorem resume_keeps_earned_pass:
  assumes "healthy (base h)" and "en_Resume e"
    and "p \<in> set (phases (db (base h)))" and "ph_RunID p = pr_RunID pr" and "ph_Repo p = pr_RepoName pr"
    and "ph_Name p = ph" and "ph_Status p = ''passed''" and "ph \<noteq> ''test''"
  shows "\<exists>k. run_state (run_phase e pr stage repoCfg ph) h = (Inr (), k) \<and> trace k = trace h \<and> db (base k) = db (base h)"
proof -
  obtain b k where run: "run_state (phasePassed e (pr_RunID pr) (pr_RepoName pr) ph) h = (b, k)"
    by (cases "run_state (phasePassed e (pr_RunID pr) (pr_RepoName pr) ph) h")
  with phasePassed_healthy [OF assms(1), of e "pr_RunID pr" "pr_RepoName pr" ph] assms(2-7)
  have "b" "trace k = trace h" "db (base k) = db (base h)" by auto
  with run assms(8) show ?thesis by (auto simp: run_phase_def run_review_phase_def run_agent_step_def)
qed

theorem resume_keeps_earned_pass_witness:
  "\<exists>k. run_state (run_phase (sample_engine\<lparr>en_Resume := True\<rparr>) sample_runner sample_stage sample_repo ''build'')
     (calm_host (initial_world (empty_tables\<lparr>phases := [built_phase]\<rparr>)) []) = (Inr (), k) \<and> trace k = []"
  using resume_keeps_earned_pass [of "calm_host (initial_world (empty_tables\<lparr>phases := [built_phase]\<rparr>)) []"
      "sample_engine\<lparr>en_Resume := True\<rparr>" built_phase sample_runner "''build''" sample_stage sample_repo]
  by (auto simp: calm_host_def sample_runner_def built_phase_def)

end
