(* ===== verification/Fleet.thy ===== *)
theory Fleet
  imports Engine Stream
begin

text \<open>
  \<open>internal/ui/gitutil.go\<close>, \<open>delivery.go\<close> and \<open>fleet.go\<close>: what a finished run left in its worktrees, and
  the decision to reclaim them.
\<close>

section \<open>Questions to git\<close>

definition gitOut :: "string \<Rightarrow> string list \<Rightarrow> string io" where
  "gitOut dir args = gitOutput False dir args"

definition expandHome :: "host \<Rightarrow> string \<Rightarrow> string" where
  "expandHome h p = (if HasPrefix p ''~/'' then path_text (Join (home_dir h) (drop 2 p)) else p)"

definition rawOriginRemote :: "string \<Rightarrow> string io" where
  "rawOriginRemote repoDir = do {
     h \<leftarrow> get_host;
     gitOut (expandHome h repoDir) [''config'', ''--get'', ''remote.origin.url''] }"

definition normalize_remote :: "string \<Rightarrow> string" where
  "normalize_remote raw =
     (if raw = [] then []
      else if HasPrefix raw ''git@github.com:'' then
        ''https://github.com/'' @ TrimSuffix (TrimPrefix raw ''git@github.com:'') ''.git''
      else if HasPrefix raw ''https://github.com/'' then TrimSuffix raw ''.git''
      else if HasPrefix raw ''http://'' \<or> HasPrefix raw ''https://'' then TrimSuffix raw ''.git''
      else [])"

definition resolveGitRemoteURL :: "string \<Rightarrow> string io" where
  "resolveGitRemoteURL repoDir = do {
     raw \<leftarrow> rawOriginRemote repoDir;
     State_Monad.return (normalize_remote raw) }"

fun first_known :: "string \<Rightarrow> string list \<Rightarrow> string option io" where
  "first_known dir [] = State_Monad.return None"
| "first_known dir (c # cs) = do {
     out \<leftarrow> gitOut dir [''rev-parse'', ''--verify'', c];
     if out \<noteq> [] then State_Monad.return (Some c) else first_known dir cs }"

definition defaultBase :: "string \<Rightarrow> string \<Rightarrow> string io" where
  "defaultBase dir recorded =
     (if recorded \<noteq> [] then State_Monad.return recorded
      else do {
        r \<leftarrow> first_known dir [''main'', ''master''];
        case r of Some c \<Rightarrow> State_Monad.return c
        | None \<Rightarrow> do {
            ref \<leftarrow> gitOut dir [''symbolic-ref'', ''refs/remotes/origin/HEAD''];
            if ref \<noteq> [] then State_Monad.return (TrimPrefix ref ''refs/remotes/'')
            else do {
              r \<leftarrow> first_known dir [''origin/main'', ''origin/master''];
              State_Monad.return (case r of Some c \<Rightarrow> c | None \<Rightarrow> ''HEAD'') } } })"

section \<open>The delivery report\<close>

record DeliveryReport =
  dl_Repo :: string
  dl_Worktree :: string
  dl_Branch :: string
  dl_Commits :: int
  dl_Dirty :: bool
  dl_Pushed :: bool
  dl_RemoteBase :: string
  dl_CompareURL :: string
  dl_Summary :: string
  dl_Artifacts :: "string list"
  dl_ReadyForPR :: bool

text \<open>\<open>fmt.Sscanf(n, "%d", &x)\<close> on trimmed text: the digits it starts with, \<open>x\<close> is left at zero when there are none.\<close>

definition scan_count :: "string \<Rightarrow> int" where
  "scan_count s =
     (let neg = HasPrefix s ''-'';
          ds = takeWhile is_digit (if neg \<or> HasPrefix s ''+'' then drop 1 s else s);
          n = int (foldl (\<lambda>n c. 10 * n + digit_value c) 0 ds) in
      if (if neg then n > 2 ^ 63 else n \<ge> 2 ^ 63) then 0 else if neg then - n else n)"

definition delivery_summary :: "string \<Rightarrow> string \<Rightarrow> int \<Rightarrow> bool \<Rightarrow> bool \<Rightarrow> string \<times> bool" where
  "delivery_summary repoName branch commits dirty pushed =
     (if commits = 0 \<and> dirty then
        (''Uncommitted changes in worktree for '' @ repoName @ '' '' @ em_dash @ '' nothing committed yet'', False)
      else if commits = 0 then (''Run completed with no changes to '' @ repoName, False)
      else if \<not> pushed then
        (show_int commits @ '' commit(s) on '' @ branch @ '' in an isolated worktree '' @ em_dash @ '' not pushed'', True)
      else (show_int commits @ '' commit(s) pushed to '' @ branch @ '' '' @ em_dash @ '' ready to open a PR'', True))"

definition report_worktree :: "string \<Rightarrow> Repo \<Rightarrow> path \<Rightarrow> string \<Rightarrow> string \<Rightarrow> DeliveryReport io" where
  "report_worktree repoName rCfg wt branch baseBranch = do {
     status \<leftarrow> gitOut (path_text wt) [''status'', ''--porcelain''];
     b \<leftarrow> defaultBase (path_text wt) baseBranch;
     n \<leftarrow> gitOut (path_text wt) [''rev-list'', ''--count'', ''HEAD'', ''^'' @ b];
     ahead \<leftarrow> gitOut (path_text wt) [''rev-list'', ''--count'', ''origin/'' @ branch @ ''..HEAD''];
     h \<leftarrow> get_host;
     remote \<leftarrow> resolveGitRemoteURL (expandHome h (repo_Path rCfg));
     let dirty = (status \<noteq> []);
     let commits = (if n \<noteq> [] then scan_count n else 0);
     let pushed = (ahead = ''0'');
     let url = (if remote \<noteq> [] \<and> pushed then remote @ ''/compare/'' @ branch @ ''?expand=1'' else []);
     let (summary, ready) = delivery_summary repoName branch commits dirty pushed;
     State_Monad.return \<lparr>dl_Repo = repoName, dl_Worktree = path_text wt, dl_Branch = branch, dl_Commits = commits,
       dl_Dirty = dirty, dl_Pushed = pushed, dl_RemoteBase = remote, dl_CompareURL = url, dl_Summary = summary,
       dl_Artifacts = path_text wt # (if url \<noteq> [] then [url] else []), dl_ReadyForPR = ready\<rparr> }"

text \<open>
  The first repository of the project with a worktree.  The order of the list is the order the map is
  ranged over, which the language leaves open.
\<close>

fun first_worktree :: "string \<Rightarrow> (string \<times> Repo) list \<Rightarrow> (string \<times> Repo \<times> path) option io" where
  "first_worktree runID [] = State_Monad.return None"
| "first_worktree runID ((repoName, rCfg) # rs) = do {
     h \<leftarrow> get_host;
     st \<leftarrow> Stat (FleetDir h runID repoName);
     case st of Inl _ \<Rightarrow> first_worktree runID rs
     | Inr _ \<Rightarrow> State_Monad.return (Some (repoName, rCfg, FleetDir h runID repoName)) }"

definition describeDelivery :: "Project \<Rightarrow> string \<Rightarrow> DeliveryReport io" where
  "describeDelivery proj runID = do {
     run \<leftarrow> store_io (GetRun runID);
     let branch = (case run of Inr r \<Rightarrow> BranchNameForRun (run_ID r) (run_Type r) (run_ChangeID r) | Inl _ \<Rightarrow> []);
     let baseBranch = (case run of Inr r \<Rightarrow> run_BaseBranch r | Inl _ \<Rightarrow> []);
     found \<leftarrow> first_worktree runID (pj_Repos proj);
     case found of
       Some (repoName, rCfg, wt) \<Rightarrow> report_worktree repoName rCfg wt branch baseBranch
     | None \<Rightarrow> State_Monad.return \<lparr>dl_Repo = pj_Name proj, dl_Worktree = [], dl_Branch = branch, dl_Commits = 0,
         dl_Dirty = False, dl_Pushed = False, dl_RemoteBase = [], dl_CompareURL = [],
         dl_Summary = ''Run completed but produced no isolated worktree'', dl_Artifacts = [], dl_ReadyForPR = False\<rparr> }"

text \<open>The report as the data of an envelope; \<open>omitempty\<close> leaves out an empty address.\<close>

definition report_json :: "DeliveryReport \<Rightarrow> json" where
  "report_json d = JObj ([(''repo'', JStr (dl_Repo d)), (''worktree'', JStr (dl_Worktree d)), (''branch'', JStr (dl_Branch d)),
     (''commits'', JNum (dl_Commits d)), (''dirty'', JBool (dl_Dirty d)), (''pushed'', JBool (dl_Pushed d))] @
     (if dl_RemoteBase d = [] then [] else [(''remote_base'', JStr (dl_RemoteBase d))]) @
     (if dl_CompareURL d = [] then [] else [(''compare_url'', JStr (dl_CompareURL d))]) @
     [(''summary'', JStr (dl_Summary d)), (''artifacts'', JArr (map JStr (dl_Artifacts d))),
      (''ready_for_pr'', JBool (dl_ReadyForPR d))])"

section \<open>Reclaiming worktrees\<close>

text \<open>A question \<open>git\<close> does not answer counts as an empty answer.\<close>

fun dirty_entries :: "path \<Rightarrow> (string \<times> node) list \<Rightarrow> string list io" where
  "dirty_entries runDir [] = State_Monad.return []"
| "dirty_entries runDir ((name, n) # es) =
     (if n \<noteq> Dir then dirty_entries runDir es
      else do {
        gd \<leftarrow> gitOut (path_text (Join runDir name)) [''rev-parse'', ''--git-dir''];
        if gd = [] then dirty_entries runDir es
        else do {
          status \<leftarrow> gitOut (path_text (Join runDir name)) [''status'', ''--porcelain''];
          rest \<leftarrow> dirty_entries runDir es;
          State_Monad.return (if status \<noteq> [] then name # rest else rest) } })"

definition dirtyWorktreesUnder :: "path \<Rightarrow> string list io" where
  "dirtyWorktreesUnder runDir = do {
     entries \<leftarrow> ReadDir runDir;
     case entries of Inl _ \<Rightarrow> State_Monad.return [] | Inr es \<Rightarrow> dirty_entries runDir es }"

definition reclaimFleetDir :: "path \<Rightarrow> string \<Rightarrow> bool \<Rightarrow> bool \<Rightarrow> (bool \<times> string) io" where
  "reclaimFleetDir fleetDir runStatus force dryRun =
     (if runStatus = ''running'' \<and> \<not> force then State_Monad.return (False, ''run still in progress'')
      else do {
        dirty \<leftarrow> (if \<not> force then dirtyWorktreesUnder fleetDir else State_Monad.return []);
        if dirty \<noteq> [] then State_Monad.return (False,
          ''uncommitted changes in '' @ join_with '', '' dirty @ '' '' @ em_dash @ '' commit or use force'')
        else if dryRun then State_Monad.return (True, [])
        else do {
          r \<leftarrow> RemoveAll fleetDir;
          State_Monad.return (case r of Inl _ \<Rightarrow> (False, []) | Inr _ \<Rightarrow> (True, [])) } })"

definition fleetCleanupRetention :: int where
  "fleetCleanupRetention = 7 * 24 * 60 * 60 * 1000000000"

fun reclaim_runs :: "RunRecord list \<Rightarrow> unit io" where
  "reclaim_runs [] = State_Monad.return ()"
| "reclaim_runs (run # rs) = do {
     h \<leftarrow> get_host;
     let fleetDir = Join (FleetRoot h) (run_ID run);
     st \<leftarrow> Stat fleetDir;
     _ \<leftarrow> (case st of Inl _ \<Rightarrow> State_Monad.return (False, [])
           | Inr _ \<Rightarrow> reclaimFleetDir fleetDir (run_Status run) False False);
     reclaim_runs rs }"

definition reclaimEligibleFleetDirs :: "unit io" where
  "reclaimEligibleFleetDirs = do {
     now \<leftarrow> now_io;
     res \<leftarrow> store_io (RunsEligibleForCleanup (now - fleetCleanupRetention));
     case res of Inl _ \<Rightarrow> State_Monad.return () | Inr rs \<Rightarrow> reclaim_runs rs }"

text \<open>The status the on-demand handler finds for a directory: later runs overwrite earlier ones of the same name.\<close>

definition lease_status :: "RunRecord list \<Rightarrow> string \<Rightarrow> string" where
  "lease_status recent name = foldl (\<lambda>s r. if run_ID r = name \<or> run_TaskID r = name then run_Status r else s) [] recent"

fun clean_entries :: "RunRecord list \<Rightarrow> path \<Rightarrow> string \<Rightarrow> bool \<Rightarrow> bool \<Rightarrow> (string \<times> node) list \<Rightarrow>
    (path list \<times> (path \<times> string) list) io" where
  "clean_entries recent fleetDir taskID force dryRun [] = State_Monad.return ([], [])"
| "clean_entries recent fleetDir taskID force dryRun ((name, n) # es) =
     (if n \<noteq> Dir \<or> (taskID \<noteq> [] \<and> name \<noteq> taskID) then clean_entries recent fleetDir taskID force dryRun es
      else do {
        (ok, reason) \<leftarrow> reclaimFleetDir (Join fleetDir name) (lease_status recent name) force dryRun;
        (removed, skipped) \<leftarrow> clean_entries recent fleetDir taskID force dryRun es;
        State_Monad.return (
          if ok then (Join fleetDir name # removed, skipped)
          else (removed, if reason \<noteq> [] then (Join fleetDir name, reason) # skipped else skipped)) })"

text \<open>The handler behind \<open>/api/clean-worktrees\<close>: \<open>None\<close> is a refused request.\<close>

definition handleCleanWorktrees :: "string \<Rightarrow> bool \<Rightarrow> bool \<Rightarrow> (path list \<times> (path \<times> string) list) option io" where
  "handleCleanWorktrees taskID dryRun force =
     (if taskID \<noteq> [] \<and> (CHR ''/'' \<in> set taskID \<or> Contains taskID ''..'') then State_Monad.return None
      else do {
        h \<leftarrow> get_host;
        _ \<leftarrow> MkdirAll (FleetRoot h);
        recent \<leftarrow> store_io (ListRecentRuns 200);
        entries \<leftarrow> ReadDir (FleetRoot h);
        r \<leftarrow> clean_entries (case recent of Inr rs \<Rightarrow> rs | Inl _ \<Rightarrow> []) (FleetRoot h) taskID force dryRun
          (case entries of Inr es \<Rightarrow> es | Inl _ \<Rightarrow> []);
        State_Monad.return (Some r) })"

end
