(* ===== verification/OpenSpec.thy ===== *)
theory OpenSpec
  imports Fleet
begin

text \<open>
  \<open>internal/ui/openspec.go\<close>: the change a dispatch is accountable to.  Where the \<open>openspec\<close> program is
  found on the search path, and the directory relative names start from, are parameters.
\<close>

section \<open>Change identifiers\<close>

record ChangeRef =
  chg_ID :: string
  chg_Dir :: path
  chg_Created :: bool

definition maxChangeIDLen :: nat where "maxChangeIDLen = 48"

definition changesDir :: "path \<Rightarrow> path" where
  "changesDir repoPath = Join (Join repoPath ''openspec'') ''changes''"

definition changeDirFor :: "path \<Rightarrow> string \<Rightarrow> path" where
  "changeDirFor repoPath i = Join (changesDir repoPath) i"

definition scaffoldStagingRoot :: "host \<Rightarrow> path" where
  "scaffoldStagingRoot h = Join (FleetRoot h) ''scaffold''"

definition validateChangeID :: "string \<Rightarrow> err option" where
  "validateChangeID i =
     (if i = [] then Some (Errorf ''change id is empty'' [] None)
      else if CHR ''/'' \<in> set i \<or> CHR 0x5C \<in> set i \<or> Contains i ''..'' \<or> i = ''.'' then
        Some (Errorf ''invalid change id %q: a change id is a single kebab-case segment, not a path'' [i] None)
      else None)"

definition is_lower :: "char \<Rightarrow> bool" where
  "is_lower c \<longleftrightarrow> CHR ''a'' \<le> c \<and> c \<le> CHR ''z''"

definition is_upper :: "char \<Rightarrow> bool" where
  "is_upper c \<longleftrightarrow> CHR ''A'' \<le> c \<and> c \<le> CHR ''Z''"

definition to_lower :: "char \<Rightarrow> char" where
  "to_lower c = (if is_upper c then char_of (of_char c + 32 :: nat) else c)"

text \<open>One rune of the brief; every byte of a rune outside ASCII is like any other separator.\<close>

definition derive_step :: "char \<Rightarrow> string \<times> bool \<Rightarrow> string \<times> bool" where
  "derive_step r = (\<lambda>(b, pendingHyphen).
     if is_lower r \<or> is_digit r \<or> is_upper r then
       ((if pendingHyphen \<and> b \<noteq> [] then b @ ''-'' else b) @ [to_lower r], False)
     else (b, True))"

definition cut_at_last_hyphen :: "string \<Rightarrow> string" where
  "cut_at_last_hyphen s =
     (let front = rev (drop 1 (dropWhile (\<lambda>c. c \<noteq> CHR ''-'') (rev s))) in
      if CHR ''-'' \<in> set s \<and> front \<noteq> [] then front else s)"

definition TrimHyphens :: "string \<Rightarrow> string" where
  "TrimHyphens s = rev (dropWhile (\<lambda>c. c = CHR ''-'') (rev (dropWhile (\<lambda>c. c = CHR ''-'') s)))"

definition deriveChangeID :: "string \<Rightarrow> string" where
  "deriveChangeID brief =
     (let i = fst (fold derive_step brief ([], False)) in
      if length i \<le> maxChangeIDLen then i
      else TrimHyphens (cut_at_last_hyphen (take maxChangeIDLen i)))"

section \<open>Resolving a change\<close>

definition isDir :: "path \<Rightarrow> bool io" where
  "isDir p = do { st \<leftarrow> Stat p; State_Monad.return (st = Inr Dir) }"

definition scaffoldChange :: "string option \<Rightarrow> path \<Rightarrow> string \<Rightarrow> (err + unit) io" where
  "scaffoldChange bin repoPath i = (case bin of
     None \<Rightarrow> State_Monad.return (Inl (Errorf (''dispatch requires the openspec CLI to scaffold change %q, but `openspec` '' @
       ''is not on PATH; install it with `npm install -g @fission-ai/openspec`, or pass an existing change_id'') [i] None))
   | Some exe \<Rightarrow> do {
       o' \<leftarrow> run_command False \<lparr>req_exe = exe, req_args = [''new'', ''change'', i], req_env = [], req_dir = repoPath,
         req_budget = Some (60 * 1000000000)\<rparr>;
       State_Monad.return (case exit_error o' of
         Some x \<Rightarrow> Inl (Errorf ''`openspec new change %s` failed in %s: %v: %s''
           [i, path_text repoPath, x, TrimSpace (out_text o')] None)
       | None \<Rightarrow> Inr ()) })"

definition existing_change :: "path \<Rightarrow> string \<Rightarrow> (err + ChangeRef) io" where
  "existing_change root i = (case validateChangeID i of
     Some e \<Rightarrow> State_Monad.return (Inl e)
   | None \<Rightarrow> do {
       ok \<leftarrow> isDir (changeDirFor root i);
       State_Monad.return (if \<not> ok then Inl (Errorf (''OpenSpec change %q not found: %s does not exist; create it with '' @
           ''`openspec new change %s` in %s'') [i, path_text (changeDirFor root i), i, path_text root] None)
         else Inr \<lparr>chg_ID = i, chg_Dir = changeDirFor root i, chg_Created = False\<rparr>) })"

definition derived_change :: "string option \<Rightarrow> path \<Rightarrow> string \<Rightarrow> (err + ChangeRef) io" where
  "derived_change bin root i =
     (if i = [] then State_Monad.return (Inl (Errorf
        ''cannot derive an OpenSpec change id from the brief: it contains no letters or digits'' [] None))
      else case validateChangeID i of Some e \<Rightarrow> State_Monad.return (Inl e)
      | None \<Rightarrow> do {
          here \<leftarrow> isDir (changeDirFor root i);
          if here then State_Monad.return (Inr \<lparr>chg_ID = i, chg_Dir = changeDirFor root i, chg_Created = False\<rparr>)
          else do {
            h \<leftarrow> get_host;
            let stagingRoot = scaffoldStagingRoot h;
            let stagingDir = changeDirFor stagingRoot i;
            staged \<leftarrow> isDir stagingDir;
            if staged then State_Monad.return (Inr \<lparr>chg_ID = i, chg_Dir = stagingDir, chg_Created = False\<rparr>)
            else or_wrap ''creating OpenSpec scaffold staging dir %s: %w'' [path_text stagingRoot] (MkdirAll stagingRoot) (\<lambda>_.
                 or_fail (scaffoldChange bin stagingRoot i) (\<lambda>_. do {
                   made \<leftarrow> isDir stagingDir;
                   State_Monad.return (if \<not> made then Inl (Errorf
                       ''`openspec new change %s` reported success but %s does not exist'' [i, path_text stagingDir] None)
                     else Inr \<lparr>chg_ID = i, chg_Dir = stagingDir, chg_Created = True\<rparr>) })) } })"

definition resolveChange :: "string option \<Rightarrow> path \<Rightarrow> string \<Rightarrow> string \<Rightarrow> string \<Rightarrow> (err + ChangeRef) io" where
  "resolveChange bin cwd repoPath changeID brief =
     (if TrimSpace repoPath = [] then State_Monad.return (Inl (Errorf
        ''cannot resolve an OpenSpec change: no repository path given'' [] None))
      else do {
        h \<leftarrow> get_host;
        let p = expandHome h (TrimSpace repoPath);
        let root = (if IsAbs p then Join [] p else Join cwd p);
        if TrimSpace changeID \<noteq> [] then existing_change root (TrimSpace changeID)
        else derived_change bin root (deriveChangeID brief) })"

text \<open>The first candidate that is configured with a path.\<close>

fun pick_repo :: "Project \<Rightarrow> string list \<Rightarrow> (string \<times> string) option" where
  "pick_repo proj [] = None"
| "pick_repo proj (c # cs) = (case map_of (pj_Repos proj) c of
     Some r \<Rightarrow> if TrimSpace (repo_Path r) \<noteq> [] then Some (c, repo_Path r) else pick_repo proj cs
   | None \<Rightarrow> pick_repo proj cs)"

definition changeRepo :: "Project \<Rightarrow> string list \<Rightarrow> err + string \<times> string" where
  "changeRepo proj requested =
     (if pj_Repos proj = [] then Inl (Errorf
        ''project has no repositories configured, so no repository can hold the OpenSpec change'' [] None)
      else if requested \<noteq> [] then (case pick_repo proj requested of
        Some x \<Rightarrow> Inr x
      | None \<Rightarrow> Inl (Errorf ''none of the requested repos %v is configured in project %s with a path''
          [join_with '' '' requested, pj_Name proj] None))
      else case (case pj_DAG proj of Some (s # _) \<Rightarrow> pick_repo proj (stg_Repos s) | _ \<Rightarrow> None) of
        Some x \<Rightarrow> Inr x
      | None \<Rightarrow> (case pick_repo proj (sort (map fst (pj_Repos proj))) of
          Some x \<Rightarrow> Inr x
        | None \<Rightarrow> Inl (Errorf ''no repository in project %s declares a path'' [pj_Name proj] None)))"

end
