(* ===== verification/Wiki.thy ===== *)
theory Wiki
  imports Runner
begin

text \<open>
  \<open>internal/wiki/wiki.go\<close>: the pages a terminal run leaves in the project's wiki: a page per run, an index
  and a log per day, and an index of days.  The layout of the YAML front matter is a parameter.  The
  pages are plain text; a file that holds a document is not one of them and reads as empty.
\<close>

section \<open>Dates\<close>

text \<open>The civil date of a day counted from the epoch, as year, month and day.\<close>

definition civil_date :: "int \<Rightarrow> int \<times> int \<times> int" where
  "civil_date days =
     (let z = days + 719468; era = z div 146097; doe = z mod 146097;
          yoe = (doe - doe div 1460 + doe div 36524 - doe div 146096) div 365;
          doy = doe - (365 * yoe + yoe div 4 - yoe div 100);
          mp = (5 * doy + 2) div 153;
          d = doy - (153 * mp + 2) div 5 + 1;
          m = (if mp < 10 then mp + 3 else mp - 9) in
      (yoe + era * 400 + (if m \<le> 2 then 1 else 0), m, d))"

definition two_digits :: "int \<Rightarrow> string" where
  "two_digits n = zero_pad 2 (show_nat (nat n))"

text \<open>The formats \<open>2006-01-02\<close> and \<open>time.RFC3339\<close> in UTC, for years of four digits.\<close>

definition format_date :: "time \<Rightarrow> string" where
  "format_date t = (case civil_date (t div (86400 * 1000000000)) of
     (y, m, d) \<Rightarrow> zero_pad 4 (show_nat (nat y)) @ ''-'' @ two_digits m @ ''-'' @ two_digits d)"

definition format_time :: "time \<Rightarrow> string" where
  "format_time t =
     (let s = (t div 1000000000) mod 86400 in
      format_date t @ ''T'' @ two_digits (s div 3600) @ '':'' @ two_digits (s div 60 mod 60) @ '':'' @
      two_digits (s mod 60) @ ''Z'')"

section \<open>Pages\<close>

definition page_text :: "raw_json \<Rightarrow> string" where
  "page_text c = (case c of RawBad s \<Rightarrow> s | _ \<Rightarrow> [])"

definition ProjectRoot :: "host \<Rightarrow> string \<Rightarrow> path" where
  "ProjectRoot h project =
     Join (if getenv h ''SGT_WIKI_ROOT'' \<noteq> [] then Join [] (getenv h ''SGT_WIKI_ROOT'')
       else Join (Join (Join (Join (home_dir h) ''.local'') ''share'') ''sgt'') ''wiki'') project"

record Entry =
  we_Run :: RunRecord
  we_Bullets :: "BulletRecord list"
  we_BlockedReason :: string

text \<open>Cutting at 72 bytes, then trimming again.\<close>

definition firstLine :: "string \<Rightarrow> string" where
  "firstLine s =
     (let l = takeWhile (\<lambda>c. c \<noteq> CHR 0x0D \<and> c \<noteq> CHR 0x0A) (TrimSpace s) in
      if length l > 72 then TrimSpace (take 72 l) else l)"

definition capitalize :: "string \<Rightarrow> string" where
  "capitalize s = (case s of [] \<Rightarrow> []
     | c # cs \<Rightarrow> (if CHR ''a'' \<le> c \<and> c \<le> CHR ''z'' then char_of (of_char c - 32 :: nat) else c) # cs)"

definition page_dash :: string where
  "page_dash = [CHR 0xE2, CHR 0x80, CHR 0x94]"

definition runTitle :: "RunRecord \<Rightarrow> string" where
  "runTitle run = (if run_Slug run \<noteq> [] then run_Slug run else firstLine (run_Brief run))"

definition runDescription :: "RunRecord \<Rightarrow> string" where
  "runDescription run = run_Status run @ '' '' @ page_dash @ '' '' @ firstLine (run_Brief run)"

definition runTags :: "RunRecord \<Rightarrow> string list" where
  "runTags run = (if run_Type run \<noteq> [] then [run_Type run] else []) @ (if run_Status run \<noteq> [] then [run_Status run] else [])"

definition conceptPagePath :: "path \<Rightarrow> RunRecord \<Rightarrow> path" where
  "conceptPagePath dateDir run = Join dateDir (run_ID run @ ''.md'')"

definition conceptLink :: "string \<Rightarrow> RunRecord \<Rightarrow> string" where
  "conceptLink date run = ''/'' @ date @ ''/'' @ run_ID run @ ''.md''"

definition bullet_row :: "BulletRecord \<Rightarrow> string" where
  "bullet_row b = ''| '' @ bu_Repo b @ '' | '' @ bu_Status b @ '' | '' @
     (if bu_PRURL b \<noteq> [] then ''['' @ bu_PRURL b @ ''](''  @ bu_PRURL b @ '')'' else page_dash) @ '' |'' @ nl"

definition concept_page :: "host \<Rightarrow> Entry \<Rightarrow> string" where
  "concept_page h e =
     (let run = we_Run e in
      ''---'' @ nl @ yaml_text h ([(''type'', ''run''), (''title'', runTitle run), (''description'', runDescription run)] @
        map (\<lambda>t. (''tags'', t)) (runTags run) @
        [(''generated.by'', ''process:sgt''), (''generated.at'', format_time (run_UpdatedAt run))]) @ ''---'' @ nl @ nl @
      ''# '' @ runTitle run @ nl @ nl @
      (if run_Brief run \<noteq> [] then run_Brief run @ nl @ nl else []) @
      ''## Bullets'' @ nl @ nl @ ''| Repo | Status | PR |'' @ nl @ ''|---|---|---|'' @ nl @
      concat (map bullet_row (we_Bullets e)) @
      (if we_BlockedReason e \<noteq> [] then nl @ ''## Blocked'' @ nl @ nl @ we_BlockedReason e @ nl else []))"

definition writeConceptPage :: "path \<Rightarrow> Entry \<Rightarrow> (err + unit) io" where
  "writeConceptPage dateDir e = do {
     h \<leftarrow> get_host;
     WriteFile (conceptPagePath dateDir (we_Run e)) (RawBad (concept_page h e)) }"

definition append_line :: "string \<Rightarrow> string \<Rightarrow> string" where
  "append_line content line = (if content \<noteq> [] \<and> \<not> HasSuffix content nl then content @ nl else content) @ line"

definition appendUniqueLine :: "path \<Rightarrow> string \<Rightarrow> string \<Rightarrow> string \<Rightarrow> (err + unit) io" where
  "appendUniqueLine p header marker line = do {
     data \<leftarrow> ReadFile p;
     st \<leftarrow> Stat p;
     case data of
       Inl e \<Rightarrow> if st = Inl NotExist
         then (if Contains header marker then State_Monad.return (Inr ()) else WriteFile p (RawBad (append_line header line)))
         else State_Monad.return (Inl e)
     | Inr c \<Rightarrow> if Contains (page_text c) marker then State_Monad.return (Inr ())
         else WriteFile p (RawBad (append_line (page_text c) line)) }"

definition updateDateIndex :: "path \<Rightarrow> string \<Rightarrow> Entry \<Rightarrow> (err + unit) io" where
  "updateDateIndex dateDir date e =
     (let link = conceptLink date (we_Run e) in
      appendUniqueLine (Join dateDir ''index.md'') (''# '' @ date @ nl @ nl) (''('' @ link @ '')'')
        (''* ['' @ runTitle (we_Run e) @ ''](''  @ link @ '') - '' @ runDescription (we_Run e) @ nl))"

definition updateDateLog :: "path \<Rightarrow> string \<Rightarrow> Entry \<Rightarrow> (err + unit) io" where
  "updateDateLog dateDir date e =
     (let link = conceptLink date (we_Run e) in
      appendUniqueLine (Join dateDir ''log.md'') (''# Directory Update Log'' @ nl @ nl @ ''## '' @ date @ nl @ nl)
        (''('' @ link @ '')'')
        (''* **'' @ capitalize (run_Status (we_Run e)) @ ''**: ['' @ runTitle (we_Run e) @ ''](''  @ link @ '') '' @
         page_dash @ '' '' @ runDescription (we_Run e) @ nl))"

text \<open>What precedes and what follows the first occurrence of a pattern.\<close>

fun split_first :: "string \<Rightarrow> string \<Rightarrow> (string \<times> string) option" where
  "split_first pat s = (if HasPrefix s pat then Some ([], drop (length pat) s)
     else case s of [] \<Rightarrow> None
       | c # cs \<Rightarrow> map_option (\<lambda>(a, b). (c # a, b)) (split_first pat cs))"

definition dates_heading :: string where
  "dates_heading = ''# Dates'' @ nl"

definition insert_date_line :: "string \<Rightarrow> string \<Rightarrow> string" where
  "insert_date_line body line = (case split_first dates_heading body of
     None \<Rightarrow> rev (dropWhile (\<lambda>c. c = CHR 0x0A) (rev body)) @ nl @ nl @ dates_heading @ nl @ line
   | Some (a, b) \<Rightarrow> a @ dates_heading @ takeWhile (\<lambda>c. c = CHR 0x0A) b @ line @ dropWhile (\<lambda>c. c = CHR 0x0A) b)"

definition updateRootIndex :: "path \<Rightarrow> string \<Rightarrow> (err + unit) io" where
  "updateRootIndex root date = do {
     h \<leftarrow> get_host;
     data \<leftarrow> ReadFile (Join root ''index.md'');
     st \<leftarrow> Stat (Join root ''index.md'');
     let body = (case data of
       Inr c \<Rightarrow> Inr (page_text c)
     | Inl e \<Rightarrow> if st = Inl NotExist
         then Inr (''---'' @ nl @ yaml_text h [(''okf_version'', ''0.2'')] @ ''---'' @ nl @ nl @ dates_heading @ nl)
         else Inl e);
     case body of Inl e \<Rightarrow> State_Monad.return (Inl e)
     | Inr body \<Rightarrow>
         if Contains body (''(/'' @ date @ ''/index.md)'') then State_Monad.return (Inr ())
         else WriteFile (Join root ''index.md'')
           (RawBad (insert_date_line body (''* ['' @ date @ ''](/'' @ date @ ''/index.md)'' @ nl))) }"

text \<open>A failure before the page is written ends the record; a failure to update an index is only logged.\<close>

definition RecordRun :: "Entry \<Rightarrow> unit io" where
  "RecordRun e = do {
     h \<leftarrow> get_host;
     let root = ProjectRoot h (run_Project (we_Run e));
     let date = format_date (run_UpdatedAt (we_Run e));
     let dateDir = Join root date;
     mk \<leftarrow> MkdirAll dateDir;
     case mk of Inl _ \<Rightarrow> State_Monad.return ()
     | Inr _ \<Rightarrow> do {
         page \<leftarrow> writeConceptPage dateDir e;
         case page of Inl _ \<Rightarrow> State_Monad.return ()
         | Inr _ \<Rightarrow> do {
             _ \<leftarrow> updateDateIndex dateDir date e;
             _ \<leftarrow> updateDateLog dateDir date e;
             _ \<leftarrow> updateRootIndex root date;
             State_Monad.return () } } }"

end
