(* ===== verification/Lifecycle.thy ===== *)
theory Lifecycle
  imports OpenSpec Wiki
begin

text \<open>
  The life of a run: \<open>internal/ui/dispatch.go\<close>, \<open>run_lifecycle.go\<close>, \<open>gatefix.go\<close>, \<open>bulletstate.go\<close>,
  \<open>plans.go\<close> and the registry of running runs of \<open>server.go\<close>.

  A handler runs to completion and answers; the work it starts is a job of the server, which is run
  later, to completion, under a context of its own.  The tickers that sample progress while a stage runs
  are not modelled; the final sample is.  A request is \<open>None\<close> when its body does not decode.
\<close>

section \<open>The server\<close>

text \<open>
  What a deployment fixes: how YAML is read, the working directory, where \<open>openspec\<close> is found, and the
  random bytes a run identifier gets.
\<close>

record site =
  site_yaml :: yaml_parser
  site_cwd :: path
  site_openspec :: "string option"
  site_entropy :: "32 word \<Rightarrow> (8 word \<times> 8 word \<times> 8 word \<times> 8 word) option"

text \<open>What a goroutine started by a handler does: the body of a dispatch or resume, or the corrective loop.\<close>

datatype job =
    Execute (job_run: string) Engine string "string list"
  | Fix (job_run: string) Project string

text \<open>
  \<open>sv_cancels\<close> maps a run to the context its cancel function stops, \<open>sv_stopped\<close> are the contexts that were
  stopped, and \<open>sv_jobs\<close> the goroutines that have not run yet, with their contexts.
\<close>

record server =
  sv_cancels :: "(string \<times> nat) list"
  sv_stopped :: "nat list"
  sv_jobs :: "(nat \<times> job) list"
  sv_next :: nat
  sv_counter :: "32 word"

definition registerRun :: "string \<Rightarrow> server \<Rightarrow> nat \<times> server" where
  "registerRun runID sv = (sv_next sv,
     sv\<lparr>sv_cancels := AList.update runID (sv_next sv) (sv_cancels sv), sv_next := Suc (sv_next sv)\<rparr>)"

definition isRunActive :: "string \<Rightarrow> server \<Rightarrow> bool" where
  "isRunActive runID sv \<longleftrightarrow> map_of (sv_cancels sv) runID \<noteq> None"

definition finishRun :: "string \<Rightarrow> server \<Rightarrow> server" where
  "finishRun runID sv = sv\<lparr>sv_cancels := AList.delete runID (sv_cancels sv)\<rparr>"

definition cancelRun :: "string \<Rightarrow> server \<Rightarrow> bool \<times> server" where
  "cancelRun runID sv = (case map_of (sv_cancels sv) runID of
     Some t \<Rightarrow> (True, sv\<lparr>sv_stopped := t # sv_stopped sv\<rparr>) | None \<Rightarrow> (False, sv))"

text \<open>\<open>context.WithCancel\<close>, \<open>registerRun\<close> and the \<open>go\<close> statement.\<close>

definition start_job :: "job \<Rightarrow> server \<Rightarrow> server" where
  "start_job j sv = (case registerRun (job_run j) sv of (t, sv) \<Rightarrow> sv\<lparr>sv_jobs := sv_jobs sv @ [(t, j)]\<rparr>)"

text \<open>\<open>naming.RunID\<close> with its package counter and the clock.\<close>

definition freshRunID :: "site \<Rightarrow> server \<Rightarrow> (string \<times> server) io" where
  "freshRunID site sv = do {
     let entropy = site_entropy site (sv_counter sv);
     nano \<leftarrow> (if entropy = None then now_io else State_Monad.return 0);
     now \<leftarrow> now_io;
     let (i, c) = RunID (nat (now div 1000000000)) (nat nano) entropy (sv_counter sv);
     State_Monad.return (i, sv\<lparr>sv_counter := c\<rparr>) }"

datatype answer =
    Dispatched string string string ChangeRef
  | Proposed string "string list" "BulletRecord list"
  | PlanState IntentRecord "BulletRecord list"
  | PlanList "(IntentRecord \<times> BulletRecord list) list"
  | RunCancelled string bool string
  | RunDeleted string
  | RunResumed string string "string list"
  | RunFixing string string string

datatype reply = HttpError nat err | Answer answer

section \<open>Status rules\<close>

definition cancelNote :: "bool \<Rightarrow> string" where
  "cancelNote was_running = (if was_running then ''Run cancelled and in-flight agent work signalled to stop.''
     else ''No in-flight run found on this server; status recorded as cancelled only.'')"

definition bulletStatusForRunOutcome :: "string \<Rightarrow> string option" where
  "bulletStatusForRunOutcome runStatus =
     (if runStatus = ''passed'' then Some ''green''
      else if runStatus = ''failed'' then Some ''blocked''
      else if runStatus = ''cancelled'' then Some ''pending''
      else None)"

definition ResumableStatuses :: "string list" where
  "ResumableStatuses = [''failed'', ''cancelled'', ''timed_out'', ''interrupted'']"

definition isResumable :: "string \<Rightarrow> bool" where
  "isResumable status \<longleftrightarrow> list_ex (\<lambda>s. status = s) ResumableStatuses"

text \<open>A run as a client receives it.\<close>

definition runPayloads :: "RunRecord list \<Rightarrow> (RunRecord \<times> bool) list" where
  "runPayloads rs = map (\<lambda>r. (r, isResumable (run_Status r))) rs"

section \<open>What a run's records say\<close>

text \<open>The names in the order of their first occurrence.\<close>

definition first_seen :: "string list \<Rightarrow> string list" where
  "first_seen names = foldl (\<lambda>out r. if r \<noteq> [] \<and> r \<notin> set out then out @ [r] else out) [] names"

definition reposForRun :: "string \<Rightarrow> string list io" where
  "reposForRun runID = do {
     res \<leftarrow> store_io (ListPhasesForRun runID);
     State_Monad.return (case res of Inl _ \<Rightarrow> [] | Inr ps \<Rightarrow> first_seen (map ph_Repo ps)) }"

definition passedPhaseNames :: "string \<Rightarrow> string list io" where
  "passedPhaseNames runID = do {
     res \<leftarrow> store_io (ListPhasesForRun runID);
     State_Monad.return (case res of Inl _ \<Rightarrow> []
       | Inr ps \<Rightarrow> map ph_Name (filter (\<lambda>p. ph_Status p = ''passed'') ps)) }"

definition last_failed :: "string \<Rightarrow> PhaseRecord list \<Rightarrow> PhaseRecord option" where
  "last_failed repoName ps = foldl (\<lambda>found p.
     if ph_Status p \<noteq> ''failed'' \<or> (repoName \<noteq> [] \<and> ph_Repo p \<noteq> repoName) then found else Some p) None ps"

definition lastFailedPhase :: "string \<Rightarrow> string \<Rightarrow> PhaseRecord option io" where
  "lastFailedPhase runID repoName = do {
     res \<leftarrow> store_io (ListPhasesForRun runID);
     State_Monad.return (case res of Inl _ \<Rightarrow> None | Inr ps \<Rightarrow> last_failed repoName ps) }"

text \<open>The reason one more envelope leaves.\<close>

definition envelope_reason :: "string \<Rightarrow> EnvelopeRecord \<Rightarrow> string" where
  "envelope_reason reason e =
     (let findings = ReviewFindings (env_Data e) in
      if env_Stage e = ''review'' \<and> HasBlockingFinding findings
      then join_with ''; '' (map rf_Summary (filter (\<lambda>f. rf_Severity f = ''error'') findings))
      else if BlockedReason (env_Data e) \<noteq> [] then BlockedReason (env_Data e)
      else reason)"

definition blockedReasonForRun :: "string \<Rightarrow> string \<Rightarrow> string io" where
  "blockedReasonForRun runID bulletStatus =
     (if bulletStatus \<noteq> ''blocked'' then State_Monad.return []
      else do {
        res \<leftarrow> store_io (ListEnvelopesForRun runID);
        let reason = foldl envelope_reason [] (case res of Inl _ \<Rightarrow> [] | Inr es \<Rightarrow> es);
        State_Monad.return (if reason = [] then ''gates did not pass; no further automatic attempt available''
          else reason) })"

section \<open>Terminal statuses\<close>

definition recordWikiEntry :: "string \<Rightarrow> string \<Rightarrow> unit io" where
  "recordWikiEntry runID blockedReason = do {
     res \<leftarrow> store_io (GetRun runID);
     case res of Inl _ \<Rightarrow> State_Monad.return ()
     | Inr run \<Rightarrow> do {
         bs \<leftarrow> (if run_IntentID run \<noteq> [] then store_io (ListBulletsForIntent (run_IntentID run))
               else State_Monad.return (Inr []));
         RecordRun \<lparr>we_Run = run, we_Bullets = (case bs of Inl _ \<Rightarrow> [] | Inr bs \<Rightarrow> bs),
           we_BlockedReason = blockedReason\<rparr> } }"

definition recordTerminalRunWithReason :: "string \<Rightarrow> string \<Rightarrow> string \<Rightarrow> (err + unit) io" where
  "recordTerminalRunWithReason runID status reason =
     or_fail (store_io (UpdateRunStatus runID status)) (\<lambda>_. do {
       _ \<leftarrow> (case bulletStatusForRunOutcome status of
         Some bulletStatus \<Rightarrow> store_io (AdvanceBulletsForRun runID bulletStatus reason)
       | None \<Rightarrow> State_Monad.return (Inr ()));
       _ \<leftarrow> recordWikiEntry runID (if bulletStatusForRunOutcome status = None then [] else reason);
       State_Monad.return (Inr ()) })"

definition recordTerminalRun :: "string \<Rightarrow> string \<Rightarrow> (err + unit) io" where
  "recordTerminalRun runID status = do {
     reason \<leftarrow> (case bulletStatusForRunOutcome status of
       Some bulletStatus \<Rightarrow> blockedReasonForRun runID bulletStatus
     | None \<Rightarrow> State_Monad.return []);
     recordTerminalRunWithReason runID status reason }"

section \<open>Progress\<close>

definition progress_item :: "PlanItem \<Rightarrow> json" where
  "progress_item i = JObj [(''id'', JStr (pi_ID i)), (''status'', JStr (pi_Status i)),
     (''scenario'', JStr (Text (pi_Scenario i)))]"

definition progress_payload :: "string \<Rightarrow> string \<Rightarrow> Plan \<Rightarrow> json" where
  "progress_payload runID repo p = JObj [(''run_id'', JStr runID), (''repo'', JStr repo),
     (''complete'', JNum (Complete p)), (''total'', JNum (Total p)), (''items'', JArr (map progress_item p))]"

fun progress_entries :: "string \<Rightarrow> path \<Rightarrow> (string \<times> node) list \<Rightarrow> unit io" where
  "progress_entries runID runDir [] = State_Monad.return ()"
| "progress_entries runID runDir ((name, n) # es) =
     (if n \<noteq> Dir \<or> name = ''handoff'' then progress_entries runID runDir es
      else do {
        p \<leftarrow> ReadPlan (Join runDir name);
        _ \<leftarrow> (case p of None \<Rightarrow> State_Monad.return (Inr 0)
          | Some p \<Rightarrow> store_io (AppendChange ChannelProgress runID (progress_payload runID name p)));
        progress_entries runID runDir es })"

definition appendRunProgress :: "string \<Rightarrow> unit io" where
  "appendRunProgress runID = do {
     h \<leftarrow> get_host;
     entries \<leftarrow> ReadDir (Join (FleetRoot h) runID);
     case entries of Inl _ \<Rightarrow> State_Monad.return ()
     | Inr es \<Rightarrow> progress_entries runID (Join (FleetRoot h) runID) es }"

section \<open>Executing a run\<close>

text \<open>\<open>firstLine\<close> of \<open>dispatch.go\<close>: a brief cut down to the subject of a commit.\<close>

definition commit_subject :: "string \<Rightarrow> string" where
  "commit_subject s =
     (let l = takeWhile (\<lambda>c. c \<noteq> CHR 0x0D \<and> c \<noteq> CHR 0x0A) (TrimSpace s) in
      if length l > 72 then TrimSpace (take 72 l) else l)"

definition commitAll :: "string \<Rightarrow> string \<Rightarrow> DAGStage list \<Rightarrow> unit io" where
  "commitAll taskID brief stages =
     (let msg = (if commit_subject brief = [] then ''sgt: automated changes'' else commit_subject brief) in
      do {
        _ \<leftarrow> each_io (\<lambda>repoName. do {
               _ \<leftarrow> CommitRunOutput False taskID repoName msg;
               State_Monad.return (Inr ()) }) (concat (map stg_Repos stages));
        State_Monad.return () })"

text \<open>A cancellation is never overwritten by another outcome of the same context.\<close>

definition setTerminal :: "string \<Rightarrow> string \<Rightarrow> unit io" where
  "setTerminal taskID status = do {
     h \<leftarrow> get_host;
     _ \<leftarrow> recordTerminalRun taskID (if stopped h then ''cancelled'' else status);
     State_Monad.return () }"

datatype verdict = Halted | StageFailed | Completed

text \<open>The loop over the stages.  The engine is only asked to run a stage.\<close>

fun run_stages :: "(DAGStage \<Rightarrow> (err + unit) io) \<Rightarrow> DAGStage list \<Rightarrow> verdict io" where
  "run_stages engine [] = State_Monad.return Completed"
| "run_stages engine (s # ss) = do {
     h \<leftarrow> get_host;
     if stopped h then State_Monad.return Halted
     else do {
       r \<leftarrow> engine s;
       case r of Inl _ \<Rightarrow> State_Monad.return StageFailed | Inr _ \<Rightarrow> run_stages engine ss } }"

definition delivery_envelope :: "string \<Rightarrow> DeliveryReport \<Rightarrow> time \<Rightarrow> string option \<Rightarrow> EnvelopeRecord" where
  "delivery_envelope taskID d now causation =
     \<lparr>env_ID = ''delivery-'' @ taskID @ ''-'' @ show_int now, env_RunID = taskID, env_Repo = dl_Repo d,
      env_Stage = ''review'', env_Summary = dl_Summary d, env_Artifacts = dl_Artifacts d,
      env_Data = RawDoc (report_json d), env_CreatedAt = 0, env_Type = ''run.delivered'', env_SchemaVersion = ''1'',
      env_OccurredAt = now, env_PublishedAt = 0, env_Producer = ''sgt/ui'', env_CorrelationID = taskID,
      env_CausationID = causation, env_PhaseID = []\<rparr>"

definition record_delivery :: "Project \<Rightarrow> string \<Rightarrow> unit io" where
  "record_delivery proj taskID = do {
     d \<leftarrow> describeDelivery proj taskID;
     now \<leftarrow> now_io;
     c \<leftarrow> store_io (CausationFromLatest taskID (dl_Repo d));
     _ \<leftarrow> store_io (RecordEnvelope (delivery_envelope taskID d now (case c of Inr c \<Rightarrow> c | Inl _ \<Rightarrow> None)));
     State_Monad.return () }"

definition executeRun :: "(DAGStage \<Rightarrow> (err + unit) io) \<Rightarrow> Project \<Rightarrow> string \<Rightarrow> string \<Rightarrow> string list \<Rightarrow> unit io" where
  "executeRun engine proj taskID brief repos = do {
     let stages = resolveStages proj repos brief;
     v \<leftarrow> run_stages engine stages;
     case v of
       Halted \<Rightarrow> setTerminal taskID ''cancelled''
     | StageFailed \<Rightarrow> do {
         _ \<leftarrow> commitAll taskID brief stages;
         setTerminal taskID ''failed'' }
     | Completed \<Rightarrow> do {
         h \<leftarrow> get_host;
         if stopped h then setTerminal taskID ''cancelled''
         else do {
           _ \<leftarrow> appendRunProgress taskID;
           _ \<leftarrow> commitAll taskID brief stages;
           _ \<leftarrow> record_delivery proj taskID;
           setTerminal taskID ''passed'' } } }"

section \<open>Correcting a failed gate in place\<close>

definition phaseOutputText :: "PhaseRecord \<Rightarrow> string" where
  "phaseOutputText p =
     (if ph_Payload p = RawEmpty then []
      else case as_map (ph_Payload p) of None \<Rightarrow> []
      | Some ms \<Rightarrow> (case member_string ''output'' ms of
          Some (c # cs) \<Rightarrow> c # cs
        | _ \<Rightarrow> (case member_string ''raw_output'' ms of Some out \<Rightarrow> out | None \<Rightarrow> [])))"

definition fixPrompt :: "PhaseRecord \<Rightarrow> string" where
  "fixPrompt failure =
     (let kind = (if ph_Kind failure = ''code'' then ''gate'' else ''phase'');
          output = (if phaseOutputText failure = [] then ''(no output was recorded for this failure)''
                    else phaseOutputText failure) in
      ''The '' @ kind @ '' '' @ quote (ph_Name failure) @ '' failed for repo '' @ ph_Repo failure @
      ''. Fix the underlying cause in this worktree so that '' @ ph_Name failure @
      '' passes when it is run again. Do not weaken or remove the '' @ kind @
      '' itself; make the real change it demands.'' @ nl @ nl @ ''Recorded output from the failing '' @ kind @ '':'' @ nl @
      output)"

definition handoff_dir :: "host \<Rightarrow> string \<Rightarrow> path" where
  "handoff_dir h runID = Join (Join (FleetRoot h) runID) ''handoff''"

definition NewEngine :: "Project \<Rightarrow> path \<Rightarrow> Engine" where
  "NewEngine proj router = \<lparr>en_Project = proj, en_Router = router, en_Resume = False, en_ChangeDir = [],
     en_ChangeRepo = []\<rparr>"

definition fix_runner :: "Project \<Rightarrow> path \<Rightarrow> path \<Rightarrow> string \<Rightarrow> string \<Rightarrow> nat \<Rightarrow> PhaseRunner" where
  "fix_runner proj router worktree repoName runID cycle =
     \<lparr>pr_Router = router, pr_Worktree = worktree, pr_RepoName = repoName, pr_RunID = runID,
      pr_AgentCLI = def_Agent (pj_Defaults proj), pr_Model = def_Model (pj_Defaults proj), pr_FixCycle = int cycle,
      pr_AgentTimeout = 0, pr_GateTimeout = 0\<rparr>"

definition fix_exhausted :: "string \<Rightarrow> int \<Rightarrow> unit io" where
  "fix_exhausted runID limit = do {
     _ \<leftarrow> recordTerminalRunWithReason runID ''failed'' (''corrective fix budget exhausted ('' @ show_int limit @ ''/'' @
       show_int limit @ '' attempts); gate still failing'');
     State_Monad.return () }"

text \<open>What follows the agent of one cycle: the repository's stage again, and a commit whatever came of it.\<close>

definition retest :: "Project \<Rightarrow> path \<Rightarrow> RunRecord \<Rightarrow> string \<Rightarrow> nat \<Rightarrow> bool io" where
  "retest proj router run repoName cycle = do {
     repos \<leftarrow> reposForRun (run_ID run);
     case stageForRepo (resolveStages proj repos (run_Brief run)) repoName of
       None \<Rightarrow> State_Monad.return False
     | Some stage \<Rightarrow> do {
         r \<leftarrow> RunStage ((NewEngine proj router)\<lparr>en_Resume := True\<rparr>) (run_ID run) stage;
         _ \<leftarrow> CommitRunOutput False (run_ID run) repoName (''sgt: corrective fix cycle '' @ show_nat cycle);
         State_Monad.return (case r of Inl _ \<Rightarrow> False | Inr _ \<Rightarrow> True) } }"

text \<open>
  The cycles from \<open>cycle\<close> to the limit; the first argument is how many are left.  The run's identifier is
  that of its row.
\<close>

fun fix_cycles :: "nat \<Rightarrow> nat \<Rightarrow> Project \<Rightarrow> path \<Rightarrow> path \<Rightarrow> RunRecord \<Rightarrow> string \<Rightarrow> unit io" where
  "fix_cycles 0 cycle proj router worktree run repoName =
     fix_exhausted (run_ID run) (ResolvedFixRetries proj repoName)"
| "fix_cycles (Suc left) cycle proj router worktree run repoName = do {
     h \<leftarrow> get_host;
     if stopped h then setTerminal (run_ID run) ''cancelled''
     else do {
       failure \<leftarrow> lastFailedPhase (run_ID run) repoName;
       case failure of
         None \<Rightarrow> fix_exhausted (run_ID run) (ResolvedFixRetries proj repoName)
       | Some failure \<Rightarrow> do {
           (env, reason, x) \<leftarrow> RunAgentPhase (fix_runner proj router worktree repoName (run_ID run) cycle) ''fix''
             (fixPrompt failure) (ResolvedRetries proj repoName);
           case x of
             Some _ \<Rightarrow> fix_cycles left (Suc cycle) proj router worktree run repoName
           | None \<Rightarrow> do {
               ok \<leftarrow> retest proj router run repoName cycle;
               if ok then setTerminal (run_ID run) ''passed''
               else fix_cycles left (Suc cycle) proj router worktree run repoName } } } }"

definition runFixCycles :: "Project \<Rightarrow> string \<Rightarrow> string \<Rightarrow> unit io" where
  "runFixCycles proj runID repoName = do {
     res \<leftarrow> store_io (GetRun runID);
     h \<leftarrow> get_host;
     case res of Inl _ \<Rightarrow> State_Monad.return ()
     | Inr run \<Rightarrow> fix_cycles (nat (ResolvedFixRetries proj repoName)) 1 proj (handoff_dir h runID)
         (FleetDir h runID repoName) run repoName }"

text \<open>A goroutine: its context is fresh unless it was stopped before it ran; at the end the registry forgets the run.\<close>

definition with_context :: "bool \<Rightarrow> unit io" where
  "with_context b = State (\<lambda>h. ((), h\<lparr>stopped := b\<rparr>))"

definition run_body :: "job \<Rightarrow> unit io" where
  "run_body j = (case j of
     Execute runID engine brief repos \<Rightarrow> executeRun (RunStage engine runID) (en_Project engine) runID brief repos
   | Fix runID proj repoName \<Rightarrow> runFixCycles proj runID repoName)"

definition run_job :: "nat \<times> job \<Rightarrow> server \<Rightarrow> server io" where
  "run_job tj sv = do {
     _ \<leftarrow> with_context (fst tj \<in> set (sv_stopped sv));
     _ \<leftarrow> run_body (snd tj);
     State_Monad.return (finishRun (job_run (snd tj)) (sv\<lparr>sv_jobs := removeAll tj (sv_jobs sv)\<rparr>)) }"

section \<open>Dispatch\<close>

record DispatchRequest =
  dr_Project :: string
  dr_Brief :: string
  dr_Repos :: "string list"
  dr_Agent :: string
  dr_Type :: string
  dr_ChangeID :: string
  dr_RequestID :: string

text \<open>\<open>if err != nil { http.Error(w, ..., code); return }\<close>, with the error as it is or inside a message.\<close>

definition or_reply :: "nat \<Rightarrow> server \<Rightarrow> (err + 'a) io \<Rightarrow> ('a \<Rightarrow> (reply \<times> server) io) \<Rightarrow> (reply \<times> server) io" where
  "or_reply code sv m k = do {
     r \<leftarrow> m;
     case r of Inl e \<Rightarrow> State_Monad.return (HttpError code e, sv) | Inr x \<Rightarrow> k x }"

definition saying :: "string \<Rightarrow> string list \<Rightarrow> (err + 'a) io \<Rightarrow> (err + 'a) io" where
  "saying f args m = or_wrap f args m (\<lambda>x. State_Monad.return (Inr x))"

definition new_bullet :: "string \<Rightarrow> string \<Rightarrow> string \<Rightarrow> nat \<Rightarrow> string \<Rightarrow> BulletRecord" where
  "new_bullet pre intentID status i repo =
     \<lparr>bu_ID = pre @ ''-b'' @ show_nat (i + 1), bu_IntentID = intentID, bu_Repo = repo, bu_Position = int (i + 1),
      bu_Status = status, bu_Branch = [], bu_Worktree = [], bu_CommitSHA = [], bu_PRURL = [], bu_BlockedReason = [],
      bu_CreatedAt = 0, bu_UpdatedAt = 0\<rparr>"

text \<open>One bullet per repository, positioned from \<open>i + 1\<close>; the message of a failure names its number.\<close>

fun create_bullets :: "string \<Rightarrow> (nat \<Rightarrow> string \<Rightarrow> BulletRecord) \<Rightarrow> nat \<Rightarrow> string list \<Rightarrow> (err + BulletRecord list) io" where
  "create_bullets f mk i [] = State_Monad.return (Inr [])"
| "create_bullets f mk i (repo # repos) =
     or_fail (saying f [show_nat (i + 1)] (store_io (CreateBullet (mk i repo)))) (\<lambda>b.
     or_fail (create_bullets f mk (Suc i) repos) (\<lambda>bs. State_Monad.return (Inr (b # bs))))"

definition new_intent :: "string \<Rightarrow> string \<Rightarrow> string \<Rightarrow> string \<Rightarrow> IntentRecord" where
  "new_intent i project statement status =
     \<lparr>in_ID = i, in_Project = project, in_Statement = statement, in_Status = status, in_ChangeID = [],
      in_ChangeRepo = [], in_Type = [], in_ShippingGateStatus = [], in_ShippingGateReason = [], in_CreatedAt = 0,
      in_UpdatedAt = 0\<rparr>"

text \<open>A decomposition the caller did not state is recorded as a plan and starts nothing.\<close>

definition propose :: "site \<Rightarrow> server \<Rightarrow> Project \<Rightarrow> string \<Rightarrow> string list \<Rightarrow> ChangeRef \<Rightarrow> string \<Rightarrow> string \<Rightarrow> (reply \<times> server) io" where
  "propose site sv proj brief targetRepos change changeRepoName workType = do {
     (i, sv) \<leftarrow> freshRunID site sv;
     let intentID = i @ ''-intent'';
     or_reply 500 sv (saying ''recording the proposed plan: %v'' [] (store_io (CreateIntent
       ((new_intent intentID (pj_Name proj) brief ''proposed'')\<lparr>in_ChangeID := chg_ID change,
         in_ChangeRepo := changeRepoName, in_Type := workType\<rparr>)))) (\<lambda>_.
     or_reply 500 sv (create_bullets ''recording proposed bullet %d: %v'' (new_bullet intentID intentID ''proposed'') 0 targetRepos)
       (\<lambda>bs. State_Monad.return (Answer (Proposed intentID targetRepos bs), sv))) }"

definition respondWithExistingRun :: "site \<Rightarrow> server \<Rightarrow> string \<Rightarrow> string \<Rightarrow> string \<Rightarrow> ChangeRef \<Rightarrow> (reply \<times> server) io" where
  "respondWithExistingRun site sv requestID changeRepoPath changeRepoName resolved =
     or_reply 500 sv (saying ''request id %q is already in use but its run could not be read back: %v'' [requestID]
       (store_io (GetRunByRequestID requestID))) (\<lambda>existing.
     or_reply 500 sv (if run_ChangeID existing \<noteq> chg_ID resolved
         then saying ''run %s is accountable to change %q, which could not be resolved: %v''
           [run_ID existing, run_ChangeID existing]
           (resolveChange (site_openspec site) (site_cwd site) changeRepoPath (run_ChangeID existing) [])
         else State_Monad.return (Inr resolved)) (\<lambda>change.
     State_Monad.return (Answer (Dispatched (run_ID existing) (run_Project existing) changeRepoName
       (change\<lparr>chg_Created := False\<rparr>)), sv)))"

definition new_run :: "string \<Rightarrow> string \<Rightarrow> string \<Rightarrow> string \<Rightarrow> string \<Rightarrow> string \<Rightarrow> string \<Rightarrow> RunRecord" where
  "new_run taskID project brief changeID workType intentID requestID =
     \<lparr>run_ID = taskID, run_Project = project, run_TaskID = taskID, run_Brief = brief, run_ChangeID = changeID,
      run_Type = workType, run_IntentID = intentID, run_Slug = [], run_RequestID = requestID, run_Status = ''running'',
      run_BaseBranch = [], run_CreatedAt = 0, run_UpdatedAt = 0\<rparr>"

text \<open>The intent and the bullets of a dispatch that has none yet.\<close>

definition record_work :: "string \<Rightarrow> string \<Rightarrow> Project \<Rightarrow> string \<Rightarrow> string list \<Rightarrow> (err + unit) io" where
  "record_work taskID intentID proj brief targetRepos =
     or_fail (saying ''recording the intent for this dispatch: %v'' []
       (store_io (CreateIntent (new_intent intentID (pj_Name proj) brief ''in_progress'')))) (\<lambda>_.
     or_fail (create_bullets ''recording bullet %d of this dispatch: %v'' (new_bullet taskID intentID ''pending'') 0 targetRepos)
       (\<lambda>_. State_Monad.return (Inr ())))"

definition createRunAndDispatch :: "site \<Rightarrow> server \<Rightarrow> Project \<Rightarrow> string \<Rightarrow> string list \<Rightarrow> ChangeRef \<Rightarrow> string \<Rightarrow>
    string \<Rightarrow> string \<Rightarrow> string \<Rightarrow> string \<Rightarrow> (reply \<times> server) io" where
  "createRunAndDispatch site sv proj brief targetRepos change requestID changeRepoName changeRepoPath
     existingIntentID workType = do {
     (taskID, sv) \<leftarrow> freshRunID site sv;
     let intentID = (if existingIntentID = [] then taskID @ ''-intent'' else existingIntentID);
     res \<leftarrow> store_io (CreateRun (new_run taskID (pj_Name proj) brief (chg_ID change) workType intentID requestID));
     case res of
       Inl e \<Rightarrow> if \<not> errors_Is e ErrDuplicateRequestID
         then State_Monad.return (HttpError 500 (Errorf ''recording the run for this dispatch: %v'' [] (Some e)), sv)
         else respondWithExistingRun site sv requestID changeRepoPath changeRepoName change
     | Inr _ \<Rightarrow>
         or_reply 500 sv (if existingIntentID = [] then record_work taskID intentID proj brief targetRepos
             else State_Monad.return (Inr ())) (\<lambda>_. do {
           h \<leftarrow> get_host;
           let engine = (NewEngine proj (handoff_dir h taskID))\<lparr>en_ChangeDir := path_text (chg_Dir change),
             en_ChangeRepo := changeRepoName\<rparr>;
           State_Monad.return (Answer (Dispatched taskID (pj_Name proj) changeRepoName change),
             start_job (Execute taskID engine brief targetRepos) sv) }) }"

definition bad_request :: "string \<Rightarrow> server \<Rightarrow> (reply \<times> server) io" where
  "bad_request m sv = State_Monad.return (HttpError 400 (Other m), sv)"

definition refuse :: "err option \<Rightarrow> (err + unit) io" where
  "refuse oe = State_Monad.return (case oe of Some e \<Rightarrow> Inl e | None \<Rightarrow> Inr ())"

definition handleDispatch :: "site \<Rightarrow> DispatchRequest option \<Rightarrow> server \<Rightarrow> (reply \<times> server) io" where
  "handleDispatch site req sv = (case req of
     None \<Rightarrow> bad_request ''invalid request body'' sv
   | Some req \<Rightarrow>
       if dr_Project req = [] then bad_request ''invalid request body'' sv
       else if TrimSpace (dr_Brief req) = [] then bad_request ''Intent brief cannot be empty'' sv
       else or_reply 400 sv (refuse (validateWorkType (dr_Type req))) (\<lambda>_.
            or_reply 400 sv (saying ''loading project: %v'' [] (LoadProject (site_yaml site) (site_cwd site) (dr_Project req)))
              (\<lambda>proj.
            or_reply 400 sv (refuse (ValidateAgent (dr_Agent req))) (\<lambda>_.
            let proj = (if dr_Agent req \<noteq> [] then proj\<lparr>pj_Defaults := (pj_Defaults proj)\<lparr>def_Agent := dr_Agent req\<rparr>\<rparr>
                        else proj) in
            or_reply 400 sv (State_Monad.return (changeRepo proj (dr_Repos req))) (\<lambda>(changeRepoName, changeRepoPath).
            or_reply 400 sv (resolveChange (site_openspec site) (site_cwd site) changeRepoPath (dr_ChangeID req) (dr_Brief req))
              (\<lambda>change.
            let targetRepos = targetRepositories proj (dr_Repos req);
                brief = TrimSpace (dr_Brief req) in
            if dr_Repos req = [] then propose site sv proj brief targetRepos change changeRepoName (dr_Type req)
            else createRunAndDispatch site sv proj brief targetRepos change (TrimSpace (dr_RequestID req)) changeRepoName
              changeRepoPath [] (dr_Type req)))))))"

section \<open>Plans awaiting approval\<close>

definition writePlanState :: "string \<Rightarrow> server \<Rightarrow> (reply \<times> server) io" where
  "writePlanState intentID sv =
     or_reply 500 sv (store_io (GetIntent intentID)) (\<lambda>intent.
     or_reply 500 sv (store_io (ListBulletsForIntent intentID)) (\<lambda>bs.
     State_Monad.return (Answer (PlanState intent bs), sv)))"

fun plan_entries :: "IntentRecord list \<Rightarrow> (err + (IntentRecord \<times> BulletRecord list) list) io" where
  "plan_entries [] = State_Monad.return (Inr [])"
| "plan_entries (i # is) =
     or_fail (store_io (ListBulletsForIntent (in_ID i))) (\<lambda>bs.
     or_fail (plan_entries is) (\<lambda>es. State_Monad.return (Inr ((i, bs) # es))))"

definition handlePlans :: "server \<Rightarrow> (reply \<times> server) io" where
  "handlePlans sv =
     or_reply 500 sv (store_io (ListIntentsByStatus ''proposed'')) (\<lambda>is.
     or_reply 500 sv (plan_entries is) (\<lambda>es. State_Monad.return (Answer (PlanList es), sv)))"

definition approve_bullet :: "BulletRecord \<Rightarrow> (err + unit) io" where
  "approve_bullet b = saying ''approving bullet %q: %v'' [bu_ID b] (store_io (UpdateBulletStatus (bu_ID b) ''pending''))"

definition not_configured :: string where
  "not_configured = ''plan %q'' @ [CHR 0x27] @ ''s change repository %q is no longer configured in project %q''"

definition handleApprovePlan :: "site \<Rightarrow> string \<Rightarrow> server \<Rightarrow> (reply \<times> server) io" where
  "handleApprovePlan site intentID sv =
     or_reply 404 sv (saying ''plan %q not found: %v'' [intentID] (store_io (GetIntent intentID))) (\<lambda>intent.
     if in_Status intent = ''abandoned'' then State_Monad.return
       (HttpError 409 (Errorf ''plan %q was rejected and cannot be approved'' [intentID] None), sv)
     else if in_Status intent \<noteq> ''proposed'' then writePlanState intentID sv
     else or_reply 500 sv (store_io (ListBulletsForIntent intentID)) (\<lambda>bs.
          or_reply 500 sv (saying ''loading project %q: %v'' [in_Project intent]
            (LoadProject (site_yaml site) (site_cwd site) (in_Project intent))) (\<lambda>proj.
          case map_of (pj_Repos proj) (in_ChangeRepo intent) of
            None \<Rightarrow> State_Monad.return (HttpError 500 (Errorf
              not_configured
              [intentID, in_ChangeRepo intent, pj_Name proj] None), sv)
          | Some rc \<Rightarrow>
              if TrimSpace (repo_Path rc) = [] then State_Monad.return (HttpError 500 (Errorf
                not_configured
                [intentID, in_ChangeRepo intent, pj_Name proj] None), sv)
              else or_reply 500 sv (resolveChange (site_openspec site) (site_cwd site) (repo_Path rc) (in_ChangeID intent)
                     (in_Statement intent)) (\<lambda>change.
                   or_reply 500 sv (saying ''approving plan %q: %v'' [intentID]
                     (store_io (UpdateIntentStatus intentID ''in_progress''))) (\<lambda>_.
                   or_reply 500 sv (each_io approve_bullet bs) (\<lambda>_.
                   createRunAndDispatch site sv proj (in_Statement intent) (map bu_Repo bs) change [] (in_ChangeRepo intent)
                     (repo_Path rc) intentID (in_Type intent)))))))"

definition handleRejectPlan :: "string \<Rightarrow> server \<Rightarrow> (reply \<times> server) io" where
  "handleRejectPlan intentID sv =
     or_reply 404 sv (saying ''plan %q not found: %v'' [intentID] (store_io (GetIntent intentID))) (\<lambda>intent.
     if in_Status intent = ''abandoned'' then writePlanState intentID sv
     else if in_Status intent = ''proposed'' then
       or_reply 500 sv (saying ''rejecting plan %q: %v'' [intentID] (store_io (UpdateIntentStatus intentID ''abandoned'')))
         (\<lambda>_. writePlanState intentID sv)
     else State_Monad.return (HttpError 409 (Errorf (''plan %q is %q, not proposed '' @ em_dash @ '' refusing to reject'')
       [intentID, in_Status intent] None), sv))"

section \<open>Cancelling, deleting, resuming and correcting\<close>

definition handleRunCancel :: "string option \<Rightarrow> server \<Rightarrow> (reply \<times> server) io" where
  "handleRunCancel req sv =
     (if req = None \<or> req = Some [] then bad_request ''invalid request body'' sv
      else let (was_running, sv) = cancelRun (the req) sv in
        or_reply 500 sv (recordTerminalRun (the req) ''cancelled'') (\<lambda>_.
        State_Monad.return (Answer (RunCancelled (the req) was_running (cancelNote was_running)), sv)))"

definition handleRunDelete :: "string option \<Rightarrow> server \<Rightarrow> (reply \<times> server) io" where
  "handleRunDelete req sv =
     (if req = None \<or> req = Some [] then bad_request ''invalid request body'' sv
      else or_reply 500 sv (store_io (DeleteRun (the req))) (\<lambda>_.
        State_Monad.return (Answer (RunDeleted (the req)), sv)))"

text \<open>
  The checks before a run is taken up again, up to loading its project.  \<open>f\<close> is the format of the refusal,
  which differs between the two handlers.
\<close>

definition admit :: "site \<Rightarrow> string \<Rightarrow> string option \<Rightarrow> server \<Rightarrow> (RunRecord \<Rightarrow> Project \<Rightarrow> (reply \<times> server) io) \<Rightarrow>
    (reply \<times> server) io" where
  "admit site f req sv k =
     (if req = None \<or> TrimSpace (the req) = [] then bad_request ''invalid request body: an id is required'' sv
      else do {
        res \<leftarrow> store_io (GetRun (TrimSpace (the req)));
        case res of
          Inl _ \<Rightarrow> State_Monad.return (HttpError 404 (Errorf ''no run %q'' [the req] None), sv)
        | Inr run \<Rightarrow>
            if \<not> isResumable (run_Status run) then State_Monad.return (HttpError 409
              (Errorf f [run_ID run, run_Status run, join_with '', '' ResumableStatuses] None), sv)
            else if isRunActive (run_ID run) sv then State_Monad.return (HttpError 409
              (Errorf ''run %s is already executing'' [run_ID run] None), sv)
            else or_reply 400 sv (saying ''loading project %s: %v'' [run_Project run]
                   (LoadProject (site_yaml site) (site_cwd site) (run_Project run))) (k run) })"

definition clear_blocked :: "string list \<Rightarrow> BulletRecord \<Rightarrow> (err + unit) io" where
  "clear_blocked repos b =
     (if bu_Status b = ''blocked'' \<and> bu_Repo b \<in> set repos then do {
        _ \<leftarrow> store_io (AdvanceBulletStatus (bu_ID b) ''pending'' []);
        State_Monad.return (Inr ()) }
      else State_Monad.return (Inr ()))"

definition clear_stale :: "RunRecord \<Rightarrow> string list \<Rightarrow> unit io" where
  "clear_stale run repos =
     (if run_IntentID run = [] then State_Monad.return ()
      else do {
        bs \<leftarrow> store_io (ListBulletsForIntent (run_IntentID run));
        _ \<leftarrow> each_io (clear_blocked repos) (case bs of Inl _ \<Rightarrow> [] | Inr bs \<Rightarrow> bs);
        State_Monad.return () })"

definition resume_engine :: "host \<Rightarrow> Project \<Rightarrow> string \<Rightarrow> Engine" where
  "resume_engine h proj runID = (NewEngine proj (handoff_dir h runID))\<lparr>en_Resume := True\<rparr>"

definition resume_run :: "server \<Rightarrow> RunRecord \<Rightarrow> Project \<Rightarrow> (reply \<times> server) io" where
  "resume_run sv run proj = do {
     repos \<leftarrow> reposForRun (run_ID run);
     _ \<leftarrow> clear_stale run repos;
     h \<leftarrow> get_host;
     _ \<leftarrow> store_io (UpdateRunStatus (run_ID run) ''running'');
     skipped \<leftarrow> passedPhaseNames (run_ID run);
     State_Monad.return (Answer (RunResumed (run_ID run) (pj_Name proj) skipped),
       start_job (Execute (run_ID run) (resume_engine h proj (run_ID run)) (run_Brief run) repos) sv) }"

definition handleRunResume :: "site \<Rightarrow> string option \<Rightarrow> server \<Rightarrow> (reply \<times> server) io" where
  "handleRunResume site req sv =
     admit site ''run %s is %s and cannot be resumed; resumable statuses are %s'' req sv (resume_run sv)"

definition fix_run :: "server \<Rightarrow> RunRecord \<Rightarrow> Project \<Rightarrow> (reply \<times> server) io" where
  "fix_run sv run proj = do {
     failure \<leftarrow> lastFailedPhase (run_ID run) [];
     case failure of
       None \<Rightarrow> State_Monad.return (HttpError 409 (Errorf ''run %s has no failed phase to correct'' [run_ID run] None), sv)
     | Some failure \<Rightarrow> do {
         h \<leftarrow> get_host;
         there \<leftarrow> isDir (FleetDir h (run_ID run) (ph_Repo failure));
         if \<not> there then State_Monad.return (HttpError 409 (Errorf
           (''run %s'' @ [CHR 0x27] @ ''s worktree for repo %s no longer exists at %s; a fix in place requires the original '' @
            ''worktree '' @ em_dash @ '' dispatch a fresh run instead'')
           [run_ID run, ph_Repo failure, path_text (FleetDir h (run_ID run) (ph_Repo failure))] None), sv)
         else do {
           _ \<leftarrow> store_io (UpdateRunStatus (run_ID run) ''running'');
           State_Monad.return (Answer (RunFixing (run_ID run) (pj_Name proj) (ph_Repo failure)),
             start_job (Fix (run_ID run) proj (ph_Repo failure)) sv) } } }"

definition handleRunFix :: "site \<Rightarrow> string option \<Rightarrow> server \<Rightarrow> (reply \<times> server) io" where
  "handleRunFix site req sv =
     admit site ''run %s is %s and cannot be fixed in place; resumable statuses are %s'' (map_option TrimSpace req) sv (fix_run sv)"

end
