(* ===== verification/Service.thy ===== *)
theory Service
  imports Lifecycle
begin

text \<open>
  What the server does to the host, over all its handlers and jobs: the interface of a relation on hosts
  that every operation respects, its interpretations, and the abstract machine of a run's life the server
  implements.
\<close>

section \<open>What a job and a handler do to the host\<close>

text \<open>
  The store methods of a job beside those of the engine.  \<open>ends\<close> are the statuses a job may conclude its
  run with.  The commands the relation has to allow are any.
\<close>

locale job_relation = engine_relation R "\<lambda>_. True" "\<lambda>_. True" for R +
  fixes ends :: "string \<Rightarrow> bool"
  assumes list_envelopes: "state_io_rel R (store_io (ListEnvelopesForRun i))"
    and list_bullets: "state_io_rel R (store_io (ListBulletsForIntent i))"
    and advance: "s \<in> {''green'', ''blocked'', ''pending''} \<Longrightarrow> state_io_rel R (store_io (AdvanceBulletsForRun i s m))"
    and append: "state_io_rel R (store_io (AppendChange c i p))"
    and conclude: "ends s \<Longrightarrow> state_io_rel R (store_io (UpdateRunStatus i s))"
begin

lemmas keeps_job = keeps_engine list_envelopes list_bullets append

lemma keeps_stage: "keeps (RunStage e i stage)"
proof -
  have st: "stage_relation R (\<lambda>_. True) (\<lambda>_. True) (\<lambda>_. True) i"
    by unfold_locales (auto intro: prepare_any)
  show ?thesis by (rule stage_relation.keeps_RunStage [OF st])
qed

lemma keeps_agent_phase: "keeps (RunAgentPhase pr n prompt retries)"
  by (intro keeps_agent) simp_all

lemma keeps_wiki: "keeps (RecordRun e)"
  unfolding RecordRun_def writeConceptPage_def updateDateIndex_def updateDateLog_def updateRootIndex_def
    appendUniqueLine_def Let_def
  by (intro keeps_job keeps_files)

lemma keeps_outcome:
  "keeps (case bulletStatusForRunOutcome s of Some b \<Rightarrow> store_io (AdvanceBulletsForRun i b m) | None \<Rightarrow> State_Monad.return (Inr ()))"
  by (auto simp: bulletStatusForRunOutcome_def intro: advance keeps_job)

lemma keeps_terminal_reason:
  "ends s \<Longrightarrow> keeps (recordTerminalRunWithReason i s m)"
  unfolding recordTerminalRunWithReason_def recordWikiEntry_def
  by (intro keeps_outcome keeps_job keeps_wiki conclude)

lemma keeps_terminal: "ends s \<Longrightarrow> keeps (recordTerminalRun i s)"
  unfolding recordTerminalRun_def blockedReasonForRun_def Let_def
  by (intro keeps_job keeps_terminal_reason)

lemma keeps_setTerminal: "ends s \<Longrightarrow> ends ''cancelled'' \<Longrightarrow> keeps (setTerminal i s)"
  unfolding setTerminal_def by (intro keeps_job keeps_terminal) simp

lemma keeps_commit: "keeps (CommitRunOutput c i rp m)"
proof -
  have "keeps (run_command x q)" for x q by (rule command) simp
  then show ?thesis
    unfolding CommitRunOutput_def Let_def by (intro keeps_job keeps_files keeps_gitOutput)
qed

lemma keeps_commitAll: "keeps (commitAll i brief stages)"
  unfolding commitAll_def Let_def by (intro keeps_job keeps_commit)

lemma keeps_progress: "keeps (appendRunProgress i)"
proof -
  have "keeps (progress_entries i d es)" for d es
    by (induction es rule: progress_entries.induct) (auto simp: ReadPlan_def intro!: keeps_job keeps_files)
  then show ?thesis
    unfolding appendRunProgress_def by (intro keeps_job keeps_files)
qed

lemma keeps_report: "keeps (describeDelivery proj i)"
proof -
  have known: "keeps (first_known d cs)" for d cs
    by (induction cs) (auto simp: gitOut_def intro!: keeps_job keeps_gitOutput)
  have found: "keeps (first_worktree i rs)" for rs
    by (induction rs rule: first_worktree.induct) (auto intro!: keeps_job keeps_files)
  show ?thesis
    unfolding describeDelivery_def report_worktree_def defaultBase_def resolveGitRemoteURL_def rawOriginRemote_def
      gitOut_def Let_def
    by (intro keeps_job keeps_gitOutput known found)
qed

lemma keeps_record_delivery: "keeps (record_delivery proj i)"
  unfolding record_delivery_def by (intro keeps_job keeps_report)

lemma keeps_run_stages: "(\<And>s. keeps (engine s)) \<Longrightarrow> keeps (run_stages engine stages)"
  by (induction stages) (auto intro!: keeps_job)

lemma keeps_repos: "keeps (reposForRun i)"
  unfolding reposForRun_def by (intro keeps_job)

lemma keeps_failed: "keeps (lastFailedPhase i rp)"
  unfolding lastFailedPhase_def by (intro keeps_job)

lemma keeps_retest: "keeps (retest proj router run rp c)"
  unfolding retest_def by (intro keeps_job keeps_repos keeps_stage keeps_commit)

end

text \<open>A relation that holds for every conclusion of a job.\<close>

locale concluding_relation = job_relation R ends for R ends +
  assumes all_ends: "ends ''passed''" "ends ''failed''" "ends ''cancelled''"
begin

lemma keeps_executeRun: "(\<And>s. keeps (engine s)) \<Longrightarrow> keeps (executeRun engine proj i brief repos)"
proof -
  assume "\<And>s. keeps (engine s)"
  then have stages: "keeps (run_stages engine stages)" for stages by (rule keeps_run_stages)
  have verdict: "keeps (case v of Halted \<Rightarrow> a | StageFailed \<Rightarrow> b | Completed \<Rightarrow> c)"
    if "keeps a" "keeps b" "keeps c" for v and a b c :: "unit io"
    using that by (cases v) simp_all
  show ?thesis
    unfolding executeRun_def Let_def
    by (intro keeps_job stages verdict keeps_setTerminal keeps_commitAll keeps_progress keeps_record_delivery all_ends)
qed

lemma keeps_exhausted: "keeps (fix_exhausted i n)"
  unfolding fix_exhausted_def by (intro keeps_job keeps_terminal_reason all_ends)

lemma keeps_fix_cycles: "keeps (fix_cycles left c proj router w run rp)"
proof (induction left arbitrary: c)
  case (Suc left)
  show ?case
    unfolding fix_cycles.simps
    by (intro keeps_job keeps_setTerminal keeps_failed keeps_exhausted keeps_agent_phase keeps_retest Suc all_ends)
qed (simp add: keeps_exhausted)

lemma keeps_run_body: "keeps (run_body j)"
  by (cases j) (auto simp: run_body_def runFixCycles_def intro!: keeps_job keeps_executeRun keeps_stage keeps_fix_cycles)

end

text \<open>The methods the handlers call, except taking up a run again.\<close>

locale service_relation = concluding_relation R "\<lambda>s. s \<in> {''passed'', ''failed'', ''cancelled''}" for R +
  assumes new_context: "state_io_rel R (with_context b)"
    and create_run: "run_Status r = ''running'' \<Longrightarrow> state_io_rel R (store_io (CreateRun r))"
    and by_request: "state_io_rel R (store_io (GetRunByRequestID q))"
    and create_intent: "in_Status n \<in> {''proposed'', ''in_progress''} \<Longrightarrow> state_io_rel R (store_io (CreateIntent n))"
    and create_bullet: "state_io_rel R (store_io (CreateBullet b'))"
    and get_intent: "state_io_rel R (store_io (GetIntent i))"
    and list_intents: "state_io_rel R (store_io (ListIntentsByStatus s))"
    and update_intent: "s \<in> {''in_progress'', ''abandoned''} \<Longrightarrow> state_io_rel R (store_io (UpdateIntentStatus i s))"
    and update_bullet: "state_io_rel R (store_io (UpdateBulletStatus i s))"
    and advance_bullet: "state_io_rel R (store_io (AdvanceBulletStatus i s m))"
    and delete_run: "state_io_rel R (store_io (DeleteRun i))"
begin

lemmas keeps_service = keeps_job by_request create_bullet get_intent list_intents
  update_bullet advance_bullet delete_run

lemma keeps_reply: "keeps m \<Longrightarrow> (\<And>x. keeps (k x)) \<Longrightarrow> keeps (or_reply code sv m k)"
  unfolding or_reply_def by (intro keeps_service)

lemma keeps_saying: "keeps m \<Longrightarrow> keeps (saying f args m)"
  unfolding saying_def by (intro keeps_service)

lemma keeps_bad: "keeps (bad_request m sv)"
  unfolding bad_request_def by (intro keeps_service)

lemma keeps_refuse: "keeps (refuse oe)"
  unfolding refuse_def by (intro keeps_service)

lemmas keeps_handler = keeps_service keeps_reply keeps_saying keeps_bad keeps_refuse

lemma keeps_load: "keeps (LoadProject parse cwd p)"
  unfolding LoadProject_def load_from_def fileExists_def by (intro keeps_handler keeps_files)

lemma keeps_resolve: "keeps (resolveChange bin cwd p c b)"
  unfolding resolveChange_def existing_change_def derived_change_def scaffoldChange_def isDir_def Let_def
  by (intro keeps_handler keeps_files command TrueI)

lemma keeps_fresh: "keeps (freshRunID site sv)"
  unfolding freshRunID_def Let_def by (intro keeps_handler)

lemma keeps_bullets: "keeps (create_bullets f mk i rs)"
  by (induction rs arbitrary: i) (auto intro!: keeps_handler)

lemma keeps_create_dispatch: "keeps (createRunAndDispatch site sv proj b rs c q n p i t)"
proof -
  have run: "keeps (store_io (CreateRun (new_run t p b c w i q)))" for t p b c w i q
    by (rule create_run) (simp add: new_run_def)
  have intent: "keeps (store_io (CreateIntent (new_intent i p b ''in_progress'')))" for i p b
    by (rule create_intent) (simp add: new_intent_def)
  have "keeps (respondWithExistingRun site sv q p n c)" for site sv q p n c
    unfolding respondWithExistingRun_def by (intro keeps_handler keeps_resolve)
  then show ?thesis
    unfolding createRunAndDispatch_def record_work_def Let_def
    by (intro keeps_handler keeps_fresh keeps_bullets run intent)
qed

lemma keeps_propose: "keeps (propose site sv proj b rs c n t)"
proof -
  have "keeps (store_io (CreateIntent ((new_intent i p b ''proposed'')\<lparr>in_ChangeID := c, in_ChangeRepo := r, in_Type := t\<rparr>)))"
    for i p b c r t
    by (rule create_intent) (simp add: new_intent_def)
  then show ?thesis
    unfolding propose_def Let_def by (intro keeps_handler keeps_fresh keeps_bullets)
qed

lemma keeps_dispatch: "keeps (handleDispatch site req sv)"
  unfolding handleDispatch_def Let_def
  by (intro keeps_handler keeps_load keeps_resolve keeps_propose keeps_create_dispatch)

lemma keeps_plan_state: "keeps (writePlanState i sv)"
  unfolding writePlanState_def by (intro keeps_handler)

lemma keeps_plans: "keeps (handlePlans sv)"
proof -
  have "keeps (plan_entries ps)" for ps by (induction ps) (auto intro!: keeps_handler)
  then show ?thesis unfolding handlePlans_def by (intro keeps_handler)
qed

lemma keeps_approve: "keeps (handleApprovePlan site i sv)"
  unfolding handleApprovePlan_def approve_bullet_def
  by (intro keeps_handler keeps_plan_state keeps_load keeps_resolve keeps_create_dispatch update_intent) simp

lemma keeps_reject: "keeps (handleRejectPlan i sv)"
  unfolding handleRejectPlan_def by (intro keeps_handler keeps_plan_state update_intent) simp

lemma keeps_cancel: "keeps (handleRunCancel req sv)"
  unfolding handleRunCancel_def Let_def by (intro keeps_handler keeps_terminal all_ends)

lemma keeps_delete: "keeps (handleRunDelete req sv)"
  unfolding handleRunDelete_def by (intro keeps_handler)

lemma keeps_clear: "keeps (clear_stale run rs)"
  unfolding clear_stale_def clear_blocked_def by (intro keeps_handler)

lemma keeps_names: "keeps (passedPhaseNames i)"
  unfolding passedPhaseNames_def by (intro keeps_handler)

lemma keeps_run_job: "keeps (run_job tj sv)"
  unfolding run_job_def by (intro keeps_handler new_context keeps_run_body)

end

text \<open>A relation that lets any run be taken up again holds for the remaining handlers too.\<close>

locale server_relation = service_relation +
  assumes retake: "state_io_rel R (store_io (UpdateRunStatus i ''running''))"
begin

lemma keeps_admit: "(\<And>run proj. keeps (k run proj)) \<Longrightarrow> keeps (admit site f req sv k)"
  unfolding admit_def by (intro keeps_handler keeps_load)

lemma keeps_resume: "keeps (handleRunResume site req sv)"
  unfolding handleRunResume_def resume_run_def
  by (intro keeps_admit keeps_handler keeps_repos keeps_clear keeps_names retake)

lemma keeps_fix: "keeps (handleRunFix site req sv)"
  unfolding handleRunFix_def fix_run_def isDir_def
  by (intro keeps_admit keeps_handler keeps_files keeps_failed retake)

end

context step_relation
begin

lemma base_context [keeps_intros]: "state_io_rel (on_base R) (with_context b)"
  by (simp add: state_io_rel_def on_base_def with_context_def)

end

interpretation sound_server: server_relation "on_base (on_db sound_step)"
  by unfold_locales
    (auto intro!: within_intros sound.base_store keeps_intros simp: ListEnvelopesForRun_def GetRunByRequestID_def
      AdvanceBulletStatus_def ListIntentsByStatus_def Let_def)

lemma env_quiet [within_intros]: "within same_env (notifyChange s)" "within same_env pk_reported_first"
  by (simp_all add: within_def same_env_def notifyChange_def pk_reported_first_def)

lemma env_methods [within_intros]:
  "within same_env (AppendChange c i p)"
  "within same_env (GetRun i)" "within same_env (GetRunByRequestID q)"
  "within same_env (GetIntent i)" "within same_env (ListIntentsByStatus s)" "within same_env (ListEnvelopesForRun i)"
  "within same_env (ListBulletsForIntent i)" "within same_env (requireOneRow n k i)"
  unfolding AppendChange_def GetRun_def GetRunByRequestID_def GetIntent_def ListIntentsByStatus_def
    ListEnvelopesForRun_def ListBulletsForIntent_def requireOneRow_def Let_def
  by (intro within_intros)+

lemma env_changes [within_intros]:
  "within same_env (CreateRun r)" "within same_env (UpdateRunStatus i s)" "within same_env (DeleteRun i)"
  "within same_env (CreateIntent n)" "within same_env (CreateBullet b)" "within same_env (UpdateIntentStatus i s)"
  "within same_env (UpdateBulletStatus i s)" "within same_env (updateBulletStatusAndReason i s m)"
  unfolding CreateRun_def assignSlug_def UpdateRunStatus_def DeleteRun_def CreateIntent_def CreateBullet_def
    UpdateIntentStatus_def UpdateBulletStatus_def updateBulletStatusAndReason_def recordTransition_def Let_def
  by (intro within_intros)+

lemma env_derived [within_intros]:
  "within same_env (AdvanceBulletStatus i s m)" "within same_env (AdvanceBulletsForRun i s m)"
  unfolding AdvanceBulletStatus_def AdvanceBulletsForRun_def advance_bullet_def RecomputeIntentStatus_def Let_def
  by (intro within_intros)+

interpretation env_server: server_relation "on_base same_env"
  by unfold_locales
    (auto intro!: within_intros env.base_store keeps_intros env.base_now env.base_deliver env_RecordPhase env_DeliverEnvelope
      simp: file_op_defs WalkDir_def RecordArtifact_def RecordEnvelope_def CausationFromLatest_def GetLatestEnvelope_def
        ListPhasesForRun_def SetRunBaseBranch_def RenderIntentBrief_def Let_def)

section \<open>The life of a run\<close>

text \<open>
  The abstract machine: a partial map from runs to statuses.  A run begins as running; a run in any status
  is concluded as passed, failed or cancelled; one in a resumable status is taken up again; a run is
  forgotten.
\<close>

type_synonym life = "string \<Rightarrow> string option"

inductive life_step :: "life \<Rightarrow> life \<Rightarrow> bool" where
  begin_run: "f i = None \<Longrightarrow> life_step f (f(i \<mapsto> ''running''))"
| conclude_run: "f i \<noteq> None \<Longrightarrow> s \<in> {''passed'', ''failed'', ''cancelled''} \<Longrightarrow> life_step f (f(i \<mapsto> s))"
| retake_run: "f i = Some s \<Longrightarrow> isResumable s \<Longrightarrow> life_step f (f(i \<mapsto> ''running''))"
| forget_run: "life_step f (f(i := None))"

abbreviation lives :: "life \<Rightarrow> life \<Rightarrow> bool" where
  "lives \<equiv> life_step\<^sup>*\<^sup>*"

definition status_of :: "tables \<Rightarrow> life" where
  "status_of d i = map_option run_Status (find (\<lambda>r. run_ID r = i) (runs d))"

definition same_life :: "tables \<Rightarrow> tables \<Rightarrow> bool" where
  "same_life d d' \<longleftrightarrow> status_of d' = status_of d"

definition life_goes_on :: "tables \<Rightarrow> tables \<Rightarrow> bool" where
  "life_goes_on d d' \<longleftrightarrow> lives (status_of d) (status_of d')"

interpretation samel: table_relation same_life
  by unfold_locales (auto simp: same_life_def)

interpretation lifel: table_relation life_goes_on
  by unfold_locales (auto simp: life_goes_on_def)

lemma same_life_runs: "runs d' = runs d \<Longrightarrow> same_life d d'"
  by (simp add: same_life_def status_of_def fun_eq_iff)

lemma find_update_where:
  assumes "\<And>x. key (f x) = key x"
  shows "find (\<lambda>x. key x = i) (update_where (\<lambda>x. key x = j) f xs) =
    (if i = j then map_option f (find (\<lambda>x. key x = i) xs) else find (\<lambda>x. key x = i) xs)"
  using assms by (induction xs) auto

lemma status_update:
  assumes "\<And>r. run_ID (f r) = run_ID r" and "\<And>r. run_Status (f r) = s"
  shows "status_of (update_run i f d) = (if status_of d i = None then status_of d else (status_of d)(i \<mapsto> s))"
proof
  fix j
  show "status_of (update_run i f d) j = (if status_of d i = None then status_of d else (status_of d)(i \<mapsto> s)) j"
    using assms by (cases "find (\<lambda>r. run_ID r = i) (runs d)")
      (auto simp: status_of_def update_run_def find_update_where)
qed

lemma status_same_update:
  assumes "\<And>r. run_ID (f r) = run_ID r" and "\<And>r. run_Status (f r) = run_Status r"
  shows "status_of (update_run i f d) = status_of d"
  using assms by (auto simp: status_of_def update_run_def find_update_where fun_eq_iff option.map_comp comp_def)

lemma runs_kept [simp]:
  "runs (insert_change c e p now d) = runs d"
  "runs (replace_phase ph d) = runs d"
  "runs (update_intent i f d) = runs d" "runs (update_bullet i g d) = runs d"
  "runs (delete_phases_of i d) = runs d" "runs (delete_envelopes_of i d) = runs d"
  by (simp_all add: insert_change_def replace_phase_def update_intent_def update_bullet_def delete_phases_of_def
      delete_envelopes_of_def)

lemma runs_inserted [simp]:
  "insert_envelope v d = Inr (x, d') \<Longrightarrow> runs d' = runs d"
  "insert_artifact a d = Inr (x, d') \<Longrightarrow> runs d' = runs d"
  "insert_delivery r d = Inr (x, d') \<Longrightarrow> runs d' = runs d"
  "insert_intent n d = Inr (x, d') \<Longrightarrow> runs d' = runs d"
  "insert_bullet b d = Inr (x, d') \<Longrightarrow> runs d' = runs d"
  unfolding insert_envelope_def insert_artifact_def insert_delivery_def insert_intent_def insert_bullet_def
  by (auto split: if_split_asm)

lemma samel_update:
  "same_life d (update_run i (run_UpdatedAt_update f) d)"
  "same_life d (update_run i (\<lambda>r. r\<lparr>run_BaseBranch := b, run_UpdatedAt := t\<rparr>) d)"
  by (simp_all add: same_life_def status_same_update)

lemmas samel_exec = samel.w_exec [OF same_life_runs] samel.w_modify [OF same_life_runs]
  samel.w_modify_count [OF same_life_runs]

lemma samel_basic [within_intros]:
  "within (on_db same_life) (AppendChange c e p)" "within (on_db same_life) (RecordArtifact a)"
  "within (on_db same_life) (insertDeliveryRow i c s n f t r)"
  "within (on_db same_life) (requireOneRow m k i)"
  unfolding AppendChange_def RecordArtifact_def insertDeliveryRow_def requireOneRow_def
  by (intro within_intros samel_exec; auto simp: within_def on_db_def same_life_def notifyChange_def)+

lemma samel_transition [within_intros]: "within (on_db same_life) (recordTransition c e p)"
  unfolding recordTransition_def by (intro within_intros)

lemma samel_retry [within_intros]: "within (on_db same_life) (retry_from e c s f left n le)"
  by (induction left arbitrary: n le) (auto simp: Let_def intro!: within_intros)

lemma samel_rows [within_intros]:
  "within (on_db same_life) (RecordEnvelope v)"
  "within (on_db same_life) (CreateIntent n)" "within (on_db same_life) (CreateBullet b)"
  "within (on_db same_life) (UpdateIntentStatus i s)" "within (on_db same_life) (UpdateBulletStatus i s)"
  "within (on_db same_life) (updateBulletStatusAndReason i s m)"
  unfolding RecordEnvelope_def CreateIntent_def CreateBullet_def UpdateIntentStatus_def
    UpdateBulletStatus_def updateBulletStatusAndReason_def Let_def
  by (intro within_intros samel_exec; simp)+

lemma samel_derived [within_intros]:
  "within (on_db same_life) (GetRun i)" "within (on_db same_life) (GetRunByRequestID q)"
  "within (on_db same_life) (GetIntent i)" "within (on_db same_life) (ListIntentsByStatus s)"
  "within (on_db same_life) (ListBulletsForIntent i)" "within (on_db same_life) (ListEnvelopesForRun i)"
  "within (on_db same_life) (AdvanceBulletStatus i s m)" "within (on_db same_life) (AdvanceBulletsForRun i s m)"
  unfolding GetRun_def GetRunByRequestID_def GetIntent_def ListIntentsByStatus_def ListBulletsForIntent_def
    ListEnvelopesForRun_def AdvanceBulletStatus_def AdvanceBulletsForRun_def advance_bullet_def RecomputeIntentStatus_def
    Let_def
  by (intro within_intros)+

lemma samel_touched [within_intros]:
  "within (on_db same_life) (SetRunBaseBranch i b)" "within (on_db same_life) (RecordPhase ph)"
  unfolding SetRunBaseBranch_def RecordPhase_def Let_def
  by (intro within_intros samel.w_modify_count samel.w_modify same_life_runs runs_kept samel_update refl)+

interpretation samel_recorder: phase_recorder same_life "\<lambda>_. True"
  by unfold_locales (auto intro!: within_intros
      simp: CausationFromLatest_def GetLatestEnvelope_def DeliverEnvelope_def isAlreadyTerminalSuccess_def deliverRetryLoop_def)

interpretation samel_engine: engine_relation "on_base (on_db same_life)" "\<lambda>_. True" "\<lambda>_. True"
  by unfold_locales
    (auto intro!: within_intros samel.base_store samel.base_file_op
      simp: ListPhasesForRun_def GetLatestEnvelope_def RenderIntentBrief_def WalkDir_def)

interpretation samel_stage: stage_relation "on_base (on_db same_life)" "\<lambda>_. True" "\<lambda>_. True" "\<lambda>_. True" rid
  for rid
  by unfold_locales (auto intro: samel_engine.prepare_any)

text \<open>
  A relation that only looks at the statuses: every method that leaves them alone respects it, so a job does
  as soon as the conclusions it may come to do.
\<close>

locale life_relation = table_relation T for T +
  fixes ends :: "string \<Rightarrow> bool"
  assumes weaker: "same_life d d' \<Longrightarrow> T d d'"
    and concludes: "ends s \<Longrightarrow> within (on_db T) (UpdateRunStatus i s)"
begin

lemma by_same: "within (on_db same_life) m \<Longrightarrow> within (on_db T) m"
  by (simp add: within_def on_db_def weaker)

sublocale recorder: phase_recorder T "\<lambda>_. True"
  by unfold_locales (intro by_same samel_recorder.store_artifact samel_recorder.store_envelope
    samel_recorder.store_deliver samel_recorder.store_latest samel_recorder.store_phase TrueI)+

lemmas by_same_methods = samel_derived [THEN by_same] samel_touched [THEN by_same] samel_basic [THEN by_same]
  samel_rows [THEN by_same]

sublocale job: job_relation "on_base (on_db T)" ends
  by unfold_locales
    (auto intro!: base_store by_same_methods concludes base_file_op within_intros
      simp: ListPhasesForRun_def GetLatestEnvelope_def RenderIntentBrief_def WalkDir_def Let_def
      intro: by_same_methods)

end

text \<open>Each method is one step of the abstract machine, or none.\<close>

lemma life_same: "within (on_db same_life) m \<Longrightarrow> within (on_db life_goes_on) m"
  by (simp add: within_def on_db_def same_life_def life_goes_on_def)

lemma life_goes_on_same: "same_life d d' \<Longrightarrow> life_goes_on d d'"
  by (simp add: same_life_def life_goes_on_def)

context table_relation
begin

lemma w_status:
  assumes "\<And>d t. T d (update_run i (\<lambda>r. r\<lparr>run_Status := s, run_UpdatedAt := t\<rparr>) d)"
    and "\<And>c e p. within (on_db T) (recordTransition c e p)"
  shows "within (on_db T) (UpdateRunStatus i s)"
  unfolding UpdateRunStatus_def by (intro within_intros w_modify_count assms)

end

lemma life_conclude:
  assumes "s \<in> {''passed'', ''failed'', ''cancelled''}"
  shows "within (on_db life_goes_on) (UpdateRunStatus i s)"
  using assms by (intro lifel.w_status life_same [OF samel_transition])
    (auto simp: life_goes_on_def status_update intro: r_into_rtranclp conclude_run)

lemma find_snoc: "find P (xs @ [y]) = (case find P xs of None \<Rightarrow> if P y then Some y else None | Some x \<Rightarrow> Some x)"
  by (induction xs) auto

lemma status_insert:
  assumes "insert_run pk row d = Inr (x, d')"
  shows "status_of d (run_ID row) = None" and "status_of d' = (status_of d)(run_ID row \<mapsto> run_Status row)"
proof -
  from assms have none: "find (\<lambda>r. run_ID r = run_ID row) (runs d) = None" and d': "runs d' = runs d @ [row]"
    by (auto simp: insert_run_def Let_def list_ex_iff find_None_iff split: if_splits option.splits)
  show "status_of d (run_ID row) = None" by (simp add: status_of_def none)
  show "status_of d' = (status_of d)(run_ID row \<mapsto> run_Status row)"
    using none by (auto simp: status_of_def d' find_snoc fun_eq_iff split: option.split)
qed

lemma life_insert:
  assumes "run_Status row = ''running''"
  shows "within (on_db life_goes_on) (exec (insert_run pk row))"
proof (rule lifel.w_exec)
  fix d x d'
  assume "insert_run pk row d = Inr (x, d')"
  from begin_run [of "status_of d", OF status_insert(1) [OF this]] status_insert(2) [OF this] assms
  show "life_goes_on d d'" by (simp add: life_goes_on_def r_into_rtranclp)
qed

context step_relation
begin

lemma w_bind_result:
  assumes m: "within R m" and f: "\<And>w x w'. m w = (Inr x, w') \<Longrightarrow> within R (f x)"
  shows "within R (bind_st m f)"
proof (rule within_cong_fun)
  fix w
  obtain r w1 where eq: "m w = (r, w1)" by (cases "m w")
  from m eq have 1: "R w w1" by (rule withinD)
  show "R w (snd (bind_st m f w))"
  proof (cases r)
    case (Inr x)
    with f eq have "R w1 (snd (f x w1))" by (auto simp: within_def)
    with 1 eq Inr show ?thesis by (auto simp: bind_st_def intro: trans)
  qed (use eq 1 in \<open>simp add: bind_st_def\<close>)
qed

end

lemma assignSlug_status: "assignSlug r w = (Inr r', w') \<Longrightarrow> run_Status r' = run_Status r"
  by (auto simp: assignSlug_def st_simps query_def exec_def Let_def split: if_splits sum.splits)

lemma life_create:
  assumes "run_Status r = ''running''"
  shows "within (on_db life_goes_on) (CreateRun r)"
proof -
  have slug: "within (on_db life_goes_on) (assignSlug r)" and pk: "within (on_db life_goes_on) pk_reported_first"
    unfolding assignSlug_def pk_reported_first_def
    by (intro within_intros) (simp add: within_def on_db_def)
  show ?thesis
    unfolding CreateRun_def Let_def
    by (intro lifel.w_bind_result [OF slug] within_intros pk life_insert life_same [OF samel_transition])
      (use assms in \<open>simp add: assignSlug_status\<close>)
qed

lemma find_filter_key: "find (\<lambda>x. key x = i) (filter (\<lambda>x. key x \<noteq> j) xs) =
    (if i = j then None else find (\<lambda>x. key x = i) xs)"
  by (induction xs) auto

lemma life_delete: "within (on_db life_goes_on) (DeleteRun i)"
proof -
  have "status_of (delete_run_row i d) = (status_of d)(i := None)" for d
    by (auto simp: status_of_def delete_run_row_def find_filter_key fun_eq_iff)
  then have del: "life_goes_on d (delete_run_row i d)" for d
    by (simp add: life_goes_on_def r_into_rtranclp forget_run)
  show ?thesis
    unfolding DeleteRun_def
    by (intro within_intros lifel.w_modify_count [OF del] lifel.w_modify [OF life_goes_on_same [OF same_life_runs]]
        life_same [OF samel_transition] runs_kept)
qed

interpretation life_going: life_relation life_goes_on "\<lambda>s. s \<in> {''passed'', ''failed'', ''cancelled''}"
  by unfold_locales (auto intro: life_goes_on_same life_conclude)

interpretation life_service: service_relation "on_base (on_db life_goes_on)"
  by unfold_locales
    (auto intro: lifel.base_context lifel.base_store life_create life_delete life_going.by_same_methods)

text \<open>What taking up a run again needs: its status is resumable when it is set.\<close>

definition resumable_now :: "string \<Rightarrow> life \<Rightarrow> host \<Rightarrow> bool" where
  "resumable_now i f h \<longleftrightarrow> lives f (status_of (db (base h))) \<and>
     (\<exists>s. status_of (db (base h)) i = Some s \<and> isResumable s)"

definition lived_from :: "life \<Rightarrow> host \<Rightarrow> bool" where
  "lived_from f h \<longleftrightarrow> lives f (status_of (db (base h)))"

lemma samel_hostD: "on_base (on_db same_life) h k \<Longrightarrow> status_of (db (base k)) = status_of (db (base h))"
  by (simp add: on_base_def on_db_def same_life_def)

lemma resumable_step: "state_io_rel (on_base (on_db same_life)) m \<Longrightarrow> makes (resumable_now i f) (resumable_now i f) m"
  by (erule makes_step) (auto simp: resumable_now_def dest: samel_hostD)

lemma lived_step: "state_io_rel (on_base (on_db life_goes_on)) m \<Longrightarrow> makes (lived_from f) (lived_from f) m"
  by (erule makes_step) (auto simp: lived_from_def on_base_def on_db_def life_goes_on_def)

lemma resumable_lived: "resumable_now i f h \<Longrightarrow> lived_from f h"
  by (simp add: resumable_now_def lived_from_def)

definition retaken :: "string \<Rightarrow> tables \<Rightarrow> tables \<Rightarrow> bool" where
  "retaken i d d' \<longleftrightarrow> status_of d' = status_of d \<or>
     (status_of d i \<noteq> None \<and> status_of d' = (status_of d)(i \<mapsto> ''running''))"

interpretation retaken: table_relation "retaken i"
  by unfold_locales (auto simp: retaken_def)

lemma retaken_update: "within (on_db (retaken i)) (UpdateRunStatus i ''running'')"
proof -
  have "within (on_db (retaken i)) (recordTransition c e p)" for c e p
    using samel_transition by (fastforce simp: within_def on_db_def same_life_def retaken_def)
  then show ?thesis by (intro retaken.w_status) (auto simp: retaken_def status_update)
qed

lemma makes_rel: "state_io_rel R m \<Longrightarrow> (\<And>h k. P h \<Longrightarrow> R h k \<Longrightarrow> Q k) \<Longrightarrow> makes P Q m"
  by (auto simp: yields_def)

lemma yields_before: "yields P Q m \<Longrightarrow> (\<And>h. P' h \<Longrightarrow> P h) \<Longrightarrow> yields P' Q m"
  by (auto simp: yields_def)

lemma retaken_lives:
  assumes "resumable_now i f h" and "retaken i (db (base h)) (db (base k))"
  shows "lived_from f k"
proof -
  from assms(1) obtain s where f: "lives f (status_of (db (base h)))"
      and s: "status_of (db (base h)) i = Some s" "isResumable s"
    by (auto simp: resumable_now_def)
  have "life_step (status_of (db (base h))) ((status_of (db (base h)))(i \<mapsto> ''running''))"
    using retake_run [of "status_of (db (base h))" i s] s by simp
  then have "lives f ((status_of (db (base h)))(i \<mapsto> ''running''))"
    by (rule rtranclp.rtrancl_into_rtrancl [of life_step f "status_of (db (base h))", OF f])
  with f show ?thesis
    using assms(2) unfolding lived_from_def retaken_def by metis
qed

lemma life_retake: "makes (resumable_now i f) (lived_from f) (store_io (UpdateRunStatus i ''running''))"
proof (rule makes_rel)
  show "state_io_rel (on_base (on_db (retaken i))) (store_io (UpdateRunStatus i ''running''))"
    by (intro retaken.base_store retaken_update)
  show "lived_from f k" if "resumable_now i f h" and "on_base (on_db (retaken i)) h k" for h k
    using retaken_lives [OF that(1)] that(2) by (simp add: on_base_def on_db_def)
qed

lemma find_sat: "find P xs = Some x \<Longrightarrow> P x"
  by (induction xs) (auto split: if_splits)

context engine_relation
begin

lemma keeps_load_project: "keeps (saying f args (LoadProject parse cwd p))"
  unfolding saying_def LoadProject_def load_from_def fileExists_def by (intro keeps_engine keeps_files)

end

text \<open>The checks establish that the run's status is resumable, and nothing they do changes it.\<close>

lemma GetRun_status:
  "GetRun i w = (Inr run, w') \<Longrightarrow> status_of (db w') i = Some (run_Status run) \<and> run_ID run = i"
  by (auto simp: GetRun_def query_row_def exec_def Let_def status_of_def dest: find_sat
      split: if_splits option.splits)

lemma admit_makes:
  assumes "\<And>run proj. makes (resumable_now (run_ID run) f) (lived_from f) (k run proj)"
  shows "makes (lived_from f) (lived_from f) (admit site msg req sv k)"
proof -
  have load: "makes (resumable_now i f) (lived_from f) (or_reply c sv (saying g as (LoadProject y d p)) (k run))"
    if "i = run_ID run" for i c g as y d p run
    unfolding or_reply_def that
    by (rule yields_bind [OF resumable_step [OF samel_engine.keeps_load_project]])
      (auto split: sum.split intro: assms yields_return resumable_lived)
  have get: "yields (lived_from f) (\<lambda>r h. lived_from f h \<and> (\<forall>run. r = Inr run \<and> isResumable (run_Status run) \<longrightarrow>
      resumable_now (run_ID run) f h)) (store_io (GetRun i))" for i
    using lived_step [OF life_going.job.get_run, of f i]
    by (auto simp: yields_def store_io_def resumable_now_def lived_from_def dest!: GetRun_status split: prod.splits)
  show ?thesis
    unfolding admit_def bad_request_def
    by (auto intro!: yields_return yields_bind [OF get] yields_before [OF load [OF refl]] split: sum.split)
qed

lemma resume_makes: "makes (resumable_now (run_ID run) f) (lived_from f) (resume_run sv run proj)"
proof -
  have repos: "state_io_rel (on_base (on_db same_life)) (reposForRun i)" for i
    unfolding reposForRun_def by (intro samel_engine.keeps_engine)
  have clear: "state_io_rel (on_base (on_db same_life)) (clear_stale run rs)" for rs
    unfolding clear_stale_def clear_blocked_def
    by (intro samel_engine.keeps_engine samel.base_store samel_derived)
  show ?thesis
    unfolding resume_run_def
    by (intro yields_bind [OF resumable_step [OF repos]] yields_bind [OF resumable_step [OF clear]]
        yields_bind [OF resumable_step [OF samel.base.k_get]] yields_bind [OF life_retake]
        yields_bind [OF lived_step [OF life_service.keeps_names]] yields_return)
qed

lemma fix_makes: "makes (resumable_now (run_ID run) f) (lived_from f) (fix_run sv run proj)"
proof -
  have failed: "state_io_rel (on_base (on_db same_life)) (lastFailedPhase i rp)" for i rp
    unfolding lastFailedPhase_def by (intro samel_engine.keeps_engine)
  have dir: "state_io_rel (on_base (on_db same_life)) (isDir p)" for p
    unfolding isDir_def by (intro samel_engine.keeps_engine samel_recorder.rec.keeps_files)
  have start: "makes (resumable_now (run_ID run) f) (lived_from f)
      (State_Monad.bind (store_io (UpdateRunStatus (run_ID run) ''running'')) (\<lambda>_. State_Monad.return x))" for x :: "reply \<times> server"
    by (intro yields_bind [OF life_retake] yields_return)
  have rest: "makes (resumable_now (run_ID run) f) (lived_from f)
      (if \<not> there then State_Monad.return y else State_Monad.bind (store_io (UpdateRunStatus (run_ID run) ''running''))
        (\<lambda>_. State_Monad.return x))" for there and x y :: "reply \<times> server"
    using start by (auto intro: yields_return resumable_lived)
  show ?thesis
    unfolding fix_run_def
    by (rule yields_bind [OF resumable_step [OF failed]])
      (auto split: option.split intro!: yields_return yields_bind [OF resumable_step [OF samel.base.k_get]]
        yields_bind [OF resumable_step [OF dir]] rest [simplified] intro: resumable_lived)
qed

section \<open>Steps of the server\<close>

text \<open>
  One step: a handler answers a request, or a job that was started runs from its beginning to its end;
  what happens to a job while it runs (a cancellation, failures) is in the schedule of its host.  The steps
  come in any order; the answers themselves are not part of the state.
\<close>

inductive server_step :: "site \<Rightarrow> server \<times> host \<Rightarrow> server \<times> host \<Rightarrow> bool" for site where
  dispatches: "run_state (handleDispatch site req sv) h = ((rep, sv'), k) \<Longrightarrow> server_step site (sv, h) (sv', k)"
| lists_plans: "run_state (handlePlans sv) h = ((rep, sv'), k) \<Longrightarrow> server_step site (sv, h) (sv', k)"
| approves: "run_state (handleApprovePlan site i sv) h = ((rep, sv'), k) \<Longrightarrow> server_step site (sv, h) (sv', k)"
| rejects: "run_state (handleRejectPlan i sv) h = ((rep, sv'), k) \<Longrightarrow> server_step site (sv, h) (sv', k)"
| cancels: "run_state (handleRunCancel i' sv) h = ((rep, sv'), k) \<Longrightarrow> server_step site (sv, h) (sv', k)"
| deletes: "run_state (handleRunDelete i' sv) h = ((rep, sv'), k) \<Longrightarrow> server_step site (sv, h) (sv', k)"
| resumes: "run_state (handleRunResume site i' sv) h = ((rep, sv'), k) \<Longrightarrow> server_step site (sv, h) (sv', k)"
| fixes_run: "run_state (handleRunFix site i' sv) h = ((rep, sv'), k) \<Longrightarrow> server_step site (sv, h) (sv', k)"
| runs_job: "tj \<in> set (sv_jobs sv) \<Longrightarrow> run_state (run_job tj sv) h = (sv', k) \<Longrightarrow> server_step site (sv, h) (sv', k)"

inductive_cases server_stepE: "server_step site (sv, h) (sv', k)"

text \<open>A relation that every operation respects holds along every execution.\<close>

context server_relation
begin

lemma step_keeps: "server_step site (sv, h) (sv', k) \<Longrightarrow> R h k"
  by (erule server_stepE)
    (blast dest: state_io_relD [OF keeps_dispatch] state_io_relD [OF keeps_plans] state_io_relD [OF keeps_approve]
      state_io_relD [OF keeps_reject] state_io_relD [OF keeps_cancel] state_io_relD [OF keeps_delete]
      state_io_relD [OF keeps_resume] state_io_relD [OF keeps_fix] state_io_relD [OF keeps_run_job])+

lemma steps_keep: "(server_step site)\<^sup>*\<^sup>* c c' \<Longrightarrow> R (snd c) (snd c')"
proof (induction rule: rtranclp_induct)
  case (step c1 c2)
  then show ?case by (cases c1, cases c2) (auto dest: step_keeps intro: trans)
qed simp

end

text \<open>
  C4: the server keeps the store sound.  In whatever order requests and jobs run, and whatever the store, the
  files and the commands answer, the keys of the tables stay unique, and the change log stays gapless and
  only grows.
\<close>

theorem server_sound:
  assumes "(server_step site)\<^sup>*\<^sup>* (sv, h) (sv', k)" and "schema_ok (db (base h))" and "changes_ok (db (base h))"
  shows "schema_ok (db (base k)) \<and> changes_ok (db (base k)) \<and> prefix (changes (db (base h))) (changes (db (base k)))"
proof -
  from sound_server.steps_keep [OF assms(1)] have "sound_step (db (base h)) (db (base k))"
    by (simp add: on_base_def on_db_def)
  with assms(2,3) show ?thesis by (simp add: sound_step_def log_grows_def)
qed

lemma taken_up_lives:
  "makes (lived_from f) (lived_from f) (handleRunResume site req sv)"
  "makes (lived_from f) (lived_from f) (handleRunFix site req sv)"
  unfolding handleRunResume_def handleRunFix_def by (intro admit_makes resume_makes fix_makes)+

lemma step_lives: "server_step site (sv, h) (sv', k) \<Longrightarrow> lived_from f h \<Longrightarrow> lived_from f k"
  by (erule server_stepE)
    (blast dest: yieldsD [OF lived_step [OF life_service.keeps_dispatch]] yieldsD [OF lived_step [OF life_service.keeps_plans]]
      yieldsD [OF lived_step [OF life_service.keeps_approve]] yieldsD [OF lived_step [OF life_service.keeps_reject]]
      yieldsD [OF lived_step [OF life_service.keeps_cancel]] yieldsD [OF lived_step [OF life_service.keeps_delete]]
      yieldsD [OF lived_step [OF life_service.keeps_run_job]] yieldsD [OF taken_up_lives(1)] yieldsD [OF taken_up_lives(2)])+


end
