(* ===== verification/Outcomes.thy ===== *)
theory Outcomes
  imports Service
begin

text \<open>
  How the job of a run ends: a run that becomes passed was earned by its stages, and with a working database
  every job concludes its run.
\<close>

section \<open>A run that is recorded as passed\<close>

definition unpassed :: "string \<Rightarrow> tables \<Rightarrow> tables \<Rightarrow> bool" where
  "unpassed i d d' \<longleftrightarrow> (status_of d i \<noteq> Some ''passed'' \<longrightarrow> status_of d' i \<noteq> Some ''passed'')"

interpretation unpassed_rel: table_relation "unpassed i"
  by unfold_locales (auto simp: unpassed_def)

interpretation unpassed: life_relation "unpassed i" "\<lambda>s. s \<noteq> ''passed''"
proof unfold_locales
  show weak: "unpassed i d d'" if "same_life d d'" for d d'
    using that by (simp add: unpassed_def same_life_def)
  fix s j
  assume "s \<noteq> ''passed''"
  moreover have "within (on_db (unpassed i)) (recordTransition c e p)" for c e p
    using samel_transition by (fastforce simp: within_def on_db_def intro: weak)
  ultimately show "within (on_db (unpassed i)) (UpdateRunStatus j s)"
    by (intro unpassed_rel.w_status) (auto simp: unpassed_def status_update)
qed

interpretation genv_job: concluding_relation given_env "\<lambda>_. True"
  by unfold_locales (auto intro: keeps_intros)

lemma run_stages_completed:
  assumes "run_state (run_stages engine stages) h = (Completed, k)" and "s \<in> set stages"
    and env: "\<And>s. state_io_rel given_env (engine s)"
  obtains g l where "given_env h g" "run_state (engine s) g = (Inr (), l)" "given_env l k"
proof -
  have "\<exists>g l. given_env h g \<and> run_state (engine s) g = (Inr (), l) \<and> given_env l k"
    using assms(1,2)
  proof (induction stages arbitrary: h)
    case (Cons t ts)
    obtain x h1 where t: "run_state (engine t) h = (x, h1)" by (cases "run_state (engine t) h")
    with Cons.prems(1) have x: "x = Inr ()" and rest: "run_state (run_stages engine ts) h1 = (Completed, k)"
      by (auto simp: get_host_def split: if_splits sum.splits)
    have later: "given_env h1 k" and first: "given_env h h1"
      using state_io_relD [OF genv_job.keeps_run_stages [OF env] rest] state_io_relD [OF env t] .
    show ?case
    proof (cases "s = t")
      case True
      with t x later show ?thesis by (intro exI [of _ h] exI [of _ h1]) simp
    next
      case False
      with Cons.prems(2) Cons.IH [OF rest] first show ?thesis by (auto intro: genv.trans)
    qed
  qed simp
  then show thesis using that by blast
qed

text \<open>Only a run whose stages all ended without an error can become passed.\<close>

lemma executeRun_passed:
  assumes run: "run_state (executeRun engine proj i brief repos) h = (u, k)"
    and before: "status_of (db (base h)) i \<noteq> Some ''passed''" and after: "status_of (db (base k)) i = Some ''passed''"
    and env: "\<And>s. state_io_rel given_env (engine s)"
    and quiet: "\<And>s. state_io_rel (on_base (on_db same_life)) (engine s)"
  obtains h1 where "run_state (run_stages engine (resolveStages proj repos brief)) h = (Completed, h1)" "given_env h1 k"
proof -
  let ?stages = "resolveStages proj repos brief"
  obtain v h1 where v: "run_state (run_stages engine ?stages) h = (v, h1)"
    by (cases "run_state (run_stages engine ?stages) h")
  have up: "state_io_rel (on_base (on_db (unpassed i))) (engine s)" for s
    using quiet [of s] by (auto simp: state_io_rel_def on_base_def on_db_def intro: unpassed.weaker)
  have 1: "status_of (db (base h1)) i \<noteq> Some ''passed''"
    using state_io_relD [OF unpassed.job.keeps_run_stages [OF up] v] before by (simp add: on_base_def on_db_def unpassed_def)
  have never: "\<not> state_io_rel (on_base (on_db (unpassed i))) m" if "run_state m h1 = (u, k)" for m :: "unit io"
    using that 1 after by (auto simp: on_base_def on_db_def unpassed_def dest!: state_io_relD)
  have v2: "v = Completed"
  proof (cases v)
    case Halted
    with run v have "run_state (setTerminal i ''cancelled'') h1 = (u, k)" by (simp add: executeRun_def Let_def)
    from never [OF this] unpassed.job.keeps_setTerminal [of "''cancelled''" i i] show ?thesis by simp
  next
    case StageFailed
    with run v have stage_end: "run_state (State_Monad.bind (commitAll i brief ?stages) (\<lambda>_. setTerminal i ''failed'')) h1 = (u, k)"
      by (simp add: executeRun_def Let_def)
    have "state_io_rel (on_base (on_db (unpassed i)))
        (State_Monad.bind (commitAll i brief ?stages) (\<lambda>_. setTerminal i ''failed''))"
      by (intro unpassed.job.keeps_setTerminal unpassed_rel.base.k_bind unpassed.job.keeps_commitAll) simp_all
    with never [OF stage_end] show ?thesis by contradiction
  qed
  let ?rest = "State_Monad.bind get_host (\<lambda>h. if stopped h then setTerminal i ''cancelled'' else
    State_Monad.bind (appendRunProgress i) (\<lambda>_. State_Monad.bind (commitAll i brief ?stages) (\<lambda>_.
    State_Monad.bind (record_delivery proj i) (\<lambda>_. setTerminal i ''passed''))))"
  have "run_state ?rest h1 = (u, k)" using run v v2 by (simp add: executeRun_def Let_def)
  moreover have "state_io_rel given_env ?rest"
    by (intro keeps_intros genv.k_bind genv.k_get genv.k_cond genv_job.keeps_setTerminal genv_job.keeps_progress genv_job.keeps_commitAll
        genv_job.keeps_record_delivery) simp_all
  ultimately have "given_env h1 k" by blast
  with v v2 that show thesis by blast
qed


interpretation samel_life: life_relation same_life "\<lambda>_. False"
  by unfold_locales simp_all

section \<open>Every job concludes its run\<close>

text \<open>The database works and the run has a row.\<close>

definition present :: "string \<Rightarrow> host \<Rightarrow> bool" where
  "present i h \<longleftrightarrow> healthy (base h) \<and> status_of (db (base h)) i \<noteq> None"

definition concluded :: "string \<Rightarrow> string \<Rightarrow> host \<Rightarrow> bool" where
  "concluded i s h \<longleftrightarrow> healthy (base h) \<and> status_of (db (base h)) i = Some s"

lemma env_hostD: "state_io_rel (on_base same_env) m \<Longrightarrow> run_state m h = (r, k) \<Longrightarrow> healthy (base k) = healthy (base h)"
  by (drule state_io_relD) (auto simp: on_base_def dest: same_env_healthy)

lemma present_step:
  assumes "state_io_rel (on_base same_env) m" and "state_io_rel (on_base (on_db same_life)) m"
  shows "makes (present i) (present i) m" "makes (concluded i s) (concluded i s) m"
  using env_hostD [OF assms(1)] state_io_relD [OF assms(2)]
  by (fastforce simp: yields_def present_def concluded_def dest: samel_hostD)+

lemma transition_healthy:
  assumes "healthy w"
  obtains w' where "recordTransition c e p w = (Inr (), w')"
  using assms by (auto simp: recordTransition_def AppendChange_def st_simps time_now_def exec_healthy notifyChange_def)

lemma UpdateRunStatus_sets:
  assumes "healthy w" and "status_of (db w) i \<noteq> None"
  obtains w' where "UpdateRunStatus i s w = (Inr (), w')" "healthy w'" "status_of (db w') i = Some s"
proof -
  let ?w = "w\<lparr>reads := Suc (reads w), ops := Suc (ops w),
    db := update_run i (\<lambda>r. r\<lparr>run_Status := s, run_UpdatedAt := clock w (reads w)\<rparr>) (db w)\<rparr>"
  have set: "status_of (db ?w) i = Some s" using assms(2) by (simp add: status_update)
  have w: "healthy ?w" using assms(1) by simp
  let ?m = "\<lambda>c e p. if \<not> changedARow (count_runs i (db w)) then return_st () else recordTransition c e p"
  have "\<exists>w'. ?m c e p ?w = (Inr (), w') \<and> status_of (db w') i = Some s" for c e p
  proof -
    obtain w' where "recordTransition c e p ?w = (Inr (), w')" using transition_healthy [OF w] .
    then show ?thesis
      using withinD [OF samel_transition] set by (fastforce simp: return_st_def on_db_def same_life_def)
  qed
  then obtain w' where "UpdateRunStatus i s w = (Inr (), w')" "status_of (db w') i = Some s"
    using assms(1) by (fastforce simp: UpdateRunStatus_def bind_st_def time_now_def modify_count_healthy)
  moreover from this(1) have "healthy w'"
    using within_env_healthy [OF env_changes(2)] assms(1) by blast
  ultimately show thesis using that by blast
qed

lemma yields_inr: "yields P Q (f y) \<Longrightarrow> yields (\<lambda>h. x = Inr y \<and> P h) Q (case x of Inl e \<Rightarrow> g e | Inr y \<Rightarrow> f y)"
  by (cases x) (auto simp: yields_def)

lemma recordTerminalRun_sets: "yields (present i) (\<lambda>r. concluded i s) (recordTerminalRun i s)"
proof -
  have reason: "makes (present i) (present i) (case oe of Some b \<Rightarrow> blockedReasonForRun i b | None \<Rightarrow> State_Monad.return [])" for oe
    unfolding blockedReasonForRun_def Let_def
    by (intro present_step; intro env_server.keeps_job samel_engine.keeps_engine samel.base_store samel_derived)
  have "makes (concluded i s) (concluded i s) (case bulletStatusForRunOutcome t of Some b \<Rightarrow> store_io (AdvanceBulletsForRun i b m)
      | None \<Rightarrow> State_Monad.return (Inr ()))" for t m
    by (intro present_step env_server.keeps_outcome) (intro samel_engine.keeps_engine samel.base_store samel_derived)
  moreover have "state_io_rel (on_base (on_db same_life)) (recordWikiEntry i m)" for m
    unfolding recordWikiEntry_def RecordRun_def writeConceptPage_def updateDateIndex_def updateDateLog_def updateRootIndex_def
      appendUniqueLine_def Let_def
    by (intro samel_engine.keeps_engine samel_recorder.rec.keeps_files samel.base_store samel_derived)
  moreover have "state_io_rel (on_base same_env) (recordWikiEntry i m)" for m
    unfolding recordWikiEntry_def by (intro env_server.keeps_job env_server.keeps_wiki)
  ultimately have rest: "makes (concluded i s) (concluded i s) (State_Monad.bind
      (case bulletStatusForRunOutcome t of Some b \<Rightarrow> store_io (AdvanceBulletsForRun i b m) | None \<Rightarrow> State_Monad.return (Inr ()))
      (\<lambda>_. State_Monad.bind (recordWikiEntry i m') (\<lambda>_. State_Monad.return (Inr ()))))" for t m m'
    by (intro yields_bind yields_return) (auto intro: present_step)
  have upd: "yields (present i) (\<lambda>r h. r = Inr () \<and> concluded i s h) (store_io (UpdateRunStatus i s))"
    unfolding yields_def
  proof (intro allI impI)
    fix h
    assume "present i h"
    then obtain w where "UpdateRunStatus i s (base h) = (Inr (), w)" "healthy w" "status_of (db w) i = Some s"
      unfolding present_def using UpdateRunStatus_sets by blast
    then show "case run_state (store_io (UpdateRunStatus i s)) h of (r, h) \<Rightarrow> r = Inr () \<and> concluded i s h"
      by (simp add: store_io_def concluded_def)
  qed
  show ?thesis
    unfolding recordTerminalRun_def recordTerminalRunWithReason_def or_fail_def
    by (intro yields_bind [OF reason] yields_bind [OF upd] yields_inr rest)
qed

lemma setTerminal_sets:
  assumes "run_state (setTerminal i s) h = (u, k)" and "present i h"
  shows "concluded i (if stopped h then ''cancelled'' else s) k"
proof -
  obtain r where "run_state (recordTerminalRun i (if stopped h then ''cancelled'' else s)) h = (r, k)"
    using assms(1) by (auto simp: setTerminal_def get_host_def split: prod.splits)
  from yieldsD [OF recordTerminalRun_sets assms(2) this] show ?thesis .
qed

text \<open>
  How the body of a run ends: at a host \<open>g\<close> its outcome is decided, and what is left is to record it.
\<close>

lemma executeRun_ends:
  assumes run: "run_state (executeRun engine proj i brief repos) h = (u, k)"
    and at: "present i h"
    and env: "\<And>s. state_io_rel (on_base same_env) (engine s)"
    and quiet: "\<And>s. state_io_rel (on_base (on_db same_life)) (engine s)"
  obtains v h1 g s where "run_state (run_stages engine (resolveStages proj repos brief)) h = (v, h1)"
    and "run_state (setTerminal i s) g = (u, k)" and "present i g"
    and "s = (case v of Halted \<Rightarrow> ''cancelled'' | StageFailed \<Rightarrow> ''failed'' | Completed \<Rightarrow> if stopped h1 then ''cancelled'' else ''passed'')"
proof -
  let ?stages = "resolveStages proj repos brief"
  have "state_io_rel (on_base same_env) (run_stages engine ?stages)" by (rule env_server.keeps_run_stages [OF env])
  moreover have "state_io_rel (on_base (on_db same_life)) (run_stages engine ?stages)"
    by (rule samel_life.job.keeps_run_stages [OF quiet])
  ultimately have stages: "makes (present i) (present i) (run_stages engine ?stages)" by (rule present_step)
  have commit: "makes (present i) (present i) (commitAll i brief ?stages)"
    by (rule present_step [OF env_server.keeps_commitAll samel_life.job.keeps_commitAll])
  have progress: "makes (present i) (present i) (appendRunProgress i)"
    by (rule present_step [OF env_server.keeps_progress samel_life.job.keeps_progress])
  have delivery: "makes (present i) (present i) (record_delivery proj i)"
    by (rule present_step [OF env_server.keeps_record_delivery samel_life.job.keeps_record_delivery])
  obtain v h1 where v: "run_state (run_stages engine ?stages) h = (v, h1)"
    by (cases "run_state (run_stages engine ?stages) h")
  from yieldsD [OF stages at v] have 1: "present i h1" .
  show thesis
  proof (cases v)
    case Halted
    with run v 1 show thesis by (intro that [OF v, of "''cancelled''" h1]) (simp_all add: executeRun_def Let_def)
  next
    case StageFailed
    obtain h2 where h2: "run_state (commitAll i brief ?stages) h1 = ((), h2)" by (cases "run_state (commitAll i brief ?stages) h1") auto
    with yieldsD [OF commit 1 h2] run v StageFailed show thesis
      by (intro that [OF v, of "''failed''" h2]) (simp_all add: executeRun_def Let_def)
  next
    case Completed
    show thesis
    proof (cases "stopped h1")
      case True
      with run v 1 Completed show thesis
        by (intro that [OF v, of "''cancelled''" h1]) (simp_all add: executeRun_def Let_def get_host_def)
    next
      case False
      obtain h2 where h2: "run_state (appendRunProgress i) h1 = ((), h2)" by (cases "run_state (appendRunProgress i) h1") auto
      obtain h3 where h3: "run_state (commitAll i brief ?stages) h2 = ((), h3)" by (cases "run_state (commitAll i brief ?stages) h2") auto
      obtain h4 where h4: "run_state (record_delivery proj i) h3 = ((), h4)" by (cases "run_state (record_delivery proj i) h3") auto
      have "present i h4"
        using yieldsD [OF delivery yieldsD [OF commit yieldsD [OF progress 1 h2] h3] h4] .
      with run v Completed False h2 h3 h4 show thesis
        by (intro that [OF v, of "''passed''" h4]) (simp_all add: executeRun_def Let_def get_host_def)
    qed
  qed
qed


section \<open>A sample run\<close>

interpretation calm_job: concluding_relation stays_calm "\<lambda>_. True"
  by unfold_locales (auto intro!: calm_store within_intros)

text \<open>A dispatched run with its worktree, on a machine where nothing fails.\<close>

definition live_tables :: tables where
  "live_tables = empty_tables\<lparr>runs := [run_row sample_run]\<rparr>"

definition live_host :: host where
  "live_host = calm_host (initial_world live_tables)
     [([''home'', ''op'', ''.local'', ''share'', ''sgt-v2'', ''fleet'', ''r1'', ''api''], Dir)]"

abbreviation live_job :: job where
  "live_job \<equiv> Execute ''r1'' sample_engine ''go'' [''api'']"

abbreviation after_live :: host where
  "after_live \<equiv> snd (run_state (run_body live_job) live_host)"

lemma live_simps [simp]:
  "healthy (base live_host)" "calm live_host" "status_of (db (base live_host)) ''r1'' = Some ''running''"
  by (simp_all add: live_host_def calm_host_def calm_def live_tables_def status_of_def sample_run_def)

lemma live_runs: "run_state (run_body live_job) live_host = ((), after_live)"
  by (simp add: prod_eq_iff)

lemma live_stages: "resolveStages (en_Project sample_engine) [''api''] b =
    [\<lparr>stg_Name = ''custom-dispatch'', stg_Repos = [''api''], stg_After = [], stg_Brief = b\<rparr>]"
  by (simp add: resolveStages_def sample_engine_def targetRepositories_def)

lemma live_passes: "status_of (db (base after_live)) ''r1'' = Some ''passed''"
proof -
  let ?stages = "resolveStages (en_Project sample_engine) [''api''] ''go''"
  have "FleetDir live_host ''r1'' ''api'' = [''home'', ''op'', ''.local'', ''share'', ''sgt-v2'', ''fleet'', ''r1'', ''api'']"
    by code_simp
  then have "node_at (tree live_host) (FleetDir live_host ''r1'' ''api'') \<noteq> None"
    by (simp add: live_host_def calm_host_def node_at_def)
  then obtain h1 where "run_state (RunStage sample_engine ''r1'' (hd ?stages)) live_host = (Inr (), h1)" and calm: "calm h1"
    using calm_stage_runs [of live_host "hd ?stages"] by (auto simp: live_stages)
  then have stages: "run_state (run_stages (RunStage sample_engine ''r1'') ?stages) live_host = (Completed, h1)"
    using live_simps(2) by (simp add: live_stages get_host_def calm_def)
  have run: "run_state (executeRun (RunStage sample_engine ''r1'') (en_Project sample_engine) ''r1'' ''go'' [''api'']) live_host =
      ((), after_live)"
    using live_runs by (simp add: run_body_def)
  have "present ''r1'' live_host" by (simp add: present_def)
  with run obtain v g s and h2 :: host where v: "run_state (run_stages (RunStage sample_engine ''r1'') ?stages) live_host = (v, h2)"
      and recorded: "run_state (setTerminal ''r1'' s) g = ((), after_live)" "present ''r1'' g"
      and s: "s = (case v of Halted \<Rightarrow> ''cancelled'' | StageFailed \<Rightarrow> ''failed'' | Completed \<Rightarrow> if stopped h2 then ''cancelled'' else ''passed'')"
    using env_server.keeps_stage samel_stage.keeps_RunStage by (rule executeRun_ends)
  from v stages calm s have "s = ''passed''" by (simp add: calm_def)
  have "calm after_live"
    using yieldsD [OF calm_step [OF calm_job.keeps_run_body] live_simps(2) live_runs] .
  show ?thesis
  proof (cases "stopped g")
    case True
    then have "stopped after_live"
      using state_io_relD [OF genv_job.keeps_setTerminal recorded(1)] by (simp add: given_env_def)
    with \<open>calm after_live\<close> show ?thesis by (simp add: calm_def)
  next
    case False
    with setTerminal_sets [OF recorded] \<open>s = ''passed''\<close> show ?thesis by (simp add: concluded_def)
  qed
qed



definition idle_server :: server where
  "idle_server = \<lparr>sv_cancels = [], sv_stopped = [], sv_jobs = [], sv_next = 0, sv_counter = 0\<rparr>"

text \<open>Cancelling the sample's run.\<close>

lemma live_cancel: "(server_step site)\<^sup>*\<^sup>* (idle_server, live_host)
    (snd (fst (run_state (handleRunCancel (Some ''r1'') idle_server) live_host)),
     snd (run_state (handleRunCancel (Some ''r1'') idle_server) live_host))"
  by (rule r_into_rtranclp, rule cancels [where rep = "fst (fst (run_state (handleRunCancel (Some ''r1'') idle_server) live_host))"])
    simp

theorem server_sound_witness:
  "schema_ok (db (base (snd (run_state (handleRunCancel (Some ''r1'') idle_server) live_host))))"
proof -
  have "schema_ok (db (base live_host))" "changes_ok (db (base live_host))"
    by (simp_all add: live_host_def calm_host_def live_tables_def) code_simp+
  from server_sound [OF live_cancel this] show ?thesis by simp
qed


end
