(* ===== verification/IntentStatus.thy ===== *)
theory IntentStatus
  imports Service
begin

text \<open>
  What the server does to the statuses of intents: the interface of a relation on tables that is a matter of
  the intents alone, and that such a relation is respected by every handler and every job.
\<close>

lemma intents_kept [simp]:
  "intents (insert_change c e p now d) = intents d"
  "intents (replace_phase ph d) = intents d"
  "intents (update_run i f d) = intents d" "intents (update_bullet i g d) = intents d"
  "intents (delete_phases_of i d) = intents d" "intents (delete_envelopes_of i d) = intents d"
  "intents (delete_run_row i d) = intents d"
  by (simp_all add: insert_change_def replace_phase_def update_run_def update_bullet_def delete_phases_of_def
      delete_envelopes_of_def delete_run_row_def)

lemma intents_inserted [simp]:
  "insert_envelope v d = Inr (x, d') \<Longrightarrow> intents d' = intents d"
  "insert_artifact a d = Inr (x, d') \<Longrightarrow> intents d' = intents d"
  "insert_delivery r d = Inr (x, d') \<Longrightarrow> intents d' = intents d"
  "insert_run pk row d = Inr (x, d') \<Longrightarrow> intents d' = intents d"
  "insert_bullet b d = Inr (x, d') \<Longrightarrow> intents d' = intents d"
  unfolding insert_envelope_def insert_artifact_def insert_delivery_def insert_run_def insert_bullet_def Let_def
  by (auto split: if_split_asm)

lemma intent_inserted: "insert_intent n d = Inr (x, d') \<Longrightarrow> \<exists>m. intents d' = intents d @ [m] \<and> in_Status m = in_Status n"
  unfolding insert_intent_def by (auto split: if_split_asm)

locale intent_relation = table_relation T for T +
  assumes kept: "intents d' = intents d \<Longrightarrow> T d d'"
    and inserted: "insert_intent n d = Inr (x, d') \<Longrightarrow> in_Status n \<in> {''proposed'', ''in_progress''} \<Longrightarrow> T d d'"
    and updated: "s \<in> {''in_progress'', ''abandoned''} \<Longrightarrow>
      T d (update_intent j (\<lambda>n. n\<lparr>in_Status := s, in_UpdatedAt := now\<rparr>) d)"
    and gated: "T d (update_intent j (\<lambda>n. n\<lparr>in_ShippingGateStatus := s', in_ShippingGateReason := m', in_UpdatedAt := now\<rparr>) d)"
begin

lemmas of_kept = w_exec [OF kept] w_modify [OF kept] w_modify_count [OF kept]

lemma basic [within_intros]:
  "within (on_db T) (AppendChange c e p)" "within (on_db T) (RecordArtifact a)"
  "within (on_db T) (insertDeliveryRow i' c s n f t r)" "within (on_db T) (requireOneRow m k i')"
  unfolding AppendChange_def RecordArtifact_def insertDeliveryRow_def requireOneRow_def
  by (intro within_intros of_kept; auto simp: within_def on_db_def notifyChange_def)+

lemma pk [within_intros]: "within (on_db T) pk_reported_first"
  by (simp add: within_def on_db_def pk_reported_first_def)

lemma transition [within_intros]: "within (on_db T) (recordTransition c e p)"
  unfolding recordTransition_def by (intro within_intros)

lemma retry [within_intros]: "within (on_db T) (retry_from e c s f left n le)"
  by (induction left arbitrary: n le) (auto simp: Let_def intro!: within_intros)

lemma rows [within_intros]:
  "within (on_db T) (RecordEnvelope v)" "within (on_db T) (CreateRun r)" "within (on_db T) (CreateBullet b)"
  "within (on_db T) (UpdateBulletStatus j s)" "within (on_db T) (updateBulletStatusAndReason j s m)"
  "within (on_db T) (SetBulletPRURL j u)"
  unfolding RecordEnvelope_def CreateRun_def assignSlug_def CreateBullet_def UpdateBulletStatus_def
    updateBulletStatusAndReason_def SetBulletPRURL_def Let_def
  by (intro within_intros of_kept; simp)+

lemma runs [within_intros]:
  "within (on_db T) (SetRunBaseBranch j b)" "within (on_db T) (RecordPhase ph)"
  "within (on_db T) (UpdateRunStatus j s)" "within (on_db T) (DeleteRun j)"
  unfolding SetRunBaseBranch_def RecordPhase_def UpdateRunStatus_def DeleteRun_def Let_def
  by (intro within_intros of_kept intents_kept)+

lemma create_intent: "in_Status n \<in> {''proposed'', ''in_progress''} \<Longrightarrow> within (on_db T) (CreateIntent n)"
  unfolding CreateIntent_def Let_def by (intro within_intros w_exec) (erule inserted, simp)

lemma update_intent_status: "s \<in> {''in_progress'', ''abandoned''} \<Longrightarrow> within (on_db T) (UpdateIntentStatus j s)"
  unfolding UpdateIntentStatus_def by (intro within_intros w_modify_count updated)

lemma record_gate [within_intros]: "within (on_db T) (RecordShippingGateResult j b m)"
  unfolding RecordShippingGateResult_def Let_def by (intro within_intros w_modify_count gated)

lemma derived [within_intros]:
  "within (on_db T) (GetRun j)" "within (on_db T) (GetRunByRequestID q)" "within (on_db T) (GetIntent j)"
  "within (on_db T) (ListIntentsByStatus s)" "within (on_db T) (ListBulletsForIntent j)"
  "within (on_db T) (ListEnvelopesForRun j)" "within (on_db T) (AdvanceBulletStatus j s m)"
  unfolding GetRun_def GetRunByRequestID_def GetIntent_def ListIntentsByStatus_def ListBulletsForIntent_def
    ListEnvelopesForRun_def AdvanceBulletStatus_def Let_def
  by (intro within_intros)+

sublocale recorder: phase_recorder T "\<lambda>_. True"
  by unfold_locales (auto intro!: within_intros
      simp: CausationFromLatest_def GetLatestEnvelope_def DeliverEnvelope_def isAlreadyTerminalSuccess_def deliverRetryLoop_def)

end

text \<open>
  When the outcome of a run reaches its bullets, the status of the intent is derived anew; a relation the
  derivation respects is respected by the server.
\<close>

locale derived_relation = intent_relation +
  assumes advanced: "s \<in> {''green'', ''blocked'', ''pending''} \<Longrightarrow> within (on_db T) (AdvanceBulletsForRun j s m)"
begin

sublocale server: server_relation "on_base (on_db T)"
  by unfold_locales
    (auto intro!: within_intros base_store base_context base_file_op advanced create_intent update_intent_status
      simp: ListPhasesForRun_def GetLatestEnvelope_def RenderIntentBrief_def WalkDir_def Let_def)

end

end
