(* ===== verification/Requests.thy ===== *)
theory Requests
  imports Outcomes IntentStatus
begin

text \<open>
  What single requests come to: a plan is started at most once, and a repeated dispatch changes nothing,
  whatever the server does in between and whatever fails.
\<close>

section \<open>A plan is started at most once\<close>

definition settled :: "string \<Rightarrow> tables \<Rightarrow> bool" where
  "settled i d \<longleftrightarrow> (\<exists>n. find (\<lambda>n. in_ID n = i) (intents d) = Some n \<and> in_Status n \<noteq> ''proposed'')"

definition stays_settled :: "string \<Rightarrow> tables \<Rightarrow> tables \<Rightarrow> bool" where
  "stays_settled i d d' \<longleftrightarrow> (settled i d \<longrightarrow> settled i d')"

lemma settled_update:
  assumes "\<And>n. in_ID (f n) = in_ID n" and "\<And>n. in_Status n \<noteq> ''proposed'' \<Longrightarrow> in_Status (f n) \<noteq> ''proposed''"
  shows "stays_settled i d (update_intent j f d)"
  using assms by (auto simp: stays_settled_def settled_def update_intent_def find_update_where)

interpretation settled_rel: intent_relation "stays_settled i"
  by unfold_locales
    (auto intro: settled_update dest!: intent_inserted simp: find_snoc, auto simp: stays_settled_def settled_def find_snoc)

lemma settled_advance: "within (on_db (stays_settled i)) (AdvanceBulletsForRun j s m)"
proof -
  have "within (on_db (stays_settled i)) (UpdateIntentStatus k t)" if "t \<noteq> ''proposed''" for k t
    unfolding UpdateIntentStatus_def using that by (intro within_intros settled_rel.w_modify_count settled_update) simp_all
  then show ?thesis
    unfolding AdvanceBulletsForRun_def advance_bullet_def RecomputeIntentStatus_def Let_def
    by (intro within_intros) (simp add: DeriveIntentStatus_def)
qed

interpretation settled: derived_relation "stays_settled i"
  by unfold_locales (rule settled_advance)

lemma yields_reply:
  assumes "yields P (\<lambda>r h. case r of Inl e \<Rightarrow> S (HttpError code e, sv) h | Inr x \<Rightarrow> Q x h) m"
    and "\<And>x. yields (Q x) S (k x)"
  shows "yields P S (or_reply code sv m k)"
  unfolding or_reply_def
proof (rule yields_bind [OF assms(1)])
  fix r
  show "yields (\<lambda>h. case r of Inl e \<Rightarrow> S (HttpError code e, sv) h | Inr x \<Rightarrow> Q x h) S
      (case r of Inl e \<Rightarrow> State_Monad.return (HttpError code e, sv) | Inr x \<Rightarrow> k x)"
    using assms(2) by (cases r) (auto intro: yields_return)
qed

lemma yields_any: "(\<And>r h. Q r h) \<Longrightarrow> yields P Q m"
  by (simp add: yields_def split: prod.split)

text \<open>A step whose error returns the server unchanged, before anything the conclusion depends on.\<close>

lemma yields_reply_any:
  assumes "\<And>e h. S (HttpError code e, sv) h" and "\<And>x. yields (\<lambda>_. True) S (k x)"
  shows "yields (\<lambda>_. True) S (or_reply code sv m k)"
  by (rule yields_reply [where Q = "\<lambda>_ _. True"]) (use assms in \<open>auto intro: yields_any split: sum.split\<close>)

abbreviation plan_settled :: "string \<Rightarrow> host \<Rightarrow> bool" where
  "plan_settled i h \<equiv> settled i (db (base h))"

lemma settled_step: "state_io_rel (on_base (on_db (stays_settled i))) m \<Longrightarrow> makes (plan_settled i) (plan_settled i) m"
  by (erule makes_step) (auto simp: on_base_def on_db_def stays_settled_def)

lemma bind_Inr:
  assumes "bind_st m f w = (Inr y, w')"
  obtains x w1 where "m w = (Inr x, w1)" "f x w1 = (Inr y, w')"
  using assms by (auto simp: bind_st_def split: prod.splits sum.splits)

lemma UpdateIntentStatus_settles:
  assumes "UpdateIntentStatus i s w = (Inr (), w')" and "s \<noteq> ''proposed''"
  shows "settled i (db w')"
proof -
  from assms(1) obtain now w1 n w2 where
      mod: "modify_count (count_intents i) (update_intent i (\<lambda>i. i\<lparr>in_Status := s, in_UpdatedAt := now\<rparr>)) w1 = (Inr n, w2)"
      and rest: "then_st (requireOneRow n ''intent'' i) (recordTransition ChannelIntent i (JObj [
       (''transition'', JStr ''status''), (''id'', JStr i), (''status'', JStr s)])) w2 = (Inr (), w')"
    unfolding UpdateIntentStatus_def by (blast elim: bind_Inr)
  from rest have n: "n \<noteq> 0"
    by (auto simp: requireOneRow_def throw_def elim!: bind_Inr split: if_splits)
  have "n = count_intents i (db w1)" and db: "db w2 = update_intent i (\<lambda>i. i\<lparr>in_Status := s, in_UpdatedAt := now\<rparr>) (db w1)"
    using mod by (auto simp: modify_count_def exec_def Let_def split: if_splits)
  with n have "find (\<lambda>n. in_ID n = i) (intents (db w1)) \<noteq> None"
    by (auto simp: count_intents_def find_None_iff filter_empty_conv)
  with assms(2) have "settled i (db w2)"
    by (auto simp: settled_def db update_intent_def find_update_where)
  moreover have keep: "within (on_db (stays_settled i)) (then_st (requireOneRow n k j) (recordTransition c e p))" for k j c e p
    by (intro within_intros)
  from keep rest have "on_db (stays_settled i) w2 w'" by (rule withinD)
  ultimately show ?thesis by (simp add: on_db_def stays_settled_def)
qed

lemma approve_settles: "yields (\<lambda>_. True) (\<lambda>r h. case r of Inl e \<Rightarrow> True | Inr x \<Rightarrow> plan_settled i h)
    (saying f args (store_io (UpdateIntentStatus i ''in_progress'')))"
  by (auto simp: yields_def saying_def or_wrap_def store_io_def split: prod.splits sum.splits dest: UpdateIntentStatus_settles)

text \<open>A handler that started a job for a plan leaves it settled; one called on a settled plan starts none.\<close>

lemma approve_started:
  "yields (\<lambda>_. True) (\<lambda>(rep, sv') h. sv_jobs sv' \<noteq> sv_jobs sv \<longrightarrow> plan_settled i h) (handleApprovePlan site i sv)"
proof -
  let ?S = "\<lambda>(rep, sv') h. sv_jobs sv' \<noteq> sv_jobs sv \<longrightarrow> plan_settled i h"
  have unstarted: "yields P ?S (State_Monad.return (r, sv))" for P r
    by (simp add: yields_def)
  have state: "yields (\<lambda>_. True) ?S (writePlanState i sv)"
    unfolding writePlanState_def by (intro yields_reply_any unstarted) simp_all
  have go: "yields (plan_settled i) ?S (createRunAndDispatch site sv proj b rs c q n p j t)" for proj b rs c q n p j t
    using settled_step [OF settled.server.keeps_create_dispatch] by (fastforce simp: yields_def split: prod.splits)
  have dispatch: "yields (plan_settled i) ?S (or_reply 500 sv (each_io approve_bullet bs)
      (\<lambda>_. createRunAndDispatch site sv proj b rs c q n p j t))" for bs proj b rs c q n p j t
  proof (rule yields_reply [where Q = "\<lambda>_. plan_settled i"])
    have "state_io_rel (on_base (on_db (stays_settled i))) (each_io approve_bullet bs)"
      unfolding approve_bullet_def by (intro settled.server.keeps_handler)
    from settled_step [OF this] show "yields (plan_settled i)
        (\<lambda>r h. case r of Inl e \<Rightarrow> ?S (HttpError 500 e, sv) h | Inr x \<Rightarrow> plan_settled i h) (each_io approve_bullet bs)"
      by (fastforce simp: yields_def split: prod.splits sum.splits)
  qed (rule go)
  have approve: "yields (\<lambda>_. True) ?S (or_reply 500 sv (saying f args (store_io (UpdateIntentStatus i ''in_progress''))) k)"
    if "\<And>x. yields (plan_settled i) ?S (k x)" for f args k
    by (rule yields_reply [where Q = "\<lambda>_. plan_settled i", OF _ that])
      (use approve_settles in \<open>fastforce simp: yields_def split: prod.splits sum.splits\<close>)
  show ?thesis
    unfolding handleApprovePlan_def
    by (intro yields_reply_any) (auto intro!: unstarted state approve dispatch yields_reply_any split: option.split)
qed

lemma settled_not_started: "yields (plan_settled i) (\<lambda>(rep, sv') h. sv' = sv) (handleApprovePlan site i sv)"
proof -
  let ?S = "\<lambda>(rep, sv') h. sv' = sv"
  have state: "yields P ?S (writePlanState i sv)" for P
    unfolding writePlanState_def by (rule yields_before [OF yields_reply_any]) (auto intro!: yields_reply_any yields_return)
  have get: "yields (plan_settled i) (\<lambda>r h. case r of Inl e \<Rightarrow> True | Inr n \<Rightarrow> in_Status n \<noteq> ''proposed'')
      (saying f args (store_io (GetIntent i)))" for f args
    by (auto simp: yields_def saying_def or_wrap_def store_io_def GetIntent_def query_row_def exec_def Let_def settled_def
        split: prod.splits sum.splits if_splits option.splits)
  show ?thesis
    unfolding handleApprovePlan_def
  proof (rule yields_reply [where Q = "\<lambda>n h. in_Status n \<noteq> ''proposed''"])
    show "yields (plan_settled i) (\<lambda>r h. case r of Inl e \<Rightarrow> ?S (HttpError 404 e, sv) h | Inr n \<Rightarrow> in_Status n \<noteq> ''proposed'')
        (saying ''plan %q not found: %v'' [i] (store_io (GetIntent i)))"
      using get by (fastforce simp: yields_def split: prod.splits sum.splits)
  qed (use state in \<open>auto simp: yields_def\<close>)
qed

text \<open>
  C5: a plan is started at most once.  After an approval started the work of a plan, no later approval of
  the same plan starts anything, whatever requests and jobs came in between and whatever failed.
\<close>

theorem plan_started_once:
  assumes "run_state (handleApprovePlan site i sv) h = ((rep, sv1), h1)" and "sv_jobs sv1 \<noteq> sv_jobs sv"
    and "(server_step site)\<^sup>*\<^sup>* (sv1, h1) (sv2, h2)"
    and "run_state (handleApprovePlan site i sv2) h2 = ((rep', sv3), h3)"
  shows "sv3 = sv2"
proof -
  from yieldsD [OF approve_started _ assms(1)] assms(2) have "plan_settled i h1" by simp
  moreover from settled.server.steps_keep [OF assms(3), of i] have "stays_settled i (db (base h1)) (db (base h2))"
    by (simp add: on_base_def on_db_def)
  ultimately have "plan_settled i h2" by (simp add: stays_settled_def)
  from yieldsD [OF settled_not_started this assms(4)] show ?thesis by simp
qed


text \<open>A plan that can be approved: its project, its change and its bullet are in place.\<close>

definition sample_site :: site where
  "sample_site = \<lparr>site_yaml = (\<lambda>_. Inr (en_Project sample_engine, MappingNode [(''api'', sample_repo)])),
     site_cwd = [], site_openspec = None, site_entropy = (\<lambda>_. Some (1, 2, 3, 4))\<rparr>"

definition sample_plan :: IntentRecord where
  "sample_plan = (new_intent ''i1'' ''/p.yaml'' ''do it'' ''proposed'')\<lparr>in_ChangeID := ''c1'', in_ChangeRepo := ''api'',
     in_Type := ''feat''\<rparr>"

definition planned_tree :: tree where
  "planned_tree = [([''p.yaml''], File RawEmpty), ([''src'', ''api'', ''openspec'', ''changes'', ''c1''], Dir)]"

definition plan_host :: host where
  "plan_host = calm_host (initial_world (empty_tables\<lparr>intents := [sample_plan],
     bullets := [new_bullet ''i1'' ''i1'' ''proposed'' 0 ''api'']\<rparr>)) planned_tree"

definition no_runs :: "host \<Rightarrow> bool" where
  "no_runs h \<longleftrightarrow> healthy (base h) \<and> runs (db (base h)) = []"

definition planned :: "host \<Rightarrow> bool" where
  "planned h \<longleftrightarrow> no_runs h \<and> io_fault h = (\<lambda>_. Done) \<and> tree h = planned_tree \<and> intents (db (base h)) = [sample_plan] \<and>
     bullets (db (base h)) = [new_bullet ''i1'' ''i1'' ''proposed'' 0 ''api'']"

lemma new_run_created: "yields no_runs (\<lambda>r h. \<exists>x. r = Inr x) (store_io (CreateRun (new_run t p b c w i [])))"
  unfolding yields_def
proof (intro allI impI)
  fix h
  assume "no_runs h"
  then obtain x w' where "CreateRun (new_run t p b c w i []) (base h) = (Inr x, w')"
    using CreateRun_fresh [of "base h" "new_run t p b c w i []"] by (auto simp: new_run_def no_runs_def)
  then show "case run_state (store_io (CreateRun (new_run t p b c w i []))) h of (r, h) \<Rightarrow> \<exists>x. r = Inr x"
    by (simp add: store_io_def)
qed

lemma yields_value: "(x = c \<Longrightarrow> yields P S (k x)) \<Longrightarrow> yields (\<lambda>h. x = c \<and> P h) S (k x)"
  by (auto simp: yields_def)

lemma no_runs_step: "state_io_rel (on_base same_env) m \<Longrightarrow> (\<And>h. runs (db (base (snd (run_state m h)))) = runs (db (base h))) \<Longrightarrow> makes no_runs no_runs m"
  by (auto simp: yields_def no_runs_def split: prod.split dest: env_hostD) (metis snd_conv)

lemma fresh_result:
  assumes "run_state (freshRunID site sv) h = ((i, sv'), k)"
  shows "sv_jobs sv' = sv_jobs sv" "sv_cancels sv' = sv_cancels sv" "db (base k) = db (base h)"
    "healthy (base k) = healthy (base h)"
  using assms by (auto simp: freshRunID_def Let_def now_io_def split: prod.splits if_splits)

lemma dispatch_starts:
  assumes run: "run_state (createRunAndDispatch site sv proj b rs c [] n p i t) h = ((rep, sv'), k)"
    and "i \<noteq> []" and at: "no_runs h"
  shows "length (sv_jobs sv') = Suc (length (sv_jobs sv))"
proof -
  obtain j sv1 h1 where f: "run_state (freshRunID site sv) h = ((j, sv1), h1)"
    by (cases "run_state (freshRunID site sv) h") auto
  let ?cr = "store_io (CreateRun (new_run j (pj_Name proj) b (chg_ID c) t i []))"
  obtain r h2 where cr: "run_state ?cr h1 = (r, h2)" by (cases "run_state ?cr h1")
  have "no_runs h1" using at by (simp add: no_runs_def fresh_result [OF f])
  from yieldsD [OF new_run_created this cr] obtain x where "r = Inr x" ..
  with run assms(2) show ?thesis
    by (auto simp: createRunAndDispatch_def f cr or_reply_def get_host_def start_job_def registerRun_def Let_def
        fresh_result(1) [OF f])
qed


text \<open>The steps of an approval on the sample.\<close>

lemma planned_stores:
  "yields planned (\<lambda>r h. r = Inr sample_plan \<and> planned h) (saying f args (store_io (GetIntent ''i1'')))"
  "yields planned (\<lambda>r h. r = Inr [new_bullet ''i1'' ''i1'' ''proposed'' 0 ''api''] \<and> planned h)
     (store_io (ListBulletsForIntent ''i1''))"
  by (auto simp: yields_def planned_def no_runs_def saying_def or_wrap_def store_io_def GetIntent_def query_row_healthy
      sample_plan_def new_intent_def ListBulletsForIntent_def query_healthy bullets_of_def new_bullet_def)

lemma planned_files:
  "yields planned (\<lambda>r h. (\<exists>p. r = Inr p \<and> pj_Repos p = [(''api'', sample_repo)]) \<and> planned h)
     (saying f args (LoadProject (site_yaml sample_site) (site_cwd sample_site) ''/p.yaml''))"
  "yields planned (\<lambda>r h. (\<exists>c. r = Inr c) \<and> planned h)
     (resolveChange (site_openspec sample_site) (site_cwd sample_site) ''/src/api'' ''c1'' b)"
proof -
  have p: "IsAbs ''/p.yaml''" "Join [] ''/p.yaml'' = [''p.yaml'']" by code_simp+
  have c: "TrimSpace ''/src/api'' = ''/src/api''" "IsAbs ''/src/api''" "\<not> HasPrefix ''/src/api'' ''~/''" "TrimSpace ''c1'' = ''c1''"
    "changeDirFor (Join [] ''/src/api'') ''c1'' = [''src'', ''api'', ''openspec'', ''changes'', ''c1'']"
    "validateChangeID ''c1'' = None"
    by code_simp+
  show "yields planned (\<lambda>r h. (\<exists>p. r = Inr p \<and> pj_Repos p = [(''api'', sample_repo)]) \<and> planned h)
     (saying f args (LoadProject (site_yaml sample_site) (site_cwd sample_site) ''/p.yaml''))"
    by (auto simp: yields_def planned_def no_runs_def saying_def or_wrap_def LoadProject_def load_from_def p ReadFile_def file_op_def
        planned_tree_def node_at_def sample_site_def finish_project_def sample_engine_def collect_repos_def sample_repo_def Let_def)
  show "yields planned (\<lambda>r h. (\<exists>c. r = Inr c) \<and> planned h)
     (resolveChange (site_openspec sample_site) (site_cwd sample_site) ''/src/api'' ''c1'' b)"
    by (auto simp: yields_def planned_def no_runs_def resolveChange_def c get_host_def expandHome_def Let_def existing_change_def
        isDir_def Stat_def file_op_def planned_tree_def node_at_def)
qed

lemma planned_writes:
  "yields planned (\<lambda>r h. r = Inr () \<and> no_runs h \<and> count_bullets ''i1-b1'' (db (base h)) = 1)
     (saying f args (store_io (UpdateIntentStatus ''i1'' ''in_progress'')))"
  "yields (\<lambda>h. no_runs h \<and> count_bullets ''i1-b1'' (db (base h)) = 1) (\<lambda>r h. r = Inr () \<and> no_runs h)
     (each_io approve_bullet [new_bullet ''i1'' ''i1'' ''proposed'' 0 ''api''])"
proof -
  have "show_nat (Suc 0) = ''1''" by code_simp
  then show "yields planned (\<lambda>r h. r = Inr () \<and> no_runs h \<and> count_bullets ''i1-b1'' (db (base h)) = 1)
     (saying f args (store_io (UpdateIntentStatus ''i1'' ''in_progress'')))"
    and "yields (\<lambda>h. no_runs h \<and> count_bullets ''i1-b1'' (db (base h)) = 1) (\<lambda>r h. r = Inr () \<and> no_runs h)
     (each_io approve_bullet [new_bullet ''i1'' ''i1'' ''proposed'' 0 ''api''])"
  by (auto simp: yields_def planned_def no_runs_def saying_def or_wrap_def store_io_def UpdateIntentStatus_def st_simps
      time_now_def modify_count_healthy requireOneRow_def recordTransition_def AppendChange_def exec_healthy notifyChange_def
      count_intents_def sample_plan_def new_intent_def update_intent_def update_bullet_def insert_change_def count_bullets_def new_bullet_def
      approve_bullet_def or_fail_def UpdateBulletStatus_def healthy_def)
qed


lemma yields_reply_ok:
  assumes "yields P (\<lambda>r h. \<exists>x. r = Inr x \<and> Q x h) m" and "\<And>x. yields (Q x) S (k x)"
  shows "yields P S (or_reply code sv m k)"
proof (rule yields_reply [OF _ assms(2)])
  show "yields P (\<lambda>r h. case r of Inl e \<Rightarrow> S (HttpError code e, sv) h | Inr x \<Rightarrow> Q x h) m"
    using assms(1) by (fastforce simp: yields_def split: prod.splits)
qed

lemma sample_approved:
  "yields planned (\<lambda>(rep, sv') h. length (sv_jobs sv') = Suc (length (sv_jobs sv))) (handleApprovePlan sample_site ''i1'' sv)"
proof -
  let ?S = "\<lambda>(rep, sv') h. length (sv_jobs sv') = Suc (length (sv_jobs sv))"
  have go: "yields no_runs ?S (createRunAndDispatch sample_site sv proj b rs c [] n p ''i1'' t)" for proj b rs c n p t
    using dispatch_starts [of sample_site sv proj b rs c n p "''i1''" t] by (fastforce simp: yields_def split: prod.splits)
  have bullets: "yields (\<lambda>h. no_runs h \<and> count_bullets ''i1-b1'' (db (base h)) = 1) ?S
      (or_reply 500 sv (each_io approve_bullet [new_bullet ''i1'' ''i1'' ''proposed'' 0 ''api''])
        (\<lambda>_. createRunAndDispatch sample_site sv proj b rs c [] n p ''i1'' t))" for proj b rs c n p t
    by (rule yields_reply_ok [where Q = "\<lambda>_. no_runs", OF _ go]) (use planned_writes(2) in \<open>fastforce simp: yields_def\<close>)
  have approve: "yields planned ?S (or_reply 500 sv (saying f args (store_io (UpdateIntentStatus ''i1'' ''in_progress''))) (\<lambda>_.
      or_reply 500 sv (each_io approve_bullet [new_bullet ''i1'' ''i1'' ''proposed'' 0 ''api''])
        (\<lambda>_. createRunAndDispatch sample_site sv proj b rs c [] n p ''i1'' t)))" for f args proj b rs c n p t
    by (rule yields_reply_ok [OF _ bullets]) (use planned_writes(1) in \<open>fastforce simp: yields_def\<close>)
  have plan: "in_Status sample_plan = ''proposed''" "in_Project sample_plan = ''/p.yaml''" "in_ChangeRepo sample_plan = ''api''"
      "in_ChangeID sample_plan = ''c1''"
    by (simp_all add: sample_plan_def new_intent_def)
  have repo: "repo_Path sample_repo = ''/src/api''" "TrimSpace ''/src/api'' \<noteq> []"
    by (simp add: sample_repo_def) code_simp
  show ?thesis
    unfolding handleApprovePlan_def
    apply (rule yields_reply_ok [where Q = "\<lambda>n h. n = sample_plan \<and> planned h"])
    subgoal using planned_stores(1) by (simp add: yields_def)
    apply (rule yields_fact, simp add: plan)
    apply (rule yields_reply_ok [where Q = "\<lambda>bs h. bs = [new_bullet ''i1'' ''i1'' ''proposed'' 0 ''api''] \<and> planned h"])
    subgoal using planned_stores(2) by (simp add: yields_def)
    apply (rule yields_fact, simp only:)
    apply (rule yields_reply_ok [where Q = "\<lambda>p h. pj_Repos p = [(''api'', sample_repo)] \<and> planned h"])
    subgoal using planned_files(1) by (fastforce simp: yields_def split: prod.splits)
    apply (rule yields_fact, simp add: plan repo del: each_io.simps)
    apply (rule yields_reply_ok [where Q = "\<lambda>_. planned"])
    subgoal using planned_files(2) by (fastforce simp: yields_def split: prod.splits)
    by (rule approve)
qed

abbreviation approved :: "server \<times> host" where
  "approved \<equiv> (snd (fst (run_state (handleApprovePlan sample_site ''i1'' idle_server) plan_host)),
     snd (run_state (handleApprovePlan sample_site ''i1'' idle_server) plan_host))"

theorem plan_started_once_witness:
  "length (sv_jobs (fst approved)) = 1 \<and>
   snd (fst (run_state (handleApprovePlan sample_site ''i1'' (fst approved)) (snd approved))) = fst approved"
proof -
  obtain rep sv1 h1 where first: "run_state (handleApprovePlan sample_site ''i1'' idle_server) plan_host = ((rep, sv1), h1)"
    by (cases "run_state (handleApprovePlan sample_site ''i1'' idle_server) plan_host") auto
  obtain rep' sv3 h3 where again: "run_state (handleApprovePlan sample_site ''i1'' sv1) h1 = ((rep', sv3), h3)"
    by (cases "run_state (handleApprovePlan sample_site ''i1'' sv1) h1") auto
  have "planned plan_host"
    by (simp add: planned_def no_runs_def plan_host_def calm_host_def empty_tables_def)
  from yieldsD [OF sample_approved this first] have jobs: "length (sv_jobs sv1) = 1" by (simp add: idle_server_def)
  then have "sv_jobs sv1 \<noteq> sv_jobs idle_server" by (auto simp: idle_server_def)
  from plan_started_once [OF first this rtranclp.rtrancl_refl again] jobs show ?thesis
    by (simp add: first again)
qed

section \<open>A repeated dispatch changes nothing\<close>

text \<open>A claimed key refuses the insert, whatever else fails.\<close>

lemma CreateRun_claimed:
  assumes "TrimSpace (run_RequestID r) \<noteq> []"
    and "Some (TrimSpace (run_RequestID r)) \<in> col_request_id ` set (runs (db w))"
    and "CreateRun r w = (res, w')"
  shows "(\<exists>e. res = Inl e) \<and> db w' = db w"
proof -
  have ins: "\<exists>e. insert_run pk row (db w) = Inl e" if "col_request_id row = Some (TrimSpace (run_RequestID r))" for pk row
  proof -
    from assms(2) obtain r' where "r' \<in> set (runs (db w))" "col_request_id r' = Some (TrimSpace (run_RequestID r))" by auto
    then have "list_ex (\<lambda>r'. col_request_id r' = Some (TrimSpace (run_RequestID r))) (runs (db w))"
      by (auto simp: list_ex_iff)
    then show ?thesis by (simp add: insert_run_def Let_def that)
  qed
  obtain a w1 where a: "assignSlug r w = (a, w1)" by (cases "assignSlug r w")
  have 1: "db w1 = db w"
    using a by (auto simp: assignSlug_def st_simps query_def exec_def Let_def split: if_splits)
  show ?thesis
  proof (cases a)
    case (Inl e)
    with a 1 assms(3) show ?thesis by (auto simp: CreateRun_def bind_st_def)
  next
    case (Inr r1)
    with a have req: "run_RequestID r1 = run_RequestID r"
      by (auto simp: assignSlug_def st_simps query_def exec_def Let_def split: if_splits sum.splits)
    let ?r = "r1\<lparr>run_CreatedAt := clock w1 (reads w1), run_UpdatedAt := clock w1 (reads w1),
      run_RequestID := TrimSpace (run_RequestID r)\<rparr>"
    have "col_request_id (run_row ?r) = Some (TrimSpace (run_RequestID r))"
      using assms(1) by simp
    then obtain e where e: "insert_run (report_pk_first w1) (run_row ?r) (db w) = Inl e" using ins by blast
    then have "\<exists>e. fst (exec (insert_run (report_pk_first w1) (run_row ?r)) (w1\<lparr>reads := Suc (reads w1)\<rparr>)) = Inl e"
      "db (snd (exec (insert_run (report_pk_first w1) (run_row ?r)) (w1\<lparr>reads := Suc (reads w1)\<rparr>))) = db w"
      using 1 by (simp_all add: exec_def Let_def)
    with assms(3) a Inr req show ?thesis
      by (auto simp: CreateRun_def st_simps time_now_def pk_reported_first_def Let_def split: if_splits prod.splits)
  qed
qed


text \<open>What leaves the tables as they are.\<close>

interpretation frozen: table_relation "\<lambda>d d'. d' = d"
  by unfold_locales simp_all

abbreviation tables_are :: "tables \<Rightarrow> host \<Rightarrow> bool" where
  "tables_are d h \<equiv> db (base h) = d"

lemma frozen_step: "state_io_rel (on_base (on_db (\<lambda>d d'. d' = d))) m \<Longrightarrow> makes (tables_are d) (tables_are d) m"
  by (erule makes_step) (simp add: on_base_def on_db_def)

abbreviation freezes :: "'a io \<Rightarrow> bool" where
  "freezes m \<equiv> state_io_rel (on_base (on_db (\<lambda>d d'. d' = d))) m"

lemma frozen_saying: "freezes m \<Longrightarrow> freezes (saying f args m)"
  unfolding saying_def or_wrap_def by (intro keeps_intros)

lemma frozen_load: "freezes (saying f args (LoadProject parse cwd p))"
  unfolding LoadProject_def load_from_def fileExists_def file_op_defs
  by (intro frozen_saying keeps_intros frozen.base_file_op)

lemma frozen_resolve: "freezes (resolveChange bin cwd p c b)"
  unfolding resolveChange_def existing_change_def derived_change_def scaffoldChange_def isDir_def Let_def file_op_defs
  by (intro keeps_intros frozen.base_file_op frozen.base_command)

lemma frozen_get: "freezes (saying f args (store_io (GetRunByRequestID q)))"
  unfolding GetRunByRequestID_def Let_def
  by (intro frozen_saying frozen.base_store) (auto intro!: within_intros)

text \<open>A handler's step that changes no table and no job, whatever it answers.\<close>

lemma yields_reply_frozen:
  assumes "freezes m" and "\<And>e h. tables_are d h \<Longrightarrow> S (HttpError code e, sv) h"
    and "\<And>x. yields (tables_are d) S (k x)"
  shows "yields (tables_are d) S (or_reply code sv m k)"
  by (rule yields_reply [OF yields_mono [OF frozen_step [OF assms(1)]] assms(3)]) (auto split: sum.split intro: assms(2))

abbreviation unmoved :: "tables \<Rightarrow> server \<Rightarrow> reply \<times> server \<Rightarrow> host \<Rightarrow> bool" where
  "unmoved d sv out h \<equiv> tables_are d h \<and> snd out = sv\<lparr>sv_counter := sv_counter (snd out)\<rparr>"

lemma frozen_existing: "yields (tables_are d) (unmoved d sv) (respondWithExistingRun site (sv\<lparr>sv_counter := c\<rparr>) q p n ch)"
proof -
  have again: "freezes (if b then saying f args (resolveChange x y z u v) else State_Monad.return r)" for b f args x y z u v r
    by (simp add: frozen_saying frozen_resolve frozen.base.k_return)
  show ?thesis
    unfolding respondWithExistingRun_def
    by (intro yields_reply_frozen frozen_get again) (auto intro!: yields_return)
qed

lemma yields_never: "yields (\<lambda>_. False) Q m"
  by (simp add: yields_def)

lemma frozen_dispatch:
  assumes "TrimSpace q \<noteq> []" and "Some (TrimSpace q) \<in> col_request_id ` set (runs d)"
  shows "yields (tables_are d) (unmoved d sv) (createRunAndDispatch site sv proj b rs c (TrimSpace q) n p i t)"
proof -
  have create: "yields (tables_are d) (\<lambda>r h. (\<exists>e. r = Inl e) \<and> tables_are d h) (store_io (CreateRun (new_run j pn b ci t ii (TrimSpace q))))"
    for j pn ci ii
  proof -
    have "(\<exists>e. res = Inl e) \<and> db w' = d" if "CreateRun (new_run j pn b ci t ii (TrimSpace q)) w = (res, w')" "db w = d" for res w w'
      using CreateRun_claimed [OF _ _ that(1)] assms that(2) by (simp add: new_run_def)
    then show ?thesis by (simp add: yields_def store_io_def split: prod.split)
  qed
  have fresh: "yields (tables_are d) (\<lambda>r h. snd r = sv\<lparr>sv_counter := sv_counter (snd r)\<rparr> \<and> tables_are d h) (freshRunID site sv)"
    by (simp add: yields_def freshRunID_def Let_def now_io_def split: prod.split)
  have refused: "yields (\<lambda>h. (\<exists>e. r = Inl e) \<and> tables_are d h) (unmoved d sv)
     (case r of Inl e \<Rightarrow> if \<not> errors_Is e ErrDuplicateRequestID then State_Monad.return (HttpError 500 (g e), sv\<lparr>sv_counter := m\<rparr>)
         else respondWithExistingRun site (sv\<lparr>sv_counter := m\<rparr>) (TrimSpace q) p n c | Inr x \<Rightarrow> rest x)" for r g m and rest :: "RunRecord \<Rightarrow> (reply \<times> server) io"
    by (cases r) (auto intro!: yields_return frozen_existing yields_never)
  have go: "yields (tables_are d) (unmoved d sv) (store_io (CreateRun (new_run j pn b ci t ii (TrimSpace q))) \<bind> (\<lambda>r. 
      case r of Inl e \<Rightarrow> if \<not> errors_Is e ErrDuplicateRequestID then State_Monad.return (HttpError 500 (g e), sv\<lparr>sv_counter := m\<rparr>)
         else respondWithExistingRun site (sv\<lparr>sv_counter := m\<rparr>) (TrimSpace q) p n c | Inr x \<Rightarrow> rest x))" for j pn ci ii g m rest
    by (rule yields_bind [OF create refused])
  show ?thesis
    unfolding createRunAndDispatch_def Let_def
  proof (rule yields_bind [OF fresh], rule yields_fact, goal_cases)
    case (1 x)
    then obtain j m where x: "x = (j, sv\<lparr>sv_counter := m\<rparr>)" by (cases x) auto
    show ?case unfolding x prod.case by (rule go)
  qed
qed

lemma frozen_handler:
  assumes "TrimSpace (dr_RequestID req) \<noteq> []" and "Some (TrimSpace (dr_RequestID req)) \<in> col_request_id ` set (runs d)"
    and "dr_Repos req \<noteq> []"
  shows "yields (tables_are d) (unmoved d sv) (handleDispatch site (Some req) sv)"
proof -
  have pure: "freezes (refuse oe)" "freezes (State_Monad.return x)" for oe and x :: 'a
    by (simp_all add: refuse_def frozen.base.k_return)
  have bad: "yields (tables_are d) (unmoved d sv) (bad_request m sv)" for m
    by (simp add: bad_request_def yields_def)
  show ?thesis
    unfolding handleDispatch_def
    by (auto simp: assms(3) Let_def intro!: bad yields_reply_frozen frozen_load frozen_resolve pure frozen.base.k_return
        frozen_dispatch [OF assms(1,2)])
qed


definition retried_host :: host where
  "retried_host = live_host\<lparr>base := (base live_host)\<lparr>db := live_tables\<lparr>runs := map (\<lambda>r. r\<lparr>col_request_id := Some ''key''\<rparr>) (runs live_tables)\<rparr>\<rparr>\<rparr>"

definition sample_request :: DispatchRequest where
  "sample_request = \<lparr>dr_Project = ''/p.yaml'', dr_Brief = ''brief'', dr_Repos = [''api''], dr_Agent = [], dr_Type = [],
     dr_ChangeID = ''c1'', dr_RequestID = '' key ''\<rparr>"



end
