(* ===== verification/Jobs.thy ===== *)
theory Jobs
imports Requests
begin

text \<open>
  The jobs of a server: how handlers start them, and that a run never has two of them.
\<close>

abbreviation statuses_are :: "life \<Rightarrow> host \<Rightarrow> bool" where
  "statuses_are f h \<equiv> status_of (db (base h)) = f"

lemma statuses_samel: "state_io_rel (on_base (on_db same_life)) m \<Longrightarrow> makes (statuses_are f) (statuses_are f) m"
  by (erule makes_step) (simp add: samel_hostD)

lemma statuses_frozen: "freezes m \<Longrightarrow> makes (statuses_are f) (statuses_are f) m"
  by (erule makes_step) (simp add: on_base_def on_db_def)

lemma yields_reply_keeps:
  assumes "makes P P m" and "\<And>e h. P h \<Longrightarrow> S (HttpError code e, sv) h" and "\<And>x. yields P S (k x)"
  shows "yields P S (or_reply code sv m k)"
  by (rule yields_reply [OF yields_mono [OF assms(1)] assms(3)]) (auto split: sum.split intro: assms(2))

text \<open>A successful insert of a run is of a run the table did not hold.\<close>

lemma CreateRun_new:
  assumes "CreateRun r w = (Inr x, w')"
  shows "status_of (db w) (run_ID r) = None \<and> status_of (db w') (run_ID r) \<noteq> None"
proof -
  from assms obtain r1 w1 where slug: "assignSlug r w = (Inr r1, w1)"
    by (auto simp: CreateRun_def elim!: bind_Inr)
  then have same: "db w1 = db w" "run_ID r1 = run_ID r"
    by (auto simp: assignSlug_def st_simps query_def exec_def Let_def split: if_splits sum.splits)
  define row where "row = run_row (r1\<lparr>run_CreatedAt := clock w1 (reads w1), run_UpdatedAt := clock w1 (reads w1),
      run_RequestID := TrimSpace (run_RequestID r1)\<rparr>)"
  have row: "run_ID row = run_ID r" by (simp add: row_def run_row_def RunRecord.defs same)
  from assms slug obtain w2 c e p where
      ins: "exec (insert_run (report_pk_first w1) row) (w1\<lparr>reads := Suc (reads w1)\<rparr>) = (Inr (), w2)"
      and tr: "recordTransition c e p w2 = (Inr (), w')"
    by (fastforce simp: CreateRun_def st_simps time_now_def pk_reported_first_def Let_def row_def same
        split: sum.splits prod.splits if_splits)
  from ins have "insert_run (report_pk_first w1) row (db w) = Inr ((), db w2)"
    by (auto simp: exec_def Let_def same split: if_splits sum.splits)
  then have "\<not> list_ex (\<lambda>r'. run_ID r' = run_ID row) (runs (db w))" and "db w2 = (db w)\<lparr>runs := runs (db w) @ [row]\<rparr>"
    by (auto simp: insert_run_def Let_def split: if_splits)
  then have "status_of (db w) (run_ID r) = None \<and> status_of (db w2) (run_ID r) \<noteq> None"
    by (auto simp: status_of_def row find_None_iff find_snoc list_ex_iff split: option.splits)
  with withinD [OF samel_transition tr] show ?thesis by (simp add: on_db_def same_life_def)
qed

text \<open>
  What a handler does to the jobs: nothing, or it starts one of a run that is \<open>ok\<close>.  The counter of the
  identifiers may have moved.
\<close>

definition at_most_starts :: "(string \<Rightarrow> bool) \<Rightarrow> server \<Rightarrow> server \<Rightarrow> bool" where
  "at_most_starts ok sv sv' \<longleftrightarrow> (\<exists>n. sv' = sv\<lparr>sv_counter := n\<rparr>) \<or>
     (\<exists>n j. ok (job_run j) \<and> sv' = start_job j (sv\<lparr>sv_counter := n\<rparr>))"

lemma starts_nothing [simp]: "at_most_starts ok sv sv" "at_most_starts ok sv (sv\<lparr>sv_counter := n\<rparr>)"
  by (auto simp: at_most_starts_def intro: exI [of _ "sv_counter sv"])

lemma starts_job: "ok (job_run j) \<Longrightarrow> at_most_starts ok sv (start_job j (sv\<lparr>sv_counter := n\<rparr>))"
  by (auto simp: at_most_starts_def)

section \<open>Taking up a run again\<close>

definition taken_up :: "life \<Rightarrow> server \<Rightarrow> string \<Rightarrow> bool" where
  "taken_up f sv i \<longleftrightarrow> \<not> isRunActive i sv \<and> f i \<noteq> None"

lemma resume_starts:
  "taken_up f sv (run_ID run) \<Longrightarrow> yields P (\<lambda>(rep, sv') h. at_most_starts (taken_up f sv) sv sv') (resume_run sv run proj)"
  using starts_job [where sv = sv and n = "sv_counter sv" and ok = "taken_up f sv"]
  by (auto simp: yields_def resume_run_def split: prod.splits)

lemma fix_starts:
  "taken_up f sv (run_ID run) \<Longrightarrow> yields P (\<lambda>(rep, sv') h. at_most_starts (taken_up f sv) sv sv') (fix_run sv run proj)"
  using starts_job [where sv = sv and n = "sv_counter sv" and ok = "taken_up f sv"]
  by (auto simp: yields_def fix_run_def split: prod.splits option.splits if_splits)

lemma admit_starts:
  assumes "\<And>run proj P. taken_up f sv (run_ID run) \<Longrightarrow>
      yields P (\<lambda>(rep, sv') h. at_most_starts (taken_up f sv) sv sv') (k run proj)"
  shows "yields (statuses_are f) (\<lambda>(rep, sv') h. at_most_starts (taken_up f sv) sv sv') (admit site msg req sv k)"
proof -
  have get: "yields (statuses_are f) (\<lambda>r h. case r of Inl _ \<Rightarrow> True | Inr run \<Rightarrow> f (run_ID run) \<noteq> None) (store_io (GetRun i))" for i
    unfolding yields_def
  proof (intro allI impI, goal_cases)
    case (1 h)
    obtain r w where r: "GetRun i (base h) = (r, w)" by (cases "GetRun i (base h)")
    then have run: "run_state (store_io (GetRun i)) h = (r, h\<lparr>base := w\<rparr>)" by (simp add: store_io_def)
    from yieldsD [OF statuses_samel [OF samel_engine.get_run] 1 run] have "status_of (db w) = f" by simp
    then have "f (run_ID x) \<noteq> None" if "r = Inr x" for x using GetRun_status [of i "base h" x w] r that by auto
    then show ?case by (simp add: run split: sum.split)
  qed
  have load: "yields (\<lambda>_. f (run_ID run) \<noteq> None) (\<lambda>(rep, sv') h. at_most_starts (taken_up f sv) sv sv') (or_reply c sv m (k run))"
    if "\<not> isRunActive (run_ID run) sv" for c m run
    by (rule yields_reply [where Q = "\<lambda>_ _. f (run_ID run) \<noteq> None"])
      (use assms [of run] that in \<open>auto simp: taken_up_def yields_def split: sum.split prod.split\<close>)
  show ?thesis
    unfolding admit_def bad_request_def
    by (auto intro!: yields_return yields_bind [OF get] load [simplified] split: sum.split)
qed


section \<open>Starting new work\<close>

text \<open>A run that was not in the table before, and is in it afterwards.\<close>

definition created :: "life \<Rightarrow> life \<Rightarrow> string \<Rightarrow> bool" where
  "created f g i \<longleftrightarrow> f i = None \<and> g i \<noteq> None"

abbreviation starts_created :: "life \<Rightarrow> server \<Rightarrow> reply \<times> server \<Rightarrow> host \<Rightarrow> bool" where
  "starts_created f sv out h \<equiv> at_most_starts (created f (status_of (db (base h)))) sv (snd out)"

lemma at_most_starts_counter [simp]: "at_most_starts ok (sv\<lparr>sv_counter := n\<rparr>) sv' = at_most_starts ok sv sv'"
  by (simp add: at_most_starts_def)

lemma existing_starts: "yields P (starts_created f sv) (respondWithExistingRun site sv q p n c)"
  by (auto simp: yields_def respondWithExistingRun_def or_reply_def split: prod.splits sum.splits)

lemma record_work_samel: "state_io_rel (on_base (on_db same_life)) (record_work t i p b rs)"
proof -
  have "state_io_rel (on_base (on_db same_life)) (create_bullets f mk n rs)" for f mk n
    by (induction rs arbitrary: n)
      (auto simp: saying_def intro!: samel_engine.keeps_engine samel.base_store within_intros)
  then show ?thesis
    unfolding record_work_def saying_def or_wrap_def by (intro samel_engine.keeps_engine samel.base_store within_intros)
qed

lemma create_dispatch_starts:
  "yields (statuses_are f) (starts_created f sv) (createRunAndDispatch site sv proj b rs c q n p i t)"
proof -
  have fresh: "yields (statuses_are f) (\<lambda>r h. (\<exists>n. snd r = sv\<lparr>sv_counter := n\<rparr>) \<and> statuses_are f h) (freshRunID site sv)"
    by (auto simp: yields_def freshRunID_def Let_def now_io_def split: prod.splits)
  have create: "yields (statuses_are f) (\<lambda>r h. case r of Inl _ \<Rightarrow> True | Inr _ \<Rightarrow> created f (status_of (db (base h))) j)
      (store_io (CreateRun (new_run j pn b ci t ii q)))" for j pn ci ii
    using CreateRun_new [where r = "new_run j pn b ci t ii q"]
    by (fastforce simp: yields_def store_io_def created_def new_run_def split: prod.splits sum.splits)
  have keep: "makes (\<lambda>h. created f (status_of (db (base h))) j) (\<lambda>h. created f (status_of (db (base h))) j) m"
    if "state_io_rel (on_base (on_db same_life)) m" for j and m :: "(err + unit) io"
    using that by (rule makes_step) (simp add: samel_hostD)
  have keep': "makes (\<lambda>h. created f (status_of (db (base h))) j) (\<lambda>h. created f (status_of (db (base h))) j) m"
    if "state_io_rel (on_base (on_db same_life)) m" for j and m :: "host io"
    using that by (rule makes_step) (simp add: samel_hostD)
  have go: "yields (\<lambda>h. created f (status_of (db (base h))) j) (starts_created f sv)
      (or_reply 500 (sv\<lparr>sv_counter := m\<rparr>) w (\<lambda>_. do {
         h \<leftarrow> get_host;
         State_Monad.return (rep, start_job (Execute j (e h) b rs) (sv\<lparr>sv_counter := m\<rparr>)) }))"
    if "state_io_rel (on_base (on_db same_life)) w" for j m rep e and w :: "(err + unit) io"
    by (rule yields_reply_keeps [OF keep [OF that]])
      (auto simp: starts_job [where n = m] intro!: yields_return yields_bind [OF keep' [OF samel.base.k_get]])
  show ?thesis
    unfolding createRunAndDispatch_def Let_def
  proof (rule yields_bind [OF fresh], rule yields_fact, goal_cases)
    case (1 x)
    then obtain j m where x: "x = (j, sv\<lparr>sv_counter := m\<rparr>)" by (cases x) auto
    show ?case
      unfolding x prod.case
    proof (rule yields_bind [OF create], goal_cases)
      case (1 r)
      show ?case
        using existing_starts [where sv = "sv\<lparr>sv_counter := m\<rparr>"]
        by (cases r) (auto intro!: yields_return go record_work_samel samel.base.k_return)
    qed
  qed
qed


lemma propose_starts: "yields P (starts_created f sv) (propose site sv proj b rs c n t)"
  by (auto simp: yields_def propose_def or_reply_def freshRunID_def now_io_def Let_def split: prod.splits sum.splits)

lemma dispatch_starts_created: "yields (statuses_are f) (starts_created f sv) (handleDispatch site req sv)"
proof -
  have pure: "freezes (refuse oe)" "freezes (State_Monad.return x)" for oe and x :: 'a
    by (simp_all add: refuse_def frozen.base.k_return)
  have bad: "yields P (starts_created f sv) (bad_request m sv)" for P m
    by (simp add: bad_request_def yields_def)
  show ?thesis
    unfolding handleDispatch_def
    by (auto simp: Let_def intro!: bad propose_starts create_dispatch_starts yields_reply_keeps [OF statuses_frozen]
        frozen_load frozen_resolve pure frozen.base.k_return split: option.split)
qed

lemma approve_starts_created: "yields (statuses_are f) (starts_created f sv) (handleApprovePlan site i sv)"
proof -
  have state: "yields P (starts_created f sv) (writePlanState i sv)" for P
    by (auto simp: yields_def writePlanState_def or_reply_def split: prod.splits sum.splits)
  have samel: "state_io_rel (on_base (on_db same_life)) (saying g as (store_io (GetIntent i)))"
      "state_io_rel (on_base (on_db same_life)) (store_io (ListBulletsForIntent i))"
      "state_io_rel (on_base (on_db same_life)) (saying g as (store_io (UpdateIntentStatus i s)))"
      "state_io_rel (on_base (on_db same_life)) (each_io approve_bullet bs)" for g as s bs
    unfolding approve_bullet_def saying_def or_wrap_def
    by (intro samel_engine.keeps_engine samel.base_store within_intros)+
  show ?thesis
    unfolding handleApprovePlan_def
    by (auto intro!: state create_dispatch_starts yields_reply_keeps [OF statuses_frozen [OF frozen_load]]
        yields_reply_keeps [OF statuses_frozen [OF frozen_resolve]] yields_reply_keeps [OF statuses_samel [OF samel(1)]]
        yields_reply_keeps [OF statuses_samel [OF samel(2)]] yields_reply_keeps [OF statuses_samel [OF samel(3)]]
        yields_reply_keeps [OF statuses_samel [OF samel(4)]] yields_return split: option.split)
qed

section \<open>One job per run\<close>

definition one_job :: "life \<Rightarrow> server \<Rightarrow> bool" where
  "one_job f sv \<longleftrightarrow> distinct (map (\<lambda>(t, j). job_run j) (sv_jobs sv)) \<and>
     (\<forall>(t, j) \<in> set (sv_jobs sv). map_of (sv_cancels sv) (job_run j) = Some t \<and> f (job_run j) \<noteq> None)"

lemma one_jobD: "one_job f sv \<Longrightarrow> (t, j) \<in> set (sv_jobs sv) \<Longrightarrow> map_of (sv_cancels sv) (job_run j) = Some t \<and> f (job_run j) \<noteq> None"
  by (auto simp: one_job_def)

lemma one_job_mono: "one_job f sv \<Longrightarrow> dom f \<subseteq> dom g \<Longrightarrow> one_job g sv"
  by (fastforce simp: one_job_def)

lemma one_job_starts:
  assumes "one_job f sv" and "at_most_starts ok sv sv'" and "dom f \<subseteq> dom g"
    and "\<And>i. ok i \<Longrightarrow> (\<not> isRunActive i sv \<or> f i = None) \<and> g i \<noteq> None"
  shows "one_job g sv'"
proof -
  have old: "one_job g sv" using assms(1,3) by (rule one_job_mono)
  from assms(2) consider n where "sv' = sv\<lparr>sv_counter := n\<rparr>"
    | n j where "ok (job_run j)" "sv' = start_job j (sv\<lparr>sv_counter := n\<rparr>)"
    by (auto simp: at_most_starts_def)
  then show ?thesis
  proof cases
    case 2
    have other: "job_run j' \<noteq> job_run j" if "(t', j') \<in> set (sv_jobs sv)" for t' j'
      using one_jobD [OF assms(1) that] assms(4) [OF 2(1)] by (auto simp: isRunActive_def)
    then have "distinct (map (\<lambda>(t, j). job_run j) (sv_jobs sv'))"
      using old by (fastforce simp: one_job_def 2(2) start_job_def registerRun_def)
    moreover have "map_of (sv_cancels sv') (job_run j') = Some t' \<and> g (job_run j') \<noteq> None"
      if "(t', j') \<in> set (sv_jobs sv')" for t' j'
      using that other [of t' j'] one_jobD [OF old, of t' j'] assms(4) [OF 2(1)]
      by (auto simp: 2(2) start_job_def registerRun_def update_conv')
    ultimately show ?thesis by (auto simp: one_job_def)
  qed (use old in \<open>simp add: one_job_def\<close>)
qed

lemma run_job_server: "run_state (run_job tj sv) h = (sv', k) \<Longrightarrow>
    sv' = finishRun (job_run (snd tj)) (sv\<lparr>sv_jobs := removeAll tj (sv_jobs sv)\<rparr>)"
  by (auto simp: run_job_def split: prod.splits)

lemma one_job_finish:
  assumes "one_job f sv" and "tj \<in> set (sv_jobs sv)" and "dom f \<subseteq> dom g"
  shows "one_job g (finishRun (job_run (snd tj)) (sv\<lparr>sv_jobs := removeAll tj (sv_jobs sv)\<rparr>))"
proof -
  have "inj_on (\<lambda>(t, j). job_run j) (set (sv_jobs sv))" using assms(1) by (simp add: one_job_def distinct_map)
  then have other: "job_run j' \<noteq> job_run (snd tj)" if "(t', j') \<in> set (sv_jobs sv)" "(t', j') \<noteq> tj" for t' j'
    using inj_onD [of "\<lambda>(t, j). job_run j" _ "(t', j')" tj] assms(2) that by (cases tj) auto
  have "distinct (map (\<lambda>(t, j). job_run j) (removeAll tj (sv_jobs sv)))"
    using assms(1) by (auto simp: one_job_def distinct_map distinct_removeAll intro: inj_on_subset)
  moreover have "map_of (AList.delete (job_run (snd tj)) (sv_cancels sv)) (job_run j') = Some t' \<and> g (job_run j') \<noteq> None"
    if "(t', j') \<in> set (removeAll tj (sv_jobs sv))" for t' j'
    using that other [of t' j'] one_jobD [OF one_job_mono [OF assms(1,3)], of t' j'] by (simp add: delete_conv')
  ultimately show ?thesis by (auto simp: one_job_def finishRun_def)
qed



text \<open>The handlers that start nothing.\<close>

lemma cancel_server: "run_state (handleRunCancel i' sv) h = ((rep, sv'), k) \<Longrightarrow>
    sv_jobs sv' = sv_jobs sv \<and> sv_cancels sv' = sv_cancels sv"
  by (auto simp: handleRunCancel_def bad_request_def cancelRun_def or_reply_def Let_def
      split: prod.splits sum.splits option.splits if_splits)

lemma quiet_server:
  "run_state (handlePlans sv) h = ((rep, sv'), k) \<Longrightarrow> sv' = sv"
  "run_state (handleRejectPlan i sv) h = ((rep, sv'), k) \<Longrightarrow> sv' = sv"
  "run_state (handleRunDelete i' sv) h = ((rep, sv'), k) \<Longrightarrow> sv' = sv"
  by (auto simp: handlePlans_def handleRejectPlan_def handleRunDelete_def writePlanState_def bad_request_def or_reply_def
      split: prod.splits sum.splits if_splits)

lemma taken_up_starts:
  "yields (statuses_are f) (\<lambda>(rep, sv') h. at_most_starts (taken_up f sv) sv sv') (handleRunResume site i' sv)"
  "yields (statuses_are f) (\<lambda>(rep, sv') h. at_most_starts (taken_up f sv) sv sv') (handleRunFix site i' sv)"
  unfolding handleRunResume_def handleRunFix_def
  by (intro admit_starts resume_starts fix_starts; assumption)+

lemma step_one_job:
  assumes "server_step site (sv, h) (sv', k)" and "dom (status_of (db (base h))) \<subseteq> dom (status_of (db (base k)))"
    and "one_job (status_of (db (base h))) sv"
  shows "one_job (status_of (db (base k))) sv'"
  using assms(1)
proof (rule server_stepE, goal_cases)
  case (1 req rep)
  from yieldsD [OF dispatch_starts_created refl 1] have "at_most_starts (created (status_of (db (base h))) (status_of (db (base k)))) sv sv'" by simp
  from one_job_starts [OF assms(3) this assms(2)] show ?case by (simp add: created_def)
next
  case (3 i rep)
  from yieldsD [OF approve_starts_created refl 3] have "at_most_starts (created (status_of (db (base h))) (status_of (db (base k)))) sv sv'" by simp
  from one_job_starts [OF assms(3) this assms(2)] show ?case by (simp add: created_def)
next
  case (5 i' rep)
  from one_job_mono [OF assms(3,2)] cancel_server [OF 5] show ?case by (simp add: one_job_def)
next
  case (7 i' rep)
  from yieldsD [OF taken_up_starts(1) refl 7] have "at_most_starts (taken_up (status_of (db (base h))) sv) sv sv'" by simp
  from one_job_starts [OF assms(3) this assms(2)] assms(2) show ?case by (auto simp: taken_up_def)
next
  case (8 i' rep)
  from yieldsD [OF taken_up_starts(2) refl 8] have "at_most_starts (taken_up (status_of (db (base h))) sv) sv sv'" by simp
  from one_job_starts [OF assms(3) this assms(2)] assms(2) show ?case by (auto simp: taken_up_def)
next
  case (9 tj)
  from one_job_finish [OF assms(3) 9(1) assms(2)] run_job_server [OF 9(2)] show ?case by simp
qed (use one_job_mono [OF assms(3,2)] quiet_server in \<open>metis\<close>)+

text \<open>
  C6: a run never has two jobs.  Starting from a server without jobs and as long as no run is deleted, the
  jobs of the server are of different runs, and the cancellation of each run reaches its job, in whatever
  order requests and jobs run and whatever fails.
\<close>

theorem one_job_per_run:
  assumes "(\<lambda>c c'. server_step site c c' \<and>
      dom (status_of (db (base (snd c)))) \<subseteq> dom (status_of (db (base (snd c')))))\<^sup>*\<^sup>* (sv, h) (sv', k)"
    and "sv_jobs sv = []"
  shows "distinct (map (\<lambda>(t, j). job_run j) (sv_jobs sv')) \<and>
    list_all (\<lambda>(t, j). map_of (sv_cancels sv') (job_run j) = Some t) (sv_jobs sv')"
proof -
  have "one_job (status_of (db (base (snd c')))) (fst c')"
    if "(\<lambda>c c'. server_step site c c' \<and>
      dom (status_of (db (base (snd c)))) \<subseteq> dom (status_of (db (base (snd c')))))\<^sup>*\<^sup>* c c'" "sv_jobs (fst c) = []" for c c'
    using that
  proof (induction rule: rtranclp_induct)
    case base
    then show ?case by (simp add: one_job_def)
  next
    case (step c1 c2)
    then show ?case by (cases c1, cases c2) (auto intro: step_one_job)
  qed
  from this [OF assms(1)] assms(2) show ?thesis by (auto simp: one_job_def list_all_iff)
qed

theorem one_job_per_run_witness:
  "length (sv_jobs (fst approved)) = 1 \<and> distinct (map (\<lambda>(t, j). job_run j) (sv_jobs (fst approved)))"
proof -
  obtain rep sv1 h1 where first: "run_state (handleApprovePlan sample_site ''i1'' idle_server) plan_host = ((rep, sv1), h1)"
    by (cases "run_state (handleApprovePlan sample_site ''i1'' idle_server) plan_host") auto
  have "planned plan_host"
    by (simp add: planned_def no_runs_def plan_host_def calm_host_def empty_tables_def)
  from yieldsD [OF sample_approved this first] have "length (sv_jobs sv1) = 1" by (simp add: idle_server_def)
  moreover have "(\<lambda>c c'. server_step sample_site c c' \<and>
      dom (status_of (db (base (snd c)))) \<subseteq> dom (status_of (db (base (snd c')))))\<^sup>*\<^sup>* (idle_server, plan_host) (sv1, h1)"
    by (rule r_into_rtranclp)
      (use server_step.approves [OF first] in \<open>simp add: status_of_def plan_host_def calm_host_def empty_tables_def dom_def\<close>)
  ultimately show ?thesis
    using one_job_per_run [of sample_site idle_server plan_host sv1 h1] unfolding first by (simp add: idle_server_def)
qed

end
