(* ===== verification/PullRequests.thy ===== *)
theory PullRequests
  imports Requests Retention
begin

text \<open>
  \<open>internal/changerequest\<close> and the handlers of \<open>internal/ui/server.go\<close> around a change request: sealing a
  bullet and opening a pull request for it, observing whether it was merged, and the shipping gates of an
  intent.

  The registry of providers holds one, GitHub, which works through the \<open>gh\<close> program.  \<open>text_json\<close> is the
  document an output encodes.  The context of a request is the cancellation flag of its host.  A handler's
  answer is a status code with an error, or what the handler encodes.
\<close>

section \<open>Which provider a remote belongs to\<close>

text \<open>The text before and after the first occurrence of \<open>sep\<close>.\<close>

fun cut_at :: "string \<Rightarrow> string \<Rightarrow> (string \<times> string) option" where
  "cut_at sep [] = (if sep = [] then Some ([], []) else None)"
| "cut_at sep (c # s) =
     (if HasPrefix (c # s) sep then Some ([], drop (length sep) (c # s))
      else map_option (\<lambda>(a, b). (c # a, b)) (cut_at sep s))"

definition known_host :: "string \<Rightarrow> string option" where
  "known_host host = (if host = [] then None else Some host)"

definition hostOf :: "string \<Rightarrow> string option" where
  "hostOf remoteURL =
     (let remoteURL = TrimSpace remoteURL in
      if remoteURL = [] then None
      else case cut_at ''://'' remoteURL of
        Some (_, rest) \<Rightarrow>
          let rest = (case cut_at ''@'' rest of Some (_, r) \<Rightarrow> r | None \<Rightarrow> rest) in
          known_host (takeWhile (\<lambda>c. c \<noteq> CHR ''/'' \<and> c \<noteq> CHR '':'') rest)
      | None \<Rightarrow> (case cut_at ''@'' remoteURL of
          Some (_, rest) \<Rightarrow> (case cut_at '':'' rest of Some (host, _) \<Rightarrow> known_host host | None \<Rightarrow> None)
        | None \<Rightarrow> None))"

definition DetectProvider :: "string \<Rightarrow> err + string" where
  "DetectProvider remoteURL = (case hostOf remoteURL of
     None \<Rightarrow> Inl (Errorf ''cannot determine a host from remote %q; refusing to open a change request'' [remoteURL] None)
   | Some host \<Rightarrow> if host = ''github.com'' then Inr ''github''
       else Inl (Errorf ''no change-request provider registered for host %q'' [host] None))"

section \<open>GitHub\<close>

record StatusResult =
  sr_Merged :: bool
  sr_MergedIntoBranch :: string

record FoundRef =
  fr_URL :: string
  fr_Merged :: bool
  fr_MergedIntoBranch :: string

type_synonym text_json = "string \<Rightarrow> raw_json"

definition work_dir :: "path \<Rightarrow> string \<Rightarrow> path" where
  "work_dir cwd p = (if IsAbs p then Join [] p else Join cwd p)"

definition gh :: "path \<Rightarrow> string list \<Rightarrow> request" where
  "gh dir args = \<lparr>req_exe = ''gh'', req_args = args, req_env = [], req_dir = dir, req_budget = None\<rparr>"

definition gh_Create :: "path \<Rightarrow> string \<Rightarrow> string \<Rightarrow> string \<Rightarrow> string \<Rightarrow> (err + string) io" where
  "gh_Create dir baseBranch head title body = do {
     out \<leftarrow> run_command True (gh dir
       [''pr'', ''create'', ''--base'', baseBranch, ''--title'', title, ''--body'', body, ''--head'', head]);
     State_Monad.return (case exit_error out of
       Some e \<Rightarrow> Inl (Errorf ''gh pr create: %v: %s'' [e, TrimSpace (out_text out)] None)
     | None \<Rightarrow>
         let url = TrimSpace (out_text out) in
         if \<not> HasPrefix url ''https://'' then Inl (Errorf ''gh pr create did not return a URL: %s'' [url] None)
         else Inr url) }"

text \<open>The object \<open>gh\<close> describes a change request with.\<close>

record gh_view =
  gv_URL :: string
  gv_State :: string
  gv_BaseRefName :: string

definition gh_view_fields :: "string \<Rightarrow> json \<Rightarrow> gh_view \<Rightarrow> gh_view \<times> bool" where
  "gh_view_fields k v x =
     (if k = ''state'' then set_string (\<lambda>s x. x\<lparr>gv_State := s\<rparr>) v x
      else if k = ''baserefname'' then set_string (\<lambda>s x. x\<lparr>gv_BaseRefName := s\<rparr>) v x
      else if k = ''mergedat'' then (x, case v of JStr _ \<Rightarrow> True | JNull \<Rightarrow> True | _ \<Rightarrow> False)
      else (x, True))"

definition gh_entry_fields :: "string \<Rightarrow> json \<Rightarrow> gh_view \<Rightarrow> gh_view \<times> bool" where
  "gh_entry_fields k v x =
     (if k = ''url'' then set_string (\<lambda>s x. x\<lparr>gv_URL := s\<rparr>) v x
      else if k = ''state'' then set_string (\<lambda>s x. x\<lparr>gv_State := s\<rparr>) v x
      else if k = ''baserefname'' then set_string (\<lambda>s x. x\<lparr>gv_BaseRefName := s\<rparr>) v x
      else (x, True))"

definition zero_view :: gh_view where
  "zero_view = \<lparr>gv_URL = [], gv_State = [], gv_BaseRefName = []\<rparr>"

definition status_args :: "string \<Rightarrow> string list" where
  "status_args url = [''pr'', ''view'', url, ''--json'', ''state,mergedAt,baseRefName'']"

definition gh_Status :: "text_json \<Rightarrow> path \<Rightarrow> string \<Rightarrow> (err + StatusResult) io" where
  "gh_Status doc dir url = do {
     out \<leftarrow> run_command True (gh dir (status_args url));
     State_Monad.return (case exit_error out of
       Some e \<Rightarrow> Inl (Errorf ''gh pr view %s: %w'' [url] (Some (Other e)))
     | None \<Rightarrow> (case Unmarshal (set_struct gh_view_fields) (doc (out_text out)) zero_view of
         (v, Some e) \<Rightarrow> Inl (Errorf ''parsing gh pr view output for %s: %w'' [url] (Some e))
       | (v, None) \<Rightarrow> Inr \<lparr>sr_Merged = (gv_State v = ''MERGED''), sr_MergedIntoBranch = gv_BaseRefName v\<rparr>)) }"

definition gh_FindByHead :: "text_json \<Rightarrow> path \<Rightarrow> string \<Rightarrow> (err + FoundRef option) io" where
  "gh_FindByHead doc dir head = do {
     out \<leftarrow> run_command True (gh dir
       [''pr'', ''list'', ''--head'', head, ''--state'', ''all'', ''--json'', ''url,state,baseRefName'', ''--limit'', ''1'']);
     State_Monad.return (case exit_error out of
       Some e \<Rightarrow> Inl (Errorf ''gh pr list --head %s: %w'' [head] (Some (Other e)))
     | None \<Rightarrow> (case Unmarshal (\<lambda>x v. set_list (set_struct gh_entry_fields) zero_view (\<lambda>vs _. vs) v x)
           (doc (out_text out)) [] of
         (vs, Some e) \<Rightarrow> Inl (Errorf ''parsing gh pr list output for head %s: %w'' [head] (Some e))
       | ([], None) \<Rightarrow> Inr None
       | (p # _, None) \<Rightarrow> Inr (Some \<lparr>fr_URL = gv_URL p, fr_Merged = (gv_State p = ''MERGED''),
           fr_MergedIntoBranch = gv_BaseRefName p\<rparr>))) }"

section \<open>Answers\<close>

type_synonym 'a response = "(nat \<times> err) + 'a"

definition or_refuse :: "nat \<Rightarrow> (err + 'a) io \<Rightarrow> ('a \<Rightarrow> 'b response io) \<Rightarrow> 'b response io" where
  "or_refuse code m k = do {
     r \<leftarrow> m;
     case r of Inl e \<Rightarrow> State_Monad.return (Inl (code, e)) | Inr x \<Rightarrow> k x }"

definition refused :: "nat \<Rightarrow> string \<Rightarrow> 'b response io" where
  "refused code m = State_Monad.return (Inl (code, Other m))"

section \<open>Shipping gates\<close>

text \<open>Every gate runs, in the order of names; whether all passed and the message of the first that did not.\<close>

fun shipping_loop :: "(string \<times> string) list \<Rightarrow> string list \<Rightarrow> string list \<Rightarrow> bool \<Rightarrow> string \<Rightarrow> (bool \<times> string) io" where
  "shipping_loop gates worktrees [] allPassed reason = State_Monad.return (allPassed, reason)"
| "shipping_loop gates worktrees (name # names) allPassed reason = do {
     res \<leftarrow> RunShippingGate name (case map_of gates name of Some c \<Rightarrow> c | None \<Rightarrow> []) worktrees;
     h \<leftarrow> get_host;
     let failed = (case res of Inr g \<Rightarrow> \<not> gr_Passed g | Inl _ \<Rightarrow> True);
     if failed then shipping_loop gates worktrees names False
       (if reason = [] then err_text h (Errorf ''shipping gate %q failed'' [name] None) else reason)
     else shipping_loop gates worktrees names allPassed reason }"

definition evaluateShippingGate :: "Project option \<Rightarrow> string \<Rightarrow> BulletRecord list \<Rightarrow> unit io" where
  "evaluateShippingGate proj intentID bs = (case proj of
     None \<Rightarrow> do { _ \<leftarrow> store_io (RecordShippingGateResult intentID True []); State_Monad.return () }
   | Some p \<Rightarrow>
       if pj_ShippingGates p = [] then do { _ \<leftarrow> store_io (RecordShippingGateResult intentID True []); State_Monad.return () }
       else do {
         (allPassed, reason) \<leftarrow> shipping_loop (pj_ShippingGates p) (map bu_Worktree bs)
           (sort (map fst (pj_ShippingGates p))) True [];
         _ \<leftarrow> store_io (RecordShippingGateResult intentID allPassed reason);
         State_Monad.return () })"

section \<open>Opening a pull request\<close>

record PRRequest =
  cr_RunID :: string
  cr_Project :: string
  cr_Repo :: string
  cr_Title :: string
  cr_Body :: string

text \<open>
  The path of the repository: the named one, else one of the project.  The order of the list is the order the
  map is ranged over, which the language leaves open.
\<close>

definition pr_repo_path :: "host \<Rightarrow> Project option \<Rightarrow> string \<Rightarrow> string" where
  "pr_repo_path h proj repo = (case proj of
     None \<Rightarrow> []
   | Some p \<Rightarrow>
       let named = (if repo = [] then [] else case map_of (pj_Repos p) repo of
             Some rc \<Rightarrow> expandHome h (repo_Path rc) | None \<Rightarrow> []) in
       if named \<noteq> [] then named
       else case pj_Repos p of [] \<Rightarrow> [] | (_, rc) # _ \<Rightarrow> expandHome h (repo_Path rc))"

text \<open>
  The data of the envelope is put together with \<open>%q\<close>, whose escapes of other control characters are not those
  of the encoding; text beyond ASCII is taken as printable.
\<close>

definition json_quotable :: "char \<Rightarrow> bool" where
  "json_quotable c = (let n = of_char c :: nat in n \<ge> 32 \<and> n \<noteq> 127 \<or> n \<in> {8, 9, 10, 12, 13})"

definition pr_data :: "string \<Rightarrow> string \<Rightarrow> string \<Rightarrow> string \<Rightarrow> raw_json" where
  "pr_data prURL branch remoteBase prError =
     (if list_all json_quotable (prURL @ branch @ remoteBase @ prError)
      then RawDoc (JObj [(''pr_url'', JStr prURL), (''branch'', JStr branch), (''remote_base'', JStr remoteBase),
        (''error'', JStr prError)])
      else RawBad prURL)"

record pr_outcome =
  pr_URL :: string
  pr_Branch :: string
  pr_Error :: string

text \<open>What is asked of the provider once the bullet is sealed, and the address that is recorded for it.\<close>

definition open_request :: "path \<Rightarrow> PRRequest \<Rightarrow> RunRecord \<Rightarrow> BulletRecord list \<Rightarrow> string \<Rightarrow> string \<Rightarrow> string \<Rightarrow> string \<Rightarrow>
    string \<Rightarrow> (err + pr_outcome) io" where
  "open_request cwd req run bs repoPath rawRemote remoteBase branch title =
     (if repoPath = [] \<or> rawRemote = [] then State_Monad.return (Inr
        \<lparr>pr_URL = ''local://worktree/'' @ branch, pr_Branch = branch, pr_Error = []\<rparr>)
      else case DetectProvider rawRemote of
        Inl e \<Rightarrow> State_Monad.return (Inl (Errorf ''sealed, but no change request could be opened: %v'' [] (Some e)))
      | Inr _ \<Rightarrow> do {
          h \<leftarrow> get_host;
          let wt = FleetDir h (cr_RunID req) (cr_Repo req);
          there \<leftarrow> isDir wt;
          res \<leftarrow> gh_Create (if there then wt else work_dir cwd repoPath) (run_BaseBranch run) branch title (cr_Body req);
          case res of
            Inr url \<Rightarrow> do {
              _ \<leftarrow> (case find (\<lambda>b. bu_Repo b = cr_Repo req) bs of
                None \<Rightarrow> State_Monad.return (Inr ())
              | Some b \<Rightarrow> store_io (SetBulletPRURL (bu_ID b) url));
              State_Monad.return (Inr \<lparr>pr_URL = url, pr_Branch = branch, pr_Error = []\<rparr>) }
          | Inl e \<Rightarrow> do {
              h \<leftarrow> get_host;
              State_Monad.return (Inr \<lparr>pr_URL = remoteBase @ ''/compare/'' @ branch @ ''?expand=1'', pr_Branch = branch,
                pr_Error = Text (err_text h e)\<rparr>) } })"

definition pr_envelope :: "PRRequest \<Rightarrow> pr_outcome \<Rightarrow> string \<Rightarrow> string \<Rightarrow> time \<Rightarrow> string option \<Rightarrow> EnvelopeRecord" where
  "pr_envelope req out title remoteBase now causation =
     \<lparr>env_ID = ''pr-'' @ cr_RunID req @ ''-'' @ show_int now, env_RunID = cr_RunID req, env_Repo = cr_Repo req,
      env_Stage = ''review'',
      env_Summary = (if pr_Error out \<noteq> [] then ''PR Ready (Local Branch '' @ [CHR 0x27] @ pr_Branch out @ [CHR 0x27] @ ''): '' @ title
        else ''PR Staged: '' @ title),
      env_Artifacts = [pr_URL out, ''.sgt/review.json''],
      env_Data = pr_data (pr_URL out) (pr_Branch out) remoteBase (pr_Error out), env_CreatedAt = 0,
      env_Type = ''pr.staged'', env_SchemaVersion = ''1'', env_OccurredAt = now, env_PublishedAt = 0,
      env_Producer = ''sgt/ui'', env_CorrelationID = cr_RunID req, env_CausationID = causation, env_PhaseID = []\<rparr>"

text \<open>The bullets of the run's intent; when all are sealed or merged, the shipping gates are evaluated.\<close>

definition intent_bullets :: "Project option \<Rightarrow> RunRecord \<Rightarrow> BulletRecord list io" where
  "intent_bullets proj run =
     (if run_IntentID run = [] then State_Monad.return []
      else do {
        res \<leftarrow> store_io (ListBulletsForIntent (run_IntentID run));
        case res of
          Inl _ \<Rightarrow> State_Monad.return []
        | Inr bs \<Rightarrow>
            if AllBulletsSealedOrMerged bs then do {
              _ \<leftarrow> evaluateShippingGate proj (run_IntentID run) bs;
              State_Monad.return bs }
            else State_Monad.return bs })"

definition record_request :: "PRRequest \<Rightarrow> pr_outcome \<Rightarrow> string \<Rightarrow> string \<Rightarrow> unit io" where
  "record_request req out title remoteBase = do {
     now \<leftarrow> now_io;
     c \<leftarrow> store_io (CausationFromLatest (cr_RunID req) (cr_Repo req));
     _ \<leftarrow> store_io (RecordEnvelope (pr_envelope req out title remoteBase now (case c of Inr c \<Rightarrow> c | Inl _ \<Rightarrow> None)));
     State_Monad.return () }"

definition handleCreatePR :: "site \<Rightarrow> PRRequest option \<Rightarrow> pr_outcome response io" where
  "handleCreatePR site req = (case req of
     None \<Rightarrow> refused 400 ''invalid PR payload''
   | Some req \<Rightarrow>
       if cr_RunID req = [] then refused 400 ''invalid PR payload''
       else or_refuse 409 (store_io (SealBulletForRun (cr_RunID req) (cr_Repo req))) (\<lambda>_. do {
         loaded \<leftarrow> LoadProject (site_yaml site) (site_cwd site) (cr_Project req);
         let proj = (case loaded of Inr p \<Rightarrow> Some p | Inl _ \<Rightarrow> None);
         h \<leftarrow> get_host;
         let repoPath = pr_repo_path h proj (cr_Repo req);
         remoteBase \<leftarrow> (if repoPath \<noteq> [] then resolveGitRemoteURL repoPath else State_Monad.return []);
         rawRemote \<leftarrow> (if repoPath \<noteq> [] then rawOriginRemote repoPath else State_Monad.return []);
         or_refuse 500 (saying ''loading run %q: %v'' [cr_RunID req] (store_io (GetRun (cr_RunID req)))) (\<lambda>run. do {
           bs \<leftarrow> intent_bullets proj run;
           let branch = BranchNameForRun (run_ID run) (run_Type run) (run_ChangeID run);
           let title = (if cr_Title req = [] then
             ''feat('' @ cr_Project req @ ''): verified patch for run ['' @ cr_RunID req @ '']'' else cr_Title req);
           or_refuse 400 (open_request (site_cwd site) req run bs repoPath rawRemote remoteBase branch title) (\<lambda>out. do {
             _ \<leftarrow> record_request req out title remoteBase;
             State_Monad.return (Inr out) }) }) }))"

section \<open>Observing whether a change request was merged\<close>

record mergeCheckResult =
  mc_BulletID :: string
  mc_Repo :: string
  mc_Status :: string
  mc_Error :: string

definition unmerged_result :: "BulletRecord \<Rightarrow> mergeCheckResult" where
  "unmerged_result b = \<lparr>mc_BulletID = bu_ID b, mc_Repo = bu_Repo b, mc_Status = bu_Status b, mc_Error = []\<rparr>"

text \<open>Go on with a value, or answer the result with the text of the error.\<close>

definition or_report :: "mergeCheckResult \<Rightarrow> (err + 'a) io \<Rightarrow> ('a \<Rightarrow> mergeCheckResult io) \<Rightarrow> mergeCheckResult io" where
  "or_report res m k = do {
     r \<leftarrow> m;
     h \<leftarrow> get_host;
     case r of Inl e \<Rightarrow> State_Monad.return (res\<lparr>mc_Error := err_text h e\<rparr>) | Inr x \<Rightarrow> k x }"

text \<open>The merge status of one change request, and what it makes of the bullet.\<close>

definition settle_bullet :: "text_json \<Rightarrow> path \<Rightarrow> RunRecord \<Rightarrow> string \<Rightarrow> mergeCheckResult \<Rightarrow> string \<Rightarrow> mergeCheckResult io" where
  "settle_bullet doc dir run bulletID res prURL =
     or_report res (gh_Status doc dir prURL) (\<lambda>status.
     if \<not> sr_Merged status then State_Monad.return res
     else if sr_MergedIntoBranch status = run_BaseBranch run then
       or_report res (store_io (AdvanceBulletStatus bulletID ''merged'' [])) (\<lambda>_.
       State_Monad.return (res\<lparr>mc_Status := ''merged''\<rparr>))
     else do {
       h \<leftarrow> get_host;
       let reason = err_text h (Errorf ''change request merged into %q, expected %q''
         [sr_MergedIntoBranch status, run_BaseBranch run] None);
       or_report res (store_io (AdvanceBulletStatus bulletID ''blocked'' reason)) (\<lambda>_.
       State_Monad.return (res\<lparr>mc_Status := ''blocked'', mc_Error := reason\<rparr>)) })"

definition checkBulletMergeStatus :: "text_json \<Rightarrow> path \<Rightarrow> Project option \<Rightarrow> RunRecord \<Rightarrow> BulletRecord \<Rightarrow> mergeCheckResult io" where
  "checkBulletMergeStatus doc cwd proj run b = do {
     let res = unmerged_result b;
     h \<leftarrow> get_host;
     let repoPath = (case proj of None \<Rightarrow> [] | Some p \<Rightarrow> (case map_of (pj_Repos p) (bu_Repo b) of
       Some rc \<Rightarrow> expandHome h (repo_Path rc) | None \<Rightarrow> []));
     rawRemote \<leftarrow> (if repoPath \<noteq> [] then rawOriginRemote repoPath else State_Monad.return []);
     if rawRemote = [] then State_Monad.return (res\<lparr>mc_Error :=
       err_text h (Errorf ''repo %q has no configured remote; cannot check merge status'' [bu_Repo b] None)\<rparr>)
     else or_report res (State_Monad.return (DetectProvider rawRemote)) (\<lambda>_.
       let dir = work_dir cwd repoPath in
       if bu_PRURL b \<noteq> [] then settle_bullet doc dir run (bu_ID b) res (bu_PRURL b)
       else or_report res (gh_FindByHead doc dir (BranchNameForRun (run_ID run) (run_Type run) (run_ChangeID run))) (\<lambda>found.
         case found of
           None \<Rightarrow> State_Monad.return res
         | Some f \<Rightarrow>
             or_report res (store_io (SetBulletPRURL (bu_ID b) (fr_URL f))) (\<lambda>_.
             or_report res (store_io (AdvanceBulletStatus (bu_ID b) ''sealed'' [])) (\<lambda>_.
             settle_bullet doc dir run (bu_ID b) (res\<lparr>mc_Status := ''sealed''\<rparr>) (fr_URL f))))) }"

definition merge_eligible :: "BulletRecord \<Rightarrow> bool" where
  "merge_eligible b \<longleftrightarrow> bu_Status b = ''sealed'' \<and> bu_PRURL b \<noteq> [] \<or> bu_Status b = ''green'' \<and> bu_PRURL b = []"

fun check_bullets :: "(BulletRecord \<Rightarrow> mergeCheckResult io) \<Rightarrow> BulletRecord list \<Rightarrow> mergeCheckResult list io" where
  "check_bullets check [] = State_Monad.return []"
| "check_bullets check (b # bs) =
     (if \<not> merge_eligible b then check_bullets check bs
      else do {
        r \<leftarrow> check b;
        rs \<leftarrow> check_bullets check bs;
        State_Monad.return (r # rs) })"

definition handleCheckMergeStatus :: "text_json \<Rightarrow> site \<Rightarrow> string \<Rightarrow> mergeCheckResult list response io" where
  "handleCheckMergeStatus doc site runID =
     (if runID = [] then refused 400 ''run_id is required''
      else or_refuse 500 (saying ''loading run %q: %v'' [runID] (store_io (GetRun runID))) (\<lambda>run.
        if run_IntentID run = [] then State_Monad.return (Inr [])
        else do {
          res \<leftarrow> store_io (ListBulletsForIntent (run_IntentID run));
          case res of
            Inl _ \<Rightarrow> State_Monad.return (Inr [])
          | Inr bs \<Rightarrow> do {
              loaded \<leftarrow> LoadProject (site_yaml site) (site_cwd site) (run_Project run);
              rs \<leftarrow> check_bullets (checkBulletMergeStatus doc (site_cwd site)
                (case loaded of Inr p \<Rightarrow> Some p | Inl _ \<Rightarrow> None) run) bs;
              State_Monad.return (Inr rs) } }))"

text \<open>The latest run of each intent stands for it.\<close>

definition reference_run :: "RunRecord list \<Rightarrow> string \<Rightarrow> RunRecord option" where
  "reference_run rs intentID = (if intentID = [] then None else find (\<lambda>r. run_IntentID r = intentID) (rev rs))"

fun reconcile_bullets :: "(RunRecord \<Rightarrow> BulletRecord \<Rightarrow> mergeCheckResult io) \<Rightarrow> RunRecord list \<Rightarrow> BulletRecord list \<Rightarrow> unit io" where
  "reconcile_bullets check rs [] = State_Monad.return ()"
| "reconcile_bullets check rs (b # bs) =
     (if bu_Status b \<noteq> ''sealed'' \<or> bu_PRURL b = [] then reconcile_bullets check rs bs
      else case reference_run rs (bu_IntentID b) of
        None \<Rightarrow> reconcile_bullets check rs bs
      | Some run \<Rightarrow> do {
          _ \<leftarrow> check run b;
          reconcile_bullets check rs bs })"

definition reconcilePendingMergeStatus :: "text_json \<Rightarrow> site \<Rightarrow> string \<Rightarrow> unit io" where
  "reconcilePendingMergeStatus doc site project =
     (if project = [] \<or> project = ''all'' then State_Monad.return ()
      else do {
        res \<leftarrow> store_io (AllBulletsForAnalytics project);
        case res of
          Inl _ \<Rightarrow> State_Monad.return ()
        | Inr bs \<Rightarrow>
            if \<not> list_ex (\<lambda>b. bu_Status b = ''sealed'' \<and> bu_PRURL b \<noteq> []) bs then State_Monad.return ()
            else do {
              res \<leftarrow> store_io (AllRunsForAnalytics project);
              case res of
                Inl _ \<Rightarrow> State_Monad.return ()
              | Inr rs \<Rightarrow> do {
                  loaded \<leftarrow> LoadProject (site_yaml site) (site_cwd site) project;
                  case loaded of
                    Inl _ \<Rightarrow> State_Monad.return ()
                  | Inr p \<Rightarrow> reconcile_bullets (checkBulletMergeStatus doc (site_cwd site) (Some p)) rs bs } } })"

section \<open>Reading bullets and deliveries, quarantine\<close>

definition handleBullets :: "string \<Rightarrow> string \<Rightarrow> BulletRecord list response io" where
  "handleBullets intentID runID =
     (if intentID \<noteq> [] then or_refuse 500 (store_io (ListBulletsForIntent intentID)) (\<lambda>bs. State_Monad.return (Inr bs))
      else if runID = [] then refused 400 ''missing run_id or intent_id''
      else or_refuse 404 (store_io (GetRun runID)) (\<lambda>run.
        if run_IntentID run = [] then State_Monad.return (Inr [])
        else or_refuse 500 (store_io (ListBulletsForIntent (run_IntentID run))) (\<lambda>bs. State_Monad.return (Inr bs))))"

definition handleDeliveryHistory :: "string \<Rightarrow> DeliveryRecord list response io" where
  "handleDeliveryHistory runID =
     (if runID = [] then refused 400 ''missing run_id''
      else or_refuse 500 (store_io (ListDeliveriesForRun runID)) (\<lambda>ds. State_Monad.return (Inr ds)))"

text \<open>The body is \<open>None\<close> when it does not decode, else the envelope, the consumer and the reason.\<close>

definition handleDeliveryQuarantine :: "(string \<times> string \<times> string) option \<Rightarrow> (string \<times> string) response io" where
  "handleDeliveryQuarantine req = (case req of
     None \<Rightarrow> refused 400 ''invalid request body: envelope_id, consumer, and reason are all required''
   | Some (envelopeID, consumer, reason) \<Rightarrow>
       if envelopeID = [] \<or> consumer = [] \<or> reason = [] then
         refused 400 ''invalid request body: envelope_id, consumer, and reason are all required''
       else or_refuse 409 (store_io (QuarantineDelivery envelopeID consumer reason)) (\<lambda>_.
         State_Monad.return (Inr (envelopeID, consumer))))"

section \<open>A bullet is merged only when its change request was observed merged\<close>

text \<open>No bullet becomes merged.\<close>

definition no_new_merged :: "tables \<Rightarrow> tables \<Rightarrow> bool" where
  "no_new_merged d d' \<longleftrightarrow> (\<forall>b' \<in> set (bullets d'). bu_Status b' = ''merged'' \<longrightarrow>
     (\<exists>b \<in> set (bullets d). bu_ID b = bu_ID b' \<and> bu_Status b = ''merged''))"

interpretation unmerged: table_relation no_new_merged
  by unfold_locales (fastforce simp: no_new_merged_def)+

lemma unmerged_bullets: "bullets d' = bullets d \<Longrightarrow> no_new_merged d d'"
  by (auto simp: no_new_merged_def)

lemma unmerged_update:
  assumes "\<And>b. bu_ID (f b) = bu_ID b" and "\<And>b. bu_Status (f b) = ''merged'' \<Longrightarrow> bu_Status b = ''merged''"
  shows "no_new_merged d (update_bullet i f d)"
  using assms by (fastforce simp: no_new_merged_def update_bullet_def update_where_def)

lemma unmerged_transition [within_intros]: "within (on_db no_new_merged) (recordTransition c e p)"
  unfolding recordTransition_def AppendChange_def
  by (intro within_intros unmerged.w_exec unmerged.w_modify)
    (auto simp: insert_change_def within_def on_db_def notifyChange_def intro: unmerged_bullets)

lemma unmerged_methods [within_intros]:
  "within (on_db no_new_merged) (requireOneRow m k i)"
  "within (on_db no_new_merged) (GetRun j)" "within (on_db no_new_merged) (ListBulletsForIntent j)"
  "within (on_db no_new_merged) (SetBulletPRURL j u)"
  "s \<noteq> ''merged'' \<Longrightarrow> within (on_db no_new_merged) (AdvanceBulletStatus j s m')"
  unfolding requireOneRow_def GetRun_def ListBulletsForIntent_def SetBulletPRURL_def AdvanceBulletStatus_def
    updateBulletStatusAndReason_def
  by (intro within_intros unmerged.w_modify_count unmerged_update; simp)+

text \<open>What a provider must have answered: a view of a change request as merged into the branch.\<close>

definition reports_merged :: "text_json \<Rightarrow> string \<Rightarrow> string \<Rightarrow> bool" where
  "reports_merged doc out branch \<longleftrightarrow> (case Unmarshal (set_struct gh_view_fields) (doc out) zero_view of
     (v, None) \<Rightarrow> gv_State v = ''MERGED'' \<and> gv_BaseRefName v = branch | _ \<Rightarrow> False)"

definition observed_merge :: "text_json \<Rightarrow> string \<Rightarrow> host \<Rightarrow> host \<Rightarrow> bool" where
  "observed_merge doc branch h k \<longleftrightarrow> (\<exists>n t url dir. length (trace h) \<le> n \<and> n < length (trace k) \<and>
     trace k ! n = (gh dir (status_args url), True) \<and>
     reports_merged doc (out_text (proc h n (gh dir (status_args url)) t)) branch)"

definition merges_observed :: "text_json \<Rightarrow> string \<Rightarrow> host \<Rightarrow> host \<Rightarrow> bool" where
  "merges_observed doc branch h k \<longleftrightarrow> given_env h k \<and>
     (no_new_merged (db (base h)) (db (base k)) \<or> observed_merge doc branch h k)"

lemma observed_extend:
  assumes "observed_merge doc b h k" and "given_env k l"
  shows "observed_merge doc b h l"
proof -
  from assms(1) obtain n t url dir where n: "length (trace h) \<le> n" "n < length (trace k)"
      "trace k ! n = (gh dir (status_args url), True)"
      "reports_merged doc (out_text (proc h n (gh dir (status_args url)) t)) b"
    by (auto simp: observed_merge_def)
  from assms(2) obtain zs where "trace l = trace k @ zs" by (auto simp: given_env_def prefix_def)
  with n show ?thesis
    unfolding observed_merge_def
    by (intro exI [of _ n] exI [of _ t] exI [of _ url] exI [of _ dir]) (simp add: nth_append)
qed

lemma merges_step:
  assumes "state_io_rel (on_base (on_db no_new_merged)) m" and "state_io_rel given_env m"
  shows "makes (merges_observed doc b h) (merges_observed doc b h) m"
  unfolding yields_def
proof (intro allI impI, goal_cases)
  case (1 k)
  obtain r l where run: "run_state m k = (r, l)" by (cases "run_state m k")
  have "no_new_merged (db (base k)) (db (base l))" "given_env k l"
    using state_io_relD [OF assms(1) run] state_io_relD [OF assms(2) run] by (simp_all add: on_base_def on_db_def)
  with 1 show ?case
    unfolding merges_observed_def run prod.case
    using genv.trans observed_extend unmerged.trans_tables by blast
qed

lemma yields_report:
  assumes "yields P (\<lambda>r h. case r of Inl _ \<Rightarrow> S h | Inr x \<Rightarrow> Q x h) m" and "\<And>x. makes (Q x) S (k x)"
  shows "makes P S (or_report res m k)"
  unfolding or_report_def
proof (rule yields_bind [OF assms(1)])
  show "makes (\<lambda>h. case r of Inl _ \<Rightarrow> S h | Inr x \<Rightarrow> Q x h) S
      (get_host \<bind> (\<lambda>h. case r of Inl e \<Rightarrow> State_Monad.return (res\<lparr>mc_Error := err_text h e\<rparr>) | Inr x \<Rightarrow> k x))" for r
    using assms(2) by (cases r) (auto simp: yields_def get_host_def)
qed

lemma status_observes:
  "yields (merges_observed doc b h) (\<lambda>r k. case r of Inl _ \<Rightarrow> merges_observed doc b h k
     | Inr s \<Rightarrow> merges_observed doc b h k \<and> (sr_Merged s \<longrightarrow> observed_merge doc (sr_MergedIntoBranch s) h k)) (gh_Status doc dir url)"
  unfolding yields_def
proof (intro allI impI, goal_cases)
  case (1 k)
  have rels: "state_io_rel (on_base (on_db no_new_merged)) (gh_Status doc dir url)" "state_io_rel given_env (gh_Status doc dir url)"
    unfolding gh_Status_def by (intro keeps_intros unmerged.base_command genv_command)+
  obtain r l where run: "run_state (gh_Status doc dir url) k = (r, l)" by (cases "run_state (gh_Status doc dir url) k")
  from yieldsD [OF merges_step [OF rels] 1 run] have keep: "merges_observed doc b h l" .
  have "observed_merge doc (sr_MergedIntoBranch s) h l" if "r = Inr s" "sr_Merged s" for s
  proof -
    let ?q = "gh dir (status_args url)" and ?n = "length (trace k)"
    from run that have "exit_error (proc k ?n ?q (tree k)) = None" "trace l = trace k @ [(?q, True)]"
        "reports_merged doc (out_text (proc k ?n ?q (tree k))) (sr_MergedIntoBranch s)"
      by (auto simp: gh_Status_def run_command_def Let_def reports_merged_def split: if_splits option.splits prod.splits)
    moreover have "proc k = proc h" "length (trace h) \<le> ?n"
      using 1 by (auto simp: merges_observed_def given_env_def prefix_length_le)
    ultimately show ?thesis unfolding observed_merge_def by (metis length_append_singleton lessI nth_append_length)
  qed
  with keep show ?case by (simp add: run split: sum.split)
qed

lemma settle_merges: "makes (merges_observed doc (run_BaseBranch run) h) (merges_observed doc (run_BaseBranch run) h)
    (settle_bullet doc dir run i res url)"
proof -
  let ?I = "merges_observed doc (run_BaseBranch run) h"
  have set: "makes ?I ?I (or_report res' (store_io (AdvanceBulletStatus i s m)) (\<lambda>_. State_Monad.return x))"
    if "s \<noteq> ''merged''" for s m x res'
    by (rule yields_report [where Q = "\<lambda>_. ?I", OF yields_mono [OF merges_step]])
      (auto intro: unmerged.base_store [OF unmerged_methods(5) [OF that]] genv_store yields_return split: sum.split)
  have "makes (\<lambda>k. ?I k \<and> observed_merge doc (run_BaseBranch run) h k) ?I
      (store_io (AdvanceBulletStatus i ''merged'' []))"
    using genv_store by (auto simp: yields_def merges_observed_def intro: genv.trans observed_extend)
  then have merge: "makes (\<lambda>k. ?I k \<and> observed_merge doc (run_BaseBranch run) h k) ?I
      (or_report res' (store_io (AdvanceBulletStatus i ''merged'' [])) (\<lambda>_. State_Monad.return x))" for res' x
    by (intro yields_report [where Q = "\<lambda>_. ?I"]) (auto elim: yields_mono intro: yields_return split: sum.split)
  show ?thesis
    unfolding settle_bullet_def
  proof (rule yields_report [OF status_observes])
    fix s
    show "makes (\<lambda>k. ?I k \<and> (sr_Merged s \<longrightarrow> observed_merge doc (sr_MergedIntoBranch s) h k)) ?I
        (if \<not> sr_Merged s then State_Monad.return res
         else if sr_MergedIntoBranch s = run_BaseBranch run
         then or_report res (store_io (AdvanceBulletStatus i ''merged'' [])) (\<lambda>_. State_Monad.return (res\<lparr>mc_Status := ''merged''\<rparr>))
         else get_host \<bind> (\<lambda>h. let reason = err_text h (Errorf ''change request merged into %q, expected %q''
                [sr_MergedIntoBranch s, run_BaseBranch run] None)
            in or_report res (store_io (AdvanceBulletStatus i ''blocked'' reason))
              (\<lambda>_. State_Monad.return (res\<lparr>mc_Status := ''blocked'', mc_Error := reason\<rparr>))))"
      using merge
      by (auto simp: Let_def intro!: yields_return yields_before [OF set]
          yields_bind [OF yields_before [OF merges_step [OF unmerged.base.k_get genv.k_get]]])
  qed
qed

lemma report_steps:
  assumes "state_io_rel (on_base (on_db no_new_merged)) m" and "state_io_rel given_env m"
    and "\<And>x. makes (merges_observed doc b h) (merges_observed doc b h) (k x)"
  shows "makes (merges_observed doc b h) (merges_observed doc b h) (or_report res m k)"
  by (rule yields_report [where Q = "\<lambda>_. merges_observed doc b h", OF yields_mono [OF merges_step [OF assms(1,2)]] assms(3)])
    (auto split: sum.split)

lemma check_merges: "makes (merges_observed doc (run_BaseBranch run) h) (merges_observed doc (run_BaseBranch run) h)
    (checkBulletMergeStatus doc cwd proj run b)"
proof -
  let ?I = "merges_observed doc (run_BaseBranch run) h"
  have remote: "state_io_rel (on_base (on_db no_new_merged)) (if c then rawOriginRemote p else State_Monad.return [])"
      "state_io_rel given_env (if c then rawOriginRemote p else State_Monad.return [])" for c p
    unfolding rawOriginRemote_def gitOut_def gitOutput_def by (intro keeps_intros unmerged.base_command)+
  have find: "state_io_rel (on_base (on_db no_new_merged)) (gh_FindByHead doc dir x)" "state_io_rel given_env (gh_FindByHead doc dir x)"
    for dir x
    unfolding gh_FindByHead_def by (intro keeps_intros unmerged.base_command)+
  have ret: "makes ?I ?I (State_Monad.return x)" for x :: mergeCheckResult
    by (simp add: yields_return)
  show ?thesis
    unfolding checkBulletMergeStatus_def Let_def
    apply (rule yields_bind [OF merges_step [OF unmerged.base.k_get genv.k_get]])
    apply (rule yields_bind [OF merges_step [OF remote]])
    apply (auto split: option.split intro!: ret report_steps find settle_merges genv_store unmerged.base_store unmerged_methods
        unmerged.base.k_return genv.k_return)
    done
qed

lemma check_loop_merges:
  assumes "\<And>b. makes P P (check b)"
  shows "makes P P (check_bullets check bs)"
  by (induction bs) (auto intro!: yields_return yields_bind [OF assms] yields_bind)


lemma loaded_project:
  "state_io_rel (on_base (on_db no_new_merged)) (LoadProject parse cwd p)" "state_io_rel given_env (LoadProject parse cwd p)"
  unfolding LoadProject_def load_from_def fileExists_def file_op_defs
  by (intro keeps_intros unmerged.base_file_op genv_file_op)+

lemma GetRun_found:
  assumes "run_state (saying f args (store_io (GetRun i))) h = (Inr run, k)"
  shows "db (base k) = db (base h)" and "\<exists>row. find (\<lambda>r. run_ID r = i) (runs (db (base h))) = Some row \<and> run = scanRun row"
  using assms by (auto simp: saying_def or_wrap_def store_io_def GetRun_def query_row_def exec_def Let_def
      split: prod.splits sum.splits if_splits option.splits)

lemma listed_merges:
  "makes (merges_observed doc (run_BaseBranch run) h) (merges_observed doc (run_BaseBranch run) h) (do {
     res \<leftarrow> store_io (ListBulletsForIntent i);
     case res of
       Inl _ \<Rightarrow> State_Monad.return (Inr [])
     | Inr bs \<Rightarrow> do {
         loaded \<leftarrow> LoadProject y d p;
         rs \<leftarrow> check_bullets (checkBulletMergeStatus doc d (g loaded) run) bs;
         State_Monad.return (Inr rs) } })"
  by (rule yields_bind [OF merges_step [OF unmerged.base_store [OF unmerged_methods(3)] genv_store]])
    (auto split: sum.split intro!: yields_return yields_bind [OF merges_step [OF loaded_project]]
      yields_bind [OF check_loop_merges [OF check_merges]])

text \<open>
  C9: a bullet is merged only when its change request was observed merged.  Whatever the store, the files and
  the commands do, a bullet that is merged after the merge check of a run and was not before is so because
  \<open>gh\<close> ended cleanly during the check and reported a change request merged into the branch the run was based
  on.
\<close>

theorem merged_only_observed:
  assumes "run_state (handleCheckMergeStatus doc site runID) h = (rep, k)"
    and "b' \<in> set (bullets (db (base k)))" and "bu_Status b' = ''merged''"
    and "\<not> list_ex (\<lambda>b. bu_ID b = bu_ID b' \<and> bu_Status b = ''merged'') (bullets (db (base h)))"
  shows "\<exists>row n t url dir. find (\<lambda>r. run_ID r = runID) (runs (db (base h))) = Some row \<and>
    length (trace h) \<le> n \<and> n < length (trace k) \<and> trace k ! n = (gh dir (status_args url), True) \<and>
    reports_merged doc (out_text (proc h n (gh dir (status_args url)) t)) (run_BaseBranch row)"
proof -
  let ?get = "saying ''loading run %q: %v'' [runID] (store_io (GetRun runID))"
  have new: "\<not> no_new_merged (db (base h)) (db (base k))"
    using assms(2-4) by (auto simp: no_new_merged_def list_ex_iff)
  obtain r h1 where get: "run_state ?get h = (r, h1)" by (cases "run_state ?get h")
  have "state_io_rel (on_base (on_db no_new_merged)) ?get" and env: "state_io_rel given_env ?get"
    unfolding saying_def by (intro keeps_intros unmerged.base_store unmerged_methods genv_store)+
  from state_io_relD [OF this(1) get] have quiet: "no_new_merged (db (base h)) (db (base h1))" by (simp add: on_base_def on_db_def)
  show ?thesis
  proof (cases r)
    case (Inl e)
    with assms(1) new quiet get have False
      by (auto simp: handleCheckMergeStatus_def or_refuse_def refused_def split: if_splits)
    then show ?thesis ..
  next
    case (Inr run)
    from GetRun_found [OF get [unfolded Inr]] obtain row where row: "find (\<lambda>r. run_ID r = runID) (runs (db (base h))) = Some row"
        and scan: "run = scanRun row" by blast
    have "merges_observed doc (run_BaseBranch run) h h1"
      using quiet state_io_relD [OF env get] by (simp add: merges_observed_def)
    moreover have "runID \<noteq> []" "run_IntentID run \<noteq> []"
      using assms(1) new quiet get Inr
      by (auto simp: handleCheckMergeStatus_def or_refuse_def refused_def split: if_splits)
    ultimately have "merges_observed doc (run_BaseBranch run) h k"
      using assms(1) get Inr by (auto simp: handleCheckMergeStatus_def or_refuse_def elim!: yieldsD [OF listed_merges])
    with new have "observed_merge doc (run_BaseBranch run) h k" by (simp add: merges_observed_def)
    moreover have "run_BaseBranch run = run_BaseBranch row" by (simp add: scan scanRun_def RunRecord.defs)
    ultimately show ?thesis using row by (auto simp: observed_merge_def)
  qed
qed

section \<open>No command before the bullet is sealed\<close>

lemma SealBulletForRun_green:
  assumes "SealBulletForRun i repo w = (Inr x, w')"
  shows "\<exists>row b. find (\<lambda>r. run_ID r = i) (runs (db w)) = Some row \<and> b \<in> set (bullets (db w)) \<and>
    bu_IntentID b = run_IntentID row \<and> bu_Repo b = repo \<and> bu_Status b = ''green''"
proof -
  from assms obtain run w1 bs w2 where run: "GetRun i w = (Inr run, w1)"
      and bs: "ListBulletsForIntent (run_IntentID run) w1 = (Inr bs, w2)"
      and found: "\<exists>b. find (\<lambda>b. bu_Repo b = repo) bs = Some b \<and> bu_Status b = ''green''"
    unfolding SealBulletForRun_def
    by (fastforce simp: wrap_st_def try_st_def throw_def return_st_def elim!: bind_Inr
        split: if_splits prod.splits sum.splits option.splits)
  from run obtain row where row: "find (\<lambda>r. run_ID r = i) (runs (db w)) = Some row" "run = scanRun row" "db w1 = db w"
    by (auto simp: GetRun_def query_row_def exec_def Let_def split: if_splits option.splits)
  from bs have "bs = bullets_of (run_IntentID run) (db w1)"
    by (auto simp: ListBulletsForIntent_def query_def exec_def Let_def split: if_splits)
  then have "b \<in> set bs \<Longrightarrow> b \<in> set (bullets (db w)) \<and> bu_IntentID b = run_IntentID run" for b
    by (auto simp: bullets_of_def row(3))
  moreover from found obtain b where "find (\<lambda>b. bu_Repo b = repo) bs = Some b" "bu_Status b = ''green''" by blast
  then have "b \<in> set bs" "bu_Repo b = repo" "bu_Status b = ''green''" by (auto simp: find_Some_iff)
  moreover have "run_IntentID run = run_IntentID row" by (simp add: row(2) scanRun_def RunRecord.defs)
  ultimately show ?thesis using row(1) by metis
qed

text \<open>
  C10: nothing leaves for a bullet that is not green.  A request to open a pull request starts a command --- of
  \<open>git\<close>, of a shipping gate or of the provider --- only when the run exists and its intent had a green bullet
  in the named repository.
\<close>

theorem pull_request_needs_green:
  assumes "run_state (handleCreatePR site (Some req)) h = (rep, k)" and "trace k \<noteq> trace h"
  shows "\<exists>row b. find (\<lambda>r. run_ID r = cr_RunID req) (runs (db (base h))) = Some row \<and> b \<in> set (bullets (db (base h))) \<and>
    bu_IntentID b = run_IntentID row \<and> bu_Repo b = cr_Repo req \<and> bu_Status b = ''green''"
proof -
  obtain r w where seal: "SealBulletForRun (cr_RunID req) (cr_Repo req) (base h) = (r, w)"
    by (cases "SealBulletForRun (cr_RunID req) (cr_Repo req) (base h)")
  show ?thesis
  proof (cases r)
    case (Inl e)
    with assms seal show ?thesis
      by (auto simp: handleCreatePR_def or_refuse_def refused_def store_io_def split: if_splits)
  next
    case (Inr x)
    from SealBulletForRun_green [OF seal [unfolded Inr]] show ?thesis .
  qed
qed

section \<open>A sample\<close>

text \<open>A run whose intent has one bullet, in a project whose remote is on GitHub; \<open>gh\<close> reports a merge.\<close>

definition forge_doc :: text_json where
  "forge_doc out = RawDoc (JObj [(''state'', JStr ''MERGED''), (''baseRefName'', JStr ''main'')])"

definition forge_host :: "string \<Rightarrow> string \<Rightarrow> string \<Rightarrow> host" where
  "forge_host remote status url = (calm_host (initial_world (empty_tables\<lparr>
     runs := [run_row (sample_run\<lparr>run_Project := ''/p.yaml'', run_BaseBranch := ''main''\<rparr>)],
     bullets := [(new_bullet ''i1'' ''i1'' status 0 ''api'')\<lparr>bu_PRURL := url\<rparr>]\<rparr>)) planned_tree)
     \<lparr>proc := (\<lambda>_ _ t. \<lparr>exit_error = None, out_text = remote, tree_after = t, cancels = False, overran = False\<rparr>)\<rparr>"

definition sample_request_pr :: PRRequest where
  "sample_request_pr = \<lparr>cr_RunID = ''r1'', cr_Project = ''/p.yaml'', cr_Repo = ''api'', cr_Title = [], cr_Body = []\<rparr>"

abbreviation checked_forge :: host where
  "checked_forge \<equiv> snd (run_state (handleCheckMergeStatus forge_doc sample_site ''r1'') (forge_host ''git@github.com:o/r'' ''sealed'' ''u''))"

abbreviation requested_forge :: host where
  "requested_forge \<equiv> snd (run_state (handleCreatePR sample_site (Some sample_request_pr)) (forge_host ''git@h:o/r'' ''green'' []))"

theorem merged_only_observed_witness:
  "\<exists>row n t url dir. find (\<lambda>r. run_ID r = ''r1'') (runs (db (base (forge_host ''git@github.com:o/r'' ''sealed'' ''u'')))) = Some row \<and>
    n < length (trace checked_forge) \<and> trace checked_forge ! n = (gh dir (status_args url), True) \<and>
    reports_merged forge_doc (out_text (proc (forge_host ''git@github.com:o/r'' ''sealed'' ''u'') n (gh dir (status_args url)) t))
      (run_BaseBranch row)"
proof -
  obtain rep where run: "run_state (handleCheckMergeStatus forge_doc sample_site ''r1'')
      (forge_host ''git@github.com:o/r'' ''sealed'' ''u'') = (rep, checked_forge)"
    by (metis prod.collapse)
  have "map bu_Status (bullets (db (base checked_forge))) = [''merged'']" by code_simp
  then obtain b where b: "b \<in> set (bullets (db (base checked_forge)))" "bu_Status b = ''merged''" by auto
  have "\<not> list_ex (\<lambda>c. bu_Status c = ''merged'') (bullets (db (base (forge_host ''git@github.com:o/r'' ''sealed'' ''u''))))"
    by code_simp
  then have "\<not> list_ex (\<lambda>c. bu_ID c = bu_ID b \<and> bu_Status c = ''merged'') (bullets (db (base (forge_host ''git@github.com:o/r'' ''sealed'' ''u''))))"
    by (auto simp: list_ex_iff)
  from merged_only_observed [OF run b this] show ?thesis by blast
qed

theorem pull_request_needs_green_witness:
  "\<exists>b \<in> set (bullets (db (base (forge_host ''git@h:o/r'' ''green'' [])))). bu_Repo b = ''api'' \<and> bu_Status b = ''green''"
proof -
  obtain rep where run: "run_state (handleCreatePR sample_site (Some sample_request_pr)) (forge_host ''git@h:o/r'' ''green'' [])
      = (rep, requested_forge)"
    by (metis prod.collapse)
  have "length (trace requested_forge) = 2" and "trace (forge_host ''git@h:o/r'' ''green'' []) = []" by code_simp+
  then have "trace requested_forge \<noteq> trace (forge_host ''git@h:o/r'' ''green'' [])" by auto
  from pull_request_needs_green [OF run this] show ?thesis by (auto simp: sample_request_pr_def)
qed

end
