(* ===== verification/Completion.thy ===== *)
theory Completion
  imports Jobs PullRequests
begin

text \<open>
  The server together with the handlers around change requests, and what becomes of an intent whose bullets
  are all merged.
\<close>

section \<open>No intent becomes satisfied\<close>

definition no_new_satisfied :: "tables \<Rightarrow> tables \<Rightarrow> bool" where
  "no_new_satisfied d d' \<longleftrightarrow> (\<forall>n' \<in> set (intents d'). in_Status n' = ''satisfied'' \<longrightarrow>
     (\<exists>n \<in> set (intents d). in_ID n = in_ID n' \<and> in_Status n = ''satisfied''))"

interpretation unsat_rel: intent_relation no_new_satisfied
  by unfold_locales
    (fastforce simp: no_new_satisfied_def update_intent_def update_where_def dest: intent_inserted)+

text \<open>
  The bullets after those of a list were advanced to a status: each has its identifier and intent, and has
  the status if it had it before or is one of the list.
\<close>

definition advanced_row :: "string \<Rightarrow> BulletRecord list \<Rightarrow> BulletRecord \<Rightarrow> BulletRecord \<Rightarrow> bool" where
  "advanced_row s bs r r' \<longleftrightarrow> bu_ID r' = bu_ID r \<and> bu_IntentID r' = bu_IntentID r \<and>
     (bu_Status r = s \<or> (\<exists>b \<in> set bs. bu_ID b = bu_ID r \<and> bu_Status b \<noteq> s) \<longrightarrow> bu_Status r' = s)"

lemma transition_bullets: "recordTransition c e p w = (r, w') \<Longrightarrow> bullets (db w') = bullets (db w)"
  by (auto simp: recordTransition_def AppendChange_def st_simps time_now_def modify_def exec_def Let_def insert_change_def notifyChange_def
      split: if_splits sum.splits prod.splits)

lemma bind_cases:
  assumes "bind_st m f w = (r, w')"
  obtains (fails) e where "m w = (Inl e, w')" "r = Inl e" | (goes_on) x w1 where "m w = (Inr x, w1)" "f x w1 = (r, w')"
  using assms by (auto simp: bind_st_def split: prod.splits sum.splits)

lemma advanced_rows_refl: "list_all2 (advanced_row s []) xs xs"
  by (simp add: list_all2_same advanced_row_def)

lemma advanced_rows_trans:
  assumes "list_all2 (advanced_row s [b]) xs ys" and "list_all2 (advanced_row s bs) ys zs"
  shows "list_all2 (advanced_row s (b # bs)) xs zs"
  by (rule list_all2_trans [OF _ assms]) (auto simp: advanced_row_def)

lemma update_advances:
  assumes "updateBulletStatusAndReason (bu_ID b) s m w = (Inr x, w')"
  shows "list_all2 (advanced_row s [b]) (bullets (db w)) (bullets (db w'))"
proof -
  from assms obtain now w1 n w2 where
      upd: "modify_count (count_bullets (bu_ID b)) (update_bullet (bu_ID b)
        (\<lambda>c. c\<lparr>bu_Status := s, bu_BlockedReason := m, bu_UpdatedAt := now\<rparr>)) w1 = (Inr n, w2)"
      and db: "db w1 = db w" and rest: "bullets (db w') = bullets (db w2)"
    unfolding updateBulletStatusAndReason_def requireOneRow_def
    by (fastforce simp: time_now_def throw_def return_st_def elim!: bind_Inr split: if_splits dest: transition_bullets)
  from upd have "bullets (db w2) = update_where (\<lambda>c. bu_ID c = bu_ID b)
      (\<lambda>c. c\<lparr>bu_Status := s, bu_BlockedReason := m, bu_UpdatedAt := now\<rparr>) (bullets (db w))"
    by (auto simp: modify_count_def exec_def Let_def update_bullet_def db split: if_splits)
  then show ?thesis
    by (auto simp: rest update_where_def list_all2_conv_all_nth advanced_row_def)
qed

lemma advance_bullet_advances:
  assumes "advance_bullet s m b w = (Inr x, w')"
  shows "list_all2 (advanced_row s [b]) (bullets (db w)) (bullets (db w'))"
proof (cases "bu_Status b = s \<and> bu_BlockedReason b = m")
  case True
  with assms show ?thesis
    by (auto simp: advance_bullet_def return_st_def list_all2_same advanced_row_def)
next
  case False
  with assms have "updateBulletStatusAndReason (bu_ID b) s m w = (Inr x, w')"
    by (auto simp: advance_bullet_def wrap_st_def try_st_def throw_def return_st_def split: if_splits prod.splits sum.splits)
  then show ?thesis by (rule update_advances)
qed

lemma loop_advances: "for_each (advance_bullet s m) bs w = (Inr x, w') \<Longrightarrow>
    list_all2 (advanced_row s bs) (bullets (db w)) (bullets (db w'))"
proof (induction bs arbitrary: w)
  case Nil
  then show ?case by (simp add: return_st_def advanced_rows_refl)
next
  case (Cons b bs)
  then show ?case by (auto elim!: bind_Inr intro: advanced_rows_trans advance_bullet_advances)
qed


lemma wrap_Inr: "wrap_st f args m w = (Inr x, w') \<longleftrightarrow> m w = (Inr x, w')"
  by (auto simp: wrap_st_def split: prod.splits sum.splits)

lemma listed_bullets: "wrap_st f args (ListBulletsForIntent i) w = (Inr bs, w') \<Longrightarrow> bs = bullets_of i (db w) \<and> db w' = db w"
  by (auto simp: wrap_Inr ListBulletsForIntent_def query_def exec_def Let_def split: if_splits)

text \<open>Once the bullets of an intent were advanced to a status that is not merged, none of them is merged.\<close>

lemma none_merged:
  assumes "list_all2 (advanced_row s (bullets_of i d)) (bullets d) (bullets d')" and "s \<noteq> ''merged''"
  shows "DeriveIntentStatus (bullets_of i d') = ''in_progress''"
proof -
  have "bu_Status r' \<noteq> ''merged''" if "r' \<in> set (bullets_of i d')" for r'
  proof -
    from that have r': "r' \<in> set (bullets d')" "bu_IntentID r' = i" by (auto simp: bullets_of_def)
    with assms(1) obtain r where r: "r \<in> set (bullets d)" "advanced_row s (bullets_of i d) r r'"
      by (metis in_set_conv_nth list_all2_conv_all_nth)
    with r' have "r \<in> set (bullets_of i d)" by (auto simp: bullets_of_def advanced_row_def)
    with r(2) have "bu_Status r' = s" by (auto simp: advanced_row_def)
    with assms(2) show ?thesis by simp
  qed
  then show ?thesis by (cases "bullets_of i d'") (auto simp: DeriveIntentStatus_def)
qed

lemma recompute_in_progress:
  assumes "DeriveIntentStatus (bullets_of i (db w)) = ''in_progress''"
  shows "on_db no_new_satisfied w (snd (RecomputeIntentStatus i w))"
proof -
  obtain r w' where run: "RecomputeIntentStatus i w = (r, w')" by (cases "RecomputeIntentStatus i w")
  have get: "within (on_db no_new_satisfied) (wrap_st f args (GetIntent i))"
      "within (on_db no_new_satisfied) (wrap_st f args (ListBulletsForIntent i))" for f args
    by (intro within_intros)+
  have upd: "within (on_db no_new_satisfied) (bind_st (UpdateIntentStatus i ''in_progress'') (\<lambda>_. return_st x))" for x :: string
    by (intro within_intros unsat_rel.update_intent_status) simp
  from run [unfolded RecomputeIntentStatus_def Let_def] show ?thesis
  proof (cases rule: bind_cases)
    case (fails e)
    with withinD [OF get(1)] run show ?thesis by simp
  next
    case (goes_on n w1)
    from goes_on(1) have 1: "db w1 = db w"
      by (auto simp: wrap_Inr GetIntent_def query_row_def exec_def Let_def split: if_splits option.splits)
    from goes_on(2) show ?thesis
    proof (cases rule: bind_cases)
      case (fails e)
      with withinD [OF get(2) fails(1)] 1 run show ?thesis by (simp add: on_db_def)
    next
      case (goes_on bs w2)
      from listed_bullets [OF goes_on(1)] 1 assms have "DeriveIntentStatus bs = ''in_progress''" "db w2 = db w" by simp_all
      moreover from this goes_on(2) consider "w' = w2"
        | "bind_st (UpdateIntentStatus i ''in_progress'') (\<lambda>_. return_st ''in_progress'') w2 = (r, w')"
        by (auto simp: return_st_def split: if_splits)
      then have "on_db no_new_satisfied w2 w'" by cases (auto dest: withinD [OF upd])
      ultimately show ?thesis by (simp add: on_db_def run)
    qed
  qed
qed

lemma advance_unsatisfied:
  assumes "s \<noteq> ''merged''"
  shows "within (on_db no_new_satisfied) (AdvanceBulletsForRun j s m)"
proof (rule within_cong_fun)
  fix w
  obtain r w' where run: "AdvanceBulletsForRun j s m w = (r, w')" by (cases "AdvanceBulletsForRun j s m w")
  have quiet: "within (on_db no_new_satisfied) (wrap_st f args (GetRun j))"
      "within (on_db no_new_satisfied) (wrap_st f args (ListBulletsForIntent k))"
      "within (on_db no_new_satisfied) (for_each (advance_bullet s m) bs)" for f args k bs
    unfolding advance_bullet_def by (intro within_intros)+
  from run [unfolded AdvanceBulletsForRun_def] show "on_db no_new_satisfied w (snd (AdvanceBulletsForRun j s m w))"
  proof (cases rule: bind_cases)
    case (fails e)
    with withinD [OF quiet(1) fails(1)] run show ?thesis by simp
  next
    case (goes_on run' w1)
    note 1 = withinD [OF quiet(1) goes_on(1)]
    show "on_db no_new_satisfied w (snd (AdvanceBulletsForRun j s m w))"
    proof (cases "run_IntentID run' = []")
      case True
      with goes_on(2) 1 run show ?thesis by (simp add: return_st_def)
    next
      case False
      let ?i = "run_IntentID run'"
      from False goes_on(2) have "bind_st (wrap_st ''listing the bullets of intent %q: %w'' [?i] (ListBulletsForIntent ?i))
        (\<lambda>bs. bind_st (for_each (advance_bullet s m) bs) (\<lambda>_. bind_st (RecomputeIntentStatus ?i) (\<lambda>_. return_st ()))) w1 = (r, w')"
        by simp
      then show ?thesis
      proof (cases rule: bind_cases)
        case (fails e)
        with withinD [OF quiet(2) fails(1)] 1 run show ?thesis by (auto intro: unsat_rel.trans)
      next
        case (goes_on bs w2)
        from listed_bullets [OF goes_on(1)] have bs: "bs = bullets_of ?i (db w2)" "db w2 = db w1" by simp_all
        with 1 have 2: "on_db no_new_satisfied w w2" by (simp add: on_db_def)
        from goes_on(2) show ?thesis
        proof (cases rule: bind_cases)
          case (fails e)
          with withinD [OF quiet(3) fails(1)] 2 run show ?thesis by (auto intro: unsat_rel.trans)
        next
          case (goes_on u w3)
          from loop_advances [of s m bs w2 u w3] goes_on(1) bs have "list_all2 (advanced_row s (bullets_of ?i (db w2))) (bullets (db w2)) (bullets (db w3))"
            by simp
          from recompute_in_progress [OF none_merged [OF this assms]]
          have 4: "on_db no_new_satisfied w3 (snd (RecomputeIntentStatus ?i w3))" .
          from goes_on(2) have "w' = snd (RecomputeIntentStatus ?i w3)"
            by (auto simp: return_st_def elim!: bind_cases)
          with 4 withinD [OF quiet(3) goes_on(1)] 2 run show ?thesis by (auto intro: unsat_rel.trans)
        qed
      qed
    qed
  qed
qed

interpretation unsat: derived_relation no_new_satisfied
  by unfold_locales (auto intro: advance_unsatisfied)


section \<open>The server with the handlers around change requests\<close>

inductive factory_step :: "text_json \<Rightarrow> site \<Rightarrow> server \<times> host \<Rightarrow> server \<times> host \<Rightarrow> bool" for doc :: text_json and site :: site where
  serves: "server_step site c c' \<Longrightarrow> factory_step doc site c c'"
| opens_request: "run_state (handleCreatePR site req) h = (rep, k) \<Longrightarrow> factory_step doc site (sv, h) (sv, k)"
| checks_merges: "run_state (handleCheckMergeStatus doc site i) h = (rep', k) \<Longrightarrow> factory_step doc site (sv, h) (sv, k)"
| reconciles: "run_state (reconcilePendingMergeStatus doc site p) h = ((), k) \<Longrightarrow> factory_step doc site (sv, h) (sv, k)"
| quarantines: "run_state (handleDeliveryQuarantine q) h = (rep'', k) \<Longrightarrow> factory_step doc site (sv, h) (sv, k)"

inductive_cases factory_stepE: "factory_step doc site c c'"

context derived_relation
begin

lemma seal [within_intros]: "within (on_db T) (SealBulletForRun i r)"
  unfolding SealBulletForRun_def by (intro within_intros)

lemmas keeps_forge = server.keeps_handler base_store within_intros

lemma keeps_refusal: "recorder.rec.keeps m \<Longrightarrow> (\<And>x. recorder.rec.keeps (k x)) \<Longrightarrow> recorder.rec.keeps (or_refuse c m k)"
  unfolding or_refuse_def by (intro server.keeps_handler)

lemma keeps_or_report: "recorder.rec.keeps m \<Longrightarrow> (\<And>x. recorder.rec.keeps (k x)) \<Longrightarrow> recorder.rec.keeps (or_report res m k)"
  unfolding or_report_def by (intro server.keeps_handler)

lemma keeps_command: "recorder.rec.keeps (run_command c q)"
  by (rule recorder.rec.command) simp

lemma keeps_gh: "recorder.rec.keeps (gh_Create d b x t y)" "recorder.rec.keeps (gh_Status doc d u)" "recorder.rec.keeps (gh_FindByHead doc d x)"
  unfolding gh_Create_def gh_Status_def gh_FindByHead_def by (intro server.keeps_handler keeps_command)+

lemma keeps_remote: "recorder.rec.keeps (rawOriginRemote p)" "recorder.rec.keeps (resolveGitRemoteURL p)"
  unfolding rawOriginRemote_def resolveGitRemoteURL_def gitOut_def by (intro server.keeps_handler server.keeps_gitOutput)+

lemma keeps_gates: "recorder.rec.keeps (evaluateShippingGate proj i bs)"
proof -
  have "recorder.rec.keeps (shipping_loop gs ws ns b m)" for gs ws ns b m
    by (induction ns arbitrary: b m) (auto simp: RunShippingGate_def Let_def intro!: server.keeps_handler keeps_command)
  then show ?thesis
    unfolding evaluateShippingGate_def by (intro server.keeps_handler base_store record_gate)
qed

lemma keeps_settle: "recorder.rec.keeps (settle_bullet doc d run i res u)"
  unfolding settle_bullet_def Let_def by (intro server.keeps_handler keeps_or_report keeps_gh base_store within_intros)

lemma keeps_check: "recorder.rec.keeps (checkBulletMergeStatus doc cwd proj run b)"
  unfolding checkBulletMergeStatus_def Let_def
  by (intro server.keeps_handler keeps_or_report keeps_gh keeps_remote keeps_settle base_store within_intros)

lemma keeps_checks: "recorder.rec.keeps (handleCheckMergeStatus doc site i)"
proof -
  have "recorder.rec.keeps (check_bullets (checkBulletMergeStatus doc cwd proj run) bs)" for cwd proj run bs
    by (induction bs) (auto intro!: server.keeps_handler keeps_check)
  then show ?thesis
    unfolding handleCheckMergeStatus_def refused_def
    by (intro server.keeps_handler keeps_refusal server.keeps_load)
qed

lemma keeps_create_request: "recorder.rec.keeps (handleCreatePR site req)"
proof -
  have "recorder.rec.keeps (open_request cwd q run bs p r b x t)" for cwd q run bs p r b x t
    unfolding open_request_def isDir_def Let_def
    by (intro server.keeps_handler recorder.rec.keeps_files keeps_gh base_store within_intros)
  moreover have "recorder.rec.keeps (intent_bullets proj run)" for proj run
    unfolding intent_bullets_def by (intro server.keeps_handler keeps_gates)
  moreover have "recorder.rec.keeps (record_request q out t b)" for q out t b
    unfolding record_request_def by (intro server.keeps_handler)
  ultimately show ?thesis
    unfolding handleCreatePR_def refused_def Let_def
    by (intro server.keeps_handler keeps_refusal keeps_remote server.keeps_load base_store within_intros)
qed

lemma keeps_reconcile: "recorder.rec.keeps (reconcilePendingMergeStatus doc site p)"
proof -
  have "recorder.rec.keeps (reconcile_bullets (checkBulletMergeStatus doc cwd proj) rs bs)" for cwd proj rs bs
    by (induction bs) (auto intro!: server.keeps_handler keeps_check split: option.split)
  then show ?thesis
    unfolding reconcilePendingMergeStatus_def AllBulletsForAnalytics_def AllRunsForAnalytics_def
    by (intro server.keeps_handler server.keeps_load base_store within_intros)
qed

lemma keeps_quarantine: "recorder.rec.keeps (handleDeliveryQuarantine q)"
proof -
  have "within (on_db T) (latestDeliveryState e c)" "within (on_db T) (insertDeliveryRowQuarantined e c r)" for e c r
    unfolding latestDeliveryState_def insertDeliveryRowQuarantined_def
    by (intro within_intros of_kept; simp)+
  then show ?thesis
    unfolding handleDeliveryQuarantine_def refused_def QuarantineDelivery_def
    by (intro server.keeps_handler keeps_refusal base_store within_intros)
qed

lemma factory_keeps: "factory_step doc site c c' \<Longrightarrow> T (db (base (snd c))) (db (base (snd c')))"
proof (erule factory_stepE)
  assume "server_step site c c'"
  then have "on_base (on_db T) (snd c) (snd c')" by (cases c, cases c') (auto dest: server.step_keeps)
  then show ?thesis by (simp add: on_base_def on_db_def)
qed (use state_io_relD [OF keeps_create_request] state_io_relD [OF keeps_checks] state_io_relD [OF keeps_reconcile]
      state_io_relD [OF keeps_quarantine] in \<open>fastforce simp: on_base_def on_db_def\<close>)+

lemma factory_steps_keep: "(factory_step doc site)\<^sup>*\<^sup>* c c' \<Longrightarrow> T (db (base (snd c))) (db (base (snd c')))"
proof (induction rule: rtranclp_induct)
  case (step c1 c2)
  from trans_tables [OF step.IH factory_keeps [OF step.hyps(2)]] show ?case .
qed simp

end

abbreviation satisfied_intents :: "host \<Rightarrow> string list" where
  "satisfied_intents h \<equiv> map in_ID (filter (\<lambda>n. in_Status n = ''satisfied'') (intents (db (base h))))"

text \<open>
  C8: no intent ever becomes satisfied.  Whatever the server is asked, in whatever order, and whatever
  the store, the files and the commands answer: an intent that is satisfied afterwards was satisfied before,
  even when all its bullets were observed merged.
\<close>

theorem intent_never_satisfied:
  assumes "(factory_step doc site)\<^sup>*\<^sup>* (sv, h) (sv', k)"
  shows "set (satisfied_intents k) \<subseteq> set (satisfied_intents h)"
  using unsat.factory_steps_keep [OF assms] by (auto simp: no_new_satisfied_def image_iff) metis

text \<open>On the sample, the one bullet of the intent is observed merged.\<close>

theorem intent_never_satisfied_witness:
  "map bu_Status (bullets (db (base checked_forge))) = [''merged''] \<and> satisfied_intents checked_forge = []"
proof
  show "map bu_Status (bullets (db (base checked_forge))) = [''merged'']" by code_simp
  obtain rep where run: "run_state (handleCheckMergeStatus forge_doc sample_site ''r1'')
      (forge_host ''git@github.com:o/r'' ''sealed'' ''u'') = (rep, checked_forge)"
    by (metis prod.collapse)
  have "satisfied_intents (forge_host ''git@github.com:o/r'' ''sealed'' ''u'') = []" by code_simp
  moreover have "(factory_step forge_doc sample_site)\<^sup>*\<^sup>* (idle_server, forge_host ''git@github.com:o/r'' ''sealed'' ''u'')
      (idle_server, checked_forge)"
    by (rule r_into_rtranclp) (rule checks_merges [OF run])
  from intent_never_satisfied [OF this] have "set (satisfied_intents checked_forge) \<subseteq>
      set (satisfied_intents (forge_host ''git@github.com:o/r'' ''sealed'' ''u''))" .
  ultimately show "satisfied_intents checked_forge = []" by simp
qed

end
