(* ===== verification/Trees.thy ===== *)
theory Trees
  imports Plans Runner
begin

text \<open>
  File operations that tell a missing file apart, temporary files and renaming, as the migration of an
  earlier installation uses them; what makes a tree one an operating system can hold; and the relation
  that an effect loses no node but those of a given kind.

  A node is a directory or a regular file: permission bits and symbolic links are not modelled.
\<close>

section \<open>Operations\<close>

text \<open>A path below a regular file is an error of its own, not a missing file.\<close>

definition below_file :: "tree \<Rightarrow> path \<Rightarrow> bool" where
  "below_file t p \<longleftrightarrow>
     list_ex (\<lambda>q. q \<noteq> p \<and> (case node_at t q of Some (File _) \<Rightarrow> True | _ \<Rightarrow> False)) (prefixes p)"

definition missing :: "tree \<Rightarrow> path \<Rightarrow> err" where
  "missing t p = (if below_file t p then PathError (path_text p) else NotExist)"

definition read_file :: "path \<Rightarrow> (err + raw_json) io" where
  "read_file p = file_op (\<lambda>r t.
     (if r \<noteq> Done then Inl (PathError (path_text p))
      else case node_at t p of
        None \<Rightarrow> Inl (missing t p)
      | Some Dir \<Rightarrow> Inl (PathError (path_text p))
      | Some (File c) \<Rightarrow> Inr c, t))"

definition read_dir :: "path \<Rightarrow> (err + (string \<times> node) list) io" where
  "read_dir p = file_op (\<lambda>r t.
     (if r \<noteq> Done then Inl (PathError (path_text p))
      else case node_at t p of
        None \<Rightarrow> Inl (missing t p)
      | Some (File _) \<Rightarrow> Inl (PathError (path_text p))
      | Some Dir \<Rightarrow> Inr (entries_of t p), t))"

definition dirExists :: "path \<Rightarrow> bool io" where
  "dirExists p = do { st \<leftarrow> Stat p; State_Monad.return (st = Inr Dir) }"

text \<open>
  \<open>os.CreateTemp\<close> and \<open>os.MkdirTemp\<close> try names of a pattern until one is free or they give up; \<open>name\<close> is
  the last one they tried, a single component: a pattern with a separator is refused.
\<close>

definition MkdirTemp :: "path \<Rightarrow> (tree \<Rightarrow> string) \<Rightarrow> (err + path) io" where
  "MkdirTemp dir name = file_op (\<lambda>r t. let p = Join dir (name t) in
     if r \<noteq> Done \<or> node_at t dir \<noteq> Some Dir \<or> p = dir \<or> node_at t p \<noteq> None \<or> butlast p \<noteq> dir
     then (Inl (PathError (path_text p)), t) else (Inr p, put_node p Dir t))"

definition CreateTemp :: "path \<Rightarrow> (tree \<Rightarrow> string) \<Rightarrow> (err + path) io" where
  "CreateTemp dir name = file_op (\<lambda>r t. let p = Join dir (name t) in
     if r \<noteq> Done \<or> node_at t dir \<noteq> Some Dir \<or> p = dir \<or> node_at t p \<noteq> None \<or> butlast p \<noteq> dir
     then (Inl (PathError (path_text p)), t) else (Inr p, put_node p (File RawEmpty) t))"

definition close_file :: "path \<Rightarrow> (err + unit) io" where
  "close_file p = file_op (\<lambda>r t. (if r = Done then Inr () else Inl (PathError (path_text p)), t))"

text \<open>\<open>os.Remove\<close> and \<open>os.Rename\<close> of a regular file; a rename replaces a file, never a directory.\<close>

definition Remove :: "path \<Rightarrow> (err + unit) io" where
  "Remove p = file_op (\<lambda>r t. case node_at t p of
       Some (File _) \<Rightarrow> if r = Done then (Inr (), remove_tree p t) else (Inl (PathError (path_text p)), t)
     | _ \<Rightarrow> (Inl (PathError (path_text p)), t))"

definition Rename :: "path \<Rightarrow> path \<Rightarrow> (err + unit) io" where
  "Rename p q = file_op (\<lambda>r t. case node_at t p of
       Some (File c) \<Rightarrow>
         if r \<noteq> Done \<or> q = [] \<or> node_at t q = Some Dir \<or> node_at t (butlast q) \<noteq> Some Dir
         then (Inl (PathError (path_text p)), t)
         else (Inr (), put_node q (File c) (if p = q then t else remove_tree p t))
     | _ \<Rightarrow> (Inl (PathError (path_text p)), t))"

lemmas tree_op_defs = read_file_def read_dir_def MkdirTemp_def CreateTemp_def close_file_def Remove_def Rename_def


section \<open>Well-formed trees\<close>

text \<open>Every path has one node, every component is a name and every node is in a directory.\<close>

definition wf_tree :: "tree \<Rightarrow> bool" where
  "wf_tree t \<longleftrightarrow> tree_ok t \<and> (\<forall>(q, n) \<in> set t. node_at t (butlast q) = Some Dir)"

lemma Join_names: "list_all clean_name p \<Longrightarrow> list_all clean_name (Join p s)"
proof -
  have step: "list_all clean_name q \<Longrightarrow> \<forall>c \<in> set cs. CHR ''/'' \<notin> set c \<Longrightarrow>
      list_all clean_name (foldl clean_step q cs)" for q cs
  proof (induction cs arbitrary: q)
    case (Cons c cs)
    have "list_all clean_name (clean_step q c)"
      using Cons.prems by (auto simp: clean_step_def clean_name_def list_all_iff dest: in_set_butlastD)
    with Cons show ?case by simp
  qed simp
  assume "list_all clean_name p"
  then show ?thesis unfolding Join_def by (rule step) (auto dest: split_on_no_sep)
qed

lemma node_wf:
  assumes "wf_tree t" and "node_at t q = Some n"
  shows "node_at t (butlast q) = Some Dir"
proof (cases "q = []")
  case False
  with assms(2) have "(q, n) \<in> set t" by (simp add: node_at_def map_of_SomeD)
  with assms(1) show ?thesis unfolding wf_tree_def by blast
qed (use assms in simp)

lemma node_above:
  assumes "wf_tree t" and "node_at t (p @ r) = Some n" and "r \<noteq> []"
  shows "node_at t p = Some Dir"
  using assms(2,3)
proof (induction r arbitrary: n rule: rev_induct)
  case (snoc x r)
  have "node_at t (p @ r) = Some Dir" using node_wf [OF assms(1) snoc.prems(1)] by (simp add: butlast_append)
  then show ?case using snoc.IH by (cases "r = []") auto
qed simp

lemma wf_node_iff:
  "wf_tree t \<longleftrightarrow> tree_ok t \<and> (\<forall>q n. node_at t q = Some n \<longrightarrow> node_at t (butlast q) = Some Dir)"
proof
  assume "wf_tree t"
  then show "tree_ok t \<and> (\<forall>q n. node_at t q = Some n \<longrightarrow> node_at t (butlast q) = Some Dir)"
    using node_wf by (auto simp: wf_tree_def)
next
  assume r: "tree_ok t \<and> (\<forall>q n. node_at t q = Some n \<longrightarrow> node_at t (butlast q) = Some Dir)"
  have "node_at t (butlast q) = Some Dir" if "(q, n) \<in> set t" for q n
  proof (cases "q = []")
    case False
    with that r have "node_at t q = Some n" by (simp add: node_at_def tree_ok_def)
    with r show ?thesis by blast
  qed simp
  with r show "wf_tree t" by (auto simp: wf_tree_def)
qed

lemma node_remove [simp]:
  "node_at (remove_tree p t) q = (if q = [] then Some Dir else if prefix p q then None else node_at t q)"
proof -
  have "map_of (filter (\<lambda>(q, _). \<not> prefix p q) t) q = (if prefix p q then None else map_of t q)"
    by (induction t) auto
  then show ?thesis by (simp add: node_at_def remove_tree_def)
qed

lemma tree_ok_remove: "tree_ok t \<Longrightarrow> tree_ok (remove_tree p t)"
  by (auto simp: tree_ok_def remove_tree_def intro: distinct_map_filter_pred)

lemma wf_put:
  assumes "wf_tree t" "list_all clean_name p" "node_at t (butlast p) = Some Dir" "node_at t p \<noteq> Some Dir \<or> n = Dir"
  shows "wf_tree (put_node p n t)"
proof -
  have "node_at (put_node p n t) (butlast q) = Some Dir" if "node_at (put_node p n t) q = Some m" for q m
  proof -
    have "node_at t (butlast q) = Some Dir"
      using assms that node_wf [OF assms(1), of q m] by (auto split: if_splits)
    with assms(4) show ?thesis by auto
  qed
  with assms(1,2) show ?thesis by (auto simp: wf_node_iff tree_ok_put)
qed

lemma wf_remove:
  assumes "wf_tree t"
  shows "wf_tree (remove_tree p t)"
proof -
  have "node_at (remove_tree p t) (butlast q) = Some Dir" if "node_at (remove_tree p t) q = Some m" for q m
  proof (cases "butlast q = []")
    case False
    then have "\<not> prefix p (butlast q)"
      using that by (auto split: if_splits) (metis prefix_order.trans prefixeq_butlast)
    moreover have "node_at t q = Some m" using that False by (auto split: if_splits)
    ultimately show ?thesis using node_wf [OF assms] False by auto
  qed simp
  with assms show ?thesis by (simp add: wf_node_iff tree_ok_remove)
qed

lemma node_make_dirs:
  "node_at (make_dirs p t) q = (case node_at t q of Some n \<Rightarrow> Some n | None \<Rightarrow> if prefix q p then Some Dir else None)"
proof -
  have "node_at (fold (\<lambda>q t. if node_at t q = None then put_node q Dir t else t) ps t) q =
      (case node_at t q of Some n \<Rightarrow> Some n | None \<Rightarrow> if q \<in> set ps then Some Dir else None)" for ps
    by (induction ps arbitrary: t) (auto split: option.splits)
  then show ?thesis by (simp add: make_dirs_def)
qed

lemma wf_make_dirs:
  assumes "wf_tree t" "list_all clean_name p"
    and "\<And>q. prefix q p \<Longrightarrow> node_at t q = None \<or> node_at t q = Some Dir"
  shows "wf_tree (make_dirs p t)"
proof -
  have "node_at (make_dirs p t) (butlast q) = Some Dir" if "node_at (make_dirs p t) q = Some n" for q n
  proof (cases "node_at t q")
    case None
    with that have "prefix q p" by (simp add: node_make_dirs split: if_splits)
    then have b: "prefix (butlast q) p" by (metis prefix_order.trans prefixeq_butlast)
    with assms(3) [OF b] show ?thesis by (auto simp: node_make_dirs)
  next
    case (Some m)
    then show ?thesis using node_wf [OF assms(1)] by (simp add: node_make_dirs)
  qed
  with assms(1,2) show ?thesis by (simp add: wf_node_iff tree_ok_make_dirs)
qed

section \<open>Which nodes an effect may lose\<close>

text \<open>
  On a machine whose file operations succeed and on which a question to git leaves the files alone, a
  well-formed tree stays well-formed and every node is kept but those \<open>X\<close> describes.
\<close>

definition quiet_machine :: "host \<Rightarrow> bool" where
  "quiet_machine h \<longleftrightarrow> (\<forall>n. io_fault h n = Done) \<and> (\<forall>n args t. tree_after (proc h n (git args) t) = t)"

definition keeps_nodes :: "(path \<Rightarrow> node \<Rightarrow> bool) \<Rightarrow> tree \<Rightarrow> tree \<Rightarrow> bool" where
  "keeps_nodes X t t' \<longleftrightarrow> (wf_tree t \<longrightarrow> wf_tree t' \<and>
     (\<forall>q n. node_at t q = Some n \<longrightarrow> X q n \<or> node_at t' q = Some n))"

definition spares :: "(path \<Rightarrow> node \<Rightarrow> bool) \<Rightarrow> host \<Rightarrow> host \<Rightarrow> bool" where
  "spares X h k \<longleftrightarrow> given_env h k \<and> (quiet_machine h \<longrightarrow> keeps_nodes X (tree h) (tree k))"

lemma keeps_nodes_refl [simp]: "keeps_nodes X t t"
  by (simp add: keeps_nodes_def)

lemma keeps_nodes_trans: "keeps_nodes X s t \<Longrightarrow> keeps_nodes X t u \<Longrightarrow> keeps_nodes X s u"
  unfolding keeps_nodes_def by blast

lemma quiet_given: "given_env h k \<Longrightarrow> quiet_machine h \<Longrightarrow> quiet_machine k"
  by (simp add: given_env_def quiet_machine_def)

interpretation sp: host_relation "spares X"
proof
  show "spares X h h" for h by (simp add: spares_def)
  show "spares X g h \<Longrightarrow> spares X h k \<Longrightarrow> spares X g k" for g h k
    unfolding spares_def by (meson quiet_given genv.trans keeps_nodes_trans)
qed

lemma spares_mono:
  assumes "state_io_rel (spares X) m" and "\<And>q n. X q n \<Longrightarrow> Y q n"
  shows "state_io_rel (spares Y) m"
proof -
  have "keeps_nodes Y t t'" if "keeps_nodes X t t'" for t t'
    using that assms(2) unfolding keeps_nodes_def by blast
  then show ?thesis using assms(1) unfolding state_io_rel_def spares_def by blast
qed

text \<open>What is below a place that was free is not lost.\<close>

lemma free_below:
  assumes "wf_tree t" "node_at t d = None" "node_at t q = Some n"
  shows "\<not> prefix d q"
proof
  assume "prefix d q"
  then obtain r where "q = d @ r" by (auto elim: prefixE)
  with node_above [OF assms(1)] assms(2,3) show False by (cases "r = []") force+
qed

text \<open>
  An effect \<open>f\<close> that depends on what \<open>m\<close> saw may lose more, as long as nothing of that was there.
\<close>

lemma spares_guarded:
  assumes m: "state_io_rel (spares X) m" and any: "\<And>h r k. run_state m h = (r, k) \<Longrightarrow> \<exists>Y. state_io_rel (spares Y) (f r)"
    and f: "\<And>h r k. run_state m h = (r, k) \<Longrightarrow> quiet_machine h \<Longrightarrow> wf_tree (tree h) \<Longrightarrow>
      \<exists>Z. (\<forall>q n. node_at (tree h) q = Some n \<longrightarrow> Z q n \<longrightarrow> X q n) \<and> (\<forall>q n. X q n \<longrightarrow> Z q n) \<and> state_io_rel (spares Z) (f r)"
  shows "state_io_rel (spares X) (State_Monad.bind m f)"
proof (rule state_io_relI)
  fix x h k
  assume run: "run_state (State_Monad.bind m f) h = (x, k)"
  obtain r h1 where r: "run_state m h = (r, h1)" by (cases "run_state m h")
  with run have k: "run_state (f r) h1 = (x, k)" by simp
  from m r have s1: "spares X h h1" by blast
  from any [OF r] k obtain Y where "spares Y h1 k" by blast
  with s1 have env: "given_env h k" unfolding spares_def by (meson genv.trans)
  moreover have "keeps_nodes X (tree h) (tree k)" if c: "quiet_machine h" and wf: "wf_tree (tree h)"
  proof -
    from f [OF r c wf] obtain Z where Z: "\<forall>q n. node_at (tree h) q = Some n \<longrightarrow> Z q n \<longrightarrow> X q n"
      "\<forall>q n. X q n \<longrightarrow> Z q n" "state_io_rel (spares Z) (f r)" by blast
    from Z(3) k have "spares Z h1 k" by blast
    with s1 c have "keeps_nodes X (tree h) (tree h1)" "keeps_nodes Z (tree h1) (tree k)"
      by (auto simp: spares_def quiet_given)
    with Z(1,2) wf show ?thesis unfolding keeps_nodes_def by blast
  qed
  moreover have "keeps_nodes X (tree h) (tree k)" if "\<not> wf_tree (tree h)"
    using that by (simp add: keeps_nodes_def)
  ultimately show "spares X h k" unfolding spares_def by blast
qed

lemma spares_file_op:
  assumes "\<And>t. keeps_nodes X t (snd (f Done t))"
  shows "state_io_rel (spares X) (file_op f)"
proof (rule state_io_relI)
  fix x h k
  assume run: "run_state (file_op f) h = (x, k)"
  then have t: "tree k = snd (f (io_fault h (io_ops h)) (tree h))"
    by (auto simp: file_op_def split: prod.splits)
  from run have "given_env h k" using genv_file_op [of f] unfolding state_io_rel_def by (metis snd_conv)
  with t assms [of "tree h"] show "spares X h k" by (simp add: spares_def quiet_machine_def)
qed

lemma spares_read [keeps_intros]:
  "state_io_rel (spares X) (read_file p)" "state_io_rel (spares X) (read_dir p)"
  "state_io_rel (spares X) (ReadFile p)" "state_io_rel (spares X) (ReadDir p)"
  "state_io_rel (spares X) (Stat p)" "state_io_rel (spares X) (close_file p)"
  unfolding tree_op_defs file_op_defs by (rule spares_file_op, simp)+

lemma spares_exists [keeps_intros]:
  "state_io_rel (spares X) (dirExists p)" "state_io_rel (spares X) (fileExists p)"
  unfolding dirExists_def fileExists_def by (intro keeps_intros)+

lemma spares_git [keeps_intros]: "state_io_rel (spares X) (run_command c (git args))"
  using genv_command [of c "git args"]
  by (auto simp: state_io_rel_def spares_def run_command_def quiet_machine_def Let_def)

lemma spares_now [keeps_intros]: "state_io_rel (spares X) now_io"
  using genv_now by (auto simp: state_io_rel_def spares_def now_io_def)

text \<open>Making directories and temporary files loses nothing.\<close>

lemma spares_mkdir [keeps_intros]:
  assumes "list_all clean_name p"
  shows "state_io_rel (spares X) (MkdirAll p)"
  unfolding MkdirAll_def
proof (rule spares_file_op)
  fix t
  have "keeps_nodes X t (make_dirs p t)"
    if "\<forall>q \<in> set (prefixes p). case node_at t q of Some (File _) \<Rightarrow> False | _ \<Rightarrow> True"
  proof -
    have "node_at t q = None \<or> node_at t q = Some Dir" if "prefix q p" for q
    proof -
      have "case node_at t q of Some (File _) \<Rightarrow> False | _ \<Rightarrow> True"
        using \<open>\<forall>q \<in> set (prefixes p). _ q\<close> that by simp
      then show ?thesis by (simp split: option.splits node.splits)
    qed
    then show ?thesis using assms by (simp add: keeps_nodes_def wf_make_dirs make_dirs_keeps)
  qed
  then show "keeps_nodes X t (snd (if Done = Done \<and>
      (\<forall>q \<in> set (prefixes p). case node_at t q of Some (File _) \<Rightarrow> False | _ \<Rightarrow> True)
     then (Inr (), make_dirs p t) else (Inl (PathError (path_text p)), t)))" by simp
qed

lemma spares_mkdir_temp [keeps_intros]:
  assumes "list_all clean_name dir"
  shows "state_io_rel (spares X) (MkdirTemp dir name)"
  unfolding MkdirTemp_def
  by (rule spares_file_op) (use assms in \<open>auto simp: Let_def keeps_nodes_def intro!: wf_put Join_names\<close>)

lemma spares_create_temp [keeps_intros]:
  assumes "list_all clean_name dir"
  shows "state_io_rel (spares X) (CreateTemp dir name)"
  unfolding CreateTemp_def
  by (rule spares_file_op) (use assms in \<open>auto simp: Let_def keeps_nodes_def intro!: wf_put Join_names\<close>)

text \<open>A write loses at most the file it replaces, a removal what is below its path.\<close>

lemma spares_write:
  assumes "list_all clean_name p" and "\<And>c. X p (File c)"
  shows "state_io_rel (spares X) (WriteFile p c)"
  unfolding WriteFile_def
proof (rule spares_file_op)
  fix t
  have "keeps_nodes X t (put_node p (File c) t)"
    if "p \<noteq> []" "node_at t p \<noteq> Some Dir" "node_at t (butlast p) = Some Dir"
  proof -
    have "X q n \<or> node_at (put_node p (File c) t) q = Some n" if "node_at t q = Some n" for q n
      using that \<open>node_at t p \<noteq> Some Dir\<close> assms(2) by (cases n) auto
    moreover have "wf_tree t \<Longrightarrow> wf_tree (put_node p (File c) t)"
      using that assms(1) by (auto intro: wf_put)
    ultimately show ?thesis by (simp add: keeps_nodes_def)
  qed
  then show "keeps_nodes X t (snd (if p = [] \<or> node_at t p = Some Dir \<or> node_at t (butlast p) \<noteq> Some Dir
     then (Inl (PathError (path_text p)), t)
     else case Done of
       Done \<Rightarrow> (Inr (), put_node p (File c) t)
     | Refused \<Rightarrow> (Inl (PathError (path_text p)), t)
     | Torn c' \<Rightarrow> (Inl (PathError (path_text p)), put_node p (File c') t)))" by simp
qed

lemma spares_remove_all:
  assumes "\<And>q n. prefix p q \<Longrightarrow> X q n"
  shows "state_io_rel (spares X) (RemoveAll p)"
  unfolding RemoveAll_def
  by (rule spares_file_op) (use assms in \<open>auto simp: keeps_nodes_def wf_remove\<close>)

lemma below_a_file:
  assumes "wf_tree t" "node_at t p = Some (File c)" "prefix p q" "node_at t q = Some n"
  shows "q = p"
proof -
  obtain r where "q = p @ r" using assms(3) by (auto elim: prefixE)
  then show ?thesis using node_above [OF assms(1)] assms(2,4) by (cases "r = []") force+
qed

lemma spares_remove:
  assumes "\<And>c. X p (File c)"
  shows "state_io_rel (spares X) (Remove p)"
  unfolding Remove_def
proof (rule spares_file_op)
  fix t
  have "keeps_nodes X t (remove_tree p t)" if f: "node_at t p = Some (File c)" for c
  proof -
    have "X q n" if "wf_tree t" "prefix p q" "node_at t q = Some n" for q n
      using that f assms below_a_file [OF that(1) f that(2,3)] by auto
    then show ?thesis by (auto simp: keeps_nodes_def wf_remove)
  qed
  then show "keeps_nodes X t (snd (case node_at t p of
       Some (File _) \<Rightarrow> if Done = Done then (Inr (), remove_tree p t) else (Inl (PathError (path_text p)), t)
     | _ \<Rightarrow> (Inl (PathError (path_text p)), t)))" by (simp split: option.splits node.splits)
qed

lemma spares_rename:
  assumes q: "list_all clean_name q" and X: "\<And>c. X p (File c)" "\<And>c. X q (File c)"
  shows "state_io_rel (spares X) (Rename p q)"
  unfolding Rename_def
proof (rule spares_file_op)
  fix t
  have moved: "keeps_nodes X t (put_node q (File c) (remove_tree p t))"
    if f: "node_at t p = Some (File c)" "q \<noteq> []" "node_at t q \<noteq> Some Dir" "node_at t (butlast q) = Some Dir" "p \<noteq> q" for c
  proof -
    have "node_at (remove_tree p t) (butlast q) = Some Dir" if wf: "wf_tree t"
    proof (cases "prefix p (butlast q)")
      case True
      with below_a_file [OF wf f(1) True f(4)] f(1,4) show ?thesis by simp
    qed (use f in simp)
    then have "wf_tree t \<Longrightarrow> wf_tree (put_node q (File c) (remove_tree p t))"
      using f(2,3) q by (intro wf_put wf_remove) auto
    moreover have "X r n \<or> node_at (put_node q (File c) (remove_tree p t)) r = Some n"
      if "wf_tree t" "node_at t r = Some n" for r n
      using that f X below_a_file [OF that(1) f(1) _ that(2)] by (cases n) auto
    ultimately show ?thesis by (simp add: keeps_nodes_def)
  qed
  have same: "keeps_nodes X t (put_node q (File c) t)"
    if "node_at t q = Some (File c)" "node_at t (butlast q) = Some Dir" for c
    using that q by (auto simp: keeps_nodes_def intro: wf_put)
  show "keeps_nodes X t (snd (case node_at t p of
       Some (File c) \<Rightarrow>
         if Done \<noteq> Done \<or> q = [] \<or> node_at t q = Some Dir \<or> node_at t (butlast q) \<noteq> Some Dir
         then (Inl (PathError (path_text p)), t)
         else (Inr (), put_node q (File c) (if p = q then t else remove_tree p t))
     | _ \<Rightarrow> (Inl (PathError (path_text p)), t)))"
    using moved same by (auto split: option.splits node.splits)
qed

text \<open>A place that was free when its name was given out.\<close>

lemma spares_fresh_place:
  assumes m: "state_io_rel (spares X) m"
    and new: "\<And>h p k. run_state m h = (Inr p, k) \<Longrightarrow> node_at (tree h) p = None \<and> list_all clean_name p"
    and body: "\<And>p. list_all clean_name p \<Longrightarrow> state_io_rel (spares (\<lambda>q n. X q n \<or> prefix p q)) (g p)"
  shows "state_io_rel (spares X) (or_fail m g)" and "state_io_rel (spares X) (or_wrap f args m g)"
proof -
  have "state_io_rel (spares X) (State_Monad.bind m (case_sum (\<lambda>e. State_Monad.return (Inl (j e))) g))" for j
  proof (rule spares_guarded [OF m])
    fix h r k
    assume run: "run_state m h = (r, k)"
    let ?Z = "\<lambda>q n. X q n \<or> (case r of Inl _ \<Rightarrow> False | Inr p \<Rightarrow> prefix p q)"
    have Z: "state_io_rel (spares ?Z) (case r of Inl e \<Rightarrow> State_Monad.return (Inl (j e)) | Inr x \<Rightarrow> g x)"
      using new [of h _ k] run body by (cases r) (auto intro: sp.k_return)
    then show "\<exists>Y. state_io_rel (spares Y) (case r of Inl e \<Rightarrow> State_Monad.return (Inl (j e)) | Inr x \<Rightarrow> g x)" by blast
    assume "wf_tree (tree h)"
    then have "\<forall>q n. node_at (tree h) q = Some n \<longrightarrow> ?Z q n \<longrightarrow> X q n"
      using new [of h _ k] run by (cases r) (auto dest: free_below)
    with Z show "\<exists>Z. (\<forall>q n. node_at (tree h) q = Some n \<longrightarrow> Z q n \<longrightarrow> X q n) \<and> (\<forall>q n. X q n \<longrightarrow> Z q n) \<and>
        state_io_rel (spares Z) (case r of Inl e \<Rightarrow> State_Monad.return (Inl (j e)) | Inr x \<Rightarrow> g x)"
      by (intro exI [of _ ?Z]) simp
  qed
  from this [of "\<lambda>e. e"] this [of "\<lambda>e. Errorf f args (Some e)"]
  show "state_io_rel (spares X) (or_fail m g)" and "state_io_rel (spares X) (or_wrap f args m g)"
    by (simp_all add: or_fail_def or_wrap_def)
qed

lemma temp_free:
  "run_state (MkdirTemp dir name) h = (Inr p, k) \<Longrightarrow> node_at (tree h) p = None \<and> p = Join dir (name (tree h))"
  "run_state (CreateTemp dir name) h = (Inr p, k) \<Longrightarrow> node_at (tree h) p = None \<and> p = Join dir (name (tree h))"
  by (auto simp: MkdirTemp_def CreateTemp_def file_op_def Let_def split: if_splits)

lemma spares_in_temp_dir:
  assumes dir: "list_all clean_name dir"
    and body: "\<And>p. list_all clean_name p \<Longrightarrow> state_io_rel (spares (\<lambda>q n. X q n \<or> prefix p q)) (g p)"
  shows "state_io_rel (spares X) (or_fail (MkdirTemp dir name) g)"
    and "state_io_rel (spares X) (or_wrap f args (MkdirTemp dir name) g)"
  by (rule spares_fresh_place [OF spares_mkdir_temp [OF dir] _ body];
      auto dest: temp_free simp: Join_names dir)+

lemma spares_in_temp_file:
  assumes dir: "list_all clean_name dir"
    and body: "\<And>p. list_all clean_name p \<Longrightarrow> state_io_rel (spares (\<lambda>q n. X q n \<or> prefix p q)) (g p)"
  shows "state_io_rel (spares X) (or_fail (CreateTemp dir name) g)"
  by (rule spares_fresh_place [OF spares_create_temp [OF dir] _ body];
      auto dest: temp_free simp: Join_names dir)

end
