(* ===== verification/Upgrade.thy ===== *)
theory Upgrade
  imports Trees Engine Stream
begin

text \<open>
  \<open>internal/upgrademigrate\<close>: an installation from before the program was renamed is copied into today's
  places once, its configuration file by file, its database through SQLite and its worktrees as trees,
  and the outcome is kept in a sentinel file.

  SQLite, the hash of a file, the YAML decoder, the text of a time and the names of temporary files are
  parameters; the bytes of the database, of a configuration file and of the sentinel are file contents.
  \<open>verifyHook\<close>, a seam for tests, is the identity.
\<close>

section \<open>What the migration takes from outside\<close>

text \<open>
  SQLite works on the tree: \<open>VACUUM INTO\<close> of one database file into another, the number of rows of a
  table of a database, and opening and closing a database through \<open>store.Open\<close>, which brings its
  schema up to date.  \<open>depth\<close> is how many levels a path can have before the operating system refuses it.
\<close>

record outside =
  vacuum_into :: "path \<Rightarrow> path \<Rightarrow> tree \<Rightarrow> (err + unit) \<times> tree"
  count_rows :: "path \<Rightarrow> string \<Rightarrow> tree \<Rightarrow> (err + int) \<times> tree"
  open_store :: "path \<Rightarrow> tree \<Rightarrow> (err + unit) \<times> tree"
  hash_of :: "raw_json \<Rightarrow> string"
  yaml_of :: yaml_parser
  time_text :: "time \<Rightarrow> err + string"
  time_of :: "string \<Rightarrow> time option"
  temp_name :: "string \<Rightarrow> tree \<Rightarrow> string"
  home_error :: "err option"
  depth :: nat

section \<open>Paths\<close>

record paths =
  oldConfigDir :: path
  oldDBPath :: path
  oldFleetRoot :: path
  newConfigDir :: path
  newDBPath :: path
  newFleetRoot :: path
  sentinelPath :: path

definition sentinelFileName :: string where
  "sentinelFileName = ''.migration-from-sergeant.json''"

definition envOr :: "host \<Rightarrow> string \<Rightarrow> path \<Rightarrow> path" where
  "envOr h name fallback = (if getenv h name \<noteq> [] then Join [] (getenv h name) else fallback)"

definition Joins :: "path \<Rightarrow> string list \<Rightarrow> path" where
  "Joins p cs = foldl Join p cs"

definition resolvePaths :: "outside \<Rightarrow> host \<Rightarrow> err + paths" where
  "resolvePaths u h = (case home_error u of
     Some e \<Rightarrow> Inl (Errorf ''resolving home directory: %w'' [] (Some e))
   | None \<Rightarrow>
       let home = home_dir h;
           new_config = envOr h ''SGT_CONFIG'' (Joins home [''.config'', ''sgt'']) in
       Inr \<lparr>oldConfigDir = envOr h ''SGT_OLD_CONFIG_DIR'' (Joins home [''.config'', ''sergeant'']),
         oldDBPath = envOr h ''SGT_OLD_DB_PATH'' (Joins home [''.local'', ''share'', ''sergeant'', ''sergeant.db'']),
         oldFleetRoot = envOr h ''SGT_OLD_FLEET_ROOT'' (Joins home [''.local'', ''share'', ''sergeant-v2'', ''fleet'']),
         newConfigDir = new_config,
         newDBPath = envOr h ''SGT_DB_PATH'' (Joins home [''.local'', ''share'', ''sgt'', ''sgt.db'']),
         newFleetRoot = envOr h ''SGT_FLEET_DIR'' (Joins home [''.local'', ''share'', ''sgt-v2'', ''fleet'']),
         sentinelPath = Join new_config sentinelFileName\<rparr>)"

text \<open>The new places are those the configuration loader and the engine use.\<close>

lemma resolvePaths_agree:
  assumes "resolvePaths u h = Inr p"
  shows "newConfigDir p = config_dir h" and "newFleetRoot p = FleetRoot h"
  using assms by (auto simp: resolvePaths_def config_dir_def FleetRoot_def envOr_def Joins_def Let_def split: option.splits)

section \<open>The sentinel\<close>

record FleetItemMarker =
  fm_Head :: string
  fm_Status :: string

text \<open>The map of markers is a list with distinct keys, encoded in the order of its keys.\<close>

record Sentinel =
  sn_Status :: string
  sn_SourcePaths :: "string list"
  sn_Timestamp :: time
  sn_Conflicts :: "string list"
  sn_Mismatches :: "string list"
  sn_StoreSnapshotHash :: string
  sn_FleetItemState :: "(string \<times> FleetItemMarker) list"

definition zero_sentinel :: Sentinel where
  "zero_sentinel = \<lparr>sn_Status = [], sn_SourcePaths = [], sn_Timestamp = 0, sn_Conflicts = [], sn_Mismatches = [],
     sn_StoreSnapshotHash = [], sn_FleetItemState = []\<rparr>"

definition zero_marker :: FleetItemMarker where
  "zero_marker = \<lparr>fm_Head = [], fm_Status = []\<rparr>"

definition encode_strings :: "string \<Rightarrow> string list \<Rightarrow> (string \<times> json) list" where
  "encode_strings k xs = (if xs = [] then [] else [(k, JArr (map JStr xs))])"

definition encode_marker :: "FleetItemMarker \<Rightarrow> json" where
  "encode_marker m = JObj [(''head'', JStr (fm_Head m)), (''status'', JStr (fm_Status m))]"

definition encode_sentinel :: "outside \<Rightarrow> Sentinel \<Rightarrow> err + raw_json" where
  "encode_sentinel u s = (case time_text u (sn_Timestamp s) of
     Inl e \<Rightarrow> Inl e
   | Inr ts \<Rightarrow> Inr (RawDoc (JObj (
       [(''status'', JStr (sn_Status s)), (''source_paths'', JArr (map JStr (sn_SourcePaths s))),
        (''timestamp'', JStr ts)] @
       encode_strings ''conflicts'' (sn_Conflicts s) @ encode_strings ''mismatches'' (sn_Mismatches s) @
       (if sn_StoreSnapshotHash s = [] then [] else [(''store_snapshot_hash'', JStr (sn_StoreSnapshotHash s))]) @
       (if sn_FleetItemState s = [] then []
        else [(''fleet_item_state'', JObj (map (\<lambda>(k, m). (k, encode_marker m))
          (sort_key fst (sn_FleetItemState s))))])))))"

definition set_marker :: "string \<Rightarrow> json \<Rightarrow> FleetItemMarker \<Rightarrow> FleetItemMarker \<times> bool" where
  "set_marker k v m =
     (if k = ''head'' then set_string (\<lambda>s m. m\<lparr>fm_Head := s\<rparr>) v m
      else if k = ''status'' then set_string (\<lambda>s m. m\<lparr>fm_Status := s\<rparr>) v m
      else (m, True))"

text \<open>A map is filled key by key; an element starts from the zero value and the last of a key counts.\<close>

fun set_markers :: "(string \<times> json) list \<Rightarrow> (string \<times> FleetItemMarker) list \<Rightarrow> (string \<times> FleetItemMarker) list \<times> bool" where
  "set_markers [] x = (x, True)"
| "set_markers ((k, v) # ms) x =
     (let (m, ok1) = set_struct set_marker zero_marker v; (y, ok2) = set_markers ms (AList.update k m x) in (y, ok1 \<and> ok2))"

definition set_strings :: "(string list \<Rightarrow> 'a \<Rightarrow> 'a) \<Rightarrow> json \<Rightarrow> 'a \<Rightarrow> 'a \<times> bool" where
  "set_strings upd v x = set_list (\<lambda>x v. set_string (\<lambda>s _. s) v x) [] upd v x"

definition set_timestamp :: "outside \<Rightarrow> json \<Rightarrow> Sentinel \<Rightarrow> Sentinel \<times> bool" where
  "set_timestamp u v x = (case v of
     JNull \<Rightarrow> (x, True)
   | JStr s \<Rightarrow> (case time_of u s of Some t \<Rightarrow> (x\<lparr>sn_Timestamp := t\<rparr>, True) | None \<Rightarrow> (x, False))
   | _ \<Rightarrow> (x, False))"

definition set_sentinel :: "outside \<Rightarrow> string \<Rightarrow> json \<Rightarrow> Sentinel \<Rightarrow> Sentinel \<times> bool" where
  "set_sentinel u k v x =
     (if k = ''status'' then set_string (\<lambda>s x. x\<lparr>sn_Status := s\<rparr>) v x
      else if k = ''source_paths'' then set_strings (\<lambda>xs x. x\<lparr>sn_SourcePaths := xs\<rparr>) v x
      else if k = ''timestamp'' then set_timestamp u v x
      else if k = ''conflicts'' then set_strings (\<lambda>xs x. x\<lparr>sn_Conflicts := xs\<rparr>) v x
      else if k = ''mismatches'' then set_strings (\<lambda>xs x. x\<lparr>sn_Mismatches := xs\<rparr>) v x
      else if k = ''store_snapshot_hash'' then set_string (\<lambda>s x. x\<lparr>sn_StoreSnapshotHash := s\<rparr>) v x
      else if k = ''fleet_item_state'' then (case v of
          JNull \<Rightarrow> (x\<lparr>sn_FleetItemState := []\<rparr>, True)
        | JObj ms \<Rightarrow> (case set_markers ms (sn_FleetItemState x) of (fs, ok) \<Rightarrow> (x\<lparr>sn_FleetItemState := fs\<rparr>, ok))
        | _ \<Rightarrow> (x, False))
      else (x, True))"

definition readSentinel :: "outside \<Rightarrow> path \<Rightarrow> (err + Sentinel option) io" where
  "readSentinel u p = do {
     r \<leftarrow> read_file p;
     State_Monad.return (case r of
       Inl e \<Rightarrow> if errors_Is e NotExist then Inr None else Inl e
     | Inr data \<Rightarrow> (case Unmarshal (set_struct (set_sentinel u)) data zero_sentinel of
         (s, None) \<Rightarrow> Inr (Some s) | (_, Some e) \<Rightarrow> Inl e)) }"

text \<open>A temporary file in the same directory that is renamed; it is removed when it was not written.\<close>

definition or_remove :: "path \<Rightarrow> (err + unit) io \<Rightarrow> (err + unit) io \<Rightarrow> (err + unit) io" where
  "or_remove tmp m k = do {
     r \<leftarrow> m;
     case r of Inl e \<Rightarrow> do { _ \<leftarrow> Remove tmp; State_Monad.return (Inl e) } | Inr _ \<Rightarrow> k }"

definition writeSentinel :: "outside \<Rightarrow> path \<Rightarrow> Sentinel \<Rightarrow> (err + unit) io" where
  "writeSentinel u p s =
     or_fail (MkdirAll (butlast p)) (\<lambda>_.
     case encode_sentinel u s of Inl e \<Rightarrow> State_Monad.return (Inl e) | Inr data \<Rightarrow>
     or_fail (CreateTemp (butlast p) (temp_name u ''.sentinel-*.tmp'')) (\<lambda>tmp.
     or_remove tmp (WriteFile tmp data) (or_remove tmp (close_file tmp) (Rename tmp p))))"

definition configYAMLFiles :: "path \<Rightarrow> (err + string list) io" where
  "configYAMLFiles dir = do {
     r \<leftarrow> read_dir dir;
     State_Monad.return (case r of
       Inl e \<Rightarrow> if errors_Is e NotExist then Inr [] else Inl e
     | Inr entries \<Rightarrow> Inr (map fst (filter (\<lambda>(name, n). n \<noteq> Dir \<and>
         (HasSuffix name ''.yaml'' \<or> HasSuffix name ''.yml'')) entries))) }"

definition detected :: "paths \<Rightarrow> bool io" where
  "detected p = do {
     names \<leftarrow> configYAMLFiles (oldConfigDir p);
     if (case names of Inr ns \<Rightarrow> ns \<noteq> [] | Inl _ \<Rightarrow> False) then State_Monad.return True
     else do {
       has_db \<leftarrow> fileExists (oldDBPath p);
       if has_db then State_Monad.return True else dirExists (oldFleetRoot p) } }"

definition Detected :: "outside \<Rightarrow> (err + bool) io" where
  "Detected u = do {
     h \<leftarrow> get_host;
     case resolvePaths u h of Inl e \<Rightarrow> State_Monad.return (Inl e)
     | Inr p \<Rightarrow> do { b \<leftarrow> detected p; State_Monad.return (Inr b) } }"

definition LastResult :: "outside \<Rightarrow> (err + Sentinel option) io" where
  "LastResult u = do {
     h \<leftarrow> get_host;
     case resolvePaths u h of Inl e \<Rightarrow> State_Monad.return (Inl e) | Inr p \<Rightarrow> readSentinel u (sentinelPath p) }"

section \<open>Configuration\<close>

record configMigrationResult =
  cm_Migrated :: "string list"
  cm_Conflicts :: "string list"

definition copyFile :: "path \<Rightarrow> path \<Rightarrow> (err + unit) io" where
  "copyFile src dst =
     or_fail (Stat src) (\<lambda>_. or_fail (read_file src) (\<lambda>data.
     or_fail (MkdirAll (butlast dst)) (\<lambda>_. WriteFile dst data)))"

text \<open>One file: whether it is migrated, or a conflict.\<close>

definition config_item :: "paths \<Rightarrow> string \<Rightarrow> (err + bool) io" where
  "config_item p name =
     (let src = Join (oldConfigDir p) name; dst = Join (newConfigDir p) name in
      or_wrap ''reading %s: %w'' [path_text src] (read_file src) (\<lambda>srcData. do {
        r \<leftarrow> read_file dst;
        case r of
          Inl e \<Rightarrow>
            if e = NotExist then
              or_wrap ''copying %s to %s: %w'' [path_text src, path_text dst] (copyFile src dst)
                (\<lambda>_. State_Monad.return (Inr True))
            else State_Monad.return (Inl (Errorf ''reading %s: %w'' [path_text dst] (Some e)))
        | Inr dstData \<Rightarrow> State_Monad.return (Inr (srcData = dstData)) }))"

fun config_items :: "paths \<Rightarrow> string list \<Rightarrow> configMigrationResult \<Rightarrow> (err + configMigrationResult) io" where
  "config_items p [] res = State_Monad.return (Inr res)"
| "config_items p (name # names) res =
     or_fail (config_item p name) (\<lambda>migrated.
     config_items p names
       (if migrated then res\<lparr>cm_Migrated := cm_Migrated res @ [name]\<rparr>
        else res\<lparr>cm_Conflicts := cm_Conflicts res @ [''config:'' @ name]\<rparr>))"

definition migrateConfig :: "paths \<Rightarrow> (err + configMigrationResult) io" where
  "migrateConfig p =
     or_wrap ''listing %s: %w'' [path_text (oldConfigDir p)] (configYAMLFiles (oldConfigDir p)) (\<lambda>names.
     if names = [] then State_Monad.return (Inr \<lparr>cm_Migrated = [], cm_Conflicts = []\<rparr>)
     else or_wrap ''creating %s: %w'' [path_text (newConfigDir p)] (MkdirAll (newConfigDir p)) (\<lambda>_.
       config_items p names \<lparr>cm_Migrated = [], cm_Conflicts = []\<rparr>))"

section \<open>The store\<close>

record storeMigrationResult =
  sm_Migrated :: bool
  sm_Conflict :: string
  sm_SourceRuns :: int
  sm_SourcePhases :: int
  sm_StoreSnapshotHash :: string

definition no_store :: storeMigrationResult where
  "no_store = \<lparr>sm_Migrated = False, sm_Conflict = [], sm_SourceRuns = 0, sm_SourcePhases = 0, sm_StoreSnapshotHash = []\<rparr>"

definition vacuumInto :: "outside \<Rightarrow> path \<Rightarrow> path \<Rightarrow> (err + unit) io" where
  "vacuumInto u src dst = file_op (\<lambda>_. vacuum_into u src dst)"

definition countRows :: "outside \<Rightarrow> path \<Rightarrow> string \<Rightarrow> (err + int) io" where
  "countRows u p table = file_op (\<lambda>_. count_rows u p table)"

definition hashFile :: "outside \<Rightarrow> path \<Rightarrow> (err + string) io" where
  "hashFile u p = or_fail (read_file p) (\<lambda>data. State_Monad.return (Inr (hash_of u data)))"

text \<open>A deferred removal: it runs however the body ends.\<close>

definition with_tmp_dir :: "path \<Rightarrow> 'a io \<Rightarrow> 'a io" where
  "with_tmp_dir tmpDir body = do { r \<leftarrow> body; _ \<leftarrow> RemoveAll tmpDir; State_Monad.return r }"

text \<open>The rows of both tables of a database.\<close>

definition take_snapshot :: "outside \<Rightarrow> paths \<Rightarrow> path \<Rightarrow> (err + storeMigrationResult) io" where
  "take_snapshot u p snapshotPath =
     or_wrap ''snapshotting %s: %w'' [path_text (oldDBPath p)] (vacuumInto u (oldDBPath p) snapshotPath) (\<lambda>_.
     or_wrap ''counting runs in snapshot: %w'' [] (countRows u snapshotPath ''runs'') (\<lambda>srcRuns.
     or_wrap ''counting phases in snapshot: %w'' [] (countRows u snapshotPath ''phases'') (\<lambda>srcPhases.
     or_wrap ''moving snapshot to %s: %w'' [path_text (newDBPath p)] (Rename snapshotPath (newDBPath p)) (\<lambda>_.
     or_wrap ''opening migrated store %s: %w'' [path_text (newDBPath p)]
       (file_op (\<lambda>_. open_store u (newDBPath p))) (\<lambda>_.
     or_wrap ''hashing migrated store %s: %w'' [path_text (newDBPath p)] (hashFile u (newDBPath p)) (\<lambda>hash.
     State_Monad.return (Inr \<lparr>sm_Migrated = True, sm_Conflict = [], sm_SourceRuns = srcRuns,
       sm_SourcePhases = srcPhases, sm_StoreSnapshotHash = hash\<rparr>)))))))"

definition migrateStore :: "outside \<Rightarrow> paths \<Rightarrow> (err + storeMigrationResult) io" where
  "migrateStore u p = do {
     has_old \<leftarrow> fileExists (oldDBPath p);
     if \<not> has_old then State_Monad.return (Inr no_store)
     else do {
       has_new \<leftarrow> fileExists (newDBPath p);
       if has_new then State_Monad.return (Inr (no_store\<lparr>sm_Conflict := ''store''\<rparr>))
       else
         or_wrap ''creating %s: %w'' [path_text (butlast (newDBPath p))] (MkdirAll (butlast (newDBPath p))) (\<lambda>_.
         or_wrap ''creating temp snapshot dir: %w'' []
           (MkdirTemp (butlast (newDBPath p)) (temp_name u ''sgt-migrate-*'')) (\<lambda>tmpDir.
         with_tmp_dir tmpDir (take_snapshot u p (Join tmpDir ''snapshot.db'')))) } }"

text \<open>\<open>os.TempDir\<close>.\<close>

definition TempDir :: "host \<Rightarrow> path" where
  "TempDir h = (if getenv h ''TMPDIR'' = [] then [''tmp''] else Join [] (getenv h ''TMPDIR''))"

definition sourceRowCountsOnly :: "outside \<Rightarrow> path \<Rightarrow> (err + storeMigrationResult) io" where
  "sourceRowCountsOnly u oldDB = do {
     h \<leftarrow> get_host;
     or_fail (MkdirTemp (TempDir h) (temp_name u ''sgt-migrate-count-*'')) (\<lambda>tmpDir.
     let snapshotPath = Join tmpDir ''snapshot.db'' in
     with_tmp_dir tmpDir
       (or_wrap ''snapshotting %s for recount: %w'' [path_text oldDB] (vacuumInto u oldDB snapshotPath) (\<lambda>_.
        or_fail (countRows u snapshotPath ''runs'') (\<lambda>srcRuns.
        or_fail (countRows u snapshotPath ''phases'') (\<lambda>srcPhases.
        State_Monad.return (Inr (no_store\<lparr>sm_SourceRuns := srcRuns, sm_SourcePhases := srcPhases\<rparr>))))))) }"

text \<open>A database at the new place that still has the recorded hash is the migration's own.\<close>

definition recount :: "outside \<Rightarrow> paths \<Rightarrow> string \<Rightarrow> (err + storeMigrationResult) io" where
  "recount u p currentHash = do {
     has_old \<leftarrow> fileExists (oldDBPath p);
     if \<not> has_old then
       or_wrap ''counting destination runs: %w'' [] (countRows u (newDBPath p) ''runs'') (\<lambda>destRuns.
       or_wrap ''counting destination phases: %w'' [] (countRows u (newDBPath p) ''phases'') (\<lambda>destPhases.
       State_Monad.return (Inr \<lparr>sm_Migrated = True, sm_Conflict = [], sm_SourceRuns = destRuns,
         sm_SourcePhases = destPhases, sm_StoreSnapshotHash = currentHash\<rparr>)))
     else or_fail (sourceRowCountsOnly u (oldDBPath p)) (\<lambda>counts.
       State_Monad.return (Inr (counts\<lparr>sm_Migrated := True, sm_StoreSnapshotHash := currentHash\<rparr>))) }"

definition migrateStoreRetryAware :: "outside \<Rightarrow> paths \<Rightarrow> Sentinel option \<Rightarrow> (err + storeMigrationResult) io" where
  "migrateStoreRetryAware u p prior =
     (let recorded = (case prior of Some s \<Rightarrow> sn_StoreSnapshotHash s | None \<Rightarrow> []) in
      if recorded = [] then migrateStore u p
      else do {
        has_new \<leftarrow> fileExists (newDBPath p);
        if \<not> has_new then migrateStore u p
        else or_wrap ''hashing existing %s: %w'' [path_text (newDBPath p)] (hashFile u (newDBPath p)) (\<lambda>currentHash.
          if currentHash \<noteq> recorded then State_Monad.return (Inr (no_store\<lparr>sm_Conflict := ''store''\<rparr>))
          else recount u p currentHash) })"

section \<open>Worktrees\<close>

record fleetItem =
  fl_Task :: string
  fl_Repo :: string

definition item_text :: "fleetItem \<Rightarrow> string" where
  "item_text f = fl_Task f @ ''/'' @ fl_Repo f"

record fleetMigrationResult =
  fr_Migrated :: "fleetItem list"
  fr_Conflicts :: "string list"
  fr_ItemState :: "(string \<times> FleetItemMarker) list"

text \<open>
  A regular file is opened, its directory made, and the copy written into it; a directory is made, its
  entries are copied in the order they are listed.  \<open>left\<close> counts the levels a path may still have.
\<close>

definition copyRegularFile :: "path \<Rightarrow> path \<Rightarrow> (err + unit) io" where
  "copyRegularFile src dst =
     or_fail (read_file src) (\<lambda>data. or_fail (MkdirAll (butlast dst)) (\<lambda>_. WriteFile dst data))"

fun copyTree :: "nat \<Rightarrow> path \<Rightarrow> path \<Rightarrow> (err + unit) io" where
  "copyTree 0 src dst = State_Monad.return (Inl (PathError (path_text dst)))"
| "copyTree (Suc left) src dst =
     or_fail (Stat src) (\<lambda>info.
     case info of
       Dir \<Rightarrow>
         or_fail (MkdirAll dst) (\<lambda>_. or_fail (read_dir src) (\<lambda>entries.
         or_fail (each_io (\<lambda>c. copyTree left (Join src c) (Join dst c)) (map fst entries)) (\<lambda>_.
         or_fail (Stat dst) (\<lambda>_. State_Monad.return (Inr ())))))
     | File _ \<Rightarrow> copyRegularFile src dst)"

definition gitStatePorcelain :: "path \<Rightarrow> (err + string \<times> string) io" where
  "gitStatePorcelain dir = do {
     o1 \<leftarrow> run_command False (git [''-C'', path_text dir, ''status'', ''--porcelain'']);
     case exit_error o1 of
       Some x \<Rightarrow> State_Monad.return (Inl (Errorf ''git status in %s: %w: %s'' [path_text dir, x, out_text o1] None))
     | None \<Rightarrow> do {
         o2 \<leftarrow> run_command False (git [''-C'', path_text dir, ''rev-parse'', ''HEAD'']);
         State_Monad.return (case exit_error o2 of
           Some x \<Rightarrow> Inl (Errorf ''git rev-parse HEAD in %s: %w: %s'' [path_text dir, x, out_text o2] None)
         | None \<Rightarrow> Inr (TrimSpace (out_text o1), TrimSpace (out_text o2))) } }"

definition fleet_conflict :: "string \<Rightarrow> fleetMigrationResult \<Rightarrow> fleetMigrationResult" where
  "fleet_conflict key res = res\<lparr>fr_Conflicts := fr_Conflicts res @ [''fleet:'' @ key],
     fr_ItemState := AList.delete key (fr_ItemState res)\<rparr>"

definition fleet_migrated :: "fleetItem \<Rightarrow> FleetItemMarker \<Rightarrow> fleetMigrationResult \<Rightarrow> fleetMigrationResult" where
  "fleet_migrated item marker res = res\<lparr>fr_Migrated := fr_Migrated res @ [item],
     fr_ItemState := AList.update (item_text item) marker (fr_ItemState res)\<rparr>"

text \<open>A destination that is there is only ever asked about; one that is not there is copied.\<close>

definition unchanged_item :: "(string \<times> FleetItemMarker) list \<Rightarrow> string \<Rightarrow> path \<Rightarrow> FleetItemMarker option io" where
  "unchanged_item priorState key dstDir = (case map_of priorState key of
     None \<Rightarrow> State_Monad.return None
   | Some marker \<Rightarrow> do {
       g \<leftarrow> gitStatePorcelain dstDir;
       State_Monad.return (if g = Inr (fm_Status marker, fm_Head marker) then Some marker else None) })"

definition fleet_item :: "outside \<Rightarrow> paths \<Rightarrow> (string \<times> FleetItemMarker) list \<Rightarrow> fleetItem \<Rightarrow>
    fleetMigrationResult \<Rightarrow> (err + fleetMigrationResult) io" where
  "fleet_item u p priorState item res =
     (let key = item_text item;
          srcDir = Join (Join (oldFleetRoot p) (fl_Task item)) (fl_Repo item);
          dstDir = Join (Join (newFleetRoot p) (fl_Task item)) (fl_Repo item) in
      do {
        there \<leftarrow> dirExists dstDir;
        if there then do {
          same \<leftarrow> unchanged_item priorState key dstDir;
          State_Monad.return (Inr (case same of
            Some marker \<Rightarrow> fleet_migrated item marker res | None \<Rightarrow> fleet_conflict key res)) }
        else
          or_wrap ''copying worktree %s to %s: %w'' [path_text srcDir, path_text dstDir]
            (copyTree (depth u) srcDir dstDir) (\<lambda>_.
          or_wrap ''capturing post-copy git state for %s: %w'' [path_text dstDir] (gitStatePorcelain dstDir) (\<lambda>(status, head).
          State_Monad.return (Inr (fleet_migrated item \<lparr>fm_Head = head, fm_Status = status\<rparr> res)))) })"

fun fleet_repos :: "outside \<Rightarrow> paths \<Rightarrow> (string \<times> FleetItemMarker) list \<Rightarrow> string \<Rightarrow> (string \<times> node) list \<Rightarrow>
    fleetMigrationResult \<Rightarrow> (err + fleetMigrationResult) io" where
  "fleet_repos u p priorState task [] res = State_Monad.return (Inr res)"
| "fleet_repos u p priorState task ((repo, n) # es) res =
     (if n \<noteq> Dir then fleet_repos u p priorState task es res
      else or_fail (fleet_item u p priorState \<lparr>fl_Task = task, fl_Repo = repo\<rparr> res)
        (fleet_repos u p priorState task es))"

fun fleet_tasks :: "outside \<Rightarrow> paths \<Rightarrow> (string \<times> FleetItemMarker) list \<Rightarrow> (string \<times> node) list \<Rightarrow>
    fleetMigrationResult \<Rightarrow> (err + fleetMigrationResult) io" where
  "fleet_tasks u p priorState [] res = State_Monad.return (Inr res)"
| "fleet_tasks u p priorState ((task, n) # es) res =
     (if n \<noteq> Dir then fleet_tasks u p priorState es res
      else
        or_wrap ''listing %s: %w'' [path_text (Join (oldFleetRoot p) task)] (read_dir (Join (oldFleetRoot p) task)) (\<lambda>repos.
        or_fail (fleet_repos u p priorState task repos res) (fleet_tasks u p priorState es)))"

definition migrateFleetRetryAware :: "outside \<Rightarrow> paths \<Rightarrow> Sentinel option \<Rightarrow> (err + fleetMigrationResult) io" where
  "migrateFleetRetryAware u p prior =
     (let priorState = (case prior of Some s \<Rightarrow> sn_FleetItemState s | None \<Rightarrow> []);
          res = \<lparr>fr_Migrated = [], fr_Conflicts = [], fr_ItemState = priorState\<rparr> in
      do {
        there \<leftarrow> dirExists (oldFleetRoot p);
        if \<not> there then State_Monad.return (Inr res)
        else or_wrap ''listing %s: %w'' [path_text (oldFleetRoot p)] (read_dir (oldFleetRoot p)) (\<lambda>tasks.
          fleet_tasks u p priorState tasks res) })"

section \<open>Verification\<close>

definition verify_content :: "paths \<Rightarrow> string \<Rightarrow> string list io" where
  "verify_content p name = do {
     s \<leftarrow> read_file (Join (oldConfigDir p) name);
     d \<leftarrow> read_file (Join (newConfigDir p) name);
     State_Monad.return (case (s, d) of
       (Inr srcData, Inr dstData) \<Rightarrow>
         if srcData = dstData then [] else [''config:'' @ name @ '' content mismatch after migration'']
     | _ \<Rightarrow> [''config:'' @ name @ '' content mismatch after migration'']) }"

fun gather :: "('a \<Rightarrow> string list io) \<Rightarrow> 'a list \<Rightarrow> string list io" where
  "gather f [] = State_Monad.return []"
| "gather f (x # xs) = do { a \<leftarrow> f x; b \<leftarrow> gather f xs; State_Monad.return (a @ b) }"

definition not_visible :: "string list \<Rightarrow> string list \<Rightarrow> string list" where
  "not_visible present migrated = map (\<lambda>name. ''config:'' @ name @ '' not visible via ListProjects after migration'')
     (filter (\<lambda>name. name \<noteq> ''config.yaml'' \<and> TrimSuffix name (Ext name) \<notin> set present) migrated)"

definition verifyConfig :: "outside \<Rightarrow> paths \<Rightarrow> string list \<Rightarrow> string list io" where
  "verifyConfig u p migrated = do {
     mismatches \<leftarrow> gather (verify_content p) migrated;
     if migrated = [] then State_Monad.return mismatches
     else do {
       r \<leftarrow> ListProjects (yaml_of u);
       h \<leftarrow> get_host;
       State_Monad.return (case r of
         Inl e \<Rightarrow> mismatches @ [''config: listing projects at destination: '' @ err_text h e]
       | Inr projects \<Rightarrow> mismatches @ not_visible (map pj_Name projects) migrated) } }"

definition verifyStore :: "outside \<Rightarrow> paths \<Rightarrow> storeMigrationResult \<Rightarrow> string list io" where
  "verifyStore u p sr =
     (if \<not> sm_Migrated sr then State_Monad.return []
      else do {
        h \<leftarrow> get_host;
        runs \<leftarrow> countRows u (newDBPath p) ''runs'';
        case runs of Inl e \<Rightarrow> State_Monad.return [''store: counting destination runs: '' @ err_text h e]
        | Inr destRuns \<Rightarrow> do {
            phs \<leftarrow> countRows u (newDBPath p) ''phases'';
            State_Monad.return (case phs of Inl e \<Rightarrow> [''store: counting destination phases: '' @ err_text h e]
            | Inr destPhases \<Rightarrow>
                (if destRuns \<noteq> sm_SourceRuns sr then [''store: run count mismatch: source='' @
                   show_int (sm_SourceRuns sr) @ '' destination='' @ show_int destRuns] else []) @
                (if destPhases \<noteq> sm_SourcePhases sr then [''store: phase count mismatch: source='' @
                   show_int (sm_SourcePhases sr) @ '' destination='' @ show_int destPhases] else [])) } })"

definition error_value :: "host \<Rightarrow> err + 'a \<Rightarrow> string" where
  "error_value h r = (case r of Inl e \<Rightarrow> err_text h e | Inr _ \<Rightarrow> ''<nil>'')"

definition verify_item :: "paths \<Rightarrow> fleetItem \<Rightarrow> string list io" where
  "verify_item p item = do {
     h \<leftarrow> get_host;
     s \<leftarrow> gitStatePorcelain (Join (Join (oldFleetRoot p) (fl_Task item)) (fl_Repo item));
     d \<leftarrow> gitStatePorcelain (Join (Join (newFleetRoot p) (fl_Task item)) (fl_Repo item));
     State_Monad.return (case (s, d) of
       (Inr srcState, Inr dstState) \<Rightarrow>
         if srcState \<noteq> dstState then [''fleet:'' @ item_text item @ '': git state mismatch after migration''] else []
     | _ \<Rightarrow> [''fleet:'' @ item_text item @ '': git status error: src='' @ error_value h s @ '' dst='' @ error_value h d]) }"

definition verifyFleet :: "paths \<Rightarrow> fleetItem list \<Rightarrow> string list io" where
  "verifyFleet p migrated = gather (verify_item p) migrated"

section \<open>The migration\<close>

definition attempt_sentinel :: "paths \<Rightarrow> configMigrationResult \<Rightarrow> storeMigrationResult \<Rightarrow> fleetMigrationResult \<Rightarrow>
    string list \<Rightarrow> time \<Rightarrow> Sentinel" where
  "attempt_sentinel p cfg sr fr mismatches now =
     \<lparr>sn_Status = (if mismatches = [] then ''verified'' else ''failed''),
      sn_SourcePaths = [path_text (oldConfigDir p), path_text (oldDBPath p), path_text (oldFleetRoot p)],
      sn_Timestamp = now,
      sn_Conflicts = cm_Conflicts cfg @ (if sm_Conflict sr = [] then [] else [sm_Conflict sr]) @ fr_Conflicts fr,
      sn_Mismatches = mismatches,
      sn_StoreSnapshotHash = sm_StoreSnapshotHash sr,
      sn_FleetItemState = fr_ItemState fr\<rparr>"

definition runMigration :: "outside \<Rightarrow> paths \<Rightarrow> Sentinel option \<Rightarrow> (err + Sentinel option) io" where
  "runMigration u p prior =
     or_wrap ''migrating config: %w'' [] (migrateConfig p) (\<lambda>cfg.
     or_wrap ''migrating store: %w'' [] (migrateStoreRetryAware u p prior) (\<lambda>sr.
     or_wrap ''migrating fleet: %w'' [] (migrateFleetRetryAware u p prior) (\<lambda>fr. do {
       m1 \<leftarrow> verifyConfig u p (cm_Migrated cfg);
       m2 \<leftarrow> verifyStore u p sr;
       m3 \<leftarrow> verifyFleet p (fr_Migrated fr);
       now \<leftarrow> now_io;
       let sentinel = attempt_sentinel p cfg sr fr (m1 @ m2 @ m3) now;
       or_wrap ''writing sentinel: %w'' [] (writeSentinel u (sentinelPath p) sentinel)
         (\<lambda>_. State_Monad.return (Inr (Some sentinel))) })))"

definition Run :: "outside \<Rightarrow> (err + Sentinel option) io" where
  "Run u = do {
     h \<leftarrow> get_host;
     case resolvePaths u h of Inl e \<Rightarrow> State_Monad.return (Inl e)
     | Inr p \<Rightarrow> or_wrap ''reading sentinel: %w'' [] (readSentinel u (sentinelPath p)) (\<lambda>prior.
         if (case prior of Some s \<Rightarrow> sn_Status s = ''verified'' | None \<Rightarrow> False) then State_Monad.return (Inr prior)
         else do {
           isDetected \<leftarrow> detected p;
           if \<not> isDetected then State_Monad.return (Inr prior) else runMigration u p prior }) }"

end
