(* ===== verification/Migration.thy ===== *)
theory Migration
  imports Upgrade
begin

text \<open>
  What the migration of an earlier installation guarantees: nothing that was there is lost or changed, a
  verified migration is final, and a worktree is copied whole.
\<close>

section \<open>What a migration leaves alone\<close>

text \<open>
  SQLite writes the database it is told to write and its own files, which \<open>side\<close> names: those beside a
  database that is opened.
\<close>

definition files_at :: "path set \<Rightarrow> path \<Rightarrow> node \<Rightarrow> bool" where
  "files_at P q n \<longleftrightarrow> q \<in> P \<and> n \<noteq> Dir"

definition sqlite_quiet :: "outside \<Rightarrow> path set \<Rightarrow> bool" where
  "sqlite_quiet u side \<longleftrightarrow>
     (\<forall>s d t. keeps_nodes (files_at (insert d side)) t (snd (vacuum_into u s d t))) \<and>
     (\<forall>p c t. keeps_nodes (files_at side) t (snd (count_rows u p c t))) \<and>
     (\<forall>p t. keeps_nodes (files_at (insert p side)) t (snd (open_store u p t)))"

definition clean_paths :: "paths \<Rightarrow> bool" where
  "clean_paths p \<longleftrightarrow> list_all (list_all clean_name) [oldConfigDir p, oldDBPath p, oldFleetRoot p, newConfigDir p,
     newDBPath p, newFleetRoot p, sentinelPath p]"

lemma resolvePaths_clean:
  assumes "resolvePaths u h = Inr p" and home: "list_all clean_name (home_dir h)"
  shows "clean_paths p"
proof -
  have joins: "list_all clean_name q \<Longrightarrow> list_all clean_name (Joins q cs)" for q cs
    unfolding Joins_def by (induction cs arbitrary: q) (auto intro: Join_names)
  have "list_all clean_name (envOr h v (Joins (home_dir h) cs))" for v cs
    using home joins Join_names [of "[]"] by (simp add: envOr_def)
  with assms(1) show ?thesis
    by (auto simp: resolvePaths_def clean_paths_def Let_def Join_names split: option.splits)
qed

lemma clean_butlast: "list_all clean_name p \<Longrightarrow> list_all clean_name (butlast p)"
  by (auto simp: list_all_iff dest: in_set_butlastD)

lemma spares_gather [keeps_intros]:
  "(\<And>x. state_io_rel (spares X) (f x)) \<Longrightarrow> state_io_rel (spares X) (gather f xs)"
  by (induction xs) (auto intro!: keeps_intros)

lemma spares_sentinel_read [keeps_intros]: "state_io_rel (spares X) (readSentinel u p)"
  unfolding readSentinel_def by (intro keeps_intros)

lemma spares_yaml_files [keeps_intros]: "state_io_rel (spares X) (configYAMLFiles d)"
  unfolding configYAMLFiles_def by (intro keeps_intros)

lemma spares_detected [keeps_intros]: "state_io_rel (spares X) (detected p)"
  unfolding detected_def by (intro keeps_intros)

lemma spares_git_state [keeps_intros]: "state_io_rel (spares X) (gitStatePorcelain d)"
  unfolding gitStatePorcelain_def by (intro keeps_intros)

lemma spares_hash [keeps_intros]: "state_io_rel (spares X) (hashFile u p)"
  unfolding hashFile_def by (intro keeps_intros)

lemma spares_load_listed [keeps_intros]: "state_io_rel (spares X) (load_listed parse d es)"
  by (induction parse d es rule: load_listed.induct)
    (simp_all add: load_from_def sp.k_return, intro conjI impI keeps_intros)

lemma spares_verify [keeps_intros]:
  "state_io_rel (spares X) (verifyConfig u p ms)" "state_io_rel (spares X) (verifyFleet p is)"
  unfolding verifyConfig_def verifyFleet_def verify_content_def verify_item_def ListProjects_def
  by (intro keeps_intros)+

subsection \<open>Configuration\<close>

lemma read_file_missing:
  "run_state (read_file p) h = (Inl NotExist, k) \<Longrightarrow> node_at (tree h) p = None"
  by (auto simp: read_file_def file_op_def missing_def split: if_splits option.splits node.splits)

lemma spares_copy_file:
  assumes "list_all clean_name dst" and "\<And>c. X dst (File c)"
  shows "state_io_rel (spares X) (copyFile src dst)"
  unfolding copyFile_def by (intro keeps_intros spares_write clean_butlast assms)

lemma spares_config_item [keeps_intros]:
  assumes "list_all clean_name (newConfigDir p)"
  shows "state_io_rel (spares X) (config_item p name)"
proof -
  let ?dst = "Join (newConfigDir p) name"
  have c: "list_all clean_name ?dst" using assms by (rule Join_names)
  let ?f = "\<lambda>x r. case r of
      Inl e \<Rightarrow> if e = NotExist then or_wrap ''copying %s to %s: %w'' [path_text (Join (oldConfigDir p) name), path_text ?dst]
          (copyFile (Join (oldConfigDir p) name) ?dst) (\<lambda>_. State_Monad.return (Inr True))
        else State_Monad.return (Inl (Errorf ''reading %s: %w'' [path_text ?dst] (Some e)))
    | Inr dstData \<Rightarrow> State_Monad.return (Inr (x = dstData))"
  have below: "state_io_rel (spares (\<lambda>q n. X q n \<or> prefix ?dst q)) (?f x r)" for x r
    by (intro keeps_intros spares_copy_file c) simp
  have "state_io_rel (spares X) (State_Monad.bind (read_file ?dst) (?f x))" for x
  proof (rule spares_guarded [OF spares_read(1)])
    fix h r k
    show "\<exists>Y. state_io_rel (spares Y) (?f x r)" by (intro exI) (rule below)
    assume run: "run_state (read_file ?dst) h = (r, k)" and wf: "wf_tree (tree h)"
    show "\<exists>Z. (\<forall>q n. node_at (tree h) q = Some n \<longrightarrow> Z q n \<longrightarrow> X q n) \<and> (\<forall>q n. X q n \<longrightarrow> Z q n) \<and> state_io_rel (spares Z) (?f x r)"
    proof (cases "r = Inl NotExist")
      case True
      with run have "node_at (tree h) ?dst = None" by (auto intro: read_file_missing)
      with wf below show ?thesis by (intro exI [of _ "\<lambda>q n. X q n \<or> prefix ?dst q"]) (auto dest: free_below)
    next
      case False
      then have "state_io_rel (spares X) (?f x r)" by (auto split: sum.split intro: sp.k_return)
      then show ?thesis by (intro exI [of _ X]) simp
    qed
  qed
  then show ?thesis unfolding config_item_def Let_def by (intro sp.k_or_wrap spares_read(1))
qed

lemma spares_config:
  assumes "list_all clean_name (newConfigDir p)"
  shows "state_io_rel (spares X) (migrateConfig p)"
proof -
  have "state_io_rel (spares X) (config_items p names res)" for names res
    by (induction names arbitrary: res) (auto intro!: keeps_intros assms)
  then show ?thesis unfolding migrateConfig_def by (intro keeps_intros assms)
qed

subsection \<open>The store\<close>

lemma spares_sqlite:
  assumes "sqlite_quiet u side"
  shows "state_io_rel (spares (files_at (insert d side))) (vacuumInto u s d)"
    and "state_io_rel (spares (files_at side)) (countRows u p c)"
    and "state_io_rel (spares (files_at (insert p side))) (file_op (\<lambda>_. open_store u p))"
  unfolding vacuumInto_def countRows_def
  by (rule spares_file_op, use assms in \<open>simp add: sqlite_quiet_def\<close>)+

lemma snapshot_name: "Join tmp ''snapshot.db'' = tmp @ [''snapshot.db'']"
  by (simp add: clean_name_def)

lemma spares_with_tmp:
  assumes "state_io_rel (spares X) body" and "\<And>q n. prefix tmp q \<Longrightarrow> X q n"
  shows "state_io_rel (spares X) (with_tmp_dir tmp body)"
  unfolding with_tmp_dir_def by (intro keeps_intros spares_remove_all assms)

text \<open>A snapshot loses at most the file at the new place.\<close>

lemma spares_snapshot:
  assumes u: "sqlite_quiet u side" and p: "clean_paths p" and t: "list_all clean_name tmp"
  shows "state_io_rel (spares (\<lambda>q n. files_at (insert (newDBPath p) side) q n \<or> prefix tmp q))
    (take_snapshot u p (Join tmp ''snapshot.db''))"
proof -
  let ?X = "\<lambda>q n. files_at (insert (newDBPath p) side) q n \<or> prefix tmp q"
  have v: "state_io_rel (spares ?X) (vacuumInto u s (Join tmp ''snapshot.db''))" for s
    by (rule spares_mono [OF spares_sqlite(1) [OF u]]) (auto simp: files_at_def snapshot_name)
  have c: "state_io_rel (spares ?X) (countRows u d table)" for d table
    by (rule spares_mono [OF spares_sqlite(2) [OF u]]) (auto simp: files_at_def)
  have o1: "state_io_rel (spares ?X) (file_op (\<lambda>_. open_store u (newDBPath p)))"
    by (rule spares_mono [OF spares_sqlite(3) [OF u]]) (auto simp: files_at_def)
  have r: "state_io_rel (spares ?X) (Rename (Join tmp ''snapshot.db'') (newDBPath p))"
    using p by (intro spares_rename) (auto simp: files_at_def snapshot_name clean_paths_def)
  show ?thesis unfolding take_snapshot_def by (intro keeps_intros v c o1 r)
qed

lemma fileExists_False:
  "run_state (fileExists p) h = (False, k) \<Longrightarrow> quiet_machine h \<Longrightarrow> node_at (tree h) p = None \<or> node_at (tree h) p = Some Dir"
  by (auto simp: fileExists_def Stat_def file_op_def quiet_machine_def split: option.splits node.splits)

lemma spares_migrate_store:
  assumes u: "sqlite_quiet u side" and p: "clean_paths p"
  shows "state_io_rel (spares (files_at side)) (migrateStore u p)"
proof -
  let ?make = "or_wrap ''creating %s: %w'' [path_text (butlast (newDBPath p))] (MkdirAll (butlast (newDBPath p))) (\<lambda>_.
         or_wrap ''creating temp snapshot dir: %w'' []
           (MkdirTemp (butlast (newDBPath p)) (temp_name u ''sgt-migrate-*'')) (\<lambda>tmpDir.
         with_tmp_dir tmpDir (take_snapshot u p (Join tmpDir ''snapshot.db''))))"
  let ?Z = "files_at (insert (newDBPath p) side)"
  let ?f = "\<lambda>has_new. if has_new then State_Monad.return (Inr (no_store\<lparr>sm_Conflict := ''store''\<rparr>)) else ?make"
  have b: "list_all clean_name (butlast (newDBPath p))" using p by (simp add: clean_paths_def clean_butlast)
  have make: "state_io_rel (spares ?Z) ?make"
    by (intro keeps_intros spares_in_temp_dir(2) b spares_with_tmp spares_snapshot u p) auto
  then have f: "state_io_rel (spares ?Z) (?f r)" for r by (auto intro: sp.k_return)
  have "state_io_rel (spares (files_at side)) (State_Monad.bind (fileExists (newDBPath p)) ?f)"
  proof (rule spares_guarded [OF spares_exists(2)])
    fix h r k
    show "\<exists>Y. state_io_rel (spares Y) (?f r)" by (intro exI) (rule f)
    assume run: "run_state (fileExists (newDBPath p)) h = (r, k)" "quiet_machine h"
    show "\<exists>Z. (\<forall>q n. node_at (tree h) q = Some n \<longrightarrow> Z q n \<longrightarrow> files_at side q n) \<and>
        (\<forall>q n. files_at side q n \<longrightarrow> Z q n) \<and> state_io_rel (spares Z) (?f r)"
    proof (cases r)
      case True
      then show ?thesis by (intro exI [of _ "files_at side"]) (simp add: sp.k_return)
    next
      case False
      with run have "node_at (tree h) (newDBPath p) = None \<or> node_at (tree h) (newDBPath p) = Some Dir"
        by (intro fileExists_False) auto
      with f [of r] show ?thesis by (intro exI [of _ ?Z]) (auto simp: files_at_def)
    qed
  qed
  then show ?thesis unfolding migrateStore_def
    by (rule sp.k_bind [OF spares_exists(2) sp.k_cond [OF sp.k_return]])
qed

lemma spares_recount_only:
  assumes u: "sqlite_quiet u side"
  shows "state_io_rel (spares (files_at side)) (sourceRowCountsOnly u d)"
proof -
  have dir: "list_all clean_name (TempDir h)" for h
    by (auto simp: TempDir_def clean_name_def intro: Join_names)
  have v: "state_io_rel (spares (\<lambda>q n. files_at side q n \<or> prefix tmp q)) (vacuumInto u s (Join tmp ''snapshot.db''))" for s tmp
    by (rule spares_mono [OF spares_sqlite(1) [OF u]]) (auto simp: files_at_def snapshot_name)
  have c: "state_io_rel (spares (\<lambda>q n. files_at side q n \<or> prefix tmp q)) (countRows u e table)" for e table tmp
    by (rule spares_mono [OF spares_sqlite(2) [OF u]]) simp
  show ?thesis unfolding sourceRowCountsOnly_def Let_def
    by (intro keeps_intros spares_in_temp_dir(1) dir spares_with_tmp v c) simp
qed

lemma spares_store:
  assumes u: "sqlite_quiet u side" and p: "clean_paths p"
  shows "state_io_rel (spares (files_at side)) (migrateStoreRetryAware u p prior)"
    and "state_io_rel (spares (files_at side)) (verifyStore u p sr)"
  unfolding migrateStoreRetryAware_def recount_def verifyStore_def Let_def
  by (intro keeps_intros spares_migrate_store spares_recount_only spares_sqlite(2) u p)+

subsection \<open>Worktrees\<close>

lemma spares_copy_regular:
  assumes "list_all clean_name dst" and "\<And>c. X dst (File c)"
  shows "state_io_rel (spares X) (copyRegularFile src dst)"
  unfolding copyRegularFile_def by (intro keeps_intros spares_write clean_butlast assms)

lemma spares_each:
  assumes "\<And>x. x \<in> set xs \<Longrightarrow> state_io_rel (spares X) (f x)"
  shows "state_io_rel (spares X) (each_io f xs)"
  using assms by (induction xs) (auto intro!: keeps_intros)

lemma read_dir_names:
  assumes "run_state (read_dir p) h = (Inr es, k)" and "wf_tree (tree h)"
  shows "(c, n) \<in> set es \<Longrightarrow> clean_name c \<and> node_at (tree h) (Join p c) = Some n" and "tree k = tree h"
proof -
  have es: "es = entries_of (tree h) p" and "tree k = tree h"
    using assms(1) by (auto simp: read_dir_def file_op_def split: if_splits option.splits node.splits)
  then show "tree k = tree h" by simp
  assume "(c, n) \<in> set es"
  with es entries_of_ok assms(2) show "clean_name c \<and> node_at (tree h) (Join p c) = Some n"
    by (auto simp: wf_tree_def)
qed

text \<open>A copy writes below its destination only.\<close>

lemma spares_copy_tree:
  assumes "list_all clean_name dst"
  shows "state_io_rel (spares (\<lambda>q n. prefix dst q)) (copyTree left src dst)"
  using assms
proof (induction left arbitrary: src dst)
  case (Suc left)
  let ?X = "\<lambda>q n. prefix dst q"
  let ?g = "\<lambda>es. or_fail (each_io (\<lambda>c. copyTree left (Join src c) (Join dst c)) (map fst es)) (\<lambda>_.
         or_fail (Stat dst) (\<lambda>_. State_Monad.return (Inr ())))"
  have any: "state_io_rel (spares (\<lambda>_ _. True)) (?g es)" for es
    by (intro keeps_intros) (rule spares_mono [OF Suc.IH], auto simp: Join_names Suc.prems)
  have clean: "state_io_rel (spares ?X) (?g es)" if "\<forall>(c, n) \<in> set es. clean_name c" for es
  proof (intro sp.k_or_fail spares_read(5) sp.k_return spares_each)
    fix c assume "c \<in> set (map fst es)"
    with that have "clean_name c" by auto
    then show "state_io_rel (spares ?X) (copyTree left (Join src c) (Join dst c))"
      by (intro spares_mono [OF Suc.IH]) (use Suc.prems in \<open>auto dest: append_prefixD\<close>)
  qed
  have "state_io_rel (spares ?X) (State_Monad.bind (read_dir src) (\<lambda>r. case r of
      Inl e \<Rightarrow> State_Monad.return (Inl e) | Inr es \<Rightarrow> ?g es))"
  proof (rule spares_guarded [OF spares_read(2)])
    fix h r k
    assume run: "run_state (read_dir src) h = (r, k)"
    show "\<exists>Y. state_io_rel (spares Y) (case r of Inl e \<Rightarrow> State_Monad.return (Inl e) | Inr es \<Rightarrow> ?g es)"
      by (intro exI [of _ "\<lambda>_ _. True"] sp.k_sum sp.k_return any)
    assume wf: "wf_tree (tree h)"
    have "state_io_rel (spares ?X) (case r of Inl e \<Rightarrow> State_Monad.return (Inl e) | Inr es \<Rightarrow> ?g es)"
    proof (cases r)
      case (Inr es)
      with run wf have "\<forall>(c, n) \<in> set es. clean_name c" by (auto dest: read_dir_names)
      with clean Inr show ?thesis by simp
    qed (simp add: sp.k_return)
    then show "\<exists>Z. (\<forall>q n. node_at (tree h) q = Some n \<longrightarrow> Z q n \<longrightarrow> ?X q n) \<and> (\<forall>q n. ?X q n \<longrightarrow> Z q n) \<and>
        state_io_rel (spares Z) (case r of Inl e \<Rightarrow> State_Monad.return (Inl e) | Inr es \<Rightarrow> ?g es)"
      by (intro exI [of _ ?X]) simp
  qed
  then have "state_io_rel (spares ?X) (or_fail (read_dir src) ?g)" unfolding or_fail_def [of "read_dir src"] .
  then have d: "state_io_rel (spares ?X) (or_fail (MkdirAll dst) (\<lambda>_. or_fail (read_dir src) ?g))"
    by (rule sp.k_or_fail [OF spares_mkdir [OF Suc.prems]])
  show ?case
    unfolding copyTree.simps
    by (rule sp.k_or_fail [OF spares_read(5)], rule sp.k_node [OF d], rule spares_copy_regular [OF Suc.prems]) simp
qed (simp add: sp.k_return)

text \<open>A directory is not copied onto a regular file.\<close>

lemma MkdirAll_onto_file:
  assumes "node_at (tree h) p = Some (File c)"
  shows "run_state (MkdirAll p) h = (Inl (PathError (path_text p)), h\<lparr>io_ops := Suc (io_ops h)\<rparr>)"
proof -
  have "\<exists>q \<in> set (prefixes p). \<not> (case node_at (tree h) q of Some (File _) \<Rightarrow> False | _ \<Rightarrow> True)"
    using assms by (intro bexI [of _ p]) auto
  then show ?thesis by (simp add: MkdirAll_def file_op_def del: set_prefixes_eq)
qed

lemma copy_onto_file:
  assumes "quiet_machine h" "node_at (tree h) src = Some Dir" "node_at (tree h) dst = Some (File c)"
    and "run_state (copyTree left src dst) h = (r, k)"
  shows "tree k = tree h \<and> (\<exists>e. r = Inl e)"
proof -
  show ?thesis
  proof (cases left)
    case (Suc m)
    with assms show ?thesis
      by (auto simp: quiet_machine_def or_fail_def Stat_def file_op_def MkdirAll_onto_file)
  qed (use assms(4) in auto)
qed

lemma spares_unchanged_item [keeps_intros]: "state_io_rel (spares X) (unchanged_item ps key d)"
  unfolding unchanged_item_def by (intro keeps_intros)

lemma spares_fleet_item:
  assumes p: "list_all clean_name (newFleetRoot p)"
    and src: "quiet_machine h \<Longrightarrow> wf_tree (tree h) \<Longrightarrow>
      node_at (tree h) (Join (Join (oldFleetRoot p) (fl_Task item)) (fl_Repo item)) = Some Dir"
    and run: "run_state (fleet_item u p ps item res) h = (r, k)"
  shows "spares X h k"
proof -
  let ?src = "Join (Join (oldFleetRoot p) (fl_Task item)) (fl_Repo item)"
  let ?dst = "Join (Join (newFleetRoot p) (fl_Task item)) (fl_Repo item)"
  let ?copy = "or_wrap ''copying worktree %s to %s: %w'' [path_text ?src, path_text ?dst]
            (copyTree (depth u) ?src ?dst) (\<lambda>_.
          or_wrap ''capturing post-copy git state for %s: %w'' [path_text ?dst] (gitStatePorcelain ?dst) (\<lambda>(status, head).
          State_Monad.return (Inr (fleet_migrated item \<lparr>fm_Head = head, fm_Status = status\<rparr> res))))"
  have below: "state_io_rel (spares (\<lambda>q n. prefix ?dst q)) ?copy"
    using p by (intro keeps_intros spares_copy_tree Join_names)
  obtain there h1 where there: "run_state (dirExists ?dst) h = (there, h1)" by (cases "run_state (dirExists ?dst) h")
  then have s1: "spares Y h h1" for Y using spares_exists(1) by blast
  have t1: "tree h1 = tree h" and not_dir: "quiet_machine h \<Longrightarrow> \<not> there \<Longrightarrow> node_at (tree h) ?dst \<noteq> Some Dir"
    using there by (auto simp: dirExists_def Stat_def file_op_def quiet_machine_def)
  show ?thesis
  proof (cases there)
    case True
    with run there have k: "run_state (do { same \<leftarrow> unchanged_item ps (item_text item) ?dst;
        State_Monad.return (Inr (case same of Some marker \<Rightarrow> fleet_migrated item marker res
          | None \<Rightarrow> fleet_conflict (item_text item) res)) }) h1 = (r, k)"
      by (simp add: fleet_item_def Let_def)
    have "state_io_rel (spares X) (do { same \<leftarrow> unchanged_item ps (item_text item) ?dst;
        State_Monad.return (Inr (case same of Some marker \<Rightarrow> fleet_migrated item marker res
          | None \<Rightarrow> fleet_conflict (item_text item) res) :: err + fleetMigrationResult) })"
      by (intro keeps_intros)
    with k have "spares X h1 k" by blast
    with s1 show ?thesis by (rule sp.trans)
  next
    case False
    with run there have k: "run_state ?copy h1 = (r, k)" by (simp add: fleet_item_def Let_def)
    with below have s2: "spares (\<lambda>q n. prefix ?dst q) h1 k" by blast
    then have s: "spares (\<lambda>q n. prefix ?dst q) h k" using s1 sp.trans by blast
    have "keeps_nodes X (tree h) (tree k)" if q: "quiet_machine h" and wf: "wf_tree (tree h)"
    proof (cases "node_at (tree h) ?dst")
      case None
      with s q wf show ?thesis by (auto simp: spares_def keeps_nodes_def dest: free_below)
    next
      case (Some n)
      with not_dir [OF q False] obtain c where c: "node_at (tree h1) ?dst = Some (File c)" by (cases n) (auto simp: t1)
      have q1: "quiet_machine h1" using q s1 by (meson quiet_given spares_def)
      obtain r2 h2 where r2: "run_state (copyTree (depth u) ?src ?dst) h1 = (r2, h2)"
        by (cases "run_state (copyTree (depth u) ?src ?dst) h1")
      from copy_onto_file [OF q1 _ c r2] src [OF q wf] have "tree h2 = tree h1" "\<exists>e. r2 = Inl e"
        by (simp_all add: t1)
      with k r2 have "tree k = tree h" by (auto simp: or_wrap_def t1)
      then show ?thesis by simp
    qed
    then have "quiet_machine h \<Longrightarrow> keeps_nodes X (tree h) (tree k)"
      by (cases "wf_tree (tree h)") (auto simp: keeps_nodes_def)
    with s show ?thesis by (simp add: spares_def)
  qed
qed

lemma spares_fleet_any:
  assumes p: "list_all clean_name (newFleetRoot p)"
  shows "state_io_rel (spares (\<lambda>_ _. True)) (fleet_repos u p ps task es res)"
    and "state_io_rel (spares (\<lambda>_ _. True)) (fleet_tasks u p ps ts res)"
proof -
  have copy: "state_io_rel (spares (\<lambda>_ _. True)) (copyTree n s d)" if "list_all clean_name d" for n s d
    by (rule spares_mono [OF spares_copy_tree [OF that]]) simp
  have item: "state_io_rel (spares (\<lambda>_ _. True)) (fleet_item u p ps item res)" for item res
    unfolding fleet_item_def Let_def by (intro keeps_intros copy Join_names p)
  show repos: "state_io_rel (spares (\<lambda>_ _. True)) (fleet_repos u p ps task es res)" for task es res
    by (induction es arbitrary: res) (auto intro!: keeps_intros item)
  show "state_io_rel (spares (\<lambda>_ _. True)) (fleet_tasks u p ps ts res)"
    by (induction ts arbitrary: res) (auto intro!: keeps_intros repos)
qed

text \<open>The worktrees that were listed are still there when their turn comes.\<close>

lemma spares_fleet_repos:
  assumes p: "list_all clean_name (newFleetRoot p)" and "quiet_machine h" and "wf_tree (tree h)"
    and src: "\<And>repo. (repo, Dir) \<in> set es \<Longrightarrow> node_at (tree h) (Join (Join (oldFleetRoot p) task) repo) = Some Dir"
    and run: "run_state (fleet_repos u p ps task es res) h = (r, k)"
  shows "spares X h k"
  using assms(2-)
proof (induction es arbitrary: h res)
  case (Cons e es)
  obtain repo n where e: "e = (repo, n)" by (cases e)
  show ?case
  proof (cases "n = Dir")
    case False
    with Cons e show ?thesis by simp
  next
    case True
    let ?item = "\<lparr>fl_Task = task, fl_Repo = repo\<rparr>"
    obtain a h1 where a: "run_state (fleet_item u p ps ?item res) h = (a, h1)"
      by (cases "run_state (fleet_item u p ps ?item res) h")
    have s1: "spares Y h h1" for Y
      by (rule spares_fleet_item [OF p _ a]) (use Cons.prems(3) e True in simp)
    show ?thesis
    proof (cases a)
      case (Inl x)
      with Cons.prems(4) e True a have "k = h1" by (simp add: or_fail_def)
      with s1 show ?thesis by simp
    next
      case (Inr res')
      with Cons.prems(4) e True a have k: "run_state (fleet_repos u p ps task es res') h1 = (r, k)"
        by (simp add: or_fail_def)
      have q1: "quiet_machine h1" and keep: "keeps_nodes (\<lambda>_ _. False) (tree h) (tree h1)"
        using s1 [of "\<lambda>_ _. False"] Cons.prems(1) by (auto simp: spares_def quiet_given)
      have "spares X h1 k"
        by (rule Cons.IH [OF q1 _ _ k]) (use keep Cons.prems(2,3) in \<open>auto simp: keeps_nodes_def\<close>)
      with s1 show ?thesis by (rule sp.trans)
    qed
  qed
qed simp

lemma spares_fleet_tasks:
  assumes p: "list_all clean_name (newFleetRoot p)"
  shows "state_io_rel (spares X) (fleet_tasks u p ps ts res)"
proof (induction ts arbitrary: res)
  case (Cons t ts)
  obtain task n where t: "t = (task, n)" by (cases t)
  let ?d = "Join (oldFleetRoot p) task"
  let ?g = "\<lambda>repos. or_fail (fleet_repos u p ps task repos res) (fleet_tasks u p ps ts)"
  have "state_io_rel (spares X) (or_wrap ''listing %s: %w'' [path_text ?d] (read_dir ?d) ?g)"
  proof (rule state_io_relI)
    fix x h k
    assume run: "run_state (or_wrap ''listing %s: %w'' [path_text ?d] (read_dir ?d) ?g) h = (x, k)"
    have any: "state_io_rel (spares (\<lambda>_ _. True)) (or_wrap ''listing %s: %w'' [path_text ?d] (read_dir ?d) ?g)"
      by (intro keeps_intros spares_fleet_any p)
    obtain r h1 where r: "run_state (read_dir ?d) h = (r, h1)" by (cases "run_state (read_dir ?d) h")
    then have s1: "spares Y h h1" for Y using spares_read(2) by blast
    show "spares X h k"
    proof (cases "quiet_machine h \<and> wf_tree (tree h)")
      case False
      from any run have "spares (\<lambda>_ _. True) h k" by blast
      with False show ?thesis by (auto simp: spares_def keeps_nodes_def)
    next
      case True
      show ?thesis
      proof (cases r)
        case (Inl e)
        with run r have "k = h1" by (simp add: or_wrap_def)
        with s1 show ?thesis by simp
      next
        case (Inr repos)
        obtain a h2 where a: "run_state (fleet_repos u p ps task repos res) h1 = (a, h2)"
          by (cases "run_state (fleet_repos u p ps task repos res) h1")
        have t1: "tree h1 = tree h" using r True by (simp add: Inr read_dir_names(2))
        have q1: "quiet_machine h1" using s1 True by (meson quiet_given spares_def)
        have s2: "spares X h1 h2"
          by (rule spares_fleet_repos [OF p q1 _ _ a])
            (use True r Inr in \<open>auto simp: t1 dest: read_dir_names(1)\<close>)
        have "spares X h2 k"
        proof (cases a)
          case (Inl e)
          with run r Inr a have "k = h2" by (simp add: or_wrap_def or_fail_def)
          then show ?thesis by simp
        next
          case (Inr res')
          with run r \<open>r = Inr repos\<close> a have "run_state (fleet_tasks u p ps ts res') h2 = (x, k)"
            by (simp add: or_wrap_def or_fail_def)
          with Cons.IH show ?thesis by blast
        qed
        with s1 s2 show ?thesis by (meson sp.trans)
      qed
    qed
  qed
  with Cons.IH t show ?case by simp
qed (simp add: sp.k_return)

subsection \<open>The whole\<close>

lemma spares_write_sentinel:
  assumes p: "list_all clean_name p"
  shows "state_io_rel (spares (files_at (insert p side))) (writeSentinel u p s)"
  unfolding writeSentinel_def or_remove_def
  by (intro keeps_intros spares_in_temp_file spares_write spares_remove spares_rename clean_butlast p)
    (auto simp: files_at_def)

lemma spares_run:
  assumes u: "sqlite_quiet u side" and h: "list_all clean_name (home_dir h)" and p: "resolvePaths u h = Inr p"
    and run: "run_state (Run u) h = (r, k)"
  shows "spares (files_at (insert (sentinelPath p) side)) h k"
proof -
  let ?X = "files_at (insert (sentinelPath p) side)"
  have c: "clean_paths p" using p h by (rule resolvePaths_clean)
  have store: "state_io_rel (spares ?X) (migrateStoreRetryAware u p prior)"
      "state_io_rel (spares ?X) (verifyStore u p sr)" for prior sr
    by (rule spares_mono [OF spares_store(1) [OF u c]] spares_mono [OF spares_store(2) [OF u c]], simp add: files_at_def)+
  have "state_io_rel (spares ?X) (runMigration u p prior)" for prior
    using c unfolding runMigration_def migrateFleetRetryAware_def Let_def
    by (intro keeps_intros store spares_config spares_fleet_tasks spares_write_sentinel) (simp_all add: clean_paths_def)
  then have "state_io_rel (spares ?X) (or_wrap ''reading sentinel: %w'' [] (readSentinel u (sentinelPath p)) (\<lambda>prior.
         if (case prior of Some s \<Rightarrow> sn_Status s = ''verified'' | None \<Rightarrow> False) then State_Monad.return (Inr prior)
         else do {
           isDetected \<leftarrow> detected p;
           if \<not> isDetected then State_Monad.return (Inr prior) else runMigration u p prior }))"
    by (intro keeps_intros)
  moreover from run p have "run_state (or_wrap ''reading sentinel: %w'' [] (readSentinel u (sentinelPath p)) (\<lambda>prior.
         if (case prior of Some s \<Rightarrow> sn_Status s = ''verified'' | None \<Rightarrow> False) then State_Monad.return (Inr prior)
         else do {
           isDetected \<leftarrow> detected p;
           if \<not> isDetected then State_Monad.return (Inr prior) else runMigration u p prior })) h = (r, k)"
    by (simp add: Run_def get_host_def)
  ultimately show ?thesis by blast
qed

section \<open>What an installation keeps\<close>


section \<open>A verified migration is final\<close>

lemma set_markers_encoded:
  assumes "distinct (map fst ms)" and "set (map fst ms) \<inter> set (map fst x) = {}"
  shows "set_markers (map (\<lambda>(k, m). (k, encode_marker m)) ms) x = (x @ ms, True)"
  using assms
proof (induction ms arbitrary: x)
  case (Cons e ms)
  obtain k m where e: "e = (k, m)" by (cases e)
  have names: "fold_name ''head'' = ''head''" "fold_name ''status'' = ''status''" by code_simp+
  have m: "set_struct set_marker zero_marker (encode_marker m) = (m, True)"
    by (cases m) (simp add: encode_marker_def decode_simps set_marker_def zero_marker_def names
      del: fold_name.simps)
  have "AList.update k m x = x @ [(k, m)]" using Cons.prems(2) e by (induction x) auto
  with Cons m e show ?case by (simp add: Let_def)
qed simp

lemma sentinel_names: "fold_name ''status'' = ''status''" "fold_name ''source_paths'' = ''source_paths''"
  "fold_name ''timestamp'' = ''timestamp''" "fold_name ''conflicts'' = ''conflicts''"
  "fold_name ''mismatches'' = ''mismatches''" "fold_name ''store_snapshot_hash'' = ''store_snapshot_hash''"
  "fold_name ''fleet_item_state'' = ''fleet_item_state''"
  by code_simp+

lemma set_strings_encoded: "set_strings upd (JArr (map JStr xs)) x = (upd xs x, True)"
  by (simp add: set_strings_def set_list_def set_string_def list_all_iff o_def)

lemma zero_fields: "sn_Conflicts x = [] \<Longrightarrow> x\<lparr>sn_Conflicts := []\<rparr> = x"
  "sn_Mismatches x = [] \<Longrightarrow> x\<lparr>sn_Mismatches := []\<rparr> = x"
  "sn_StoreSnapshotHash x = [] \<Longrightarrow> x\<lparr>sn_StoreSnapshotHash := []\<rparr> = x"
  "sn_FleetItemState x = [] \<Longrightarrow> x\<lparr>sn_FleetItemState := []\<rparr> = x"
  by (cases x; simp)+

text \<open>Each member of the encoding sets its field; one that was left out has the zero value.\<close>

lemma sentinel_members:
  "set_members (set_sentinel u) ((''status'', JStr a) # ms) x = set_members (set_sentinel u) ms (x\<lparr>sn_Status := a\<rparr>)"
  "set_members (set_sentinel u) ((''source_paths'', JArr (map JStr xs)) # ms) x =
     set_members (set_sentinel u) ms (x\<lparr>sn_SourcePaths := xs\<rparr>)"
  "time_of u ts = Some t \<Longrightarrow> set_members (set_sentinel u) ((''timestamp'', JStr ts) # ms) x =
     set_members (set_sentinel u) ms (x\<lparr>sn_Timestamp := t\<rparr>)"
  "sn_Conflicts x = [] \<Longrightarrow> set_members (set_sentinel u) (encode_strings ''conflicts'' xs @ ms) x =
     set_members (set_sentinel u) ms (x\<lparr>sn_Conflicts := xs\<rparr>)"
  "sn_Mismatches x = [] \<Longrightarrow> set_members (set_sentinel u) (encode_strings ''mismatches'' xs @ ms) x =
     set_members (set_sentinel u) ms (x\<lparr>sn_Mismatches := xs\<rparr>)"
  "sn_StoreSnapshotHash x = [] \<Longrightarrow> set_members (set_sentinel u)
     ((if a = [] then [] else [(''store_snapshot_hash'', JStr a)]) @ ms) x =
     set_members (set_sentinel u) ms (x\<lparr>sn_StoreSnapshotHash := a\<rparr>)"
  by (simp_all add: sentinel_names set_sentinel_def set_string_def set_strings_encoded set_timestamp_def encode_strings_def
      zero_fields
      del: fold_name.simps split: prod.splits)

lemma sentinel_last_member:
  assumes "distinct (map fst fs)" and "sn_FleetItemState x = []"
  shows "set_members (set_sentinel u) (if fs = [] then []
        else [(''fleet_item_state'', JObj (map (\<lambda>(k, m). (k, encode_marker m)) (sort_key fst fs)))]) x =
     (x\<lparr>sn_FleetItemState := sort_key fst fs\<rparr>, True)"
proof -
  have "set_markers (map (\<lambda>(k, m). (k, encode_marker m)) (sort_key fst fs)) [] = (sort_key fst fs, True)"
    using assms(1) by (subst set_markers_encoded) (simp_all add: distinct_map_sort_key)
  with assms(2) show ?thesis by (simp add: sentinel_names set_sentinel_def zero_fields del: fold_name.simps)
qed

definition in_key_order :: "Sentinel \<Rightarrow> Sentinel" where
  "in_key_order s = s\<lparr>sn_FleetItemState := sort_key fst (sn_FleetItemState s)\<rparr>"

lemma sentinel_roundtrip:
  assumes e: "encode_sentinel u s = Inr data" and d: "distinct (map fst (sn_FleetItemState s))"
    and time: "\<And>t x. time_text u t = Inr x \<Longrightarrow> time_of u x = Some t"
  shows "Unmarshal (set_struct (set_sentinel u)) data zero_sentinel = (in_key_order s, None)"
proof -
  obtain ts where ts: "time_text u (sn_Timestamp s) = Inr ts" using e by (auto simp: encode_sentinel_def split: sum.splits)
  show ?thesis
    using e ts time [OF ts] d
    by (auto simp: encode_sentinel_def set_struct_def sentinel_members sentinel_last_member zero_sentinel_def
        in_key_order_def simp del: set_members.simps)
qed


text \<open>No step of a migration touches the environment.\<close>

lemma genv_ops [keeps_intros]:
  "state_io_rel given_env (read_file p)" "state_io_rel given_env (read_dir p)" "state_io_rel given_env (ReadFile p)"
  "state_io_rel given_env (ReadDir p)" "state_io_rel given_env (Stat p)" "state_io_rel given_env (close_file p)"
  "state_io_rel given_env (MkdirAll p)" "state_io_rel given_env (WriteFile p c)" "state_io_rel given_env (RemoveAll p)"
  "state_io_rel given_env (Remove p)" "state_io_rel given_env (Rename p q)" "state_io_rel given_env (MkdirTemp p n)"
  "state_io_rel given_env (CreateTemp p n)" "state_io_rel given_env (vacuumInto u p q)" "state_io_rel given_env (countRows u p t)"
  unfolding tree_op_defs file_op_defs vacuumInto_def countRows_def by (rule genv_file_op)+

lemma genv_run: "state_io_rel given_env (Run u)"
proof -
  have copy: "state_io_rel given_env (copyTree n s d)" for n s d
    by (induction n arbitrary: s d) (auto simp: copyRegularFile_def intro!: keeps_intros)
  have item: "state_io_rel given_env (fleet_item u p ps i res)" for p ps i res
    unfolding fleet_item_def unchanged_item_def gitStatePorcelain_def dirExists_def Let_def
    by (intro keeps_intros copy)
  have repos: "state_io_rel given_env (fleet_repos u p ps t es res)" for p ps t es res
    by (induction es arbitrary: res) (auto intro!: keeps_intros item)
  have tasks: "state_io_rel given_env (fleet_tasks u p ps ts res)" for p ps ts res
    by (induction ts arbitrary: res) (auto intro!: keeps_intros repos)
  have config: "state_io_rel given_env (config_items p ns res)" for p ns res
    by (induction ns arbitrary: res) (auto simp: config_item_def copyFile_def Let_def intro!: keeps_intros)
  have gathered: "state_io_rel given_env (gather f xs)" if "\<And>x. state_io_rel given_env (f x)"
    for f :: "'a \<Rightarrow> string list io" and xs
    using that by (induction xs) (auto intro!: keeps_intros)
  have listed: "state_io_rel given_env (load_listed parse d es)" for parse d es
    by (induction parse d es rule: load_listed.induct)
      (simp_all add: load_from_def genv.k_return, intro conjI impI keeps_intros)
  show ?thesis
    unfolding Run_def detected_def runMigration_def migrateConfig_def configYAMLFiles_def migrateStoreRetryAware_def
      recount_def sourceRowCountsOnly_def migrateStore_def take_snapshot_def with_tmp_dir_def hashFile_def
      migrateFleetRetryAware_def verifyConfig_def verify_content_def ListProjects_def verifyStore_def verifyFleet_def
      verify_item_def gitStatePorcelain_def writeSentinel_def or_remove_def readSentinel_def dirExists_def fileExists_def Let_def
    by (intro keeps_intros config tasks gathered listed genv_file_op)
qed


text \<open>The markers have distinct keys, whatever was read and whatever is added to them.\<close>

abbreviation marker_keys :: "Sentinel \<Rightarrow> string list" where
  "marker_keys s \<equiv> map fst (sn_FleetItemState s)"

lemma set_markers_distinct: "distinct (map fst x) \<Longrightarrow> distinct (map fst (fst (set_markers ms x)))"
proof (induction ms arbitrary: x)
  case (Cons e ms)
  obtain k v where e: "e = (k, v)" by (cases e)
  have "distinct (map fst (AList.update k (fst (set_struct set_marker zero_marker v)) x))"
    using Cons.prems by (rule distinct_update)
  with Cons.IH show ?case by (simp add: e Let_def split: prod.splits) (metis fst_conv)
qed simp

lemma set_sentinel_distinct:
  assumes "distinct (marker_keys x)"
  shows "distinct (marker_keys (fst (set_sentinel u k v x)))"
  using assms set_markers_distinct [of "sn_FleetItemState x"]
  by (auto simp: set_sentinel_def set_string_def set_strings_def set_list_def set_timestamp_def
      split: json.splits option.splits prod.splits) (metis fst_conv)

lemma set_members_distinct:
  "distinct (marker_keys x) \<Longrightarrow> distinct (marker_keys (fst (set_members (set_sentinel u) ms x)))"
proof (induction ms arbitrary: x)
  case (Cons e ms)
  obtain k v where e: "e = (k, v)" by (cases e)
  show ?case
    using Cons.IH [OF set_sentinel_distinct [OF Cons.prems, of u "fold_name k" v]]
    by (simp add: e Let_def split: prod.splits) (metis fst_conv)
qed simp

text \<open>What the sentinel says, as a function of the tree.\<close>

definition sentinel_in :: "outside \<Rightarrow> tree \<Rightarrow> path \<Rightarrow> err + Sentinel option" where
  "sentinel_in u t p = (case node_at t p of
     None \<Rightarrow> if errors_Is (missing t p) NotExist then Inr None else Inl (missing t p)
   | Some Dir \<Rightarrow> Inl (PathError (path_text p))
   | Some (File data) \<Rightarrow> (case Unmarshal (set_struct (set_sentinel u)) data zero_sentinel of
       (s, None) \<Rightarrow> Inr (Some s) | (_, Some e) \<Rightarrow> Inl e))"

lemma readSentinel_run:
  assumes "io_fault h (io_ops h) = Done"
  shows "run_state (readSentinel u p) h = (sentinel_in u (tree h) p, h\<lparr>io_ops := Suc (io_ops h)\<rparr>)"
  using assms by (simp add: readSentinel_def sentinel_in_def read_file_def file_op_def split: option.split node.split)

lemma sentinel_in_distinct:
  assumes "sentinel_in u t p = Inr (Some s)"
  shows "distinct (marker_keys s)"
proof -
  obtain data where "Unmarshal (set_struct (set_sentinel u)) data zero_sentinel = (s, None)"
    using assms by (auto simp: sentinel_in_def split: option.splits node.splits prod.splits if_splits)
  then show ?thesis
    using set_members_distinct [of zero_sentinel u]
    by (auto simp: Unmarshal_def set_struct_def zero_sentinel_def split: raw_json.splits json.splits prod.splits if_splits)
      (metis fst_conv)
qed

abbreviation state_keys :: "fleetMigrationResult \<Rightarrow> string list" where
  "state_keys r \<equiv> map fst (fr_ItemState r)"

lemma distinct_delete_key: "distinct (map fst al) \<Longrightarrow> distinct (map fst (AList.delete k al))"
  by (simp add: distinct_delete)

lemma fleet_item_distinct:
  assumes "run_state (fleet_item u p ps i res) h = (Inr res', k)" and "distinct (state_keys res)"
  shows "distinct (state_keys res')"
proof -
  have "distinct (state_keys (fleet_migrated i m res))" "distinct (state_keys (fleet_conflict key res))" for m key
    using assms(2) by (auto simp: fleet_migrated_def fleet_conflict_def intro!: distinct_update distinct_delete_key)
  with assms(1) show ?thesis
    by (auto simp: fleet_item_def Let_def split: prod.splits if_splits option.splits elim!: or_wrap_Inr)
qed

lemma fleet_repos_distinct:
  "run_state (fleet_repos u p ps t es res) h = (Inr res', k) \<Longrightarrow> distinct (state_keys res) \<Longrightarrow> distinct (state_keys res')"
  by (induction es arbitrary: res h) (auto split: if_splits elim!: or_fail_Inr, metis fleet_item_distinct)

lemma fleet_tasks_distinct:
  "run_state (fleet_tasks u p ps ts res) h = (Inr res', k) \<Longrightarrow> distinct (state_keys res) \<Longrightarrow> distinct (state_keys res')"
  by (induction ts arbitrary: res h) (auto split: if_splits elim!: or_fail_Inr or_wrap_Inr, metis fleet_repos_distinct)

lemma migrate_fleet_distinct:
  assumes "run_state (migrateFleetRetryAware u p prior) h = (Inr res, k)"
    and "\<And>s. prior = Some s \<Longrightarrow> distinct (marker_keys s)"
  shows "distinct (state_keys res)"
  using assms
  by (cases prior) (auto simp: migrateFleetRetryAware_def Let_def split: prod.splits if_splits elim!: or_wrap_Inr dest!: fleet_tasks_distinct)

lemma writeSentinel_Inr:
  assumes "run_state (writeSentinel u p s) h = (Inr (), k)"
  obtains data where "encode_sentinel u s = Inr data" "node_at (tree k) p = Some (File data)"
proof -
  obtain h1 where 1: "run_state (case encode_sentinel u s of Inl e \<Rightarrow> State_Monad.return (Inl e) | Inr data \<Rightarrow>
    or_fail (CreateTemp (butlast p) (temp_name u ''.sentinel-*.tmp'')) (\<lambda>tmp.
     or_remove tmp (WriteFile tmp data) (or_remove tmp (close_file tmp) (Rename tmp p)))) h1 = (Inr (), k)"
    using assms unfolding writeSentinel_def by (auto elim: or_fail_Inr)
  then obtain data where data: "encode_sentinel u s = Inr data" by (cases "encode_sentinel u s") auto
  with 1 obtain tmp h2 where "run_state (or_remove tmp (WriteFile tmp data) (or_remove tmp (close_file tmp) (Rename tmp p))) h2 = (Inr (), k)"
    by (auto elim: or_fail_Inr)
  then obtain h3 where w: "run_state (WriteFile tmp data) h2 = (Inr (), h3)"
      and c: "run_state (or_remove tmp (close_file tmp) (Rename tmp p)) h3 = (Inr (), k)"
    by (auto simp: or_remove_def split: prod.splits sum.splits)
  from WriteFile_Inr [OF w] have "node_at (tree h3) tmp = Some (File data)" by simp
  moreover from c have "run_state (Rename tmp p) (h3\<lparr>io_ops := Suc (io_ops h3)\<rparr>) = (Inr (), k)"
    by (auto simp: or_remove_def close_file_def file_op_def split: prod.splits sum.splits if_splits)
  ultimately have "node_at (tree k) p = Some (File data)"
    by (auto simp: Rename_def file_op_def split: if_splits)
  with data that show thesis by blast
qed


lemma runMigration_Inr:
  assumes "run_state (runMigration u p prior) h = (Inr r, k)"
  obtains cfg sr fr ms t g g1 g2 where "r = Some (attempt_sentinel p cfg sr fr ms t)"
    "run_state (migrateFleetRetryAware u p prior) g = (Inr fr, g1)"
    "run_state (writeSentinel u (sentinelPath p) (attempt_sentinel p cfg sr fr ms t)) g2 = (Inr (), k)"
proof -
  obtain cfg sr fr g g1 where f: "run_state (migrateFleetRetryAware u p prior) g = (Inr fr, g1)"
    and rest: "run_state (do {
       m1 \<leftarrow> verifyConfig u p (cm_Migrated cfg);
       m2 \<leftarrow> verifyStore u p sr;
       m3 \<leftarrow> verifyFleet p (fr_Migrated fr);
       now \<leftarrow> now_io;
       let sentinel = attempt_sentinel p cfg sr fr (m1 @ m2 @ m3) now;
       or_wrap ''writing sentinel: %w'' [] (writeSentinel u (sentinelPath p) sentinel)
         (\<lambda>_. State_Monad.return (Inr (Some sentinel))) }) g1 = (Inr r, k)"
    using assms unfolding runMigration_def by (elim or_wrap_Inr)
  from rest obtain ms t g2 where "run_state (or_wrap ''writing sentinel: %w'' []
      (writeSentinel u (sentinelPath p) (attempt_sentinel p cfg sr fr ms t))
      (\<lambda>_. State_Monad.return (Inr (Some (attempt_sentinel p cfg sr fr ms t))))) g2 = (Inr r, k)"
    by (auto simp: Let_def split: prod.splits)
  with f that show thesis by (auto elim!: or_wrap_Inr)
qed

lemma resolvePaths_given:
  assumes "given_env h k"
  shows "resolvePaths u k = resolvePaths u h"
proof -
  have "envOr k = envOr h" "home_dir k = home_dir h"
    using assms by (auto simp: given_env_def envOr_def fun_eq_iff)
  then show ?thesis by (simp only: resolvePaths_def)
qed

text \<open>Reading the sentinel after a run that returned one gives it back, its markers in the order of their keys.\<close>

lemma run_leaves_sentinel:
  assumes run: "run_state (Run u) h = (Inr (Some s), k)" and v: "sn_Status s = ''verified''"
    and p: "resolvePaths u h = Inr p" and done': "\<And>n. io_fault h n = Done"
    and time: "\<And>t x. time_text u t = Inr x \<Longrightarrow> time_of u x = Some t"
  obtains s' where "sentinel_in u (tree k) (sentinelPath p) = Inr (Some s')" "s' = s \<or> s' = in_key_order s"
proof -
  let ?r = "sentinel_in u (tree h) (sentinelPath p)" and ?h1 = "h\<lparr>io_ops := Suc (io_ops h)\<rparr>"
  have read: "run_state (readSentinel u (sentinelPath p)) h = (?r, ?h1)" by (simp add: readSentinel_run done')
  obtain prior where prior: "?r = Inr prior"
    using run p read by (cases ?r) (auto simp: Run_def get_host_def or_wrap_def)
  show thesis
  proof (cases "\<exists>x. prior = Some x \<and> sn_Status x = ''verified''")
    case True
    with run p read prior have "prior = Some s" "k = ?h1" by (auto simp: Run_def get_host_def or_wrap_def)
    with prior that show thesis by simp
  next
    case False
    obtain b h2 where b: "run_state (detected p) ?h1 = (b, h2)" by (cases "run_state (detected p) ?h1")
    have m: "run_state (runMigration u p prior) h2 = (Inr (Some s), k)"
    proof (cases b)
      case True
      with False run p read prior b show ?thesis
        by (auto simp: Run_def get_host_def or_wrap_def split: option.splits if_splits)
    next
      case b': False
      with False run p read prior b v show ?thesis
        by (auto simp: Run_def get_host_def or_wrap_def split: option.splits if_splits)
    qed
    obtain cfg sr fr ms t g g1 g2 where s: "s = attempt_sentinel p cfg sr fr ms t"
        and f: "run_state (migrateFleetRetryAware u p prior) g = (Inr fr, g1)"
        and w: "run_state (writeSentinel u (sentinelPath p) s) g2 = (Inr (), k)"
      by (rule runMigration_Inr [OF m]) auto
    have "distinct (state_keys fr)"
      using migrate_fleet_distinct [OF f] prior by (auto dest: sentinel_in_distinct)
    with s have d: "distinct (marker_keys s)" by (simp add: attempt_sentinel_def)
    from w obtain data where "encode_sentinel u s = Inr data" and n: "node_at (tree k) (sentinelPath p) = Some (File data)"
      by (auto elim: writeSentinel_Inr)
    with sentinel_roundtrip [OF _ d time] have "sentinel_in u (tree k) (sentinelPath p) = Inr (Some (in_key_order s))"
      by (simp add: sentinel_in_def)
    with that show thesis by blast
  qed
qed

text \<open>
  C15: A verified migration is final: on a machine whose file operations succeed, a \<open>Run\<close> after one
  that returned a verified sentinel returns the same sentinel, up to the order of its map, after a single
  read.  It looks at no source, starts no command and changes no file.
\<close>

theorem migration_is_final:
  assumes run: "run_state (Run u) h = (Inr (Some s), k)" and verified: "sn_Status s = ''verified''"
    and machine: "\<And>n. io_fault h n = Done"
    and time: "\<And>t x. time_text u t = Inr x \<Longrightarrow> time_of u x = Some t"
  shows "\<exists>s'. (s' = s \<or> s' = in_key_order s) \<and>
    run_state (Run u) k = (Inr (Some s'), k\<lparr>io_ops := Suc (io_ops k)\<rparr>)"
proof -
  obtain p where p: "resolvePaths u h = Inr p"
    using run by (cases "resolvePaths u h") (auto simp: Run_def get_host_def)
  obtain s' where s': "sentinel_in u (tree k) (sentinelPath p) = Inr (Some s')" "s' = s \<or> s' = in_key_order s"
    using run_leaves_sentinel [OF run verified p machine time] .
  have env: "given_env h k" using genv_run run by blast
  then have "resolvePaths u k = Inr p" "io_fault k (io_ops k) = Done"
    using p machine by (simp_all add: resolvePaths_given) (simp add: given_env_def)
  moreover have "sn_Status s' = ''verified''" using s'(2) verified by (auto simp: in_key_order_def)
  ultimately have "run_state (Run u) k = (Inr (Some s'), k\<lparr>io_ops := Suc (io_ops k)\<rparr>)"
    using s'(1) by (simp add: Run_def get_host_def or_wrap_def readSentinel_run)
  with s'(2) show ?thesis by blast
qed

text \<open>
  An installation to migrate: two configuration files, one of which has another content at the new
  place, a database and a worktree.  SQLite copies the database and keeps no file beside it.
\<close>

definition copy_database :: "path \<Rightarrow> path \<Rightarrow> tree \<Rightarrow> (err + unit) \<times> tree" where
  "copy_database s d t = (case node_at t s of
     Some (File c) \<Rightarrow>
       if node_at t d = None \<and> node_at t (butlast d) = Some Dir \<and> list_all clean_name d
       then (Inr (), put_node d (File c) t) else (Inl DbError, t)
   | _ \<Rightarrow> (Inl DbError, t))"

definition sample_outside :: outside where
  "sample_outside = \<lparr>vacuum_into = copy_database, count_rows = (\<lambda>p table t. (Inr 3, t)),
     open_store = (\<lambda>p t. (Inr (), t)), hash_of = (\<lambda>c. ''e3b0''),
     yaml_of = (\<lambda>_. Inr (\<lparr>pj_Name = [], pj_ProjectName = [], pj_Defaults = \<lparr>def_Agent = [], def_Model = [],
       def_Retries = 0, def_FixRetries = 0\<rparr>, pj_Repos = [], pj_DAG = None, pj_ShippingGates = [],
       pj_Retention = None\<rparr>, OtherNode)),
     time_text = (\<lambda>t. if fits_int64 t then Inr (show_int t) else Inl DbError), time_of = ParseInt,
     temp_name = (\<lambda>pattern t. ''tmp1''), home_error = None, depth = 9\<rparr>"

definition old_installation :: tree where
  "old_installation =
     (let h = [''home'', ''op'']; c = h @ [''.config'']; s = h @ [''.local'', ''share''] in
      map (\<lambda>p. (p, Dir)) [[''home''], h, c, c @ [''sergeant''], c @ [''sgt''], h @ [''.local''], s, s @ [''sergeant''],
        s @ [''sergeant-v2''], s @ [''sergeant-v2'', ''fleet''], s @ [''sergeant-v2'', ''fleet'', ''r1''],
        s @ [''sergeant-v2'', ''fleet'', ''r1'', ''web'']] @
      [(c @ [''sergeant'', ''a.yaml''], File (RawBad ''repos: 1'')), (c @ [''sergeant'', ''b.yaml''], File (RawBad ''repos: 2'')),
       (c @ [''sgt'', ''b.yaml''], File (RawBad ''repos: 3'')), (s @ [''sergeant'', ''sergeant.db''], File (RawBad ''rows'')),
       (s @ [''sergeant-v2'', ''fleet'', ''r1'', ''web'', ''main.go''], File (RawBad ''package main''))])"

definition old_host :: host where
  "old_host = calm_host (initial_world empty_tables) old_installation"

lemma old_host_quiet: "quiet_machine old_host" "list_all clean_name (home_dir old_host)"
  by (simp_all add: quiet_machine_def old_host_def calm_host_def clean_name_def)

lemma sample_sqlite: "sqlite_quiet sample_outside {}"
proof -
  have "keeps_nodes (files_at {d}) t (snd (copy_database s d t))" for s d t
    by (auto simp: copy_database_def keeps_nodes_def files_at_def wf_put split: option.splits node.splits)
  then show ?thesis by (simp add: sqlite_quiet_def sample_outside_def)
qed

lemma sample_wf: "wf_tree (tree old_host)" by code_simp

definition sample_run :: "(err + Sentinel option) \<times> host" where
  "sample_run = run_state (Run sample_outside) old_host"

lemma sample_run_verified:
  "(case fst sample_run of Inr (Some s) \<Rightarrow> Some (sn_Status s, sn_Conflicts s) | _ \<Rightarrow> None) =
     Some (''verified'', [''config:b.yaml''])"
  by code_simp


theorem migration_is_final_witness:
  "\<exists>s k. run_state (Run sample_outside) old_host = (Inr (Some s), k) \<and> sn_Conflicts s = [''config:b.yaml''] \<and>
     (\<exists>s'. (s' = s \<or> s' = in_key_order s) \<and>
       run_state (Run sample_outside) k = (Inr (Some s'), k\<lparr>io_ops := Suc (io_ops k)\<rparr>))"
proof -
  obtain s k where run: "run_state (Run sample_outside) old_host = (Inr (Some s), k)"
      and s: "sn_Status s = ''verified''" "sn_Conflicts s = [''config:b.yaml'']"
    using sample_run_verified by (cases sample_run) (auto simp: sample_run_def split: sum.splits option.splits)
  have "time_of sample_outside x = Some t" if "time_text sample_outside t = Inr x" for t x
    using that by (auto simp: sample_outside_def ParseInt_show split: if_splits)
  then show ?thesis
    using run s migration_is_final [OF run s(1)] by (simp add: old_host_def calm_host_def)
qed

section \<open>A copied worktree is the worktree\<close>

text \<open>The operations a copy is made of, on a machine on which they succeed.\<close>

definition no_file_above :: "tree \<Rightarrow> path \<Rightarrow> bool" where
  "no_file_above t p \<longleftrightarrow> (\<forall>q c. prefix q p \<longrightarrow> node_at t q \<noteq> Some (File c))"

definition after_op :: "tree \<Rightarrow> host \<Rightarrow> host" where
  "after_op t h = h\<lparr>io_ops := Suc (io_ops h), tree := t\<rparr>"

lemma after_op_simps [simp]: "tree (after_op t h) = t" "quiet_machine (after_op t h) = quiet_machine h"
  by (simp_all add: after_op_def quiet_machine_def)

lemma quiet_MkdirAll:
  assumes "quiet_machine h" "no_file_above (tree h) p"
  shows "run_state (MkdirAll p) h = (Inr (), after_op (make_dirs p (tree h)) h)"
proof -
  have "\<forall>q \<in> set (prefixes p). case node_at (tree h) q of Some (File _) \<Rightarrow> False | _ \<Rightarrow> True"
    using assms(2) by (auto simp: no_file_above_def split: option.split node.split)
  with assms(1) show ?thesis
    by (simp add: MkdirAll_def file_op_def quiet_machine_def after_op_def del: set_prefixes_eq)
qed

lemma quiet_Stat:
  "quiet_machine h \<Longrightarrow> node_at (tree h) p = Some n \<Longrightarrow> run_state (Stat p) h = (Inr n, after_op (tree h) h)"
  by (simp add: Stat_def file_op_def quiet_machine_def after_op_def)

lemma quiet_read_file:
  "quiet_machine h \<Longrightarrow> node_at (tree h) p = Some (File c) \<Longrightarrow> run_state (read_file p) h = (Inr c, after_op (tree h) h)"
  by (simp add: read_file_def file_op_def quiet_machine_def after_op_def)

lemma quiet_read_dir:
  "quiet_machine h \<Longrightarrow> node_at (tree h) p = Some Dir \<Longrightarrow>
   run_state (read_dir p) h = (Inr (entries_of (tree h) p), after_op (tree h) h)"
  by (simp add: read_dir_def file_op_def quiet_machine_def after_op_def)

lemma quiet_WriteFile:
  "quiet_machine h \<Longrightarrow> p \<noteq> [] \<Longrightarrow> node_at (tree h) p \<noteq> Some Dir \<Longrightarrow> node_at (tree h) (butlast p) = Some Dir \<Longrightarrow>
   run_state (WriteFile p c) h = (Inr (), after_op (put_node p (File c) (tree h)) h)"
  by (simp add: WriteFile_def file_op_def quiet_machine_def after_op_def)

lemmas quiet_runs = quiet_MkdirAll quiet_Stat quiet_read_file quiet_read_dir quiet_WriteFile

text \<open>What a copy of \<open>src\<close> to \<open>dst\<close> leaves: the nodes below, and the directories above when they were missing.\<close>

definition copied :: "path \<Rightarrow> path \<Rightarrow> host \<Rightarrow> host \<Rightarrow> bool" where
  "copied src dst h k \<longleftrightarrow> quiet_machine k \<and> wf_tree (tree k) \<and>
     (\<forall>q. node_at (tree k) (dst @ q) = node_at (tree h) (src @ q)) \<and>
     (\<forall>q. \<not> prefix dst q \<longrightarrow> node_at (tree k) q = (if node_at (tree h) q = None \<and> prefix q dst then Some Dir else node_at (tree h) q))"

definition apart :: "path \<Rightarrow> path \<Rightarrow> bool" where
  "apart p q \<longleftrightarrow> \<not> prefix p q \<and> \<not> prefix q p"

lemma apart_below: "apart p q \<Longrightarrow> \<not> prefix (p @ a) (q @ b)"
  by (auto simp: apart_def dest: prefix_same_cases append_prefixD) (meson append_prefixD prefixI prefix_same_cases)

lemma copy_regular_copies:
  assumes h: "quiet_machine h" "wf_tree (tree h)" "list_all clean_name dst" "no_file_above (tree h) dst"
    and src: "node_at (tree h) src = Some (File c)" and dst: "node_at (tree h) dst = None"
  obtains k where "run_state (copyRegularFile src dst) h = (Inr (), k)" "copied src dst h k"
proof -
  let ?t = "make_dirs (butlast dst) (tree h)"
  let ?k = "after_op (put_node dst (File c) ?t) (after_op ?t (after_op (tree h) h))"
  have ne: "dst \<noteq> []" using dst by auto
  then have nb: "\<not> prefix dst (butlast dst)" by (metis append_butlast_last_id prefix_order.antisym prefixeq_butlast not_Cons_self2 self_append_conv)
  have above: "no_file_above (tree h) (butlast dst)"
    using h(4) by (auto simp: no_file_above_def) (metis prefix_order.trans prefixeq_butlast)
  then have parent: "node_at ?t (butlast dst) = Some Dir"
    by (auto simp: node_make_dirs no_file_above_def split: option.split) (metis node.exhaust prefix_order.refl)
  have free: "node_at ?t dst = None" using dst nb by (simp add: node_make_dirs)
  have run: "run_state (copyRegularFile src dst) h = (Inr (), ?k)"
    using h(1) src above ne parent free by (simp add: copyRegularFile_def or_fail_def quiet_runs)
  have proper: "prefix q dst \<longleftrightarrow> q = dst \<or> prefix q (butlast dst)" for q
    using ne by (cases dst rule: rev_cases) auto
  have "wf_tree (tree ?k)"
  proof -
    have "state_io_rel (spares (\<lambda>_ _. True)) (copyRegularFile src dst)"
      using h(3) by (rule spares_copy_regular) simp
    with run have "spares (\<lambda>_ _. True) h ?k" by blast
    with h(1,2) show ?thesis by (simp add: spares_def keeps_nodes_def)
  qed
  moreover have "node_at (tree ?k) (dst @ q) = node_at (tree h) (src @ q)" for q
  proof (cases "q = []")
    case True
    with src ne show ?thesis by simp
  next
    case False
    have "node_at (tree h) (dst @ q) = None" "node_at (tree h) (src @ q) = None"
      using free_below [OF h(2) dst, of "dst @ q"] node_above [OF h(2), of src q] src False by force+
    moreover have "\<not> prefix (dst @ q) (butlast dst)" using nb append_prefixD by blast
    ultimately show ?thesis using False ne by (simp add: node_make_dirs)
  qed
  moreover have "node_at (tree ?k) q = (if node_at (tree h) q = None \<and> prefix q dst then Some Dir else node_at (tree h) q)"
    if "\<not> prefix dst q" for q
    using that proper [of q] by (auto simp: node_make_dirs split: option.split)
  ultimately have "copied src dst h ?k" using h(1) by (simp add: copied_def)
  with run that show thesis by blast
qed


text \<open>The entries of a directory, one after the other.\<close>

lemma each_copied:
  assumes step: "\<And>c g. quiet_machine g \<Longrightarrow> wf_tree (tree g) \<Longrightarrow> no_file_above (tree g) (dst @ [c]) \<Longrightarrow> c \<in> set cs \<Longrightarrow>
      node_at (tree g) (src @ [c]) \<noteq> None \<Longrightarrow> node_at (tree g) (dst @ [c]) = None \<Longrightarrow>
      (\<And>q. node_at (tree g) (src @ q) = node_at (tree h) (src @ q)) \<Longrightarrow>
      \<exists>k. run_state (f c) g = (Inr (), k) \<and> copied (src @ [c]) (dst @ [c]) g k"
    and h: "quiet_machine h" "wf_tree (tree h)" "distinct cs" "apart src dst" "node_at (tree h) dst = Some Dir"
    and cs: "\<forall>c \<in> set cs. node_at (tree h) (src @ [c]) \<noteq> None \<and> node_at (tree h) (dst @ [c]) = None"
  shows "\<exists>k. run_state (each_io f cs) h = (Inr (), k) \<and> quiet_machine k \<and> wf_tree (tree k) \<and>
    (\<forall>c \<in> set cs. \<forall>q. node_at (tree k) (dst @ c # q) = node_at (tree h) (src @ c # q)) \<and>
    (\<forall>q. (\<forall>c \<in> set cs. \<not> prefix (dst @ [c]) q) \<longrightarrow> node_at (tree k) q = node_at (tree h) q)"
  using assms
proof (induction cs arbitrary: h)
  case (Cons c cs)
  have nfa: "no_file_above (tree h) (dst @ [c])"
    unfolding no_file_above_def
  proof (intro allI impI notI)
    fix q x assume q: "prefix q (dst @ [c])" "node_at (tree h) q = Some (File x)"
    then have "prefix q dst" using Cons.prems(7) by auto
    with below_a_file [OF Cons.prems(3) q(2) _ Cons.prems(6)] q(2) Cons.prems(6) show False by auto
  qed
  obtain k where k: "run_state (f c) h = (Inr (), k)" "copied (src @ [c]) (dst @ [c]) h k"
    using Cons.prems(1) [of h c] Cons.prems(2,3,7) nfa by auto
  have rest: "node_at (tree k) q = node_at (tree h) q" if "\<not> prefix (dst @ [c]) q" for q
  proof (cases "node_at (tree h) q = None \<and> prefix q (dst @ [c])")
    case True
    with that have "prefix q dst" by auto
    then obtain r where "dst = q @ r" by (auto elim: prefixE)
    with node_above [OF Cons.prems(3), of q r Dir] Cons.prems(6) True show ?thesis by (cases "r = []") auto
  next
    case False
    with k(2) that show ?thesis by (simp add: copied_def)
  qed
  have src_same: "node_at (tree k) (src @ q) = node_at (tree h) (src @ q)" for q
    using apart_below [of dst src "[c]" q] Cons.prems(5) by (intro rest) (auto simp: apart_def)
  have dst_same: "node_at (tree k) (dst @ c' # q) = node_at (tree h) (dst @ c' # q)" if "c' \<noteq> c" for c' q
    using that by (intro rest) auto
  have "\<exists>l. run_state (each_io f cs) k = (Inr (), l) \<and> quiet_machine l \<and> wf_tree (tree l) \<and>
    (\<forall>c \<in> set cs. \<forall>q. node_at (tree l) (dst @ c # q) = node_at (tree k) (src @ c # q)) \<and>
    (\<forall>q. (\<forall>c \<in> set cs. \<not> prefix (dst @ [c]) q) \<longrightarrow> node_at (tree l) q = node_at (tree k) q)"
  proof (rule Cons.IH)
    show "quiet_machine k" "wf_tree (tree k)" using k(2) by (simp_all add: copied_def)
    show "node_at (tree k) dst = Some Dir" using rest [of dst] Cons.prems(6) by simp
    show "\<forall>c \<in> set cs. node_at (tree k) (src @ [c]) \<noteq> None \<and> node_at (tree k) (dst @ [c]) = None"
    proof
      fix c' assume c': "c' \<in> set cs"
      then have "c' \<noteq> c" using Cons.prems(4) by auto
      with c' show "node_at (tree k) (src @ [c']) \<noteq> None \<and> node_at (tree k) (dst @ [c']) = None"
        using Cons.prems(7) dst_same [of c' "[]"] src_same by simp
    qed
    show "\<exists>l. run_state (f c') g = (Inr (), l) \<and> copied (src @ [c']) (dst @ [c']) g l"
      if "quiet_machine g" "wf_tree (tree g)" "no_file_above (tree g) (dst @ [c'])" "c' \<in> set cs"
        "node_at (tree g) (src @ [c']) \<noteq> None" "node_at (tree g) (dst @ [c']) = None"
        "\<And>q. node_at (tree g) (src @ q) = node_at (tree k) (src @ q)" for c' g
      using that Cons.prems(1) [of g c'] src_same by simp
  qed (use Cons.prems(4,5) in auto)
  then obtain l where l: "run_state (each_io f cs) k = (Inr (), l)" "quiet_machine l" "wf_tree (tree l)"
    "\<forall>c \<in> set cs. \<forall>q. node_at (tree l) (dst @ c # q) = node_at (tree k) (src @ c # q)"
    "\<forall>q. (\<forall>c \<in> set cs. \<not> prefix (dst @ [c]) q) \<longrightarrow> node_at (tree l) q = node_at (tree k) q" by blast
  have "node_at (tree l) (dst @ c # q) = node_at (tree h) (src @ c # q)" for q
  proof -
    have "node_at (tree l) (dst @ c # q) = node_at (tree k) (dst @ c # q)"
    proof -
      have "\<forall>c' \<in> set cs. \<not> prefix (dst @ [c']) (dst @ c # q)" using Cons.prems(4) by auto
      with l(5) show ?thesis by blast
    qed
    with k(2) show ?thesis by (simp add: copied_def)
  qed
  moreover have "node_at (tree l) (dst @ c' # q) = node_at (tree h) (src @ c' # q)" if "c' \<in> set cs" for c' q
    using l(4) that src_same by simp
  moreover have "node_at (tree l) q = node_at (tree h) q" if "\<forall>c' \<in> set (c # cs). \<not> prefix (dst @ [c']) q" for q
    using that l(5) rest [of q] by auto
  ultimately show ?case using k(1) l(1,2,3) by (intro exI [of _ l]) (auto simp: or_fail_def)
qed simp


lemma tree_copied:
  assumes "quiet_machine h" "wf_tree (tree h)" "list_all clean_name dst" "no_file_above (tree h) dst"
    and "apart src dst" "node_at (tree h) src \<noteq> None" "node_at (tree h) dst = None"
    and "\<And>q. node_at (tree h) (src @ q) \<noteq> None \<Longrightarrow> length q < left"
  shows "\<exists>k. run_state (copyTree left src dst) h = (Inr (), k) \<and> copied src dst h k"
  using assms
proof (induction left arbitrary: src dst h)
  case 0
  then show ?case using "0.prems"(8) [of "[]"] by auto
next
  case (Suc left)
  obtain n where n: "node_at (tree h) src = Some n" using Suc.prems(6) by blast
  show ?case
  proof (cases n)
    case (File c)
    obtain k where "run_state (copyRegularFile src dst) (after_op (tree h) h) = (Inr (), k)" "copied src dst (after_op (tree h) h) k"
      by (rule copy_regular_copies [of "after_op (tree h) h" dst src c]) (use Suc.prems n File in simp_all)
    then show ?thesis using Suc.prems(1) n File by (auto simp: or_fail_def quiet_runs copied_def)
  next
    case Dir
    let ?t = "make_dirs dst (tree h)"
    let ?g = "after_op ?t (after_op ?t (after_op (tree h) h))"
    let ?cs = "map fst (entries_of ?t src)"
    let ?f = "\<lambda>c. copyTree left (Join src c) (Join dst c)"
    have node_t: "node_at ?t q = (if node_at (tree h) q = None \<and> prefix q dst then Some Dir else node_at (tree h) q)" for q
      by (auto simp: node_make_dirs split: option.split)
    have src_t: "node_at ?t (src @ q) = node_at (tree h) (src @ q)" for q
      using apart_below [of src dst q "[]"] Suc.prems(5) by (simp add: node_t)
    have wf: "wf_tree ?t"
      by (rule wf_make_dirs [OF Suc.prems(2,3)]) (use Suc.prems(4) in \<open>auto simp: no_file_above_def\<close>, metis node.exhaust option.exhaust)
    have entries: "distinct ?cs" "\<And>c. c \<in> set ?cs \<Longrightarrow> clean_name c \<and> node_at ?t (src @ [c]) \<noteq> None"
      "\<And>c n. node_at ?t (src @ [c]) = Some n \<Longrightarrow> c \<in> set ?cs"
      using entries_of_ok [where t = ?t and p = src] wf by (force simp: wf_tree_def)+
    have below: "node_at ?t (dst @ [c]) = None" for c
      using free_below [OF Suc.prems(2,7), of "dst @ [c]"] by (cases "node_at (tree h) (dst @ [c])") (auto simp: node_t)
    have "\<exists>k. run_state (each_io ?f ?cs) ?g = (Inr (), k) \<and> quiet_machine k \<and> wf_tree (tree k) \<and>
      (\<forall>c \<in> set ?cs. \<forall>q. node_at (tree k) (dst @ c # q) = node_at (tree ?g) (src @ c # q)) \<and>
      (\<forall>q. (\<forall>c \<in> set ?cs. \<not> prefix (dst @ [c]) q) \<longrightarrow> node_at (tree k) q = node_at (tree ?g) q)"
    proof (rule each_copied)
      show "node_at (tree ?g) dst = Some Dir" using Suc.prems(7) by (simp add: node_t)
      show "\<forall>c \<in> set ?cs. node_at (tree ?g) (src @ [c]) \<noteq> None \<and> node_at (tree ?g) (dst @ [c]) = None"
        using entries(2) below by simp
      fix c g assume g: "quiet_machine g" "wf_tree (tree g)" "no_file_above (tree g) (dst @ [c])" "c \<in> set ?cs"
        "node_at (tree g) (src @ [c]) \<noteq> None" "node_at (tree g) (dst @ [c]) = None"
        "\<And>q. node_at (tree g) (src @ q) = node_at (tree ?g) (src @ q)"
      have c: "clean_name c" using entries(2) g(4) by blast
      show "\<exists>k. run_state (?f c) g = (Inr (), k) \<and> copied (src @ [c]) (dst @ [c]) g k"
        unfolding Join_clean [OF c]
      proof (rule Suc.IH [OF g(1,2) _ g(3) _ g(5,6)])
        show "list_all clean_name (dst @ [c])" using Suc.prems(3) c by simp
        show "apart (src @ [c]) (dst @ [c])" 
          using apart_below [OF Suc.prems(5), of "[c]" "[c]"] apart_below [of dst src "[c]" "[c]"] Suc.prems(5)
          by (auto simp: apart_def)
        fix q assume "node_at (tree g) ((src @ [c]) @ q) \<noteq> None"
        with g(7) [of "c # q"] src_t [of "c # q"] Suc.prems(8) [of "c # q"] show "length q < left" by simp
      qed
    qed (use Suc.prems(1,5) wf entries(1) in auto)
    then obtain k where k: "run_state (each_io ?f ?cs) ?g = (Inr (), k)" "quiet_machine k" "wf_tree (tree k)"
      "\<forall>c \<in> set ?cs. \<forall>q. node_at (tree k) (dst @ c # q) = node_at ?t (src @ c # q)"
      "\<forall>q. (\<forall>c \<in> set ?cs. \<not> prefix (dst @ [c]) q) \<longrightarrow> node_at (tree k) q = node_at ?t q" by auto
    have kd: "node_at (tree k) dst = Some Dir" using k(5) Suc.prems(7) by (auto simp: node_t)
    have run: "run_state (copyTree (Suc left) src dst) h = (Inr (), after_op (tree k) k)"
      using Suc.prems(1,4) n Dir src_t [of "[]"] k(1,2) kd by (simp add: or_fail_def quiet_runs)
    have "node_at (tree k) (dst @ q) = node_at (tree h) (src @ q)" for q
    proof (cases q)
      case Nil
      with kd n Dir show ?thesis by simp
    next
      case (Cons c r)
      show ?thesis
      proof (cases "c \<in> set ?cs")
        case True
        show ?thesis using bspec [OF k(4) True] Cons src_t [of q] by simp
      next
        case False
        then have "node_at ?t (src @ [c]) = None" using entries(3) by (cases "node_at ?t (src @ [c])") auto
        then have "node_at ?t (src @ q) = None"
          using free_below [OF wf, of "src @ [c]" "src @ q"] Cons by (cases "node_at ?t (src @ q)") auto
        moreover have "node_at ?t (dst @ q) = None"
          using free_below [OF wf below [of c], of "dst @ q"] Cons by (cases "node_at ?t (dst @ q)") auto
        moreover have "\<forall>c' \<in> set ?cs. \<not> prefix (dst @ [c']) (dst @ q)" using False Cons by auto
        then have "node_at (tree k) (dst @ q) = node_at ?t (dst @ q)" using k(5) by blast
        ultimately show ?thesis using src_t [of q] by simp
      qed
    qed
    moreover have "node_at (tree k) q = (if node_at (tree h) q = None \<and> prefix q dst then Some Dir else node_at (tree h) q)"
      if "\<not> prefix dst q" for q
    proof -
      have "\<forall>c \<in> set ?cs. \<not> prefix (dst @ [c]) q" using that append_prefixD by blast
      with k(5) node_t [of q] show ?thesis by simp
    qed
    ultimately have "copied src dst h (after_op (tree k) k)" using k(2,3) by (simp add: copied_def)
    with run show ?thesis by blast
  qed
qed





section \<open>An attempt that ends with an error\<close>

text \<open>The \<open>n\<close>-th file operation of the old installation's migration fails; afterwards all succeed.\<close>

definition interrupted_host :: "nat \<Rightarrow> host" where
  "interrupted_host n = old_host\<lparr>io_fault := (\<lambda>i. if i = n then Refused else Done)\<rparr>"

definition repaired :: "host \<Rightarrow> host" where
  "repaired h = h\<lparr>io_fault := (\<lambda>_. Done)\<rparr>"

definition interrupted_runs :: "nat \<Rightarrow> (err + Sentinel option) \<times> (err + Sentinel option) \<times> node option" where
  "interrupted_runs n =
     (let (r1, k1) = run_state (Run sample_outside) (interrupted_host n);
          (r2, k2) = run_state (Run sample_outside) (repaired k1) in
      (r1, r2, node_at (tree k2) [''home'', ''op'', ''.local'', ''share'', ''sgt-v2'', ''fleet'', ''r1'', ''web'', ''main.go'']))"


end
