(* ===== verification/Follow.thy ===== *)
theory Follow
  imports Files
begin

text \<open>
  \<open>internal/mcp/run_follow.go\<close>: the status of one run, and a wait that reads the store again after every
  wake-up until the run is terminal or the caller's bound has elapsed.

  The wait shares the store with other writers; what they do between two reads is a parameter.  Which of
  the notification, the ticker and the timer ended the \<open>select\<close> makes no difference to the next read, so
  only the clock says how long it took.  A loop that may run forever is a partial function.
\<close>

section \<open>Answers\<close>

record phaseResult =
  pz_Repo :: string
  pz_Name :: string
  pz_Kind :: string
  pz_Status :: string
  pz_Error :: string
  pz_DurationMs :: int

record runStatusResult =
  rs_RunID :: string
  rs_Status :: string
  rs_Terminal :: bool
  rs_Slug :: string
  rs_Project :: string
  rs_Brief :: string
  rs_ChangeID :: string
  rs_IntentID :: string
  rs_Sequence :: int
  rs_CreatedAt :: time
  rs_UpdatedAt :: time
  rs_Phases :: "phaseResult list"

record runWaitResult =
  rw_RunID :: string
  rw_Status :: string
  rw_Terminal :: bool
  rw_TimedOut :: bool
  rw_Slug :: string
  rw_Sequence :: int
  rw_WaitedMs :: int
  rw_BoundMs :: int
  rw_Note :: err

text \<open>
  An unknown run is an answer of its own, without a status.  A text of \<open>fmt.Sprintf\<close> is kept as its format
  and arguments, like that of an error.
\<close>

datatype 'a found = NotFound string err | Found 'a

definition notFound :: "string \<Rightarrow> 'a found" where
  "notFound runID = NotFound runID (Errorf ''no run with id %q: sgt holds no record of it'' [runID] None)"

definition phaseResults :: "PhaseRecord list \<Rightarrow> phaseResult list" where
  "phaseResults ps = map (\<lambda>p. \<lparr>pz_Repo = ph_Repo p, pz_Name = ph_Name p, pz_Kind = ph_Kind p, pz_Status = ph_Status p,
     pz_Error = ph_Error p, pz_DurationMs = ph_DurationMs p\<rparr>) ps"

section \<open>One run\<close>

definition runStatus :: "string \<Rightarrow> runStatusResult found st" where
  "runStatus runID =
     (let runID = TrimSpace runID in
      if runID = [] then throw (Other ''run_id is required'')
      else try_st (GetRun runID) (\<lambda>r. case r of
        Inl e \<Rightarrow> if errors_Is e NoRows then return_st (notFound runID)
          else throw (Errorf ''reading run %q: %w'' [runID] (Some e))
      | Inr run \<Rightarrow>
          bind_st (wrap_st ''reading the current change sequence: %w'' [] CurrentSequence) (\<lambda>seq.
          bind_st (wrap_st ''reading the phases of run %q: %w'' [runID] (ListPhasesForRun runID)) (\<lambda>ps.
          return_st (Found \<lparr>rs_RunID = run_ID run, rs_Status = run_Status run,
            rs_Terminal = IsTerminalRunStatus (run_Status run), rs_Slug = run_Slug run, rs_Project = run_Project run,
            rs_Brief = run_Brief run, rs_ChangeID = run_ChangeID run, rs_IntentID = run_IntentID run,
            rs_Sequence = seq, rs_CreatedAt = run_CreatedAt run, rs_UpdatedAt = run_UpdatedAt run,
            rs_Phases = phaseResults ps\<rparr>)))))"

section \<open>Waiting\<close>

definition defaultRunWaitBound :: int where
  "defaultRunWaitBound = 300 * 1000000000"

definition maxRunWaitBound :: int where
  "maxRunWaitBound = 3600 * 1000000000"

text \<open>
  The caller's bound in seconds.  A product beyond 64 bits has no defined conversion: \<open>beyond\<close> is what the
  machine makes of it.  A fraction of a second is not modelled.
\<close>

definition runWaitBound :: "int \<Rightarrow> json option \<Rightarrow> int" where
  "runWaitBound beyond raw = (case raw of
     Some (JNum n) \<Rightarrow>
       if n \<le> 0 then defaultRunWaitBound
       else let bound = (if n * 1000000000 < 2 ^ 63 then n * 1000000000 else beyond) in
         if bound > maxRunWaitBound then maxRunWaitBound else bound
   | _ \<Rightarrow> defaultRunWaitBound)"

definition wait_result :: "RunRecord \<Rightarrow> int \<Rightarrow> bool \<Rightarrow> int \<Rightarrow> int \<Rightarrow> runWaitResult" where
  "wait_result run seq terminal waited bound =
     \<lparr>rw_RunID = run_ID run, rw_Status = run_Status run, rw_Terminal = terminal, rw_TimedOut = (\<not> terminal),
      rw_Slug = run_Slug run, rw_Sequence = seq, rw_WaitedMs = milliseconds waited, rw_BoundMs = milliseconds bound,
      rw_Note = (if terminal then Errorf ''run %s finished with status %q.'' [run_ID run, run_Status run] None
        else Errorf ''run %s is STILL EXECUTING: its status is %q and the wait's bound of %s elapsed first. This is not a terminal status; wait again or subscribe from sequence %d.''
          [run_ID run, run_Status run, show_int bound, show_int seq] None)\<rparr>"

text \<open>One round: the answer, or \<open>None\<close> when the run goes on and time is left.\<close>

definition wait_once :: "string \<Rightarrow> int \<Rightarrow> time \<Rightarrow> runWaitResult found option st" where
  "wait_once runID bound started =
     try_st (GetRun runID) (\<lambda>r. case r of
       Inl e \<Rightarrow> if errors_Is e NoRows then return_st (Some (notFound runID))
         else throw (Errorf ''reading run %q: %w'' [runID] (Some e))
     | Inr run \<Rightarrow>
         bind_st (wrap_st ''reading the current change sequence: %w'' [] CurrentSequence) (\<lambda>seq.
         if IsTerminalRunStatus (run_Status run) then
           bind_st time_now (\<lambda>now. return_st (Some (Found (wait_result run seq True (now - started) bound))))
         else bind_st time_now (\<lambda>t.
           if started + bound - t \<le> 0 then
             bind_st time_now (\<lambda>now. return_st (Some (Found (wait_result run seq False (now - started) bound))))
           else return_st None)))"

partial_function (option) wait_loop :: "(nat \<Rightarrow> world \<Rightarrow> world) \<Rightarrow> string \<Rightarrow> int \<Rightarrow> time \<Rightarrow> nat \<Rightarrow> world \<Rightarrow>
    ((err + runWaitResult found) \<times> world) option" where
  "wait_loop others runID bound started n w =
     (case wait_once runID bound started w of
        (Inl e, w') \<Rightarrow> Some (Inl e, w')
      | (Inr (Some a), w') \<Rightarrow> Some (Inr a, w')
      | (Inr None, w') \<Rightarrow> wait_loop others runID bound started (Suc n) (others n w'))"

text \<open>The wait subscribes before its first read and unsubscribes however it ends.\<close>

definition runWait :: "(nat \<Rightarrow> world \<Rightarrow> world) \<Rightarrow> string \<Rightarrow> int \<Rightarrow> world \<Rightarrow> ((err + runWaitResult found) \<times> world) option" where
  "runWait others runID bound w =
     (let runID = TrimSpace runID in
      if runID = [] then Some (Inl (Other ''run_id is required''), w)
      else case SubscribeChanges w of
        (Inl e, w1) \<Rightarrow> Some (Inl e, w1)
      | (Inr sub, w1) \<Rightarrow> (case time_now w1 of
          (Inl e, w2) \<Rightarrow> Some (Inl e, w2)
        | (Inr started, w2) \<Rightarrow>
            map_option (\<lambda>(r, w3). (r, snd (unsubscribe sub w3))) (wait_loop others runID bound started 0 w2)))"

section \<open>A wait answers, and truthfully\<close>

definition stored_run :: "string \<Rightarrow> world \<Rightarrow> RunRecord option" where
  "stored_run runID w = map_option scanRun (find (\<lambda>r. run_ID r = runID) (runs (db w)))"

text \<open>What an answer says is what the store held when it was given.\<close>

definition truthful :: "string \<Rightarrow> int \<Rightarrow> world \<Rightarrow> err + runWaitResult found \<Rightarrow> bool" where
  "truthful runID bound w r = (case r of
     Inl _ \<Rightarrow> True
   | Inr (NotFound i _) \<Rightarrow> i = runID \<and> stored_run runID w = None
   | Inr (Found a) \<Rightarrow> (case stored_run runID w of
       None \<Rightarrow> False
     | Some run \<Rightarrow> rw_Status a = run_Status run \<and> rw_Terminal a = IsTerminalRunStatus (run_Status run) \<and>
         rw_TimedOut a = (\<not> rw_Terminal a) \<and> (rw_TimedOut a \<longrightarrow> milliseconds bound \<le> rw_WaitedMs a)))"

lemma milliseconds_mono: "a \<le> b \<Longrightarrow> milliseconds a \<le> milliseconds b"
  by (auto simp: milliseconds_def zdiv_mono1 pos_imp_zdiv_nonneg_iff)
    (smt (verit) pos_imp_zdiv_nonneg_iff)

lemma wait_once_cases:
  assumes run: "wait_once runID bound started w = (r, k)" and mono: "mono (clock w)"
  shows "clock k = clock w" and "r = Inr None \<Longrightarrow> reads k = Suc (reads w) \<and> clock w (reads w) < started + bound"
    and "r = Inr (Some a) \<Longrightarrow> truthful runID bound k (Inr a)"
proof -
  note unfolds = wait_once_def GetRun_def query_row_def query_def CurrentSequence_def exec_def st_simps Let_def
  show "clock k = clock w"
    using run by (auto simp: unfolds split: if_splits option.splits prod.splits sum.splits)
  show "reads k = Suc (reads w) \<and> clock w (reads w) < started + bound" if "r = Inr None"
    using run that by (auto simp: unfolds split: if_splits option.splits prod.splits sum.splits)
  have "milliseconds bound \<le> milliseconds (clock w (Suc (reads w)) - started)" if "started + bound - clock w (reads w) \<le> 0"
    using that monoD [OF mono, of "reads w" "Suc (reads w)"] by (intro milliseconds_mono) simp
  then show "truthful runID bound k (Inr a)" if "r = Inr (Some a)"
    using run that by (auto simp: unfolds truthful_def stored_run_def notFound_def wait_result_def
      split: if_splits option.splits prod.splits sum.splits)
qed

lemma wait_loop_answers:
  assumes mono: "mono (clock w)" and K: "started + bound \<le> clock w K"
    and others: "\<And>n w. same_env w (others n w)"
  shows "\<exists>r k. wait_loop others runID bound started n w = Some (r, k) \<and> truthful runID bound k r"
  using mono K
proof (induction "K - reads w" arbitrary: n w rule: less_induct)
  case less
  obtain r k where once: "wait_once runID bound started w = (r, k)" by fastforce
  note c = wait_once_cases [OF once less.prems(1)]
  show ?case
  proof (cases "r = Inr None")
    case False
    have "wait_loop others runID bound started n w = Some (case r of Inl e \<Rightarrow> Inl e | Inr a \<Rightarrow> Inr (the a), k)"
      using False by (subst wait_loop.simps) (auto simp: once split: sum.split option.split)
    with False c(3) show ?thesis by (cases r) (auto simp: truthful_def)
  next
    case True
    let ?w = "others n k"
    have env: "clock ?w = clock w" "reads k \<le> reads ?w" using others [of k n] c(1) by (auto simp: same_env_def)
    have "reads w < K"
    proof (rule ccontr)
      assume "\<not> reads w < K"
      then have "clock w K \<le> clock w (reads w)" by (intro monoD [OF less.prems(1)]) simp
      with c(2) [OF True] less.prems(2) show False by simp
    qed
    then have "K - reads ?w < K - reads w" using c(2) [OF True] env(2) by simp
    then obtain r' k' where "wait_loop others runID bound started (Suc n) ?w = Some (r', k')" "truthful runID bound k' r'"
      using less.hyps [of ?w "Suc n"] less.prems env(1) by auto
    then show ?thesis by (subst wait_loop.simps) (simp add: once True)
  qed
qed

text \<open>
  C12: A wait answers, and truthfully: when time passes and the other writers leave the clock alone, a
  wait on a run returns, whatever they do to the store and whichever statement fails; and the answer is
  what the store held at its last read: an unknown run is one the store has no record of, the status is
  the run's, it is called terminal exactly when the store's vocabulary says so, and a wait that timed out
  is one whose run is still going and that took at least the caller's bound.
\<close>

theorem run_wait_answers:
  assumes id: "TrimSpace runID \<noteq> []"
    and mono: "mono (clock w)" and passes: "\<And>b. \<exists>i. b \<le> clock w i"
    and others: "\<And>n w. same_env w (others n w)"
  shows "\<exists>r k. runWait others runID bound w = Some (r, k) \<and> truthful (TrimSpace runID) bound k r"
proof -
  let ?sub = "nextSubID w + 1"
  let ?w1 = "w\<lparr>nextSubID := ?sub, subs := subs w @ [(?sub, None)]\<rparr>"
  let ?w2 = "?w1\<lparr>reads := Suc (reads ?w1)\<rparr>" and ?started = "clock w (reads w)"
  obtain K where "?started + bound \<le> clock w K" using passes by blast
  then obtain r k where loop: "wait_loop others (TrimSpace runID) bound ?started 0 ?w2 = Some (r, k)"
      and "truthful (TrimSpace runID) bound k r"
    using wait_loop_answers [of ?w2 ?started bound K others "TrimSpace runID" 0] mono others by auto
  moreover have "truthful i b (snd (unsubscribe s k)) r = truthful i b k r" for i b s
    by (simp add: truthful_def stored_run_def unsubscribe_def cong: sum.case_cong found.case_cong option.case_cong)
  ultimately show ?thesis
    using id by (auto simp: runWait_def Let_def SubscribeChanges_def time_now_def)
qed


text \<open>A run that is in progress, another writer that concludes it after the first read.\<close>

definition going_run :: RunRow where
  "going_run = \<lparr>run_ID = ''r1'', run_Project = ''p'', run_TaskID = ''r1'', run_Brief = [], run_ChangeID = [],
     run_Type = ''feat'', run_IntentID = [], run_Slug = ''r-one'', run_RequestID = [], run_Status = ''running'',
     run_BaseBranch = [], run_CreatedAt = 0, run_UpdatedAt = 0, col_request_id = None\<rparr>"

definition concludes_run :: "nat \<Rightarrow> world \<Rightarrow> world" where
  "concludes_run n w = w\<lparr>db := update_run ''r1'' (\<lambda>r. r\<lparr>run_Status := ''passed''\<rparr>) (db w)\<rparr>"

theorem run_wait_answers_witness:
  "\<exists>r k. runWait concludes_run '' r1 '' 60000000000 (initial_world (empty_tables\<lparr>runs := [going_run]\<rparr>)) = Some (r, k) \<and>
     truthful ''r1'' 60000000000 k r"
proof -
  let ?w = "initial_world (empty_tables\<lparr>runs := [going_run]\<rparr>)"
  have t: "TrimSpace '' r1 '' = ''r1''" by code_simp
  have m: "mono (clock ?w)" by (simp add: initial_world_def mono_def)
  have p: "\<exists>i. b \<le> clock ?w i" for b
    by (intro exI [of _ "nat b"]) (simp add: initial_world_def)
  have o': "same_env w (concludes_run n w)" for n w by (simp add: concludes_run_def same_env_def)
  from run_wait_answers [of "'' r1 ''" ?w concludes_run 60000000000] t m p o' show ?thesis by simp
qed

end
