(* ===== verification/Mcp.thy ===== *)
theory Mcp
  imports Follow PullRequests
begin

text \<open>
  \<open>internal/mcp/server.go\<close> with \<open>internal/sgtclient\<close>, \<open>internal/graphify/query.go\<close> and
  \<open>DeliverPullRequest\<close> of the runner: the tools an agent calls over JSON-RPC, one request per line.

  The HTTP client is a parameter that acts on the host, because the server it talks to works on the same
  store.  A result that is encoded is kept as the document; a text is kept as it is.
\<close>

section \<open>What a server is given\<close>

record mcp_site =
  ms_cwd :: path
  ms_yaml :: yaml_parser
  ms_parse :: text_json
  ms_http :: "string \<Rightarrow> string \<Rightarrow> json option \<Rightarrow> (err + int \<times> string) io"
  ms_graph :: "Project \<Rightarrow> string option"
  ms_time :: "time \<Rightarrow> string"
  ms_others :: "nat \<Rightarrow> world \<Rightarrow> world"
  ms_beyond :: int

definition DefaultAddr :: string where
  "DefaultAddr = ''http://127.0.0.1:8484''"

definition resolveUIAddr :: "host \<Rightarrow> string" where
  "resolveUIAddr h = (if getenv h ''SGT_UI_ADDR'' \<noteq> [] then getenv h ''SGT_UI_ADDR'' else DefaultAddr)"

section \<open>Arguments\<close>

definition argString :: "(string \<times> json) list \<Rightarrow> string \<Rightarrow> string" where
  "argString args key = (case member key args of Some (JStr s) \<Rightarrow> s | _ \<Rightarrow> [])"

definition stringSlice :: "(string \<times> json) list \<Rightarrow> string \<Rightarrow> string list" where
  "stringSlice args key = (case member key args of
     Some (JArr vs) \<Rightarrow> concat (map (\<lambda>v. case v of JStr s \<Rightarrow> [s] | _ \<Rightarrow> []) vs) | _ \<Rightarrow> [])"

section \<open>The HTTP client\<close>

definition TrimRightSlash :: "string \<Rightarrow> string" where
  "TrimRightSlash s = rev (dropWhile (\<lambda>c. c = CHR ''/'') (rev s))"

definition doJSON :: "mcp_site \<Rightarrow> string \<Rightarrow> string \<Rightarrow> string \<Rightarrow> json option \<Rightarrow> ('a \<Rightarrow> json \<Rightarrow> 'a \<times> bool) \<Rightarrow> 'a \<Rightarrow> (err + 'a) io" where
  "doJSON ms method addr path body dec zero = do {
     r \<leftarrow> ms_http ms method (TrimRightSlash addr @ path) body;
     State_Monad.return (case r of
       Inl e \<Rightarrow> Inl (Errorf ''sgt ui is not reachable at %s: %w; start it with `sgt ui`'' [addr] (Some e))
     | Inr (status, text) \<Rightarrow>
         if status < 200 \<or> status \<ge> 300 then Inl (Other (TrimSpace text))
         else (case Unmarshal dec (ms_parse ms text) zero of
           (_, Some e) \<Rightarrow> Inl (Errorf ''decoding response: %w'' [] (Some e)) | (out, None) \<Rightarrow> Inr out)) }"

definition opt_string :: "string \<Rightarrow> string \<Rightarrow> (string \<times> json) list" where
  "opt_string k s = (if s = [] then [] else [(k, JStr s)])"

definition dispatch_request :: "(string \<times> json) list \<Rightarrow> json" where
  "dispatch_request args = (let repos = stringSlice args ''repos'' in JObj (
     [(''project'', JStr (argString args ''project'')), (''brief'', JStr (argString args ''brief''))] @
     (if repos = [] then [] else [(''repos'', JArr (map JStr repos))]) @
     opt_string ''agent'' (argString args ''agent'') @ [(''type'', JStr (argString args ''type''))] @
     opt_string ''change_id'' (argString args ''change_id'') @ opt_string ''request_id'' (argString args ''request_id'')))"

record DispatchResponse =
  dr_Status :: string
  dr_TaskID :: string
  dr_Project :: string
  dr_ChangeID :: string
  dr_ChangeDir :: string
  dr_ChangeRepo :: string
  dr_ChangeCreated :: bool
  dr_IntentID :: string
  dr_Repos :: "string list"
  dr_Bullets :: "json option"

definition zero_dispatch :: DispatchResponse where
  "zero_dispatch = \<lparr>dr_Status = [], dr_TaskID = [], dr_Project = [], dr_ChangeID = [], dr_ChangeDir = [], dr_ChangeRepo = [],
     dr_ChangeCreated = False, dr_IntentID = [], dr_Repos = [], dr_Bullets = None\<rparr>"

definition set_dispatch :: "string \<Rightarrow> json \<Rightarrow> DispatchResponse \<Rightarrow> DispatchResponse \<times> bool" where
  "set_dispatch k v x =
     (if k = ''status'' then set_string (\<lambda>s x. x\<lparr>dr_Status := s\<rparr>) v x
      else if k = ''task_id'' then set_string (\<lambda>s x. x\<lparr>dr_TaskID := s\<rparr>) v x
      else if k = ''project'' then set_string (\<lambda>s x. x\<lparr>dr_Project := s\<rparr>) v x
      else if k = ''change_id'' then set_string (\<lambda>s x. x\<lparr>dr_ChangeID := s\<rparr>) v x
      else if k = ''change_dir'' then set_string (\<lambda>s x. x\<lparr>dr_ChangeDir := s\<rparr>) v x
      else if k = ''change_repo'' then set_string (\<lambda>s x. x\<lparr>dr_ChangeRepo := s\<rparr>) v x
      else if k = ''change_created'' then (case v of
          JNull \<Rightarrow> (x, True) | JBool b \<Rightarrow> (x\<lparr>dr_ChangeCreated := b\<rparr>, True) | _ \<Rightarrow> (x, False))
      else if k = ''intent_id'' then set_string (\<lambda>s x. x\<lparr>dr_IntentID := s\<rparr>) v x
      else if k = ''repos'' then set_list (\<lambda>x v. set_string (\<lambda>s _. s) v x) [] (\<lambda>xs x. x\<lparr>dr_Repos := xs\<rparr>) v x
      else if k = ''bullets'' then (x\<lparr>dr_Bullets := Some v\<rparr>, True)
      else (x, True))"

definition dispatch_answer :: "DispatchResponse \<Rightarrow> json" where
  "dispatch_answer r = JObj ([(''status'', JStr (dr_Status r))] @ opt_string ''task_id'' (dr_TaskID r) @
     opt_string ''project'' (dr_Project r) @ opt_string ''change_id'' (dr_ChangeID r) @
     opt_string ''change_dir'' (dr_ChangeDir r) @ opt_string ''change_repo'' (dr_ChangeRepo r) @
     (if dr_ChangeCreated r then [(''change_created'', JBool True)] else []) @ opt_string ''intent_id'' (dr_IntentID r) @
     (if dr_Repos r = [] then [] else [(''repos'', JArr (map JStr (dr_Repos r)))]) @
     (case dr_Bullets r of None \<Rightarrow> [] | Some b \<Rightarrow> [(''bullets'', b)]))"

definition Dispatch :: "mcp_site \<Rightarrow> string \<Rightarrow> json \<Rightarrow> (err + DispatchResponse) io" where
  "Dispatch ms addr req = doJSON ms ''POST'' addr ''/api/dispatch'' (Some req) (set_struct set_dispatch) zero_dispatch"

definition create_pr_request :: "(string \<times> json) list \<Rightarrow> json" where
  "create_pr_request args = JObj ([(''run_id'', JStr (argString args ''run_id'')), (''project'', JStr (argString args ''project'')),
     (''repo'', JStr (argString args ''repo''))] @ opt_string ''title'' (argString args ''title'') @
     opt_string ''body'' (argString args ''body''))"

record CreatePRResponse =
  cp_Status :: string
  cp_RunID :: string
  cp_PRURL :: string
  cp_Branch :: string
  cp_Error :: string

definition set_create_pr :: "string \<Rightarrow> json \<Rightarrow> CreatePRResponse \<Rightarrow> CreatePRResponse \<times> bool" where
  "set_create_pr k v x =
     (if k = ''status'' then set_string (\<lambda>s x. x\<lparr>cp_Status := s\<rparr>) v x
      else if k = ''run_id'' then set_string (\<lambda>s x. x\<lparr>cp_RunID := s\<rparr>) v x
      else if k = ''pr_url'' then set_string (\<lambda>s x. x\<lparr>cp_PRURL := s\<rparr>) v x
      else if k = ''branch'' then set_string (\<lambda>s x. x\<lparr>cp_Branch := s\<rparr>) v x
      else if k = ''error'' then set_string (\<lambda>s x. x\<lparr>cp_Error := s\<rparr>) v x
      else (x, True))"

definition create_pr_answer :: "CreatePRResponse \<Rightarrow> json" where
  "create_pr_answer r = JObj [(''status'', JStr (cp_Status r)), (''run_id'', JStr (cp_RunID r)), (''pr_url'', JStr (cp_PRURL r)),
     (''branch'', JStr (cp_Branch r)), (''error'', JStr (cp_Error r))]"

definition CreatePR :: "mcp_site \<Rightarrow> string \<Rightarrow> json \<Rightarrow> (err + CreatePRResponse) io" where
  "CreatePR ms addr req = doJSON ms ''POST'' addr ''/api/create-pr'' (Some req) (set_struct set_create_pr)
     \<lparr>cp_Status = [], cp_RunID = [], cp_PRURL = [], cp_Branch = [], cp_Error = []\<rparr>"

section \<open>Graphs\<close>

definition requireGraph :: "string \<Rightarrow> (err + path) io" where
  "requireGraph output = (let p = Join (Join [] output) ''graph.json'' in do {
     st \<leftarrow> Stat p;
     h \<leftarrow> get_host;
     State_Monad.return (case st of
       Inl _ \<Rightarrow> Inl (Errorf ''%w: %s'' [path_text p] (Some (Other ''no graph built for this project'')))
     | Inr Dir \<Rightarrow> Inr p
     | Inr (File c) \<Rightarrow> if size_of h c = 0
         then Inl (Errorf ''%w: %s'' [path_text p] (Some (Other ''no graph built for this project''))) else Inr p) })"

definition graphify :: "string list \<Rightarrow> request" where
  "graphify args = \<lparr>req_exe = ''graphify'', req_args = args, req_env = [], req_dir = [], req_budget = None\<rparr>"

text \<open>\<open>Query\<close>, \<open>Explain\<close> and \<open>Affected\<close>, by the operation's name.\<close>

definition graph_operation :: "string \<Rightarrow> string \<Rightarrow> string \<Rightarrow> (err + string) io" where
  "graph_operation op output subject = or_fail (requireGraph output) (\<lambda>p. do {
     out \<leftarrow> run_command False (graphify [op, subject, ''--graph'', path_text p]);
     State_Monad.return (case exit_error out of
       Some e \<Rightarrow> Inl (Errorf (''graphify %s failed: %w'' @ nl @ ''%s'') [op, e, out_text out] None)
     | None \<Rightarrow> Inr (out_text out)) })"

definition projectGraphify :: "mcp_site \<Rightarrow> string \<Rightarrow> (err + string) io" where
  "projectGraphify ms projName = or_fail (LoadProject (ms_yaml ms) (ms_cwd ms) projName) (\<lambda>proj.
     State_Monad.return (case ms_graph ms proj of
       None \<Rightarrow> Inl (Errorf ''project %q has no graphify configuration'' [projName] None) | Some output \<Rightarrow> Inr output))"

section \<open>Sealing a checkout\<close>

definition pull_request_title :: "PhaseRunner \<Rightarrow> string \<Rightarrow> string" where
  "pull_request_title pr title = (if title \<noteq> [] then title
     else ''feat('' @ pr_RepoName pr @ ''): verified automated patch ['' @ pr_RunID pr @ '']'')"

definition pull_request_body :: "PhaseRunner \<Rightarrow> string \<Rightarrow> string" where
  "pull_request_body pr body = (if body \<noteq> [] then body
     else ''### Automated Pull Request from Sgt Factory Spine'' @ nl @ nl @ ''- **Task ID**: `'' @ pr_RunID pr @ ''`'' @ nl @
       ''- **Target Repo**: `'' @ pr_RepoName pr @ ''`'' @ nl @
       ''- **Code Gate Verification**: 100% Deterministic Zero-Token Gates Passed'' @ nl @
       ''- **Envelope Hash**: Sealed in `.sgt/review.json`'' @ nl)"

definition DeliverPullRequest :: "mcp_site \<Rightarrow> PhaseRunner \<Rightarrow> string \<Rightarrow> string \<Rightarrow> string \<Rightarrow> (err + string) io" where
  "DeliverPullRequest ms pr branch title body =
     or_fail (if branch \<noteq> [] then State_Monad.return (Inr branch)
       else or_wrap ''resolving branch name for run %s: %w'' [pr_RunID pr] (store_io (GetRun (pr_RunID pr)))
         (\<lambda>run. State_Monad.return (Inr (BranchName (run_Type run) (run_ChangeID run)))))
     (\<lambda>branch. let title = pull_request_title pr title; body = pull_request_body pr body; wt = path_text (pr_Worktree pr) in do {
       _ \<leftarrow> run_command True (git [''-C'', wt, ''add'', ''.'']);
       _ \<leftarrow> run_command True (git [''-C'', wt, ''commit'', ''-m'', title]);
       out \<leftarrow> run_command True (gh (pr_Worktree pr) [''pr'', ''create'', ''--title'', title, ''--body'', body, ''--head'', branch]);
       if exit_error out = None then State_Monad.return (Inr (Text (TrimSpace (out_text out))))
       else do {
         now \<leftarrow> now_io;
         _ \<leftarrow> WriteFile (Join (Join (pr_Worktree pr) ''.sgt'') ''review.json'') (RawDoc (JObj [
           (''branch'', JStr branch), (''created_at'', JStr (ms_time ms now)),
           (''delivery_url'', JStr (''local://worktree/'' @ branch)), (''repo'', JStr (pr_RepoName pr)),
           (''status'', JStr ''SEALED_LOCAL_PR''), (''task_id'', JStr (pr_RunID pr)), (''title'', JStr title)]));
         State_Monad.return (Inr (''Local PR branch ready at '' @ branch)) } })"

section \<open>The tools\<close>

datatype tool_result = Doc json | Txt string | Status "runStatusResult found" | Waited "runWaitResult found"

definition time_json :: "mcp_site \<Rightarrow> time \<Rightarrow> json" where
  "time_json ms t = JStr (ms_time ms t)"

definition run_json :: "mcp_site \<Rightarrow> RunRecord \<Rightarrow> json" where
  "run_json ms r = JObj ([(''id'', JStr (run_ID r)), (''project'', JStr (run_Project r)), (''task_id'', JStr (run_TaskID r)),
     (''brief'', JStr (run_Brief r)), (''change_id'', JStr (run_ChangeID r)), (''type'', JStr (run_Type r)),
     (''intent_id'', JStr (run_IntentID r)), (''slug'', JStr (run_Slug r))] @ opt_string ''request_id'' (run_RequestID r) @
     [(''status'', JStr (run_Status r))] @ opt_string ''base_branch'' (run_BaseBranch r) @
     [(''created_at'', time_json ms (run_CreatedAt r)), (''updated_at'', time_json ms (run_UpdatedAt r))])"

text \<open>A name between the single quotes of a format.\<close>

definition quoted :: "string \<Rightarrow> string" where
  "quoted s = CHR 0x27 # s @ [CHR 0x27]"

definition tool_status :: "mcp_site \<Rightarrow> (err + tool_result) io" where
  "tool_status ms = or_fail (store_io (ListRecentRuns 10)) (\<lambda>rs.
     State_Monad.return (Inr (Doc (JArr (map (run_json ms) rs)))))"

definition tool_get_brief :: "mcp_site \<Rightarrow> (string \<times> json) list \<Rightarrow> (err + tool_result) io" where
  "tool_get_brief ms args =
     (let intentID = argString args ''intent_id''; repo = argString args ''repo'' in
      or_fail (store_io (GetIntent intentID)) (\<lambda>intent.
      or_fail (LoadProject (ms_yaml ms) (ms_cwd ms) (in_Project intent)) (\<lambda>proj.
      case map_of (pj_Repos proj) repo of
        None \<Rightarrow> State_Monad.return (Inl (Errorf ''repo %q not configured in project %q'' [repo, pj_Name proj] None))
      | Some repoCfg \<Rightarrow> or_fail (store_io (RenderIntentBrief intentID repo (SortedGateNames repoCfg)))
          (\<lambda>text. State_Monad.return (Inr (Txt text))))))"

definition checkout_of :: "host \<Rightarrow> Repo \<Rightarrow> path" where
  "checkout_of h repoCfg = Join [] (expandPath h (repo_Path repoCfg))"

definition checkout_runner :: "host \<Rightarrow> Repo \<Rightarrow> string \<Rightarrow> string \<Rightarrow> PhaseRunner" where
  "checkout_runner h repoCfg repoName runID = \<lparr>pr_Router = [], pr_Worktree = checkout_of h repoCfg, pr_RepoName = repoName,
     pr_RunID = runID, pr_AgentCLI = [], pr_Model = [], pr_FixCycle = 0, pr_AgentTimeout = 0, pr_GateTimeout = 0\<rparr>"

text \<open>
  The gates in the order the map yields them.  \<open>RunCodeGate\<close> always has a result; the dereference of one
  that is missing is the error below.
\<close>

fun gate_results :: "PhaseRunner \<Rightarrow> (string \<times> string) list \<Rightarrow> (err + json list) io" where
  "gate_results pr [] = State_Monad.return (Inr [])"
| "gate_results pr ((gName, gCmd) # gs) =
     or_wrap ''invalid memory address or nil pointer dereference'' [] (RunCodeGate pr gName gCmd) (\<lambda>res.
     or_fail (gate_results pr gs) (\<lambda>rest. State_Monad.return (Inr (
       JObj [(''error'', JNull), (''gate'', JStr gName), (''output'', JStr (gr_Output res)), (''passed'', JBool (gr_Passed res))]
       # rest))))"

definition tool_run_gates :: "mcp_site \<Rightarrow> (string \<times> json) list \<Rightarrow> (err + tool_result) io" where
  "tool_run_gates ms args =
     (let projName = argString args ''project''; repoName = argString args ''repo'' in
      or_fail (LoadProject (ms_yaml ms) (ms_cwd ms) projName) (\<lambda>proj.
      case map_of (pj_Repos proj) repoName of
        None \<Rightarrow> State_Monad.return (Inl (Errorf ''repo %s not configured in project %s'' [quoted repoName, quoted projName] None))
      | Some repoCfg \<Rightarrow> do {
          h \<leftarrow> get_host;
          if gates_of repoCfg = [] then State_Monad.return (Inr (Doc (JArr [JObj [(''gate'', JStr ''default-test''),
            (''output'', JStr ''No explicit gates configured; self-test passed.''), (''passed'', JBool True)]])))
          else or_fail (gate_results (checkout_runner h repoCfg repoName ''goose-interactive'') (gates_of repoCfg))
            (\<lambda>rs. State_Monad.return (Inr (Doc (JArr rs)))) }))"

definition mcp_envelope :: "(string \<times> json) list \<Rightarrow> time \<Rightarrow> string option \<Rightarrow> EnvelopeRecord" where
  "mcp_envelope args now causation =
     (let repo = argString args ''repo''; stage = argString args ''stage''; runID = argString args ''run_id'' in
      \<lparr>env_ID = repo @ ''-'' @ stage @ ''-'' @ show_int now, env_RunID = runID, env_Repo = repo, env_Stage = stage,
       env_Summary = Text (argString args ''summary''), env_Artifacts = stringSlice args ''artifacts'',
       env_Data = redact_JSON (RawDoc (case member ''payload'' args of None \<Rightarrow> JNull | Some v \<Rightarrow> v)),
       env_CreatedAt = 0, env_Type = ''phase.completed'', env_SchemaVersion = ''1'', env_OccurredAt = now, env_PublishedAt = 0,
       env_Producer = ''sgt/mcp'', env_CorrelationID = runID, env_CausationID = causation, env_PhaseID = []\<rparr>)"

definition tool_emit_envelope :: "(string \<times> json) list \<Rightarrow> (err + tool_result) io" where
  "tool_emit_envelope args = do {
     now \<leftarrow> now_io;
     c \<leftarrow> store_io (CausationFromLatest (argString args ''run_id'') (argString args ''repo''));
     let envRec = mcp_envelope args now (case c of Inr c \<Rightarrow> c | Inl _ \<Rightarrow> None);
     or_fail (store_io (RecordEnvelope envRec)) (\<lambda>_. State_Monad.return (Inr (Txt
       (''Envelope '' @ quoted (env_ID envRec) @ '' for stage '' @ quoted (argString args ''stage'') @ '' recorded successfully!'')))) }"

definition tool_seal_pr :: "mcp_site \<Rightarrow> (string \<times> json) list \<Rightarrow> (err + tool_result) io" where
  "tool_seal_pr ms args =
     (let runID = argString args ''run_id''; projName = argString args ''project''; repo = argString args ''repo'' in
      or_fail (LoadProject (ms_yaml ms) (ms_cwd ms) projName) (\<lambda>proj.
      case map_of (pj_Repos proj) repo of
        None \<Rightarrow> State_Monad.return (Inl (Errorf ''repo %s not found in project %s'' [quoted repo, quoted projName] None))
      | Some repoCfg \<Rightarrow> do {
          h \<leftarrow> get_host;
          or_wrap ''loading run %q to name its branch: %w'' [runID] (store_io (GetRun runID)) (\<lambda>run.
          or_fail (DeliverPullRequest ms (checkout_runner h repoCfg repo runID) (BranchName (run_Type run) (run_ChangeID run))
            (argString args ''title'') (argString args ''body'')) (\<lambda>msg. State_Monad.return (Inr (Txt msg)))) }))"

definition tool_graph :: "mcp_site \<Rightarrow> string \<Rightarrow> string \<Rightarrow> (string \<times> json) list \<Rightarrow> (err + tool_result) io" where
  "tool_graph ms op subject args =
     or_fail (projectGraphify ms (argString args ''project'')) (\<lambda>output.
     or_fail (graph_operation op output (argString args subject)) (\<lambda>text. State_Monad.return (Inr (Txt text))))"

definition tool_dispatch :: "mcp_site \<Rightarrow> (string \<times> json) list \<Rightarrow> (err + tool_result) io" where
  "tool_dispatch ms args = do {
     h \<leftarrow> get_host;
     or_fail (Dispatch ms (resolveUIAddr h) (dispatch_request args)) (\<lambda>r. State_Monad.return (Inr (Doc (dispatch_answer r)))) }"

definition tool_create_pr :: "mcp_site \<Rightarrow> (string \<times> json) list \<Rightarrow> (err + tool_result) io" where
  "tool_create_pr ms args = do {
     h \<leftarrow> get_host;
     or_fail (CreatePR ms (resolveUIAddr h) (create_pr_request args)) (\<lambda>r. State_Monad.return (Inr (Doc (create_pr_answer r)))) }"

text \<open>Every tool but the wait, which may not end.\<close>

definition prompt_tool :: "mcp_site \<Rightarrow> string \<Rightarrow> (string \<times> json) list \<Rightarrow> (err + tool_result) io" where
  "prompt_tool ms name args =
     (if name = ''sgt_status'' then tool_status ms
      else if name = ''sgt_get_brief'' then tool_get_brief ms args
      else if name = ''sgt_run_gates'' then tool_run_gates ms args
      else if name = ''sgt_emit_envelope'' then tool_emit_envelope args
      else if name = ''sgt_seal_pr'' then tool_seal_pr ms args
      else if name = ''sgt_dispatch'' then tool_dispatch ms args
      else if name = ''sgt_create_pr'' then tool_create_pr ms args
      else if name = ''sgt_run_status'' then
        or_fail (store_io (runStatus (argString args ''run_id''))) (\<lambda>r. State_Monad.return (Inr (Status r)))
      else if name = ''sgt_graph_query'' then tool_graph ms ''query'' ''question'' args
      else if name = ''sgt_graph_explain'' then tool_graph ms ''explain'' ''node'' args
      else if name = ''sgt_graph_affected'' then tool_graph ms ''affected'' ''node'' args
      else State_Monad.return (Inl (Errorf ''unknown tool %s'' [quoted name] None)))"

definition wait_tool :: "mcp_site \<Rightarrow> (string \<times> json) list \<Rightarrow> host \<Rightarrow> ((err + tool_result) \<times> host) option" where
  "wait_tool ms args h = map_option (\<lambda>(r, w). (case r of Inl e \<Rightarrow> Inl e | Inr a \<Rightarrow> Inr (Waited a), h\<lparr>base := w\<rparr>))
     (runWait (ms_others ms) (argString args ''run_id'') (runWaitBound (ms_beyond ms) (member ''timeout_seconds'' args)) (base h))"

definition ExecuteTool :: "mcp_site \<Rightarrow> string \<Rightarrow> (string \<times> json) list \<Rightarrow> host \<Rightarrow> ((err + tool_result) \<times> host) option" where
  "ExecuteTool ms name args h =
     (if name = ''sgt_run_wait'' then wait_tool ms args h else Some (run_state (prompt_tool ms name args) h))"

section \<open>JSON-RPC\<close>

record JSONRPCRequest =
  jq_JSONRPC :: string
  jq_ID :: "json option"
  jq_Method :: string
  jq_Params :: raw_json

text \<open>An answer repeats the identifier of its request; \<open>None\<close> is one that is left out.\<close>

datatype rpc_body = Initialized | ToolList | Called bool "err + tool_result" | RPCError int err

record JSONRPCResponse =
  jr_ID :: "json option"
  jr_Body :: rpc_body

definition set_request :: "string \<Rightarrow> json \<Rightarrow> JSONRPCRequest \<Rightarrow> JSONRPCRequest \<times> bool" where
  "set_request k v x =
     (if k = ''jsonrpc'' then set_string (\<lambda>s x. x\<lparr>jq_JSONRPC := s\<rparr>) v x
      else if k = ''id'' then (x\<lparr>jq_ID := (if v = JNull then None else Some v)\<rparr>, True)
      else if k = ''method'' then set_string (\<lambda>s x. x\<lparr>jq_Method := s\<rparr>) v x
      else if k = ''params'' then (x\<lparr>jq_Params := RawDoc v\<rparr>, True)
      else (x, True))"

definition zero_request :: JSONRPCRequest where
  "zero_request = \<lparr>jq_JSONRPC = [], jq_ID = None, jq_Method = [], jq_Params = RawEmpty\<rparr>"

record callParams =
  ca_Name :: string
  ca_Arguments :: "(string \<times> json) list"

definition set_call :: "string \<Rightarrow> json \<Rightarrow> callParams \<Rightarrow> callParams \<times> bool" where
  "set_call k v x =
     (if k = ''name'' then set_string (\<lambda>s x. x\<lparr>ca_Name := s\<rparr>) v x
      else if k = ''arguments'' then (case v of
          JNull \<Rightarrow> (x\<lparr>ca_Arguments := []\<rparr>, True)
        | JObj ms \<Rightarrow> (x\<lparr>ca_Arguments := ca_Arguments x @ ms\<rparr>, True)
        | _ \<Rightarrow> (x, False))
      else (x, True))"

definition toolNames :: "string list" where
  "toolNames = [''sgt_status'', ''sgt_get_brief'', ''sgt_run_gates'', ''sgt_emit_envelope'', ''sgt_seal_pr'', ''sgt_dispatch'',
     ''sgt_create_pr'', ''sgt_run_status'', ''sgt_run_wait'', ''sgt_graph_query'', ''sgt_graph_explain'', ''sgt_graph_affected'']"

definition handleRequest :: "mcp_site \<Rightarrow> JSONRPCRequest \<Rightarrow> host \<Rightarrow> (JSONRPCResponse option \<times> host) option" where
  "handleRequest ms req h =
     (let answer = (\<lambda>b. Some \<lparr>jr_ID = jq_ID req, jr_Body = b\<rparr>) in
      if jq_Method req = ''initialize'' then Some (answer Initialized, h)
      else if jq_Method req = ''notifications/initialized'' then Some (None, h)
      else if jq_Method req = ''tools/list'' then Some (answer ToolList, h)
      else if jq_Method req = ''tools/call'' then
        (case Unmarshal (set_struct set_call) (jq_Params req) \<lparr>ca_Name = [], ca_Arguments = []\<rparr> of
           (_, Some e) \<Rightarrow> Some (answer (RPCError (-32602) (Other ''Invalid params'')), h)
         | (c, None) \<Rightarrow> map_option (\<lambda>(r, k). (answer (Called (case r of Inl _ \<Rightarrow> True | Inr _ \<Rightarrow> False) r), k))
             (ExecuteTool ms (ca_Name c) (ca_Arguments c) h))
      else Some (answer (RPCError (-32601) (Errorf ''Method %s not found'' [quoted (jq_Method req)] None)), h))"

text \<open>
  The lines of standard input, each ended by a line break; what follows the last one is dropped with the
  end of the file.
\<close>

definition handle_line :: "mcp_site \<Rightarrow> string \<Rightarrow> host \<Rightarrow> (JSONRPCResponse option \<times> host) option" where
  "handle_line ms line h =
     (let line = TrimSpace line in
      if line = [] then Some (None, h)
      else case Unmarshal (set_struct set_request) (ms_parse ms line) zero_request of
        (_, Some e) \<Rightarrow> Some (Some \<lparr>jr_ID = None, jr_Body = RPCError (-32700) (Other ''Parse error'')\<rparr>, h)
      | (req, None) \<Rightarrow> handleRequest ms req h)"

fun ServeStdio :: "mcp_site \<Rightarrow> string list \<Rightarrow> host \<Rightarrow> (JSONRPCResponse list \<times> host) option" where
  "ServeStdio ms [] h = Some ([], h)"
| "ServeStdio ms (line # lines) h = (case handle_line ms line h of
     None \<Rightarrow> None
   | Some (r, k) \<Rightarrow> map_option (\<lambda>(rs, l). ((case r of None \<Rightarrow> rs | Some a \<Rightarrow> a # rs), l)) (ServeStdio ms lines k))"

section \<open>What an agent can change\<close>

text \<open>The runs, the intents and the bullets are the same, row by row, but for when a run was last touched.\<close>

definition same_work :: "tables \<Rightarrow> tables \<Rightarrow> bool" where
  "same_work d d' \<longleftrightarrow> map (run_UpdatedAt_update (\<lambda>_. 0)) (runs d') = map (run_UpdatedAt_update (\<lambda>_. 0)) (runs d) \<and>
     intents d' = intents d \<and> bullets d' = bullets d"

interpretation work: table_relation same_work
  by unfold_locales (auto simp: same_work_def)

lemma work_inserted:
  "insert_envelope v d = Inr (x, d') \<Longrightarrow> same_work d d'"
  "insert_artifact a d = Inr (x, d') \<Longrightarrow> same_work d d'"
  "insert_delivery r d = Inr (x, d') \<Longrightarrow> same_work d d'"
  unfolding insert_envelope_def insert_artifact_def insert_delivery_def
  by (auto simp: same_work_def split: if_split_asm)

lemma work_kept:
  "same_work d (insert_change c e p now d)" "same_work d (replace_phase ph d)"
  by (simp_all add: same_work_def insert_change_def replace_phase_def)

lemma work_touched: "same_work d (update_run i (\<lambda>r. r\<lparr>run_UpdatedAt := t\<rparr>) d)"
  by (auto simp: same_work_def update_run_def update_where_def)

lemma work_basic [within_intros]:
  "within (on_db same_work) (AppendChange c e p)" "within (on_db same_work) (RecordArtifact a)"
  "within (on_db same_work) (insertDeliveryRow i c s n f t r)"
  unfolding AppendChange_def RecordArtifact_def insertDeliveryRow_def
  by (intro within_intros work.w_exec; auto intro: work_inserted work_kept simp: within_def on_db_def notifyChange_def)+

lemma work_transition [within_intros]: "within (on_db same_work) (recordTransition c e p)"
  unfolding recordTransition_def by (intro within_intros)

lemma work_retry [within_intros]: "within (on_db same_work) (retry_from e c s f left n le)"
  by (induction left arbitrary: n le) (auto simp: Let_def intro!: within_intros)

lemma work_rows [within_intros]:
  "within (on_db same_work) (RecordEnvelope v)" "within (on_db same_work) (RecordPhase ph)"
  unfolding RecordEnvelope_def RecordPhase_def Let_def
  by (intro within_intros work.w_exec work.w_modify; auto intro: work_inserted work_kept work_touched)+

interpretation work_recorder: phase_recorder same_work "\<lambda>_. True"
  by unfold_locales (auto intro!: within_intros
      simp: CausationFromLatest_def GetLatestEnvelope_def DeliverEnvelope_def isAlreadyTerminalSuccess_def deliverRetryLoop_def)

abbreviation keeps_work :: "'a io \<Rightarrow> bool" where
  "keeps_work m \<equiv> state_io_rel (on_base (on_db same_work)) m"

lemma work_store [keeps_intros]: "within (on_db same_work) m \<Longrightarrow> keeps_work (store_io m)"
  by (rule work.base_store)

lemma work_files [keeps_intros]: "keeps_work (Stat p)" "keeps_work (ReadFile p)" "keeps_work (WriteFile p c)"
  "keeps_work now_io" "keeps_work (run_command b q)"
  unfolding file_op_defs by (intro work.base_file_op work.base_now work.w_now work.base_command)+

lemma work_reads [within_intros]:
  "within (on_db same_work) (GetRun i)" "within (on_db same_work) (GetIntent i)" "within (on_db same_work) (ListRecentRuns n)"
  "within (on_db same_work) (RenderIntentBrief i r g)" "within (on_db same_work) (CausationFromLatest i r)"
  "within (on_db same_work) (runStatus i)" "within (on_db same_work) (wait_once i b t)"
  unfolding GetRun_def GetIntent_def ListRecentRuns_def RenderIntentBrief_def CausationFromLatest_def GetLatestEnvelope_def
    ListBulletsForIntent_def runStatus_def wait_once_def CurrentSequence_def ListPhasesForRun_def
  by (intro within_intros)+

lemma work_load [keeps_intros]: "keeps_work (LoadProject y cwd n)"
  unfolding LoadProject_def load_from_def fileExists_def by (intro keeps_intros)

lemma work_gates [keeps_intros]: "keeps_work (gate_results pr gs)"
  by (induction pr gs rule: gate_results.induct) (auto intro!: keeps_intros work_recorder.rec.keeps_gate)

lemma work_deliver [keeps_intros]: "keeps_work (DeliverPullRequest ms pr b t d)"
  unfolding DeliverPullRequest_def Let_def by (intro keeps_intros within_intros)

lemma work_tools:
  assumes "name \<noteq> ''sgt_dispatch''" and "name \<noteq> ''sgt_create_pr''"
  shows "keeps_work (prompt_tool ms name args)"
proof -
  have "keeps_work (tool_status ms)" "keeps_work (tool_get_brief ms args)" "keeps_work (tool_run_gates ms args)"
    "keeps_work (tool_emit_envelope args)" "keeps_work (tool_seal_pr ms args)"
    unfolding tool_status_def tool_get_brief_def tool_run_gates_def tool_emit_envelope_def tool_seal_pr_def Let_def
    by (intro keeps_intros within_intros)+
  moreover have "keeps_work (tool_graph ms op subject args)" for op subject
    unfolding tool_graph_def projectGraphify_def graph_operation_def requireGraph_def Let_def
    by (intro keeps_intros)
  moreover have "keeps_work (or_fail (store_io (runStatus i)) (\<lambda>r. State_Monad.return (Inr (Status r) :: err + tool_result)))" for i
    by (intro keeps_intros within_intros)
  ultimately show ?thesis using assms by (simp add: prompt_tool_def work.base.k_return)
qed

text \<open>A wait only reads; what changes meanwhile is the work of the others.\<close>

lemma wait_keeps_work:
  assumes "wait_loop others i b t n w = Some x" and "\<forall>n w. same_work (db w) (db (others n w))"
  shows "same_work (db w) (db (snd x))"
proof -
  have "(\<forall>n w. same_work (db w) (db (others n w))) \<longrightarrow> same_work (db w) (db (snd x))"
    using assms(1)
  proof (rule wait_loop.raw_induct [rotated], intro impI)
    fix loop others i b t n w x
    assume IH: "\<And>others i b t n w x. loop others i b t n w = Some x \<Longrightarrow>
        (\<forall>n w. same_work (db w) (db (others n w))) \<longrightarrow> same_work (db w) (db (snd x))"
      and step: "(case wait_once i b t w of (Inl e, w') \<Rightarrow> Some (Inl e, w')
        | (Inr None, w') \<Rightarrow> loop others i b t (Suc n) (others n w')
        | (Inr (Some a), w') \<Rightarrow> Some (Inr a, w')) = Some x"
      and o': "\<forall>n w. same_work (db w) (db (others n w))"
    obtain r k where k: "wait_once i b t w = (r, k)" by fastforce
    have wk: "same_work (db w) (db k)"
      using withinD [OF work_reads(7) k] by (simp add: on_db_def)
    show "same_work (db w) (db (snd x))"
    proof (cases "r = Inr None")
      case True
      with step k have "loop others i b t (Suc n) (others n k) = Some x" by simp
      with IH o' have "same_work (db (others n k)) (db (snd x))" by blast
      with wk o' show ?thesis by (meson work.trans_tables)
    next
      case False
      with step k wk show ?thesis by (auto split: sum.splits option.splits)
    qed
  qed
  with assms(2) show ?thesis by blast
qed

text \<open>
  C11: An agent's own tools leave the work alone: a tool call other than the two that hand a request to
  the running server ends with the same runs, intents and bullets, row by row but for the time a run was
  last touched, whatever the arguments, the store, the files and the commands do.  So an agent cannot
  conclude a run, advance a bullet or approve a plan through them; a wait adds nothing to what the other
  writers do meanwhile.
\<close>

theorem agent_tools_keep_work:
  assumes call: "ExecuteTool ms name args h = Some (r, k)"
    and own: "name \<noteq> ''sgt_dispatch''" "name \<noteq> ''sgt_create_pr''"
    and others: "\<And>n w. same_work (db w) (db (ms_others ms n w))"
  shows "same_work (db (base h)) (db (base k))"
proof (cases "name = ''sgt_run_wait''")
  case False
  with call have "run_state (prompt_tool ms name args) h = (r, k)" by (simp add: ExecuteTool_def)
  with work_tools [OF own] have "on_base (on_db same_work) h k" by blast
  then show ?thesis by (simp add: on_base_def on_db_def)
next
  case True
  let ?i = "argString args ''run_id''" and ?b = "runWaitBound (ms_beyond ms) (member ''timeout_seconds'' args)"
  from call True obtain r' w where w: "runWait (ms_others ms) ?i ?b (base h) = Some (r', w)" "k = h\<lparr>base := w\<rparr>"
    by (auto simp: ExecuteTool_def wait_tool_def)
  have "same_work (db (base h)) (db w)"
    using w(1) others wait_keeps_work [of "ms_others ms"]
    by (fastforce simp: runWait_def Let_def SubscribeChanges_def time_now_def unsubscribe_def split: if_splits)
  with w(2) show ?thesis by simp
qed

definition agent_site :: mcp_site where
  "agent_site = \<lparr>ms_cwd = [], ms_yaml = (\<lambda>_. Inl DbError), ms_parse = RawBad,
     ms_http = (\<lambda>_ _ _. State_Monad.return (Inl (Other ''connection refused''))), ms_graph = (\<lambda>_. None),
     ms_time = show_int, ms_others = (\<lambda>n w. w), ms_beyond = 0\<rparr>"

theorem agent_tools_keep_work_witness:
  "\<exists>t k. ExecuteTool agent_site ''sgt_emit_envelope'' [(''run_id'', JStr ''r1''), (''repo'', JStr ''web''), (''stage'', JStr ''plan'')]
      (calm_host (initial_world (empty_tables\<lparr>runs := [going_run]\<rparr>)) []) = Some (Inr t, k) \<and>
     same_work (empty_tables\<lparr>runs := [going_run]\<rparr>) (db (base k)) \<and> length (envelopes (db (base k))) = 1"
proof -
  let ?h = "calm_host (initial_world (empty_tables\<lparr>runs := [going_run]\<rparr>)) []"
  let ?args = "[(''run_id'', JStr ''r1''), (''repo'', JStr ''web''), (''stage'', JStr ''plan'')]"
  have "(case ExecuteTool agent_site ''sgt_emit_envelope'' ?args ?h of
      Some (Inr _, k) \<Rightarrow> Some (length (envelopes (db (base k)))) | _ \<Rightarrow> None) = Some 1" by code_simp
  then obtain t k where run: "ExecuteTool agent_site ''sgt_emit_envelope'' ?args ?h = Some (Inr t, k)"
      and n: "length (envelopes (db (base k))) = 1"
    by (auto split: option.splits prod.splits sum.splits)
  have "same_work (db w) (db (ms_others agent_site n w))" for n w by (simp add: agent_site_def)
  from agent_tools_keep_work [OF run _ _ this] run n show ?thesis by (simp add: calm_host_def initial_world_def)
qed

section \<open>One answer per request\<close>

text \<open>The lines that are answered, and with which identifier.\<close>

definition answered :: "mcp_site \<Rightarrow> string \<Rightarrow> json option option" where
  "answered ms line =
     (let line = TrimSpace line in
      if line = [] then None
      else case Unmarshal (set_struct set_request) (ms_parse ms line) zero_request of
        (_, Some e) \<Rightarrow> Some None
      | (req, None) \<Rightarrow> if jq_Method req = ''notifications/initialized'' then None else Some (jq_ID req))"

lemma handle_line_answer:
  assumes "handle_line ms line h = Some (r, k)"
  shows "map_option jr_ID r = answered ms line"
  using assms by (auto simp: handle_line_def handleRequest_def answered_def Let_def split: if_splits option.splits prod.splits)

text \<open>
  Every line of a session is answered at most once, in the order of the lines and under the identifier
  of its request, whatever the tools do; empty lines and the notification that the client is ready are
  not answered.
\<close>

lemma serve_answers:
  "ServeStdio ms lines h = Some (rs, k) \<Longrightarrow>
   map jr_ID rs = concat (map (\<lambda>line. case answered ms line of None \<Rightarrow> [] | Some i \<Rightarrow> [i]) lines)"
proof (induction lines arbitrary: h rs)
  case (Cons line lines)
  from Cons.prems obtain r h1 rs' where l: "handle_line ms line h = Some (r, h1)"
      and s: "ServeStdio ms lines h1 = Some (rs', k)" and rs: "rs = (case r of None \<Rightarrow> rs' | Some a \<Rightarrow> a # rs')"
    by (auto split: option.splits)
  show ?case using Cons.IH [OF s] rs by (cases r) (auto simp: handle_line_answer [OF l, symmetric])
qed simp

end
