(* ===== verification/Refine.thy ===== *)
theory Refine
  imports Trees Projects
begin

text \<open>
  \<open>internal/ui/refine.go\<close>: a project's YAML file is patched as a tree of nodes, so that what the request
  does not name keeps its place, its comments and its value, and is replaced by renaming a new file.

  A node is given as in the YAML library: its kind, its tag, its value, what else it carries (comments,
  style, an anchor) and its content; the content of a mapping alternates keys and values.  Parsing and
  encoding are parameters.  The maps of a request are lists with distinct keys.
\<close>

section \<open>Nodes\<close>

datatype ykind = YDocument | YSequence | YMapping | YScalar | YAlias

datatype ynode = YNode (ykind_of: ykind) (ytag: string) (yvalue: string) (ymeta: string) (ycontent: "ynode list")

definition scalarNode :: "string \<Rightarrow> ynode" where
  "scalarNode s = YNode YScalar ''!!str'' s [] []"

definition new_mapping :: ynode where
  "new_mapping = YNode YMapping ''!!map'' [] [] []"

fun get_pair :: "string \<Rightarrow> ynode list \<Rightarrow> ynode option" where
  "get_pair key (k # v # kvs) = (if yvalue k = key then Some v else get_pair key kvs)"
| "get_pair key _ = None"

fun set_pair :: "string \<Rightarrow> ynode \<Rightarrow> ynode list \<Rightarrow> ynode list option" where
  "set_pair key val (k # v # kvs) =
     (if yvalue k = key then Some (k # val # kvs) else map_option (\<lambda>r. k # v # r) (set_pair key val kvs))"
| "set_pair key val _ = None"

fun delete_pair :: "string \<Rightarrow> ynode list \<Rightarrow> ynode list" where
  "delete_pair key (k # v # kvs) = (if yvalue k = key then kvs else k # v # delete_pair key kvs)"
| "delete_pair key kvs = kvs"

definition nodeGet :: "ynode \<Rightarrow> string \<Rightarrow> ynode option" where
  "nodeGet m key = (if ykind_of m \<noteq> YMapping then None else get_pair key (ycontent m))"

definition with_content :: "ynode list \<Rightarrow> ynode \<Rightarrow> ynode" where
  "with_content cs m = YNode (ykind_of m) (ytag m) (yvalue m) (ymeta m) cs"

definition as_mapping :: "ynode \<Rightarrow> ynode" where
  "as_mapping m = (if ykind_of m = YMapping then m else YNode YMapping ''!!map'' (yvalue m) (ymeta m) (ycontent m))"

definition nodeSet :: "string \<Rightarrow> ynode \<Rightarrow> ynode \<Rightarrow> ynode" where
  "nodeSet key val m = (let m = as_mapping m in
     with_content (case set_pair key val (ycontent m) of
       Some cs \<Rightarrow> cs | None \<Rightarrow> ycontent m @ [scalarNode key, val]) m)"

definition nodeDelete :: "string \<Rightarrow> ynode \<Rightarrow> ynode" where
  "nodeDelete key m = (if ykind_of m \<noteq> YMapping then m else with_content (delete_pair key (ycontent m)) m)"

text \<open>A mapping below a key, made when it is not there, and written back changed.\<close>

definition nodeIn :: "string \<Rightarrow> (ynode \<Rightarrow> ynode) \<Rightarrow> ynode \<Rightarrow> ynode" where
  "nodeIn key f m = nodeSet key (f (case nodeGet m key of
     Some n \<Rightarrow> if ykind_of n = YMapping then n else new_mapping | None \<Rightarrow> new_mapping)) m"

section \<open>The request\<close>

text \<open>\<open>None\<close> is what the request leaves out.\<close>

record refineRepoPatch =
  rr_Role :: "string option"
  rr_Factory :: "(string \<times> string) list option option"

record refinePayload =
  rp_Name :: string
  rp_Description :: "string option"
  rp_Defaults :: "string option option"
  rp_Repos :: "(string \<times> refineRepoPatch) list"

definition gates_node :: "(string \<times> string) list \<Rightarrow> ynode" where
  "gates_node gates = with_content (concat (map (\<lambda>(k, v). [scalarNode k, scalarNode v]) (sort_key fst gates))) new_mapping"

definition applyRepoPatchNode :: "refineRepoPatch \<Rightarrow> ynode \<Rightarrow> ynode" where
  "applyRepoPatchNode p repo =
     (if ykind_of repo \<noteq> YMapping then repo
      else let repo = (case rr_Role p of None \<Rightarrow> repo | Some role \<Rightarrow> nodeSet ''role'' (scalarNode role) repo) in
        case rr_Factory p of
          Some (Some gates) \<Rightarrow> nodeIn ''factory'' (nodeSet ''gates'' (gates_node gates)) repo
        | _ \<Rightarrow> repo)"

definition patch_item :: "(string \<times> refineRepoPatch) list \<Rightarrow> ynode \<Rightarrow> ynode" where
  "patch_item patches item = (case nodeGet item ''name'' of
     None \<Rightarrow> item
   | Some n \<Rightarrow> (case map_of patches (yvalue n) of None \<Rightarrow> item | Some p \<Rightarrow> applyRepoPatchNode p item))"

definition item_name :: "ynode \<Rightarrow> string option" where
  "item_name item = map_option yvalue (nodeGet item ''name'')"

definition patch_entry :: "string \<times> refineRepoPatch \<Rightarrow> ynode \<Rightarrow> ynode" where
  "patch_entry e repos = (case nodeGet repos (fst e) of
     None \<Rightarrow> repos | Some entry \<Rightarrow> nodeSet (fst e) (applyRepoPatchNode (snd e) entry) repos)"

text \<open>The patched repositories, and the names that were not found, sorted.\<close>

definition patchReposNode :: "(string \<times> refineRepoPatch) list \<Rightarrow> ynode \<Rightarrow> ynode \<times> string list" where
  "patchReposNode patches repos = (case ykind_of repos of
     YSequence \<Rightarrow> (with_content (map (patch_item patches) (ycontent repos)) repos,
       sort (filter (\<lambda>name. Some name \<notin> set (map item_name (ycontent repos))) (map fst patches)))
   | YMapping \<Rightarrow> (fold patch_entry patches repos, sort (filter (\<lambda>name. nodeGet repos name = None) (map fst patches)))
   | _ \<Rightarrow> (repos, sort (map fst patches)))"

definition patchRepos :: "(string \<times> refineRepoPatch) list \<Rightarrow> ynode \<Rightarrow> ynode \<times> string list" where
  "patchRepos patches doc =
     (if patches = [] then (doc, [])
      else case nodeGet doc ''repos'' of
        None \<Rightarrow> (doc, sort (map fst patches))
      | Some repos \<Rightarrow> (case patchReposNode patches repos of (repos', unknown) \<Rightarrow> (nodeSet ''repos'' repos' doc, unknown)))"

definition patch_document :: "refinePayload \<Rightarrow> ynode \<Rightarrow> ynode \<times> string list" where
  "patch_document req doc =
     (let doc = nodeDelete ''project'' (nodeSet ''name'' (scalarNode (rp_Name req)) doc);
          doc = (case rp_Description req of None \<Rightarrow> doc | Some d \<Rightarrow> nodeSet ''description'' (scalarNode d) doc);
          doc = (case rp_Defaults req of
            Some (Some agent) \<Rightarrow> nodeIn ''defaults'' (nodeSet ''agent'' (scalarNode agent)) doc | _ \<Rightarrow> doc) in
      patchRepos (rp_Repos req) doc)"

section \<open>The handler\<close>

record yaml_library =
  yl_parse :: "raw_json \<Rightarrow> err + ynode"
  yl_encode :: "ynode \<Rightarrow> err + raw_json"

datatype refine_reply = Rejected int err | Saved string bool "string list" bool

definition valid_name :: "string \<Rightarrow> bool" where
  "valid_name s \<longleftrightarrow> CHR ''/'' \<notin> set s \<and> CHR 0x5C \<notin> set s \<and> \<not> sublist ''..'' s"

definition blank_file :: "raw_json \<Rightarrow> bool" where
  "blank_file c = (case c of RawEmpty \<Rightarrow> True | RawBad s \<Rightarrow> TrimSpace s = [] | RawDoc _ \<Rightarrow> False)"

text \<open>The document to patch and whether it existed.  A file that cannot be read counts as one that is not there.\<close>

definition current_document :: "yaml_library \<Rightarrow> err + raw_json \<Rightarrow> refine_reply + ynode \<times> bool" where
  "current_document y read = (case read of
     Inl _ \<Rightarrow> Inr (new_mapping, False)
   | Inr data \<Rightarrow>
       if blank_file data then Inr (new_mapping, False)
       else (case yl_parse y data of
         Inl e \<Rightarrow> Inl (Rejected 409 (Errorf ''existing project YAML is not parseable, refusing to overwrite: %v'' [] (Some e)))
       | Inr root \<Rightarrow> (case ycontent root of
           doc # _ \<Rightarrow> if ykind_of doc = YMapping then Inr (doc, True)
             else Inl (Rejected 409 (Other ''existing project YAML is not a mapping, refusing to overwrite''))
         | [] \<Rightarrow> Inl (Rejected 409 (Other ''existing project YAML is not a mapping, refusing to overwrite'')))))"

text \<open>The new content is written beside the file and renamed over it.\<close>

definition replace_file :: "path \<Rightarrow> path \<Rightarrow> raw_json \<Rightarrow> refine_reply \<Rightarrow> refine_reply io" where
  "replace_file tmp p out saved = do {
     w \<leftarrow> WriteFile tmp out;
     case w of Inl e \<Rightarrow> State_Monad.return (Rejected 500 (Errorf ''writing project YAML: %v'' [] (Some e)))
     | Inr _ \<Rightarrow> do {
         r \<leftarrow> Rename tmp p;
         case r of Inr _ \<Rightarrow> State_Monad.return saved
         | Inl e \<Rightarrow> do {
             _ \<leftarrow> Remove tmp;
             State_Monad.return (Rejected 500 (Errorf ''replacing project YAML: %v'' [] (Some e))) } } }"

definition project_file :: "host \<Rightarrow> string \<Rightarrow> path" where
  "project_file h name = Join (config_dir h) (name @ ''.yaml'')"

definition handleRefineProject :: "yaml_library \<Rightarrow> refinePayload option \<Rightarrow> refine_reply io" where
  "handleRefineProject y body = (case body of
     None \<Rightarrow> State_Monad.return (Rejected 400 (Other ''invalid project payload''))
   | Some req \<Rightarrow>
       if rp_Name req = [] then State_Monad.return (Rejected 400 (Other ''invalid project payload''))
       else if \<not> valid_name (rp_Name req) then State_Monad.return (Rejected 400 (Other ''invalid project name''))
       else do {
         h \<leftarrow> get_host;
         _ \<leftarrow> MkdirAll (config_dir h);
         read \<leftarrow> ReadFile (project_file h (rp_Name req));
         case current_document y read of
           Inl reply \<Rightarrow> State_Monad.return reply
         | Inr (doc, existed) \<Rightarrow>
             let (doc', unknown) = patch_document req doc in
             case yl_encode y doc' of
               Inl e \<Rightarrow> State_Monad.return (Rejected 500 (Errorf ''marshaling project YAML: %v'' [] (Some e)))
             | Inr out \<Rightarrow> replace_file (Join (config_dir h) (rp_Name req @ ''.yaml.tmp'')) (project_file h (rp_Name req)) out
                 (Saved (rp_Name req) (\<not> existed) unknown (nodeGet doc' ''dag'' \<noteq> None)) })"

section \<open>What a patch leaves alone\<close>

text \<open>The keys of a mapping have values; that is so of every mapping in a document that was parsed.\<close>

fun wf_node :: "ynode \<Rightarrow> bool" where
  "wf_node (YNode k t v m cs) = ((k = YMapping \<longrightarrow> even (length cs)) \<and> list_all wf_node cs)"

text \<open>The pairs of a mapping under other keys, in their order, with all they carry.\<close>

fun pairs_without :: "string set \<Rightarrow> ynode list \<Rightarrow> (ynode \<times> ynode) list" where
  "pairs_without K (k # v # kvs) = (if yvalue k \<in> K then pairs_without K kvs else (k, v) # pairs_without K kvs)"
| "pairs_without K _ = []"

definition spared :: "string set \<Rightarrow> ynode \<Rightarrow> ynode \<Rightarrow> bool" where
  "spared K m m' \<longleftrightarrow> ykind_of m = YMapping \<and> ykind_of m' = YMapping \<and> ytag m' = ytag m \<and> yvalue m' = yvalue m \<and>
     ymeta m' = ymeta m \<and> even (length (ycontent m)) \<and> even (length (ycontent m')) \<and>
     pairs_without K (ycontent m') = pairs_without K (ycontent m)"

text \<open>A repository keeps all but its role and its gates.\<close>

definition repo_spared :: "ynode \<Rightarrow> ynode \<Rightarrow> bool" where
  "repo_spared r r' \<longleftrightarrow> r' = r \<or> spared {''role'', ''factory''} r r' \<and>
     (\<forall>f. nodeGet r ''factory'' = Some f \<longrightarrow> ykind_of f = YMapping \<longrightarrow>
        (\<exists>f'. nodeGet r' ''factory'' = Some f' \<and> (f' = f \<or> spared {''gates''} f f')))"

lemma kind_simps [simp]:
  "ykind_of (with_content cs m) = ykind_of m" "ycontent (with_content cs m) = cs" "ytag (with_content cs m) = ytag m"
  "yvalue (with_content cs m) = yvalue m" "ymeta (with_content cs m) = ymeta m" "yvalue (scalarNode s) = s"
  by (simp_all add: with_content_def scalarNode_def)

lemma set_pair_Some:
  "set_pair key val cs = Some cs' \<Longrightarrow> length cs' = length cs \<and> (\<forall>K. key \<in> K \<longrightarrow> pairs_without K cs' = pairs_without K cs) \<and>
     get_pair key cs' = Some val \<and> (\<forall>j. j \<noteq> key \<longrightarrow> get_pair j cs' = get_pair j cs)"
  by (induction key val cs arbitrary: cs' rule: set_pair.induct) (auto split: if_splits)

lemma set_pair_None: "set_pair key val cs = None \<longleftrightarrow> get_pair key cs = None"
  by (induction key val cs rule: set_pair.induct) auto

lemma pairs_append: "even (length cs) \<Longrightarrow>
    pairs_without K (cs @ [k, v]) = pairs_without K cs @ (if yvalue k \<in> K then [] else [(k, v)])"
  by (induction K cs rule: pairs_without.induct) auto

lemma get_append: "even (length cs) \<Longrightarrow>
    get_pair j (cs @ [k, v]) = (case get_pair j cs of Some x \<Rightarrow> Some x | None \<Rightarrow> if yvalue k = j then Some v else None)"
  by (induction j cs rule: get_pair.induct) auto

lemma delete_pair_props:
  "(key \<in> K \<longrightarrow> pairs_without K (delete_pair key cs) = pairs_without K cs) \<and>
   even (length (delete_pair key cs)) = even (length cs) \<and> (j \<noteq> key \<longrightarrow> get_pair j (delete_pair key cs) = get_pair j cs)"
  by (induction key cs rule: delete_pair.induct) auto

lemma nodeSet_spared:
  assumes "ykind_of m = YMapping" "even (length (ycontent m))" "key \<in> K"
  shows "spared K m (nodeSet key val m)"
  using assms set_pair_Some [of key val "ycontent m"]
  by (cases "set_pair key val (ycontent m)") (auto simp: spared_def nodeSet_def as_mapping_def Let_def pairs_append)

lemma nodeGet_set:
  assumes "ykind_of m = YMapping" "even (length (ycontent m))"
  shows "nodeGet (nodeSet key val m) j = (if j = key then Some val else nodeGet m j)"
  using assms set_pair_Some [of key val "ycontent m"] set_pair_None [of key val "ycontent m"]
  by (cases "set_pair key val (ycontent m)")
    (auto simp: nodeGet_def nodeSet_def as_mapping_def Let_def get_append split: option.split)

lemma spared_refl: "ykind_of m = YMapping \<Longrightarrow> even (length (ycontent m)) \<Longrightarrow> spared K m m"
  by (simp add: spared_def)

lemma spared_trans: "spared K a b \<Longrightarrow> spared K b c \<Longrightarrow> spared K a c"
  by (simp add: spared_def)

lemma spared_step: "spared K a b \<Longrightarrow> key \<in> K \<Longrightarrow> spared K a (nodeSet key val b)"
  using nodeSet_spared [of b key K val] spared_trans [of K a b] by (simp add: spared_def)

lemma spared_delete: "spared K a b \<Longrightarrow> key \<in> K \<Longrightarrow> spared K a (nodeDelete key b)"
  using delete_pair_props [of key K "ycontent b"] by (simp add: spared_def nodeDelete_def)

lemma get_without: "j \<notin> K \<Longrightarrow> pairs_without K cs = pairs_without K ds \<Longrightarrow> even (length cs) \<Longrightarrow> even (length ds) \<Longrightarrow>
    get_pair j cs = get_pair j ds"
proof -
  have "even (length cs) \<Longrightarrow> j \<notin> K \<Longrightarrow> get_pair j cs = map_of (map (\<lambda>(k, v). (yvalue k, v)) (pairs_without K cs)) j" for cs
    by (induction K cs rule: pairs_without.induct) auto
  then show "j \<notin> K \<Longrightarrow> pairs_without K cs = pairs_without K ds \<Longrightarrow> even (length cs) \<Longrightarrow> even (length ds) \<Longrightarrow> ?thesis" by simp
qed

lemma spared_get: "spared K a b \<Longrightarrow> j \<notin> K \<Longrightarrow> nodeGet b j = nodeGet a j"
  by (auto simp: spared_def nodeGet_def intro: get_without)

lemma repo_spared_refl [simp]: "repo_spared r r"
  by (simp add: repo_spared_def)

lemma repo_spared_trans:
  assumes "repo_spared a b" "repo_spared b c"
  shows "repo_spared a c"
proof (cases "b = a \<or> c = b")
  case False
  then have 1: "spared {''role'', ''factory''} a c"
    using assms spared_trans unfolding repo_spared_def by blast
  have "\<exists>f'. nodeGet c ''factory'' = Some f' \<and> (f' = f \<or> spared {''gates''} f f')"
    if f: "nodeGet a ''factory'' = Some f" "ykind_of f = YMapping" for f
  proof -
    from assms(1) False f obtain f1 where f1: "nodeGet b ''factory'' = Some f1" "f1 = f \<or> spared {''gates''} f f1"
      unfolding repo_spared_def by blast
    then have "ykind_of f1 = YMapping" using f(2) by (auto simp: spared_def)
    with assms(2) False f1(1) obtain f2 where "nodeGet c ''factory'' = Some f2" "f2 = f1 \<or> spared {''gates''} f1 f2"
      unfolding repo_spared_def by blast
    with f1(2) show ?thesis using spared_trans by blast
  qed
  with 1 show ?thesis unfolding repo_spared_def by blast
qed (use assms in auto)


lemma wf_content:
  assumes "wf_node m"
  shows "ykind_of m = YMapping \<Longrightarrow> even (length (ycontent m))" and "x \<in> set (ycontent m) \<Longrightarrow> wf_node x"
  using assms by (cases m; auto simp: list_all_iff)+

lemma get_in_content: "get_pair key cs = Some v \<Longrightarrow> v \<in> set cs"
  by (induction key cs rule: get_pair.induct) (auto split: if_splits)

lemma wf_get: "wf_node m \<Longrightarrow> nodeGet m key = Some v \<Longrightarrow> wf_node v"
  using wf_content(2) by (auto simp: nodeGet_def dest: get_in_content split: if_splits)

lemma even_new [simp]: "ykind_of new_mapping = YMapping" "ycontent new_mapping = []"
  by (simp_all add: new_mapping_def)

lemma apply_spared:
  assumes "wf_node repo"
  shows "repo_spared repo (applyRepoPatchNode p repo)"
proof (cases "ykind_of repo = YMapping")
  case False
  then show ?thesis by (simp add: applyRepoPatchNode_def)
next
  case map: True
  have ev: "even (length (ycontent repo))" using assms map by (rule wf_content)
  let ?K = "{''role'', ''factory''}"
  let ?r = "case rr_Role p of None \<Rightarrow> repo | Some role \<Rightarrow> nodeSet ''role'' (scalarNode role) repo"
  have r: "spared ?K repo ?r"
    using map ev by (auto split: option.split intro: spared_refl nodeSet_spared)
  have same: "nodeGet ?r ''factory'' = nodeGet repo ''factory''"
    using map ev by (auto simp: nodeGet_set split: option.split)
  show ?thesis
  proof (cases "\<exists>gates. rr_Factory p = Some (Some gates)")
    case False
    then have "applyRepoPatchNode p repo = ?r"
      using map by (auto simp: applyRepoPatchNode_def Let_def split: option.splits)
    with r same show ?thesis by (simp add: repo_spared_def)
  next
    case True
    then obtain gates where g: "rr_Factory p = Some (Some gates)" by blast
    let ?old = "case nodeGet ?r ''factory'' of Some n \<Rightarrow> if ykind_of n = YMapping then n else new_mapping | None \<Rightarrow> new_mapping"
    let ?f = "nodeSet ''gates'' (gates_node gates) ?old"
    have a: "applyRepoPatchNode p repo = nodeSet ''factory'' ?f ?r"
      using map g by (simp add: applyRepoPatchNode_def Let_def nodeIn_def)
    have kr: "ykind_of ?r = YMapping" "even (length (ycontent ?r))" using r by (auto simp: spared_def)
    have "spared {''gates''} f ?f" if f: "nodeGet repo ''factory'' = Some f" "ykind_of f = YMapping" for f
      using f wf_content(1) [OF wf_get [OF assms f(1)]] by (simp add: same nodeSet_spared)
    then show ?thesis
      unfolding a repo_spared_def using spared_step [OF r, of "''factory''" ?f] nodeGet_set [OF kr] by auto
  qed
qed

text \<open>Repositories in either shape are patched in place.\<close>

lemma set_pair_all2:
  assumes "set_pair key val cs = Some cs'" "get_pair key cs = Some old" "repo_spared old val"
  shows "list_all2 repo_spared cs cs'"
  using assms
  by (induction key val cs arbitrary: cs' rule: set_pair.induct)
    (auto split: if_splits simp: list_all2_refl)

lemma all2_trans: "list_all2 repo_spared a b \<Longrightarrow> list_all2 repo_spared b c \<Longrightarrow> list_all2 repo_spared a c"
  by (rule list_all2_trans [of repo_spared repo_spared repo_spared]) (auto intro: repo_spared_trans)

lemma wf_with_content:
  "wf_node (with_content cs m) \<longleftrightarrow> (ykind_of m = YMapping \<longrightarrow> even (length cs)) \<and> list_all wf_node cs"
  by (simp add: with_content_def)

lemma set_pair_content: "set_pair key val cs = Some cs' \<Longrightarrow> set cs' \<subseteq> insert val (set cs)"
  by (induction key val cs arbitrary: cs' rule: set_pair.induct) (auto split: if_splits)

lemma wf_nodeSet:
  assumes m: "wf_node m" "ykind_of m = YMapping" and val: "wf_node val"
  shows "wf_node (nodeSet key val m)"
proof -
  have ev: "even (length (ycontent m))" and all: "\<forall>x \<in> set (ycontent m). wf_node x"
    using wf_content [OF m(1)] m(2) by blast+
  have "wf_node (scalarNode key)" by (simp add: scalarNode_def)
  then show ?thesis
    using m(2) ev all val set_pair_Some [of key val "ycontent m"] set_pair_content [of key val "ycontent m"]
    by (cases "set_pair key val (ycontent m)")
      (auto simp: nodeSet_def as_mapping_def Let_def wf_with_content list_all_iff)
qed

lemma kind_nodeSet [simp]: "ykind_of (nodeSet key val m) = YMapping"
  by (simp add: nodeSet_def as_mapping_def Let_def)

lemma wf_gates: "wf_node (gates_node gates)"
proof -
  have "wf_node (with_content (concat (map (\<lambda>(k, v). [scalarNode k, scalarNode v]) gs)) new_mapping)" for gs
    by (induction gs) (auto simp: wf_with_content scalarNode_def)
  then show ?thesis by (simp add: gates_node_def)
qed

lemma wf_apply:
  assumes "wf_node repo"
  shows "wf_node (applyRepoPatchNode p repo)"
proof (cases "ykind_of repo = YMapping")
  case True
  let ?r = "case rr_Role p of None \<Rightarrow> repo | Some role \<Rightarrow> nodeSet ''role'' (scalarNode role) repo"
  have r: "wf_node ?r" "ykind_of ?r = YMapping"
    using assms True by (auto split: option.split intro!: wf_nodeSet simp: scalarNode_def)
  have "wf_node (case nodeGet ?r ''factory'' of Some n \<Rightarrow> if ykind_of n = YMapping then n else new_mapping | None \<Rightarrow> new_mapping)"
    using wf_get [OF r(1)] by (auto simp: new_mapping_def split: option.split)
  then have "wf_node (nodeIn ''factory'' (nodeSet ''gates'' (gates_node gates)) ?r)" for gates
    unfolding nodeIn_def using r by (intro wf_nodeSet wf_gates) (auto split: option.split)
  with True r(1) show ?thesis
    by (cases "rr_Role p"; cases "rr_Factory p"; cases "the (rr_Factory p)") (simp_all add: applyRepoPatchNode_def)
qed (use assms in \<open>simp add: applyRepoPatchNode_def\<close>)

lemma patch_entry_props:
  assumes "wf_node repos" "ykind_of repos = YMapping"
  shows "list_all2 repo_spared (ycontent repos) (ycontent (patch_entry e repos))" and "wf_node (patch_entry e repos)"
    and "ykind_of (patch_entry e repos) = YMapping"
proof -
  have "list_all2 repo_spared (ycontent repos) (ycontent (nodeSet (fst e) (applyRepoPatchNode (snd e) entry) repos))"
    if "nodeGet repos (fst e) = Some entry" for entry
  proof -
    have g: "get_pair (fst e) (ycontent repos) = Some entry" using that assms(2) by (simp add: nodeGet_def)
    then obtain cs where cs: "set_pair (fst e) (applyRepoPatchNode (snd e) entry) (ycontent repos) = Some cs"
      using set_pair_None by fastforce
    with set_pair_all2 [OF cs g apply_spared [OF wf_get [OF assms(1) that]]] assms(2) show ?thesis
      by (simp add: nodeSet_def as_mapping_def)
  qed
  then show "list_all2 repo_spared (ycontent repos) (ycontent (patch_entry e repos))"
    by (auto simp: patch_entry_def list_all2_refl split: option.split)
  show "wf_node (patch_entry e repos)" "ykind_of (patch_entry e repos) = YMapping"
    using assms wf_get [OF assms(1)] by (auto simp: patch_entry_def split: option.split intro: wf_nodeSet wf_apply)
qed

lemma patched_repos:
  assumes wf: "wf_node repos" and kind: "ykind_of repos = YSequence \<or> ykind_of repos = YMapping"
  shows "list_all2 repo_spared (ycontent repos) (ycontent (fst (patchReposNode patches repos)))"
  using kind
proof
  assume k: "ykind_of repos = YMapping"
  have "wf_node r \<Longrightarrow> ykind_of r = YMapping \<Longrightarrow> list_all2 repo_spared (ycontent r) (ycontent (fold patch_entry patches r))" for r
  proof (induction patches arbitrary: r)
    case (Cons e es)
    with patch_entry_props [OF Cons.prems, of e] show ?case by (auto intro: all2_trans)
  qed (simp add: list_all2_refl)
  with wf k show ?thesis by (simp add: patchReposNode_def)
next
  assume k: "ykind_of repos = YSequence"
  have "repo_spared item (patch_item patches item)" if "item \<in> set (ycontent repos)" for item
    using wf_content(2) [OF wf that] apply_spared by (auto simp: patch_item_def split: option.split)
  with k show ?thesis by (auto simp: patchReposNode_def list_all2_map2 intro: list_all2_same [THEN iffD2])
qed

lemma patchRepos_spared:
  assumes "spared K doc d" "''repos'' \<in> K"
  shows "spared K doc (fst (patchRepos patches d))"
proof -
  have "spared K doc (nodeSet ''repos'' r d)" for r using assms by (rule spared_step)
  with assms(1) show ?thesis by (auto simp: patchRepos_def split: option.split prod.split)
qed

lemma patchRepos_repos:
  assumes "wf_node repos" "ykind_of repos = YSequence \<or> ykind_of repos = YMapping"
    and d: "nodeGet d ''repos'' = Some repos" "ykind_of d = YMapping" "even (length (ycontent d))"
  shows "\<exists>repos'. nodeGet (fst (patchRepos patches d)) ''repos'' = Some repos' \<and>
      list_all2 repo_spared (ycontent repos) (ycontent repos')"
proof -
  have "nodeGet (nodeSet ''repos'' r d) ''repos'' = Some r" for r using nodeGet_set [OF d(2, 3)] by simp
  with patched_repos [OF assms(1, 2), of patches] d(1) show ?thesis
    by (auto simp: patchRepos_def list_all2_refl split: prod.split)
qed


section \<open>The file is replaced as a whole\<close>

text \<open>What happens to the nodes other than the replaced file and what is at the temporary name.\<close>

definition others_kept :: "path \<Rightarrow> path \<Rightarrow> tree \<Rightarrow> tree \<Rightarrow> bool" where
  "others_kept tmp p t t' \<longleftrightarrow>
     (\<forall>q. q \<noteq> p \<and> \<not> prefix tmp q \<longrightarrow> node_at t q \<noteq> None \<longrightarrow> node_at t' q = node_at t q)"

lemma WriteFile_node: "node_at (tree (snd (run_state (WriteFile q c) h))) p = node_at (tree h) p" if "p \<noteq> q"
  using that by (auto simp: WriteFile_def file_op_def split: prod.splits io_result.splits)

lemma Rename_node:
  assumes "run_state (Rename tmp p) h = (r, k)" "tmp \<noteq> p"
  shows "(case r of Inl _ \<Rightarrow> tree k = tree h
    | Inr _ \<Rightarrow> p \<noteq> [] \<and> node_at (tree k) p = node_at (tree h) tmp \<and>
        (\<forall>q. q \<noteq> p \<and> \<not> prefix tmp q \<longrightarrow> node_at (tree k) q = node_at (tree h) q))"
  using assms by (auto simp: Rename_def file_op_def split: prod.splits option.splits node.splits if_splits)

lemma Remove_node: "\<not> prefix p q \<Longrightarrow> node_at (tree (snd (run_state (Remove p) h))) q = node_at (tree h) q"
  by (auto simp: Remove_def file_op_def split: prod.splits option.splits node.splits)

lemma replace_file_whole:
  assumes run: "run_state (replace_file tmp p out saved) h = (reply, k)" and apart: "\<not> prefix tmp p"
  shows "(reply = saved \<and> node_at (tree k) p = Some (File out) \<or>
      (\<exists>code e. reply = Rejected code e) \<and> node_at (tree k) p = node_at (tree h) p) \<and> others_kept tmp p (tree h) (tree k)"
proof -
  have ne: "p \<noteq> tmp" using apart by auto
  obtain w h1 where w: "run_state (WriteFile tmp out) h = (w, h1)" by (cases "run_state (WriteFile tmp out) h")
  have w1: "node_at (tree h1) q = node_at (tree h) q" if "\<not> prefix tmp q" for q
    using WriteFile_node [of q tmp out h] w that by auto
  show ?thesis
  proof (cases w)
    case (Inl e)
    with run w w1 apart show ?thesis by (auto simp: replace_file_def others_kept_def)
  next
    case (Inr u)
    with w have tmp: "node_at (tree h1) tmp = Some (File out)" using WriteFile_Inr [of tmp out h h1] by auto
    obtain r h2 where r: "run_state (Rename tmp p) h1 = (r, h2)" by (cases "run_state (Rename tmp p) h1")
    note at = Rename_node [OF r ne [symmetric]]
    show ?thesis
    proof (cases r)
      case (Inr v)
      with run w r \<open>w = Inr u\<close> have "reply = saved" "k = h2" by (simp_all add: replace_file_def)
      with at Inr tmp w1 show ?thesis by (auto simp: others_kept_def)
    next
      case (Inl e)
      obtain v h3 where "run_state (Remove tmp) h2 = (v, h3)" by (cases "run_state (Remove tmp) h2")
      with run w r Inl \<open>w = Inr u\<close> Remove_node [of tmp _ h2]
      have "\<exists>code e. reply = Rejected code e" "\<And>q. \<not> prefix tmp q \<Longrightarrow> node_at (tree k) q = node_at (tree h2) q"
        by (auto simp: replace_file_def)
      with at Inl w1 apart show ?thesis by (auto simp: others_kept_def)
    qed
  qed
qed

lemma clean_file_names:
  assumes "CHR ''/'' \<notin> set name"
  shows "clean_name (name @ ''.yaml'')" and "clean_name (name @ ''.yaml.tmp'')"
  using assms by (auto simp: clean_name_def)

text \<open>
  C18: Whatever file operations fail, a refinement replaces the project's file as a whole or leaves it as it
  was: when the reply says that it was saved, the file holds the encoding of the patched document, the
  document was the one the file held (or an empty one, when it held none that was read) and the reply
  reports the repositories that were not found; when the reply is an error the file is as before.  No
  other node is lost but what is at the temporary name.
\<close>

theorem refine_all_or_nothing:
  assumes run: "run_state (handleRefineProject y (Some req)) h = (reply, k)"
  shows "(case reply of
      Rejected _ _ \<Rightarrow> node_at (tree k) (project_file h (rp_Name req)) = node_at (tree h) (project_file h (rp_Name req))
    | Saved name created unknown dag \<Rightarrow> name = rp_Name req \<and>
        (\<exists>read doc out. (\<forall>c. read = Inr c \<longrightarrow> node_at (tree h) (project_file h name) = Some (File c)) \<and>
           current_document y read = Inr (doc, \<not> created) \<and> unknown = snd (patch_document req doc) \<and>
           dag = (nodeGet (fst (patch_document req doc)) ''dag'' \<noteq> None) \<and>
           yl_encode y (fst (patch_document req doc)) = Inr out \<and>
           node_at (tree k) (project_file h name) = Some (File out))) \<and>
    others_kept (config_dir h @ [rp_Name req @ ''.yaml.tmp'']) (project_file h (rp_Name req)) (tree h) (tree k)"
proof (cases "rp_Name req \<noteq> [] \<and> valid_name (rp_Name req)")
  case False
  then have "k = h \<and> (\<exists>code e. reply = Rejected code e)"
    using run by (auto simp: handleRefineProject_def split: if_splits)
  then show ?thesis by (auto simp: others_kept_def)
next
  case True
  let ?p = "project_file h (rp_Name req)" and ?tmp = "config_dir h @ [rp_Name req @ ''.yaml.tmp'']"
  have p: "?p = config_dir h @ [rp_Name req @ ''.yaml'']" and tmp: "Join (config_dir h) (rp_Name req @ ''.yaml.tmp'') = ?tmp"
    using True clean_file_names [of "rp_Name req"] by (simp_all add: project_file_def valid_name_def)
  obtain u h1 where m: "run_state (MkdirAll (config_dir h)) h = (u, h1)" by (cases "run_state (MkdirAll (config_dir h)) h")
  obtain read h2 where r: "run_state (ReadFile ?p) h1 = (read, h2)" by (cases "run_state (ReadFile ?p) h1")
  have "tree h1 = make_dirs (config_dir h) (tree h) \<or> tree h1 = tree h"
    using m by (auto simp: MkdirAll_def file_op_def split: prod.splits if_splits)
  then have dirs: "node_at (tree h1) q = node_at (tree h) q" if "node_at (tree h) q \<noteq> None \<or> q = ?p" for q
    using that by (auto simp: node_make_dirs p split: option.split)
  have t2: "tree h2 = tree h1" using ReadFile_tree [of ?p h1] r by simp
  have rd: "read = Inr c \<Longrightarrow> node_at (tree h) ?p = Some (File c)" for c
    using ReadFile_Inr [of ?p h1 c h2] r dirs by simp
  show ?thesis
  proof (cases "current_document y read")
    case (Inl rep)
    then have "\<exists>code e. rep = Rejected code e"
      by (auto simp: current_document_def split: sum.splits if_splits list.splits)
    with True run m r Inl t2 dirs show ?thesis by (auto simp: handleRefineProject_def get_host_def others_kept_def)
  next
    case (Inr a)
    obtain doc existed doc' unknown where d: "a = (doc, existed)" "patch_document req doc = (doc', unknown)"
      by (cases a; cases "patch_document req (fst a)"; auto)
    show ?thesis
    proof (cases "yl_encode y doc'")
      case (Inl e)
      with True run m r Inr d t2 dirs show ?thesis by (auto simp: handleRefineProject_def get_host_def others_kept_def)
    next
      case (Inr out)
      with True run m r \<open>current_document y read = Inr a\<close> d tmp
      have "run_state (replace_file ?tmp ?p out (Saved (rp_Name req) (\<not> existed) unknown (nodeGet doc' ''dag'' \<noteq> None))) h2
          = (reply, k)" by (simp add: handleRefineProject_def get_host_def)
      from replace_file_whole [OF this] have
        "(reply = Saved (rp_Name req) (\<not> existed) unknown (nodeGet doc' ''dag'' \<noteq> None) \<and> node_at (tree k) ?p = Some (File out) \<or>
          (\<exists>code e. reply = Rejected code e) \<and> node_at (tree k) ?p = node_at (tree h) ?p) \<and> others_kept ?tmp ?p (tree h) (tree k)"
        using dirs t2 by (auto simp: p others_kept_def)
      moreover have "\<exists>read doc out. (\<forall>c. read = Inr c \<longrightarrow> node_at (tree h) ?p = Some (File c)) \<and>
          current_document y read = Inr (doc, existed) \<and> unknown = snd (patch_document req doc) \<and>
          (nodeGet doc' ''dag'' \<noteq> None) = (nodeGet (fst (patch_document req doc)) ''dag'' \<noteq> None) \<and>
          yl_encode y (fst (patch_document req doc)) = Inr out \<and> node_at (tree k) ?p = Some (File out)"
        if "node_at (tree k) ?p = Some (File out)"
        using rd Inr \<open>current_document y read = Inr a\<close> d that by (intro exI [of _ read] exI [of _ doc] exI [of _ out]) simp
      ultimately show ?thesis by auto
    qed
  qed
qed

section \<open>A concrete project\<close>

definition ymap :: "string \<Rightarrow> (string \<times> ynode) list \<Rightarrow> ynode" where
  "ymap note kvs = YNode YMapping ''!!map'' [] note (concat (map (\<lambda>(k, v). [scalarNode k, v]) kvs))"

definition web_document :: ynode where
  "web_document = ymap ''# the web project''
     [(''project'', scalarNode ''old''), (''dag'', ymap [] [(''a'', scalarNode ''b'')]),
      (''repos'', YNode YSequence ''!!seq'' [] []
         [ymap [] [(''name'', scalarNode ''api''), (''path'', scalarNode ''/srv/api''),
            (''factory'', ymap [] [(''pipeline'', scalarNode ''tdd''), (''gates'', ymap [] [])])]])]"

definition web_request :: refinePayload where
  "web_request = \<lparr>rp_Name = ''web'', rp_Description = Some ''shop'', rp_Defaults = Some (Some ''claude''),
     rp_Repos = [(''ghost'', \<lparr>rr_Role = None, rr_Factory = None\<rparr>),
       (''api'', \<lparr>rr_Role = Some ''backend'', rr_Factory = Some (Some [(''vet'', ''go vet''), (''test'', ''go test'')])\<rparr>)]\<rparr>"


text \<open>Documents as their own encodings: the text is what the keys and values spell.\<close>

fun ytext :: "nat \<Rightarrow> ynode \<Rightarrow> string" where
  "ytext 0 _ = ''...''"
| "ytext (Suc n) m = yvalue m @ concat (map (ytext n) (ycontent m))"

definition sample_yaml :: yaml_library where
  "sample_yaml = \<lparr>yl_parse = \<lambda>_. Inr (YNode YDocument [] [] [] [web_document]), yl_encode = \<lambda>n. Inr (RawBad (ytext 9 n))\<rparr>"

definition web_host :: "bool \<Rightarrow> host" where
  "web_host full = (calm_host (initial_world empty_tables)
     (map (\<lambda>p. (p, Dir)) (prefixes [''home'', ''op'', ''.config'', ''sgt'']) @
      [([''home'', ''op'', ''.config'', ''sgt'', ''web.yaml''], File (RawBad ''project: old''))]))
     \<lparr>io_fault := \<lambda>n. if full \<and> n = 2 then Torn (RawBad ''na'') else Done\<rparr>"

definition refined :: "bool \<Rightarrow> refine_reply \<times> host" where
  "refined full = run_state (handleRefineProject sample_yaml (Some web_request)) (web_host full)"

theorem refine_all_or_nothing_witness:
  "(\<exists>e. fst (refined True) = Rejected 500 e) \<and>
   node_at (tree (snd (refined True))) (project_file (web_host True) ''web'') = Some (File (RawBad ''project: old'')) \<and>
   fst (refined False) = Saved ''web'' False [''ghost''] True"
proof -
  obtain r k where run: "run_state (handleRefineProject sample_yaml (Some web_request)) (web_host True) = (r, k)" by fastforce
  have "(case fst (refined True) of Rejected c _ \<Rightarrow> Some c | _ \<Rightarrow> None) = Some 500" by code_simp
  with run obtain e where e: "r = Rejected 500 e" by (auto simp: refined_def split: refine_reply.splits)
  have "rp_Name web_request = ''web''" by (simp add: web_request_def)
  with refine_all_or_nothing [OF run] e have
    "node_at (tree k) (project_file (web_host True) ''web'') = node_at (tree (web_host True)) (project_file (web_host True) ''web'')"
    by simp
  moreover have "node_at (tree (web_host True)) (project_file (web_host True) ''web'') = Some (File (RawBad ''project: old''))"
    by code_simp
  moreover have "fst (refined False) = Saved ''web'' False [''ghost''] True" by code_simp
  ultimately show ?thesis using run e by (simp add: refined_def)
qed

end
