(* ===== verification/Spec2Isabelle.thy ===== *)
theory Spec2Isabelle
  imports Retention Reconcile Export Stream Plans Completion Migration Mcp Refine
begin

text \<open>
  Verification library of \<open>sgt\<close>, a coordinator that turns a brief into runs of coding agents: a run goes
  through the stages of a project, each stage runs the phases of its repositories (agents and deterministic
  gates) in isolated git worktrees, every outcome is recorded in an SQLite store, and an HTTP server
  dispatches, cancels, resumes and corrects runs.

  \<^bold>\<open>How the theories correspond to the code.\<close>  A theory names in its first block the Go files it models;
  a definition has the name of the Go function or type it models, and record fields have the name of the Go
  field under a prefix (\<open>run_Status\<close> is \<open>RunRecord.Status\<close>).

    \<^item> \<open>Prelude\<close>, \<open>Text\<close>: errors and their wrapping (\<open>Errorf\<close>, \<open>errors_Is\<close>), the document type of
      \<open>encoding/json\<close>, and the functions of \<open>strings\<close>, \<open>strconv\<close> and \<open>fmt\<close> the program uses.
    \<^item> \<open>Records\<close>, \<open>Computation\<close>: the rows of the tables, and the computations on them (\<open>'a st\<close>): a world
      holds the tables, a clock and a schedule that lets any statement fail.  A method of several statements
      is not atomic, exactly as in the code.
    \<^item> \<open>Changes\<close>, \<open>Runs\<close>, \<open>Intents\<close>, \<open>Deliveries\<close>, \<open>Reconcile\<close>, \<open>Retention\<close>: \<open>internal/store\<close>.
    \<^item> \<open>Naming\<close>, \<open>Redact\<close>: \<open>internal/naming\<close> and \<open>internal/redact\<close>.
    \<^item> \<open>Export\<close>, \<open>Stream\<close>: \<open>internal/export\<close> and \<open>internal/ui/stream.go\<close>, as polls and as a state machine
      interleaved with other writers.
    \<^item> \<open>Files\<close>: the host: a world of the store, a file tree, and external commands.  The outcome of every
      command and the failure of every file operation is a schedule no operation rewrites, so a theorem
      holds whatever \<open>git\<close>, the agents and the gates do.
    \<^item> \<open>Documents\<close>, \<open>Handoff\<close>, \<open>Plans\<close>, \<open>Projects\<close>: \<open>internal/handoff\<close>, \<open>internal/plan\<close> and
      \<open>internal/config\<close>, with decoding as Go does it.
    \<^item> \<open>Runner\<close>, \<open>Engine\<close>: \<open>internal/runner\<close> and \<open>internal/dag/engine.go\<close>.
    \<^item> \<open>Fleet\<close>, \<open>OpenSpec\<close>, \<open>Wiki\<close>: what the server does with worktrees, \<open>openspec\<close> changes and the wiki.
    \<^item> \<open>Lifecycle\<close>: the handlers and jobs of \<open>internal/ui\<close>.  \<open>PullRequests\<close>: its handlers around change
      requests, with \<open>internal/changerequest\<close>.  \<open>Service\<close>, \<open>IntentStatus\<close>, \<open>Outcomes\<close>, \<open>Requests\<close>, \<open>Jobs\<close>
      and \<open>Completion\<close> hold what is proved of the server as a whole.
    \<^item> \<open>Trees\<close>, \<open>Upgrade\<close>, \<open>Migration\<close>: \<open>internal/upgrademigrate\<close>, the one-time copy of an installation from
      before the program was renamed; \<open>Trees\<close> has the file operations it needs and what makes a tree
      well-formed, \<open>Upgrade\<close> is the model and \<open>Migration\<close> what is proved of it.
    \<^item> \<open>Follow\<close>, \<open>Mcp\<close>: \<open>internal/mcp\<close> with \<open>internal/sgtclient\<close>, the tools an agent calls and its wait on a
      run, which shares the store with other writers.
    \<^item> \<open>Refine\<close>: \<open>internal/ui/refine.go\<close>, the patch of a project's YAML document and its replacement.

  \<^bold>\<open>How the components interact.\<close>  Every theory of the store is used through locales: a \<open>table_relation\<close>
  (in \<open>Computation\<close>) is a relation of tables all statements respect, a \<open>host_relation\<close> (in \<open>Files\<close>) its
  counterpart for hosts, and \<open>runner_relation\<close>, \<open>engine_relation\<close>, \<open>stage_relation\<close>, \<open>job_relation\<close>,
  \<open>service_relation\<close> and \<open>server_relation\<close> name what each layer requires of the operations below.  What a layer
  keeps is proved once inside the locale and instantiated: with the soundness of the tables
  (\<open>sound_step\<close>), with the untouched environment (\<open>same_env\<close>), with the statuses of runs (\<open>same_life\<close>,
  \<open>life_goes_on\<close>), with plans that are settled, and so on.

  \<^bold>\<open>What is proved.\<close>  The properties are numbered; each is stated in words before its theorem.  The first
  group is about the server: a run recorded as passed was earned by clean exits of its gates and agents, the
  statuses of runs refine an abstract machine, every job concludes its run, the tables stay sound, plans and
  dispatches start their work once, and a run has one job.  The second is about the engine and the runner:
  what a stage without error implies, where commands run, what green and red evidence means, bounded attempts.
  The third is about the store: exact histories of deliveries, exact replay decisions, rotation that leaves
  the analytics alone, recovery after a crash, derived statuses of intents.  The fourth is about the
  interfaces: the event stream loses nothing and drains, the export never skips and catches up, redaction,
  names, round trips of envelopes.  The fifth is about the programs beside the server: the
  migration never loses what was there, copies worktrees whole and is final once verified, though an attempt
  that ends with an error makes the next one leave a worktree incomplete; an agent's own tools leave runs,
  intents and bullets alone, and its wait on a run ends with what the store holds; a refinement of a project
  keeps what it does not name and replaces the file whole or not at all.

  \<^bold>\<open>Bounds and fuel.\<close>  Loops of the code that are bounded are recursion on that bound: \<open>retry_from\<close> on the
  attempts left (three), \<open>agent_loop\<close> on the retries left, \<open>fix_cycles\<close> on the cycles left, \<open>find_slug\<close> on
  the 64 labels it tries.  No result depends on running out of such a number, except where the code gives up.
  The event stream and the export are steps of a machine; that they finish is proved as such.  \<open>copyTree\<close>
  counts the levels a path may still have before the operating system refuses it (\<open>depth\<close>), and a tree
  within that bound is copied whole.  The wait on a run is a partial function, \<open>wait_loop\<close>; it ends because
  time passes.

  \<^bold>\<open>What is not modelled.\<close>  Routing and the encoding of answers, static assets, pseudo-terminals
  (\<open>terminal.go\<close>), the command line, the build of the
  code graph and the embedded manual: input and output around operations that are modelled.  Symbolic links
  and permission bits are not in the file tree.  The layout of YAML, SQLite's query planner,
  process groups and the file lock of the server are outside; what the code relies on there is a parameter or
  an assumption of a statement.  Handlers and jobs run one after the other, each to its end; true parallelism
  of two handlers is not modelled, and cancellation of a running job is part of the schedule of its host.
\<close>

end
